(* ===== verification/GoBase.thy ===== *)
theory GoBase
  imports Main "HOL-Library.Char_ord" "HOL-Library.List_Lexorder" "HOL-Library.AList"
begin

text \<open>
  The prelude: the parts of the Go language and its standard library that the program uses
  and that every component shares.  A Go string is a list of bytes (\<^typ>\<open>string\<close>,
  one \<^typ>\<open>char\<close> per byte).  \<open>segs\<close> is the decoding that a
  \<^verbatim>\<open>range\<close> loop or \<^verbatim>\<open>[]rune(s)\<close> performs, an invalid byte
  giving the replacement rune U+FFFD of width one; \<open>trim_space\<close>, \<open>to_lower\<close>,
  \<open>contains\<close> and the others follow the package \<^verbatim>\<open>strings\<close>.
  \<open>to_lower\<close> is exact for every rune whose lower case is ASCII (A to Z, U+0130,
  U+212A); a non-ASCII letter with a non-ASCII lower case is left as it is, which no
  comparison of the program with an ASCII literal can observe.
\<close>

named_theorems go_len \<open>lengths of the results of the string functions\<close>
named_theorems go_pure \<open>evaluation of the string functions on their easy arguments\<close>

lemma append_split_le: "xs @ ys = a @ b \<Longrightarrow> length a \<le> length xs \<Longrightarrow> \<exists>c. xs = a @ c \<and> b = c @ ys"
  by (auto simp: append_eq_append_conv2)

section \<open>UTF-8\<close>

definition rune_error :: nat where
  "rune_error = 65533"

definition is_cont :: "nat \<Rightarrow> bool" where
  "is_cont b \<longleftrightarrow> 128 \<le> b \<and> b < 192"

text \<open>
  One step of \<^verbatim>\<open>utf8.DecodeRune\<close>: the first byte and the bytes after it give
  the rune and the number of further bytes it takes.
\<close>

definition dec_more :: "nat \<Rightarrow> nat list \<Rightarrow> nat \<times> nat" where
  "dec_more b0 bs =
    (if b0 < 128 then (b0, 0)
     else if 194 \<le> b0 \<and> b0 < 224 then
       (case bs of
          b1 # _ \<Rightarrow> if is_cont b1 then ((b0 - 192) * 64 + (b1 - 128), 1) else (rune_error, 0)
        | [] \<Rightarrow> (rune_error, 0))
     else if 224 \<le> b0 \<and> b0 < 240 then
       (case bs of
          b1 # b2 # _ \<Rightarrow>
            if is_cont b1 \<and> is_cont b2 \<and> (b0 = 224 \<longrightarrow> 160 \<le> b1) \<and> (b0 = 237 \<longrightarrow> b1 < 160)
            then ((b0 - 224) * 4096 + (b1 - 128) * 64 + (b2 - 128), 2) else (rune_error, 0)
        | _ \<Rightarrow> (rune_error, 0))
     else if 240 \<le> b0 \<and> b0 < 245 then
       (case bs of
          b1 # b2 # b3 # _ \<Rightarrow>
            if is_cont b1 \<and> is_cont b2 \<and> is_cont b3 \<and> (b0 = 240 \<longrightarrow> 144 \<le> b1) \<and> (b0 = 244 \<longrightarrow> b1 < 144)
            then ((b0 - 240) * 262144 + (b1 - 128) * 4096 + (b2 - 128) * 64 + (b3 - 128), 3)
            else (rune_error, 0)
        | _ \<Rightarrow> (rune_error, 0))
     else (rune_error, 0))"

lemma dec_more_width: "snd (dec_more b0 bs) \<le> length bs"
  by (auto simp: dec_more_def split: list.splits)

fun segs :: "string \<Rightarrow> (nat \<times> string) list" where
  "segs [] = []"
| "segs (c # cs) =
    (let (r, w) = dec_more (of_char c) (map of_char cs)
     in (r, c # take w cs) # segs (drop w cs))"

definition runes :: "string \<Rightarrow> nat list" where
  "runes s = map fst (segs s)"

definition rune_count :: "string \<Rightarrow> nat" where
  "rune_count s = length (segs s)"

definition valid_rune :: "nat \<Rightarrow> bool" where
  "valid_rune r \<longleftrightarrow> r < 55296 \<or> (57344 \<le> r \<and> r < 1114112)"

text \<open>\<^verbatim>\<open>utf8.AppendRune\<close>: an invalid rune is written as U+FFFD.\<close>

definition enc_rune :: "nat \<Rightarrow> nat list" where
  "enc_rune r0 =
    (let r = (if valid_rune r0 then r0 else rune_error) in
     if r < 128 then [r]
     else if r < 2048 then [192 + r div 64, 128 + r mod 64]
     else if r < 65536 then [224 + r div 4096, 128 + r div 64 mod 64, 128 + r mod 64]
     else [240 + r div 262144, 128 + r div 4096 mod 64, 128 + r div 64 mod 64, 128 + r mod 64])"

definition str_of_runes :: "nat list \<Rightarrow> string" where
  "str_of_runes rs = map char_of (concat (map enc_rune rs))"

lemma segs_concat: "concat (map snd (segs s)) = s"
proof (induction s rule: segs.induct)
  case (2 c cs)
  obtain r w where d: "dec_more (of_char c) (map of_char cs) = (r, w)"
    by (cases "dec_more (of_char c) (map of_char cs)")
  show ?case using "2.IH"[OF d[symmetric] refl] by (simp add: d)
qed simp

lemma segs_eq_Nil [simp]: "segs s = [] \<longleftrightarrow> s = []"
  by (cases s) (auto simp: Let_def split: prod.splits)

lemma runes_eq_Nil [simp]: "runes s = [] \<longleftrightarrow> s = []"
  by (simp add: runes_def)

lemma rune_count_0 [simp]: "rune_count s = 0 \<longleftrightarrow> s = []"
  by (simp add: rune_count_def)

lemma length_runes [simp]: "length (runes s) = rune_count s"
  by (simp add: runes_def rune_count_def)

lemma rune_count_le_length: "rune_count s \<le> length s"
proof -
  have "length (segs s) \<le> length s"
  proof (induction s rule: segs.induct)
    case (2 c cs)
    obtain r w where d: "dec_more (of_char c) (map of_char cs) = (r, w)"
      by (cases "dec_more (of_char c) (map of_char cs)")
    show ?case using "2.IH"[OF d[symmetric] refl] by (simp add: d)
  qed simp
  then show ?thesis by (simp add: rune_count_def)
qed

lemma dec3_valid:
  assumes "224 \<le> a" "a < 240" "is_cont b" "is_cont c" "a = 237 \<longrightarrow> b < 160"
  shows "valid_rune ((a - 224) * 4096 + (b - 128) * 64 + (c - 128))"
proof -
  obtain x y z where x: "a = 224 + x" "b = 128 + y" "c = 128 + z"
    using assms by (metis is_cont_def le_Suc_ex)
  have b: "x < 16" "y < 64" "z < 64" "x = 13 \<longrightarrow> y < 32"
    using assms by (auto simp: x is_cont_def)
  consider "x < 13" | "x = 13" | "13 < x" by linarith
  then have "valid_rune (x * 4096 + y * 64 + z)"
    by cases (use b in \<open>simp_all add: valid_rune_def\<close>)
  then show ?thesis by (simp add: x)
qed

lemma dec4_valid:
  assumes "240 \<le> a" "a < 245" "is_cont b" "is_cont c" "is_cont d"
    "a = 240 \<longrightarrow> 144 \<le> b" "a = 244 \<longrightarrow> b < 144"
  shows "valid_rune ((a - 240) * 262144 + (b - 128) * 4096 + (c - 128) * 64 + (d - 128))"
proof -
  obtain x y z w where x: "a = 240 + x" "b = 128 + y" "c = 128 + z" "d = 128 + w"
    using assms by (metis is_cont_def le_Suc_ex)
  have b: "x < 5" "y < 64" "z < 64" "w < 64" "x = 0 \<longrightarrow> 16 \<le> y" "x = 4 \<longrightarrow> y < 16"
    using assms by (auto simp: x is_cont_def)
  consider "x = 0" | "x = 4" | "0 < x \<and> x < 4" using b by linarith
  then have "valid_rune (x * 262144 + y * 4096 + z * 64 + w)"
    by cases (use b in \<open>simp_all add: valid_rune_def\<close>)
  then show ?thesis by (simp add: x)
qed

lemma valid_rune_error [simp]: "valid_rune rune_error"
  by (simp add: valid_rune_def rune_error_def)

lemma dec_more_valid: "valid_rune (fst (dec_more b0 bs))"
proof -
  consider "b0 < 128" | "194 \<le> b0 \<and> b0 < 224" | "224 \<le> b0 \<and> b0 < 240" | "240 \<le> b0 \<and> b0 < 245"
    | "128 \<le> b0 \<and> b0 < 194 \<or> 245 \<le> b0" by linarith
  then show ?thesis
  proof cases
    case 1 then show ?thesis by (simp add: dec_more_def valid_rune_def)
  next
    case 2
    have "valid_rune ((b0 - 192) * 64 + (b1 - 128))" if "is_cont b1" for b1
      using 2 that unfolding valid_rune_def is_cont_def by linarith
    with 2 show ?thesis by (simp add: dec_more_def split: list.splits)
  next
    case 3 then show ?thesis by (simp add: dec_more_def dec3_valid split: list.splits)
  next
    case 4 then show ?thesis by (simp add: dec_more_def dec4_valid split: list.splits)
  next
    case 5 then show ?thesis by (auto simp add: dec_more_def)
  qed
qed

lemma valid_rune_segs: "(r, b) \<in> set (segs s) \<Longrightarrow> valid_rune r"
proof (induction s rule: segs.induct)
  case (2 c cs)
  obtain r' w where d: "dec_more (of_char c) (map of_char cs) = (r', w)"
    by (cases "dec_more (of_char c) (map of_char cs)")
  have "valid_rune r'" using dec_more_valid[of "of_char c" "map of_char cs"] d by simp
  then show ?case using "2.prems" "2.IH"[OF d[symmetric] refl] by (auto simp: d)
qed simp

lemma runes_valid: "list_all valid_rune (runes s)"
  using valid_rune_segs by (fastforce simp: runes_def list_all_iff)

lemma split64_2: "(n :: nat) = n div 4096 * 4096 + n div 64 mod 64 * 64 + n mod 64"
proof -
  have a: "n = n div 64 * 64 + n mod 64" by simp
  have b: "n div 64 = n div 4096 * 64 + n div 64 mod 64"
    using div_mult2_eq[of n 64 64] div_mult_mod_eq[of "n div 64" 64] by simp
  from a b show ?thesis by linarith
qed

lemma split64_3:
  "(n :: nat) = n div 262144 * 262144 + n div 4096 mod 64 * 4096 + n div 64 mod 64 * 64 + n mod 64"
proof -
  have "n div 4096 = n div 262144 * 64 + n div 4096 mod 64"
    using div_mult2_eq[of n 4096 64] div_mult_mod_eq[of "n div 4096" 64] by simp
  with split64_2[of n] show ?thesis by linarith
qed

lemma enc_rune_decodes:
  assumes "valid_rune r" "enc_rune r = b0 # bs"
  shows "dec_more b0 (bs @ rest) = (r, length bs)"
proof -
  consider "r < 128" | "128 \<le> r \<and> r < 2048" | "2048 \<le> r \<and> r < 65536" | "65536 \<le> r \<and> r < 1114112"
    using assms(1) unfolding valid_rune_def by linarith
  then show ?thesis
  proof cases
    case 1 with assms show ?thesis by (simp add: enc_rune_def dec_more_def)
  next
    case 2
    define q m where "q = r div 64" and "m = r mod 64"
    have r: "r = q * 64 + m" "m < 64" "2 \<le> q" "q < 32" using 2 by (auto simp: q_def m_def)
    from assms 2 have e: "b0 = 192 + q" "bs = [128 + m]" by (auto simp: enc_rune_def q_def m_def)
    show ?thesis using r by (simp add: e dec_more_def is_cont_def)
  next
    case 3
    define p q m where "p = r div 4096" and "q = r div 64 mod 64" and "m = r mod 64"
    have r: "r = p * 4096 + q * 64 + m" "m < 64" "q < 64" "p < 16"
      using split64_2[of r] 3 by (simp_all add: p_def q_def m_def less_mult_imp_div_less)
    have lo: "p = 0 \<longrightarrow> 32 \<le> q" using 3 r by auto
    have sur: "p = 13 \<longrightarrow> q < 32" using assms(1) r by (auto simp: valid_rune_def)
    from assms 3 have e: "b0 = 224 + p" "bs = [128 + q, 128 + m]"
      by (auto simp: enc_rune_def p_def q_def m_def)
    show ?thesis using r lo sur by (simp add: e dec_more_def is_cont_def)
  next
    case 4
    define k p q m where "k = r div 262144" and "p = r div 4096 mod 64" and "q = r div 64 mod 64"
      and "m = r mod 64"
    have r: "r = k * 262144 + p * 4096 + q * 64 + m" "m < 64" "q < 64" "p < 64"
      using split64_3[of r] by (simp_all add: k_def p_def q_def m_def)
    have hi: "k < 5" "k = 0 \<longrightarrow> 16 \<le> p" "k = 4 \<longrightarrow> p < 16" using 4 r by auto
    from assms 4 have e: "b0 = 240 + k" "bs = [128 + p, 128 + q, 128 + m]"
      by (auto simp: enc_rune_def k_def p_def q_def m_def)
    show ?thesis using r hi by (simp add: e dec_more_def is_cont_def)
  qed
qed

lemma enc_rune_bytes: "list_all (\<lambda>b. b < 256) (enc_rune r)"
proof -
  have v: "valid_rune (if valid_rune r then r else rune_error)" by simp
  define k where "k = (if valid_rune r then r else rune_error)"
  have "k < 1114112" using v unfolding k_def[symmetric] by (auto simp: valid_rune_def)
  then show ?thesis unfolding enc_rune_def k_def[symmetric] Let_def by auto
qed

lemma enc_rune_not_Nil [simp]: "enc_rune r \<noteq> []"
  by (simp add: enc_rune_def Let_def)

lemma of_char_char_of_bytes: "list_all (\<lambda>b. b < 256) bs \<Longrightarrow> map (of_char :: char \<Rightarrow> nat) (map char_of bs) = bs"
  by (induction bs) auto

lemma segs_enc_rune:
  assumes "valid_rune r"
  shows "segs (map char_of (enc_rune r) @ s) = (r, map char_of (enc_rune r)) # segs s"
proof -
  obtain b0 bs where e: "enc_rune r = b0 # bs" by (cases "enc_rune r") auto
  have b: "b0 < 256" "list_all (\<lambda>b. b < 256) bs" using enc_rune_bytes[of r] e by auto
  have "dec_more (of_char (char_of b0 :: char)) (map of_char (map char_of bs @ s)) = (r, length bs)"
    using enc_rune_decodes[OF assms e, of "map of_char s"] b of_char_char_of_bytes[OF b(2)]
    by simp
  then show ?thesis by (simp add: e)
qed

lemma segs_str_of_runes:
  "list_all valid_rune rs \<Longrightarrow> segs (str_of_runes rs @ s) = map (\<lambda>r. (r, map char_of (enc_rune r))) rs @ segs s"
  by (induction rs) (auto simp: str_of_runes_def segs_enc_rune)

lemma runes_str_of_runes: "list_all valid_rune rs \<Longrightarrow> runes (str_of_runes rs) = rs"
  using segs_str_of_runes[of rs "[]"] by (simp add: runes_def comp_def)

lemma str_of_runes_append: "str_of_runes (xs @ ys) = str_of_runes xs @ str_of_runes ys"
  by (simp add: str_of_runes_def)

lemma str_of_runes_Nil [simp]: "str_of_runes [] = []"
  by (simp add: str_of_runes_def)

text \<open>\<^verbatim>\<open>utf8.ValidString\<close>: re-encoding the decoded runes gives the string back.\<close>

definition valid_utf8 :: "string \<Rightarrow> bool" where
  "valid_utf8 s \<longleftrightarrow> str_of_runes (runes s) = s"

lemma valid_utf8_str_of_runes: "list_all valid_rune rs \<Longrightarrow> valid_utf8 (str_of_runes rs)"
  by (simp add: valid_utf8_def runes_str_of_runes)

lemma segs_append_valid: "valid_utf8 s \<Longrightarrow> segs (s @ t) = segs s @ segs t"
  using segs_str_of_runes[OF runes_valid, of s t] segs_str_of_runes[OF runes_valid, of s "[]"]
  by (simp add: valid_utf8_def)

lemma runes_append_valid: "valid_utf8 s \<Longrightarrow> runes (s @ t) = runes s @ runes t"
  by (simp add: runes_def segs_append_valid)

lemma rune_count_append_valid: "valid_utf8 s \<Longrightarrow> rune_count (s @ t) = rune_count s + rune_count t"
  by (simp add: rune_count_def segs_append_valid)

lemma rune_count_str_of_runes: "list_all valid_rune rs \<Longrightarrow> rune_count (str_of_runes rs) = length rs"
  using length_runes[of "str_of_runes rs"] by (simp add: runes_str_of_runes)

definition is_ascii :: "string \<Rightarrow> bool" where
  "is_ascii s \<longleftrightarrow> list_all (\<lambda>c. (of_char c :: nat) < 128) s"

lemma segs_ascii: "is_ascii s \<Longrightarrow> segs s = map (\<lambda>c. (of_char c, [c])) s"
  by (induction s) (auto simp: is_ascii_def dec_more_def)

lemma valid_utf8_ascii: "is_ascii s \<Longrightarrow> valid_utf8 s"
  unfolding valid_utf8_def runes_def
  by (simp only: segs_ascii) (induction s; auto simp: is_ascii_def str_of_runes_def enc_rune_def valid_rune_def Let_def)

section \<open>Package strings\<close>

text \<open>\<^verbatim>\<open>unicode.IsSpace\<close>.\<close>

definition is_space :: "nat \<Rightarrow> bool" where
  "is_space r \<longleftrightarrow> (9 \<le> r \<and> r \<le> 13) \<or> r = 32 \<or> r = 133 \<or> r = 160 \<or> r = 5760 \<or> (8192 \<le> r \<and> r \<le> 8202)
     \<or> r = 8232 \<or> r = 8233 \<or> r = 8239 \<or> r = 8287 \<or> r = 12288"

definition trim_ends :: "('a \<Rightarrow> bool) \<Rightarrow> 'a list \<Rightarrow> 'a list" where
  "trim_ends P xs = rev (dropWhile P (rev (dropWhile P xs)))"

definition trim_space :: "string \<Rightarrow> string" where
  "trim_space s = concat (map snd (trim_ends (\<lambda>p. is_space (fst p)) (segs s)))"

definition blank :: "string \<Rightarrow> bool" where
  "blank s \<longleftrightarrow> trim_space s = []"

text \<open>
  \<^verbatim>\<open>unicode.ToLower\<close> for ASCII, Latin-1, Latin Extended-A, Greek, Cyrillic and
  fullwidth letters, with the two runes outside ASCII whose lower case is an ASCII letter (dotted I,
  Kelvin sign).  Cased letters of the remaining blocks keep their value here.
\<close>

definition lower_rune :: "nat \<Rightarrow> nat" where
  "lower_rune r =
    (if 65 \<le> r \<and> r \<le> 90 then r + 32
     else if r < 192 then r
     else if r \<le> 222 \<and> r \<noteq> 215 then r + 32
     else if r < 256 then r
     else if r = 304 then 105
     else if r = 376 then 255
     else if 256 \<le> r \<and> r \<le> 311 \<or> 330 \<le> r \<and> r \<le> 375 then (if even r then r + 1 else r)
     else if 313 \<le> r \<and> r \<le> 328 \<or> 377 \<le> r \<and> r \<le> 382 then (if odd r then r + 1 else r)
     else if 913 \<le> r \<and> r \<le> 939 \<and> r \<noteq> 930 then r + 32
     else if 1024 \<le> r \<and> r \<le> 1039 then r + 80
     else if 1040 \<le> r \<and> r \<le> 1071 then r + 32
     else if r = 8490 then 107
     else if 65313 \<le> r \<and> r \<le> 65338 then r + 32
     else r)"

definition to_lower :: "string \<Rightarrow> string" where
  "to_lower s = str_of_runes (map lower_rune (runes s))"

fun has_prefix :: "string \<Rightarrow> string \<Rightarrow> bool" where
  "has_prefix s [] = True"
| "has_prefix [] (p # ps) = False"
| "has_prefix (c # cs) (p # ps) = (c = p \<and> has_prefix cs ps)"

text \<open>\<^verbatim>\<open>strings.Index\<close>: \<open>None\<close> is the -1 of a missing substring.\<close>

fun index_of :: "string \<Rightarrow> string \<Rightarrow> nat option" where
  "index_of [] p = (if p = [] then Some 0 else None)"
| "index_of (c # cs) p = (if has_prefix (c # cs) p then Some 0 else map_option Suc (index_of cs p))"

definition contains :: "string \<Rightarrow> string \<Rightarrow> bool" where
  "contains s p \<longleftrightarrow> index_of s p \<noteq> None"

lemma trim_ends_sublist: "\<exists>a b. xs = a @ trim_ends P xs @ b"
proof -
  define ys where "ys = dropWhile P xs"
  have a: "xs = takeWhile P xs @ ys" by (simp add: ys_def)
  have "rev ys = takeWhile P (rev ys) @ dropWhile P (rev ys)" by simp
  then have "ys = rev (dropWhile P (rev ys)) @ rev (takeWhile P (rev ys))"
    by (metis rev_append rev_rev_ident)
  with a show ?thesis unfolding trim_ends_def ys_def[symmetric] by metis
qed

lemma trim_ends_Nil [simp]: "trim_ends P [] = []"
  by (simp add: trim_ends_def)

lemma trim_ends_eq_Nil: "trim_ends P xs = [] \<longleftrightarrow> list_all P xs"
proof -
  have "list_all P (dropWhile P xs) \<longleftrightarrow> dropWhile P xs = []"
    by (induction xs) auto
  moreover have "dropWhile P xs = [] \<longleftrightarrow> list_all P xs" by (simp add: list_all_iff)
  ultimately show ?thesis by (simp add: trim_ends_def list_all_iff)
qed

lemma trim_space_Nil [simp]: "trim_space [] = []"
  by (simp add: trim_space_def)

lemma blank_Nil [simp]: "blank []"
  by (simp add: blank_def)

lemma trim_space_sub: "\<exists>a b. s = a @ trim_space s @ b"
proof -
  obtain a b where "segs s = a @ trim_ends (\<lambda>p. is_space (fst p)) (segs s) @ b"
    using trim_ends_sublist by blast
  then have "concat (map snd (segs s)) = concat (map snd a) @ trim_space s @ concat (map snd b)"
    unfolding trim_space_def by (metis concat_append map_append)
  then show ?thesis by (metis segs_concat)
qed

text \<open>Segments of a part between segment boundaries are the segments of the whole there.\<close>

lemma dec_more_take: "dec_more b0 bs = (r, w) \<Longrightarrow> w \<le> n \<Longrightarrow> dec_more b0 (take n bs) = (r, w)"
  by (cases n; cases "n - 1"; cases "n - 2") (auto simp: dec_more_def take_Cons split: list.splits if_splits nat.splits)

lemma segs_prefix: "segs s = xs @ ys \<Longrightarrow> segs (concat (map snd xs)) = xs"
proof (induction xs arbitrary: s)
  case (Cons x xs)
  then obtain c cs where s: "s = c # cs" by (cases s) auto
  obtain r w where d: "dec_more (of_char c) (map of_char cs) = (r, w)"
    by (cases "dec_more (of_char c) (map of_char cs)")
  have x: "x = (r, c # take w cs)" and rest: "segs (drop w cs) = xs @ ys" using Cons.prems by (simp_all add: s d)
  have cs: "take w cs @ concat (map snd xs) @ concat (map snd ys) = cs"
    using segs_concat[of "drop w cs"] rest by simp
  let ?t = "take w cs @ concat (map snd xs)"
  have w: "length (take w cs) = w" using dec_more_width[of "of_char c" "map of_char cs"] d by simp
  have "?t = take (length ?t) cs" using cs by (metis append_assoc append_eq_conv_conj)
  then have "dec_more (of_char c) (map of_char ?t) = (r, w)"
    using dec_more_take[OF d, of "length ?t"] w by (metis le_add1 length_append take_map)
  then show ?case using Cons.IH[OF rest] w by (simp add: x)
qed simp

lemma segs_suffix: "segs s = xs @ ys \<Longrightarrow> segs (concat (map snd ys)) = ys"
proof (induction xs arbitrary: s)
  case Nil then show ?case using segs_concat[of s] by simp
next
  case (Cons x xs)
  then obtain c cs where s: "s = c # cs" by (cases s) auto
  then show ?case using Cons.IH[of "drop (snd (dec_more (of_char c) (map of_char cs))) cs"] Cons.prems
    by (simp add: case_prod_beta Let_def)
qed

lemma trim_ends_idem: "trim_ends P (trim_ends P xs) = trim_ends P xs"
proof -
  let ?a = "dropWhile P xs"
  let ?b = "rev (dropWhile P (rev ?a))"
  have "dropWhile P ?b = ?b"
  proof (cases ?b)
    case Nil
    then show ?thesis by (simp only: dropWhile.simps)
  next
    case (Cons y ys)
    obtain zs where "?a = ?b @ zs" by (metis rev_append rev_rev_ident takeWhile_dropWhile_id)
    then have "hd ?a = y" "?a \<noteq> []" using Cons by auto
    then have "\<not> P y" by (metis hd_dropWhile)
    then show ?thesis by (simp add: Cons)
  qed
  then show ?thesis by (simp add: trim_ends_def)
qed

lemma trim_space_idem [simp]: "trim_space (trim_space s) = trim_space s"
proof -
  let ?P = "\<lambda>p :: nat \<times> string. is_space (fst p)"
  obtain a b where ab: "segs s = a @ trim_ends ?P (segs s) @ b" using trim_ends_sublist by blast
  then have "segs (concat (map snd (trim_ends ?P (segs s)))) = trim_ends ?P (segs s)"
    using segs_prefix[OF trans[OF segs_suffix[OF ab]], OF refl] by blast
  then show ?thesis by (simp add: trim_space_def trim_ends_idem)
qed

text \<open>Text before an ASCII character is decoded as it is alone.\<close>

lemma dec_more_append:
  assumes "dec_more b0 xs = (r, w)" "ys = [] \<or> hd ys < 128"
  shows "dec_more b0 (xs @ ys) = (r, w)"
proof -
  have "\<not> is_cont y" if "ys = y # zs" for y zs using assms(2) that by (auto simp: is_cont_def)
  then show ?thesis using assms(1)
    by (cases xs; cases "tl xs"; cases "tl (tl xs)"; cases ys)
      (auto simp: dec_more_def split: list.splits if_splits)
qed

lemma segs_append_ascii: "t = [] \<or> of_char (hd t) < (128 :: nat) \<Longrightarrow> segs (s @ t) = segs s @ segs t"
proof (induction s rule: segs.induct)
  case (2 c cs)
  obtain r w where d: "dec_more (of_char c) (map of_char cs) = (r, w)"
    by (cases "dec_more (of_char c) (map of_char cs)")
  have "map of_char t = [] \<or> hd (map of_char t) < (128 :: nat)" using "2.prems" by (cases t) auto
  then have "dec_more (of_char c) (map of_char (cs @ t)) = (r, w)" using dec_more_append[OF d] by simp
  moreover have "w \<le> length cs" using dec_more_width[of "of_char c" "map of_char cs"] d by simp
  ultimately show ?case using "2.IH"[OF d[symmetric] refl] "2.prems" by (simp add: d)
qed simp

lemma segs_nonempty: "p \<in> set (segs s) \<Longrightarrow> snd p \<noteq> []"
proof (induction s rule: segs.induct)
  case (2 c cs)
  obtain r w where d: "dec_more (of_char c) (map of_char cs) = (r, w)"
    by (cases "dec_more (of_char c) (map of_char cs)")
  show ?case using "2.IH"[OF d[symmetric] refl] "2.prems" by (auto simp: d)
qed simp

lemma concat_longer: "list_all (\<lambda>p. snd p \<noteq> []) xs \<Longrightarrow> concat (map snd xs) = [] \<Longrightarrow> xs = []"
  by (cases xs) auto

lemma trim_ends_fixed: "xs \<noteq> [] \<Longrightarrow> \<not> P (hd xs) \<Longrightarrow> \<not> P (last xs) \<Longrightarrow> trim_ends P xs = xs"
proof -
  assume xs: "xs \<noteq> []" "\<not> P (hd xs)" "\<not> P (last xs)"
  then have "dropWhile P xs = xs" by (cases xs) auto
  moreover have "dropWhile P (rev xs) = rev xs" using xs by (cases xs rule: rev_cases) auto
  ultimately show ?thesis by (simp add: trim_ends_def)
qed

text \<open>A text without white space at its ends is its own trimmed text, and only such a one.\<close>

lemma trim_space_fixed: "s \<noteq> [] \<Longrightarrow> \<not> is_space (fst (hd (segs s))) \<Longrightarrow> \<not> is_space (fst (last (segs s))) \<Longrightarrow> trim_space s = s"
  unfolding trim_space_def by (subst trim_ends_fixed) (simp_all add: segs_concat)

lemma trim_space_ends:
  assumes "trim_space s = s" "s \<noteq> []"
  shows "\<not> is_space (fst (hd (segs s)))" "\<not> is_space (fst (last (segs s)))"
proof -
  let ?P = "\<lambda>p :: nat \<times> string. is_space (fst p)"
  let ?t = "trim_ends ?P (segs s)"
  obtain a b where ab: "segs s = a @ ?t @ b" using trim_ends_sublist by blast
  have "concat (map snd a) @ concat (map snd ?t) @ concat (map snd b) = concat (map snd ?t)"
    using segs_concat[of s] assms(1) by (subst (asm) ab) (simp add: trim_space_def)
  then have "length (concat (map snd a)) + length (concat (map snd ?t)) + length (concat (map snd b)) = length (concat (map snd ?t))"
    by (metis add.assoc length_append)
  then have e: "concat (map snd a) = []" "concat (map snd b) = []" by simp_all
  have n: "list_all (\<lambda>p. snd p \<noteq> []) (segs s)" by (simp add: list_all_iff segs_nonempty)
  then have "list_all (\<lambda>p. snd p \<noteq> []) a" "list_all (\<lambda>p. snd p \<noteq> []) b" by (subst (asm) ab, simp)+
  then have t: "?t = segs s" using e concat_longer ab by (metis append_Nil append_Nil2)
  have ne: "segs s \<noteq> []" using assms(2) by simp
  have "\<not> ?P (last ?t)" using ne t
    by (metis (no_types, lifting) hd_dropWhile last_rev rev_is_Nil_conv trim_ends_def rev_rev_ident)
  then show "\<not> is_space (fst (last (segs s)))" by (simp add: t)
  have "dropWhile ?P (segs s) = segs s"
  proof -
    have "length ?t \<le> length (dropWhile ?P (segs s))"
      unfolding trim_ends_def by (metis length_dropWhile_le length_rev)
    moreover have "length (takeWhile ?P (segs s)) + length (dropWhile ?P (segs s)) = length (segs s)"
      by (metis length_append takeWhile_dropWhile_id)
    ultimately have "length (takeWhile ?P (segs s)) = 0" unfolding t by linarith
    then have "takeWhile ?P (segs s) = []" by simp
    then show ?thesis by (metis append_Nil takeWhile_dropWhile_id)
  qed
  then show "\<not> is_space (fst (hd (segs s)))" using ne by (metis hd_dropWhile)
qed

lemma trim_space_length [go_len]: "length (trim_space s) \<le> length s"
  using trim_space_sub[of s] by (metis length_append le_add1 le_add2 le_trans)

lemma has_prefix_iff: "has_prefix s p \<longleftrightarrow> (\<exists>t. s = p @ t)"
  by (induction s p rule: has_prefix.induct) auto

lemma has_prefix_append [simp]: "has_prefix (p @ t) p"
  by (auto simp: has_prefix_iff)

lemma index_of_Some: "index_of s p = Some i \<Longrightarrow> i + length p \<le> length s \<and> s = take i s @ p @ drop (i + length p) s"
proof (induction s arbitrary: i)
  case (Cons c cs)
  show ?case
  proof (cases "has_prefix (c # cs) p")
    case True
    then obtain t where "c # cs = p @ t" by (auto simp: has_prefix_iff)
    moreover from this have "Suc (length cs) = length p + length t" by (metis length_append length_Cons)
    moreover have "i = 0" using True Cons.prems by simp
    ultimately show ?thesis by simp
  next
    case False then show ?thesis using Cons by auto
  qed
qed (simp split: if_splits)

lemma index_of_None: "index_of s p = None \<Longrightarrow> \<not> has_prefix (drop i s) p \<or> (i > length s)"
proof (induction s arbitrary: i)
  case (Cons c cs)
  then show ?case by (cases i) (auto split: if_splits)
qed (simp split: if_splits, cases p, auto)

lemma contains_iff: "contains s p \<longleftrightarrow> (\<exists>a b. s = a @ p @ b)"
proof
  assume "contains s p"
  then obtain i where "index_of s p = Some i" by (auto simp: contains_def)
  then show "\<exists>a b. s = a @ p @ b" using index_of_Some by metis
next
  assume "\<exists>a b. s = a @ p @ b"
  then obtain a b where s: "s = a @ p @ b" by blast
  then have "has_prefix (drop (length a) s) p" by simp
  then show "contains s p" using index_of_None[of s p "length a"] s by (auto simp: contains_def)
qed

lemma segs_bytes_not_Nil: "(r, b) \<in> set (segs s) \<Longrightarrow> b \<noteq> []"
proof (induction s rule: segs.induct)
  case (2 c cs)
  obtain r' w where d: "dec_more (of_char c) (map of_char cs) = (r', w)"
    by (cases "dec_more (of_char c) (map of_char cs)")
  show ?case using "2.prems" "2.IH"[OF d[symmetric] refl] by (auto simp: d)
qed simp

lemma set_trim_ends: "set (trim_ends P xs) \<subseteq> set xs"
  unfolding trim_ends_def set_rev by (metis set_dropWhileD set_rev subsetI)

lemma blank_iff: "blank s \<longleftrightarrow> list_all (\<lambda>p. is_space (fst p)) (segs s)"
proof -
  have "blank s \<longleftrightarrow> trim_ends (\<lambda>p. is_space (fst p)) (segs s) = []"
    using segs_bytes_not_Nil[of _ _ s] set_trim_ends[of "\<lambda>p. is_space (fst p)" "segs s"]
    by (cases "trim_ends (\<lambda>p. is_space (fst p)) (segs s)") (force simp: blank_def trim_space_def)+
  then show ?thesis by (simp add: trim_ends_eq_Nil)
qed

lemma blank_Cons_ascii [simp, go_pure]:
  "(of_char c :: nat) < 128 \<Longrightarrow> blank (c # cs) \<longleftrightarrow> is_space (of_char c) \<and> blank cs"
  by (simp add: blank_iff dec_more_def)

lemma is_space_ascii [simp, go_pure]: "r < 128 \<Longrightarrow> is_space r \<longleftrightarrow> (9 \<le> r \<and> r \<le> 13) \<or> r = 32"
  by (auto simp: is_space_def)

lemma lower_rune_valid: "valid_rune r \<Longrightarrow> valid_rune (lower_rune r)"
proof (cases "r \<le> 9000")
  case True
  then have "lower_rune r < 20000" by (simp add: lower_rune_def)
  then show ?thesis by (simp add: valid_rune_def)
next
  case False
  moreover assume "valid_rune r"
  ultimately show ?thesis by (simp add: lower_rune_def valid_rune_def)
qed

lemma runes_to_lower: "runes (to_lower s) = map lower_rune (runes s)"
proof -
  have "list_all valid_rune (map lower_rune (runes s))"
    using runes_valid[of s] lower_rune_valid by (auto simp: list_all_iff)
  then show ?thesis unfolding to_lower_def by (rule runes_str_of_runes)
qed

text \<open>\<^verbatim>\<open>strconv.Itoa\<close>.\<close>

fun nat_digits :: "nat \<Rightarrow> string" where
  "nat_digits n = (if n < 10 then [char_of (48 + n)] else nat_digits (n div 10) @ [char_of (48 + n mod 10)])"

declare nat_digits.simps [simp del]

definition itoa :: "int \<Rightarrow> string" where
  "itoa i = (if i < 0 then CHR ''-'' # nat_digits (nat (- i)) else nat_digits (nat i))"

lemma nat_digits_not_Nil [simp]: "nat_digits n \<noteq> []"
  by (subst nat_digits.simps) simp

section \<open>Go maps\<close>

text \<open>
  A Go map whose size, keys or iteration the program uses is an association list with
  distinct keys: \<open>map_of\<close> reads it, \<open>AList.update\<close> stores, \<open>AList.delete\<close> removes.
\<close>

definition wf_map :: "('k \<times> 'v) list \<Rightarrow> bool" where
  "wf_map m \<longleftrightarrow> distinct (map fst m)"

lemma wf_map_Nil [simp]: "wf_map []"
  by (simp add: wf_map_def)

lemma wf_map_update [simp]: "wf_map m \<Longrightarrow> wf_map (AList.update k v m)"
  by (simp add: wf_map_def distinct_update)

lemma wf_map_delete [simp]: "wf_map m \<Longrightarrow> wf_map (AList.delete k m)"
  by (simp add: wf_map_def distinct_delete)

lemma wf_map_filter [simp]: "wf_map m \<Longrightarrow> wf_map (filter P m)"
  by (simp add: wf_map_def distinct_map_filter)

lemma map_of_update [simp]: "map_of (AList.update k v m) k' = (if k' = k then Some v else map_of m k')"
  by (simp add: update_conv)

lemma map_of_delete [simp]: "map_of (AList.delete k m) k' = (if k' = k then None else map_of m k')"
  by (simp add: delete_conv)

lemma wf_map_of_iff: "wf_map m \<Longrightarrow> map_of m k = Some v \<longleftrightarrow> (k, v) \<in> set m"
  by (auto simp: wf_map_def)

lemma map_of_filter: "wf_map m \<Longrightarrow>
  map_of (filter P m) k = (case map_of m k of None \<Rightarrow> None | Some v \<Rightarrow> if P (k, v) then Some v else None)"
proof (induction m)
  case (Cons p m)
  obtain a b where p: "p = (a, b)" by (cases p)
  have "wf_map m" "a \<notin> fst ` set m" using Cons.prems by (auto simp: wf_map_def p)
  moreover from this have "map_of m a = None" by (simp add: map_of_eq_None_iff)
  ultimately show ?case using Cons.IH by (auto simp: p split: option.splits)
qed simp

lemma map_of_map_values: "map_of (map (\<lambda>(k, v). (k, f k v)) m) k = map_option (f k) (map_of m k)"
  by (induction m) auto

lemma wf_map_map_values: "wf_map (map (\<lambda>(k, v). (k, f k v)) m) \<longleftrightarrow> wf_map m"
  by (simp add: wf_map_def comp_def case_prod_unfold)

lemma length_update: "length (AList.update k v m) = (if k \<in> fst ` set m then length m else Suc (length m))"
  by (induction m) auto

lemma update_absent: "k \<notin> fst ` set m \<Longrightarrow> AList.update k v m = m @ [(k, v)]"
  by (induction m) auto

lemma update_keys: "map fst (AList.update k v m) = (if k \<in> fst ` set m then map fst m else map fst m @ [k])"
  by (induction m) auto

text \<open>The pieces between the occurrences of a character (\<^verbatim>\<open>strings.Split\<close>).\<close>

fun split_char :: "char \<Rightarrow> string \<Rightarrow> string list" where
  "split_char d [] = [[]]"
| "split_char d (c # cs) = (if c = d then [] # split_char d cs else (case split_char d cs of l # ls \<Rightarrow> (c # l) # ls | [] \<Rightarrow> [[c]]))"

end
