(* ===== verification/ThinkSplit.thy ===== *)
theory ThinkSplit
  imports GoBase
begin

text \<open>
  \<^verbatim>\<open>internal/agent/think_split.go\<close>: the splitter that routes an inline
  \<^verbatim>\<open><think>...</think>\<close> block at the head of a model stream to the thinking
  channel.  The stream arrives in chunks and a tag may be cut by a chunk boundary, so the
  splitter keeps the undecided bytes.  The main result is that the chunking cannot be
  observed: any way of cutting a text gives the split of the whole text, which
  \<open>think_spec\<close> states without any state.
\<close>

definition think_open :: string where "think_open = ''<think>''"
definition think_close :: string where "think_close = ''</think>''"

datatype think_mode = ThinkModeUnknown | ThinkModeThinking | ThinkModePassthrough

record think_splitter =
  ts_mode :: think_mode
  ts_pending :: string

definition new_splitter :: think_splitter where
  "new_splitter = \<lparr>ts_mode = ThinkModeUnknown, ts_pending = []\<rparr>"

definition is_blank_char :: "char \<Rightarrow> bool" where
  "is_blank_char c \<longleftrightarrow> c = CHR '' '' \<or> c = CHR 0x09 \<or> c = CHR 0x0D \<or> c = CHR 0x0A"

definition isProperPrefix :: "string \<Rightarrow> string \<Rightarrow> bool" where
  "isProperPrefix s full \<longleftrightarrow> length s < length full \<and> take (length s) full = s"

text \<open>The downward loop of \<^verbatim>\<open>partialTagSuffix\<close>, from \<open>k\<close>.\<close>

fun partial_tag_from :: "nat \<Rightarrow> string \<Rightarrow> string \<Rightarrow> nat" where
  "partial_tag_from 0 text tag = 0"
| "partial_tag_from (Suc k) text tag =
     (if drop (length text - Suc k) text = take (Suc k) tag then Suc k else partial_tag_from k text tag)"

definition partialTagSuffix :: "string \<Rightarrow> string \<Rightarrow> nat" where
  "partialTagSuffix text tag = partial_tag_from (min (length tag - 1) (length text)) text tag"

fun mode_rank :: "think_mode \<Rightarrow> nat" where
  "mode_rank ThinkModeUnknown = 2"
| "mode_rank ThinkModeThinking = 1"
| "mode_rank ThinkModePassthrough = 0"

text \<open>
  The loop of \<^verbatim>\<open>feed\<close>: the mode, the bytes still to handle, the content and the
  thinking written so far; it returns the mode, the bytes kept for the next chunk and both
  outputs.
\<close>

function feed_loop :: "think_mode \<Rightarrow> string \<Rightarrow> string \<Rightarrow> string \<Rightarrow> think_mode \<times> string \<times> string \<times> string" where
  "feed_loop mode work cb tb =
    (if work = [] then (mode, [], cb, tb)
     else case mode of
       ThinkModeUnknown \<Rightarrow>
         (let trimmed = dropWhile is_blank_char work in
          if trimmed = [] then (mode, work, cb, tb)
          else if has_prefix trimmed think_open
          then feed_loop ThinkModeThinking (drop (length think_open) trimmed) cb tb
          else if isProperPrefix trimmed think_open then (mode, work, cb, tb)
          else feed_loop ThinkModePassthrough work cb tb)
     | ThinkModeThinking \<Rightarrow>
         (case index_of work think_close of
            Some idx \<Rightarrow>
              feed_loop ThinkModePassthrough (drop (idx + length think_close) work) cb (tb @ take idx work)
          | None \<Rightarrow>
              (let keep = partialTagSuffix work think_close in
               (mode, drop (length work - keep) work, cb, tb @ take (length work - keep) work)))
     | ThinkModePassthrough \<Rightarrow> (mode, [], cb @ work, tb))"
  by pat_completeness auto
termination
  by (relation "measure (\<lambda>(mode, work, cb, tb). mode_rank mode)") auto

declare feed_loop.simps [simp del]
declare dropWhile_eq_Nil_conv [simp del]

definition feed :: "think_splitter \<Rightarrow> string \<Rightarrow> think_splitter \<times> string \<times> string" where
  "feed s delta =
    (let (mode, pending, cb, tb) = feed_loop (ts_mode s) (ts_pending s @ delta) [] []
     in (\<lparr>ts_mode = mode, ts_pending = pending\<rparr>, cb, tb))"

definition flush :: "think_splitter \<Rightarrow> think_splitter \<times> string \<times> string" where
  "flush s =
    (if ts_pending s = [] then (s, [], [])
     else if ts_mode s = ThinkModeThinking then (s\<lparr>ts_pending := []\<rparr>, [], ts_pending s)
     else (s\<lparr>ts_pending := []\<rparr>, ts_pending s, []))"

definition splitThinkContent :: "string \<Rightarrow> string \<times> string" where
  "splitThinkContent full =
    (let (s, c, t) = feed new_splitter full; (s', cf, tf) = flush s in (c @ cf, t @ tf))"

text \<open>A whole stream: one \<^verbatim>\<open>feed\<close> per chunk, then \<^verbatim>\<open>flush\<close>.\<close>

fun feed_chunks :: "think_splitter \<Rightarrow> string list \<Rightarrow> string \<Rightarrow> string \<Rightarrow> string \<times> string" where
  "feed_chunks s [] cb tb = (let (s', c, t) = flush s in (cb @ c, tb @ t))"
| "feed_chunks s (d # ds) cb tb = (let (s', c, t) = feed s d in feed_chunks s' ds (cb @ c) (tb @ t))"

section \<open>The stateless specification\<close>

definition think_spec :: "string \<Rightarrow> string \<times> string" where
  "think_spec s =
    (let trimmed = dropWhile is_blank_char s in
     if has_prefix trimmed think_open
     then let body = drop (length think_open) trimmed in
       (case index_of body think_close of
          None \<Rightarrow> ([], body)
        | Some i \<Rightarrow> (drop (i + length think_close) body, take i body))
     else (s, []))"

lemma think_tags_not_Nil [simp]: "think_open \<noteq> []" "think_close \<noteq> []"
  by (simp_all add: think_open_def think_close_def)

lemma think_open_hd: "\<not> is_blank_char (hd think_open)"
  by (simp add: think_open_def is_blank_char_def)

lemma isProperPrefix_iff: "isProperPrefix s full \<longleftrightarrow> (\<exists>t. t \<noteq> [] \<and> full = s @ t)"
  by (auto simp: isProperPrefix_def) (metis append_take_drop_id drop_eq_Nil linorder_not_le)

lemma partial_tag_from_le: "partial_tag_from k text tag \<le> k"
  by (induction k) auto

lemma partial_tag_from_suffix:
  "k \<le> length text \<Longrightarrow>
   drop (length text - partial_tag_from k text tag) text = take (partial_tag_from k text tag) tag"
  by (induction k) auto

lemma partial_tag_from_max:
  "j \<le> k \<Longrightarrow> drop (length text - j) text = take j tag \<Longrightarrow> j \<le> partial_tag_from k text tag"
proof (induction k)
  case (Suc k)
  then show ?case by (cases "j = Suc k") auto
qed simp

lemma partialTagSuffix_le: "partialTagSuffix text tag \<le> length text"
  unfolding partialTagSuffix_def using partial_tag_from_le by (meson min.boundedE)

lemma partialTagSuffix_prefix:
  "tag \<noteq> [] \<Longrightarrow> partialTagSuffix text tag < length tag"
  unfolding partialTagSuffix_def using partial_tag_from_le[of "min (length tag - 1) (length text)" "text" tag]
  by (cases tag) auto

lemma partialTagSuffix_max:
  assumes "text = a @ b" "tag = b @ c" "c \<noteq> []"
  shows "length b \<le> partialTagSuffix text tag"
  unfolding partialTagSuffix_def
  by (rule partial_tag_from_max) (use assms in \<open>auto simp: neq_Nil_conv\<close>)

text \<open>
  No occurrence of the tag starts in \<open>done\<close>: none lies inside the text so far, and no
  suffix of the text longer than \<open>keep\<close> is the beginning of a tag.
\<close>

definition settled :: "string \<Rightarrow> string \<Rightarrow> string \<Rightarrow> bool" where
  "settled tag dne keep \<longleftrightarrow>
    (\<forall>a b c. dne @ keep = a @ b \<longrightarrow> tag = b @ c \<longrightarrow> c \<noteq> [] \<longrightarrow> length b \<le> length keep) \<and>
    \<not> contains (dne @ keep) tag"

lemma settled_no_match:
  assumes "settled tag dne keep" "dne @ keep @ d = x @ tag @ y"
  shows "length dne \<le> length x"
proof (rule ccontr)
  assume "\<not> length dne \<le> length x"
  then have lt: "length x < length dne" by simp
  have "x = take (length x) (dne @ keep)" using assms(2) lt
    by (metis append_assoc append_eq_conv_conj less_or_eq_imp_le order_trans take_take min.absorb1)
  then obtain b where b: "dne @ keep = x @ b" by (metis append_take_drop_id)
  with assms(2) have "b @ d = tag @ y" by (metis append_assoc same_append_eq)
  then consider c where "b = tag @ c" | c where "c \<noteq> []" "tag = b @ c"
    by (auto simp: append_eq_append_conv2) metis
  then show False
  proof cases
    case 1 then show False using assms(1) b unfolding settled_def contains_iff by blast
  next
    case 2
    then have "length b \<le> length keep" using assms(1) b unfolding settled_def by blast
    moreover have "length dne + length keep = length x + length b" using b by (metis length_append)
    ultimately show False using lt by simp
  qed
qed

lemma index_of_unique:
  assumes "index_of s p = Some i" "s = a @ p @ b" shows "i \<le> length a"
proof (rule ccontr)
  assume n: "\<not> i \<le> length a"
  have "index_of s p = Some i \<Longrightarrow> has_prefix (drop j s) p \<Longrightarrow> i \<le> j" for j
    by (induction s arbitrary: i j) (auto split: if_splits, metis Suc_le_mono drop_Suc_Cons not0_implies_Suc drop0)
  then show False using assms n by (metis append_eq_conv_conj has_prefix_append)
qed

section \<open>The state after a prefix of the stream\<close>

fun think_inv :: "string \<Rightarrow> think_mode \<Rightarrow> string \<Rightarrow> string \<Rightarrow> string \<Rightarrow> bool" where
  "think_inv p ThinkModeUnknown pending c t \<longleftrightarrow>
     pending = p \<and> c = [] \<and> t = [] \<and>
     (let tr = dropWhile is_blank_char p in tr = [] \<or> isProperPrefix tr think_open)"
| "think_inv p ThinkModeThinking pending c t \<longleftrightarrow>
     c = [] \<and> (\<exists>ws. list_all is_blank_char ws \<and> p = ws @ think_open @ t @ pending) \<and>
     settled think_close t pending"
| "think_inv p ThinkModePassthrough pending c t \<longleftrightarrow>
     pending = [] \<and> (\<forall>q. think_spec (p @ q) = (c @ q, t))"

lemma dropWhile_blank_open:
  assumes "list_all is_blank_char ws"
  shows "dropWhile is_blank_char (ws @ think_open @ r) = think_open @ r"
proof -
  have "dropWhile is_blank_char (ws @ think_open @ r) = dropWhile is_blank_char (think_open @ r)"
    using assms by (intro dropWhile_append2) (auto simp: list_all_iff)
  also have "\<dots> = think_open @ r" by (simp add: think_open_def is_blank_char_def)
  finally show ?thesis .
qed

lemma think_spec_open:
  assumes "list_all is_blank_char ws"
  shows "think_spec (ws @ think_open @ body) =
    (case index_of body think_close of
       None \<Rightarrow> ([], body) | Some i \<Rightarrow> (drop (i + length think_close) body, take i body))"
  using dropWhile_blank_open[OF assms, of body] by (simp add: think_spec_def)

lemma settled_Nil: "settled think_close [] []"
  by (auto simp: settled_def contains_iff)

lemma settled_step:
  assumes st: "settled think_close t pending" and w: "w = pending @ d"
    and no: "index_of w think_close = None"
  defines "k \<equiv> partialTagSuffix w think_close"
  shows "settled think_close (t @ take (length w - k) w) (drop (length w - k) w)"
  unfolding settled_def
proof (intro conjI allI impI)
  have kw: "k \<le> length w" unfolding k_def by (rule partialTagSuffix_le)
  have eq: "(t @ take (length w - k) w) @ drop (length w - k) w = t @ w" by simp
  show "\<not> contains ((t @ take (length w - k) w) @ drop (length w - k) w) think_close"
  proof
    assume "contains ((t @ take (length w - k) w) @ drop (length w - k) w) think_close"
    then obtain x y where xy: "t @ w = x @ think_close @ y" unfolding eq contains_iff by blast
    then have "length t \<le> length x" using settled_no_match[OF st, of d x y] w by simp
    then obtain z where "x = t @ z" using xy
      by (metis append_eq_append_conv_if append_take_drop_id)
    with xy have "contains w think_close" unfolding contains_iff by auto
    with no show False by (simp add: contains_def)
  qed
  fix a b c
  assume ab: "(t @ take (length w - k) w) @ drop (length w - k) w = a @ b"
    and tag: "think_close = b @ c" "c \<noteq> []"
  show "length b \<le> length (drop (length w - k) w)"
  proof (cases "length b \<le> length w")
    case True
    have tw: "t @ w = a @ b" using ab eq by simp
    have "length t + length w = length a + length b" using tw by (metis length_append)
    then have "length t \<le> length a" using True by linarith
    then obtain a' where "a = t @ a'" using tw by (metis append_eq_append_conv_if append_take_drop_id)
    then have "w = a' @ b" using tw by simp
    then have "length b \<le> k" unfolding k_def using tag by (intro partialTagSuffix_max)
    then show ?thesis using kw by simp
  next
    case False
    have tw: "t @ pending @ d = a @ b" using ab eq w by simp
    have "length (t @ pending) + length d = length a + length b" using tw by (metis append.assoc length_append)
    then have "length a \<le> length (t @ pending)" using False w by simp
    moreover have "(t @ pending) @ d = a @ b" using tw by simp
    ultimately obtain b1 where b1: "t @ pending = a @ b1" "b = b1 @ d"
      using append_split_le by metis
    then have "length b1 \<le> length pending" using st tag unfolding settled_def by (metis append.assoc append_is_Nil_conv)
    then have False using False w b1 by simp
    then show ?thesis ..
  qed
qed

lemma feed_loop_pass: "feed_loop ThinkModePassthrough w c t = (ThinkModePassthrough, [], c @ w, t)"
  by (simp add: feed_loop.simps)

lemma feed_loop_think:
  "feed_loop ThinkModeThinking w c t =
    (case index_of w think_close of
       Some i \<Rightarrow> (ThinkModePassthrough, [], c @ drop (i + length think_close) w, t @ take i w)
     | None \<Rightarrow> (let k = length w - partialTagSuffix w think_close
               in (ThinkModeThinking, drop k w, c, t @ take k w)))"
  by (subst feed_loop.simps)
    (simp add: feed_loop_pass partialTagSuffix_def Let_def split: option.splits)

lemma feed_loop_acc:
  "feed_loop m w c t = (let (m', p', c', t') = feed_loop m w [] [] in (m', p', c @ c', t @ t'))"
proof (cases m)
  case ThinkModeUnknown
  then show ?thesis
    by (subst (1 2) feed_loop.simps) (simp add: feed_loop_pass feed_loop_think Let_def split: option.splits)
qed (simp_all add: feed_loop_pass feed_loop_think Let_def split: option.splits)

lemma close_position:
  assumes i: "index_of w think_close = Some i" and st: "settled think_close t pending" and w: "w = pending @ d"
  shows "index_of (t @ w @ q) think_close = Some (length t + i)"
proof -
  have wi: "i + length think_close \<le> length w" "w = take i w @ think_close @ drop (i + length think_close) w"
    using index_of_Some[OF i] by blast+
  define body where "body = t @ w @ q"
  have body: "body = (t @ take i w) @ think_close @ (drop (i + length think_close) w @ q)"
    using wi(2) by (metis append.assoc body_def)
  then have "contains body think_close" unfolding contains_iff by metis
  then obtain j where j: "index_of body think_close = Some j" by (auto simp: contains_def)
  have jle: "j \<le> length t + i" using index_of_unique[OF j body] wi(1) by simp
  have jb: "body = take j body @ think_close @ drop (j + length think_close) body"
    and jlen: "j + length think_close \<le> length body" using index_of_Some[OF j] by blast+
  have "t @ pending @ (d @ q) = take j body @ think_close @ drop (j + length think_close) body"
    using jb unfolding body_def w by (metis append.assoc)
  then have "length t \<le> length (take j body)" by (rule settled_no_match[OF st])
  then have tj: "length t \<le> j" using jlen by simp
  define k where "k = j - length t"
  have jk: "j = length t + k" using tj by (simp add: k_def)
  have kw: "k + length think_close \<le> length w" using jle wi(1) jk by linarith
  have "drop j body = think_close @ drop (j + length think_close) body"
    using jb jlen by (metis add_leD1 append_eq_conv_conj length_take min.absorb2)
  then have "drop k w @ q = think_close @ drop (j + length think_close) body"
    using kw by (simp add: body_def jk)
  then have "drop k w = think_close @ drop (length think_close) (drop k w)"
    using kw by (metis append_eq_append_conv_if append_take_drop_id length_drop le_diff_conv2 add.commute add_leD1)
  then have "w = take k w @ think_close @ drop (length think_close) (drop k w)"
    by (metis append_take_drop_id)
  from index_of_unique[OF i this] have "i \<le> k" by simp
  then have "j = length t + i" using jle jk by linarith
  with j show ?thesis by (simp add: body_def)
qed

lemma think_inv_thinking_step:
  assumes ws: "list_all is_blank_char ws" and p: "p = ws @ think_open @ t @ pending"
    and st: "settled think_close t pending" and w: "w = pending @ d"
    and r: "feed_loop ThinkModeThinking w [] t = (m', p', c', t')"
  shows "think_inv (p @ d) m' p' c' t'"
proof (cases "index_of w think_close")
  case None
  define k where "k = length w - partialTagSuffix w think_close"
  have r': "m' = ThinkModeThinking" "p' = drop k w" "c' = []" "t' = t @ take k w"
    using r None by (auto simp: feed_loop_think k_def Let_def)
  have "settled think_close t' p'"
    unfolding r' k_def using settled_step[OF st w None] .
  moreover have "p @ d = ws @ think_open @ t' @ p'" by (simp add: p r' flip: w)
  ultimately show ?thesis using ws r'(1,3) by auto
next
  case (Some i)
  have r': "m' = ThinkModePassthrough" "p' = []" "c' = drop (i + length think_close) w" "t' = t @ take i w"
    using r Some by (auto simp: feed_loop_think)
  have wi: "i + length think_close \<le> length w" using index_of_Some[OF Some] by blast
  have "think_spec ((p @ d) @ q) = (c' @ q, t')" for q
  proof -
    have "think_spec ((p @ d) @ q) = think_spec (ws @ think_open @ t @ w @ q)" by (simp add: p w)
    also have "\<dots> = (c' @ q, t')"
      using close_position[OF Some st w, of q] wi by (simp add: think_spec_open[OF ws] r')
    finally show ?thesis .
  qed
  then show ?thesis by (simp add: r')
qed

lemma think_spec_passthrough:
  assumes "\<not> has_prefix (dropWhile is_blank_char p) think_open" "dropWhile is_blank_char p \<noteq> []"
    "\<not> isProperPrefix (dropWhile is_blank_char p) think_open"
  shows "think_spec (p @ q) = (p @ q, [])"
proof -
  have dw: "dropWhile is_blank_char (p @ q) = dropWhile is_blank_char p @ q"
  proof -
    obtain x where "x \<in> set p" "\<not> is_blank_char x" using assms(2) by (auto simp: dropWhile_eq_Nil_conv)
    then show ?thesis by (rule dropWhile_append1)
  qed
  have "\<not> has_prefix (dropWhile is_blank_char p @ q) think_open"
  proof
    assume "has_prefix (dropWhile is_blank_char p @ q) think_open"
    then obtain r where r: "dropWhile is_blank_char p @ q = think_open @ r" by (auto simp: has_prefix_iff)
    then obtain u where "(dropWhile is_blank_char p = think_open @ u) \<or> (dropWhile is_blank_char p @ u = think_open)"
      by (auto simp: append_eq_append_conv2)
    then show False using assms(1,3) unfolding has_prefix_iff isProperPrefix_iff
      by (metis append_Nil2)
  qed
  then show ?thesis by (simp add: think_spec_def dw)
qed

lemma think_inv_unknown_step:
  assumes r: "feed_loop ThinkModeUnknown w [] [] = (m', p', c', t')"
  shows "think_inv w m' p' c' t'"
proof (cases "w = []")
  case True
  with r show ?thesis by (simp add: feed_loop.simps)
next
  case False
  define tr where "tr = dropWhile is_blank_char w"
  consider "tr = []" | "tr \<noteq> []" "has_prefix tr think_open"
    | "tr \<noteq> []" "\<not> has_prefix tr think_open" "isProperPrefix tr think_open"
    | "tr \<noteq> []" "\<not> has_prefix tr think_open" "\<not> isProperPrefix tr think_open" by blast
  then show ?thesis
  proof cases
    case 1
    then have "(m', p', c', t') = (ThinkModeUnknown, w, [], [])"
      using r False unfolding tr_def by (simp add: feed_loop.simps[of _ w] Let_def)
    with 1 show ?thesis by (simp add: tr_def)
  next
    case 2
    then obtain body where b: "tr = think_open @ body" by (auto simp: has_prefix_iff)
    define ws where "ws = takeWhile is_blank_char w"
    have ws: "list_all is_blank_char ws" by (auto simp: ws_def list_all_iff dest: set_takeWhileD)
    have w: "w = (ws @ think_open @ [] @ []) @ body" using b by (simp add: ws_def tr_def flip: b)
    have "feed_loop ThinkModeThinking ([] @ body) [] [] = (m', p', c', t')"
      using r 2 False b unfolding tr_def by (simp add: feed_loop.simps[of _ w] Let_def)
    from think_inv_thinking_step[OF ws refl settled_Nil refl this] show ?thesis using w by simp
  next
    case 3
    then have "(m', p', c', t') = (ThinkModeUnknown, w, [], [])"
      using r False unfolding tr_def by (simp add: feed_loop.simps[of _ w] Let_def)
    with 3 show ?thesis by (simp add: tr_def)
  next
    case 4
    then have "(m', p', c', t') = (ThinkModePassthrough, [], w, [])"
      using r False unfolding tr_def by (simp add: feed_loop.simps[of _ w] feed_loop_pass Let_def)
    with 4 show ?thesis using think_spec_passthrough[of w] by (simp add: tr_def)
  qed
qed

lemma think_inv_feed:
  assumes inv: "think_inv p (ts_mode s) (ts_pending s) c t" and f: "feed s d = (s', c', t')"
  shows "think_inv (p @ d) (ts_mode s') (ts_pending s') (c @ c') (t @ t')"
proof -
  obtain m' p' where l: "feed_loop (ts_mode s) (ts_pending s @ d) [] [] = (m', p', c', t')"
    and s': "ts_mode s' = m'" "ts_pending s' = p'"
    using f by (auto simp: feed_def split: prod.splits)
  have acc: "feed_loop (ts_mode s) (ts_pending s @ d) c t = (m', p', c @ c', t @ t')"
    by (subst feed_loop_acc) (simp add: l)
  show ?thesis
  proof (cases "ts_mode s")
    case ThinkModeUnknown
    then show ?thesis using inv think_inv_unknown_step[of "p @ d"] l s' by simp
  next
    case ThinkModeThinking
    then obtain ws where "list_all is_blank_char ws" "p = ws @ think_open @ t @ ts_pending s"
      "settled think_close t (ts_pending s)" "c = []" using inv by auto
    then show ?thesis using think_inv_thinking_step[of ws p t "ts_pending s" "ts_pending s @ d" d m' p' "c @ c'" "t @ t'"]
      acc ThinkModeThinking s' by simp
  next
    case ThinkModePassthrough
    then have "m' = ThinkModePassthrough" "p' = []" "c' = d" "t' = []"
      using l inv by (auto simp: feed_loop_pass)
    then show ?thesis using inv ThinkModePassthrough s' by simp
  qed
qed

lemma think_inv_flush:
  assumes inv: "think_inv p (ts_mode s) (ts_pending s) c t" and f: "flush s = (s', c', t')"
  shows "think_spec p = (c @ c', t @ t')"
proof (cases "ts_mode s")
  case ThinkModeUnknown
  have "\<not> has_prefix (dropWhile is_blank_char p) think_open"
  proof
    assume "has_prefix (dropWhile is_blank_char p) think_open"
    then have "length think_open \<le> length (dropWhile is_blank_char p)" by (auto simp: has_prefix_iff)
    moreover from this have "dropWhile is_blank_char p \<noteq> []" by (auto simp: think_open_def)
    ultimately show False using inv ThinkModeUnknown by (auto simp: isProperPrefix_def Let_def)
  qed
  then show ?thesis using inv f ThinkModeUnknown
    by (auto simp: think_spec_def flush_def Let_def split: if_splits)
next
  case ThinkModeThinking
  then obtain ws where ws: "list_all is_blank_char ws" "p = ws @ think_open @ t @ ts_pending s"
    "settled think_close t (ts_pending s)" "c = []" using inv by auto
  then have "index_of (t @ ts_pending s) think_close = None" by (simp add: settled_def contains_def)
  then show ?thesis using f ThinkModeThinking ws
    by (auto simp: think_spec_open flush_def split: if_splits)
next
  case ThinkModePassthrough
  then have "think_spec (p @ []) = (c @ [], t)" using inv by (metis think_inv.simps(3))
  then show ?thesis using f inv ThinkModePassthrough by (auto simp: flush_def split: if_splits)
qed

lemma feed_chunks_inv:
  "think_inv p (ts_mode s) (ts_pending s) c t \<Longrightarrow> feed_chunks s ds c t = think_spec (p @ concat ds)"
proof (induction ds arbitrary: p s c t)
  case Nil
  then show ?case using think_inv_flush[OF Nil] by (auto split: prod.splits)
next
  case (Cons d ds)
  obtain s' c' t' where f: "feed s d = (s', c', t')" by (cases "feed s d")
  show ?case using Cons.IH[OF think_inv_feed[OF Cons.prems f]] by (simp add: f)
qed

lemma think_inv_new: "think_inv [] (ts_mode new_splitter) (ts_pending new_splitter) [] []"
  by (simp add: new_splitter_def)

lemma splitThinkContent_chunks: "splitThinkContent s = feed_chunks new_splitter [s] [] []"
  by (simp add: splitThinkContent_def split: prod.splits)

text \<open>
  C8. However a stream is cut into chunks, the splitter hands out exactly what the one-shot
  \<^verbatim>\<open>splitThinkContent\<close> makes of the whole text: tags cut by chunk boundaries are
  recognised, nothing is emitted too early and nothing is lost.
\<close>

theorem feed_chunks_split: "feed_chunks new_splitter ds [] [] = splitThinkContent (concat ds)"
  using feed_chunks_inv[OF think_inv_new, of ds] feed_chunks_inv[OF think_inv_new, of "[concat ds]"]
  by (simp add: splitThinkContent_chunks)

end
