(* ===== verification/RateLimiter.thy ===== *)
theory RateLimiter
  imports GoBase
begin

text \<open>
  \<^verbatim>\<open>internal/handler/auth_rate_limiter.go\<close>: the failure counter in front of the login
  endpoint.  Times are nanoseconds; \<open>None\<close> is the zero \<^verbatim>\<open>time.Time\<close>.  The
  clock is the argument \<open>now\<close> of each operation, and \<open>None\<close> for the limiter is the nil
  pointer of a disabled limiter.
\<close>

definition maxAuthRateLimitEntries :: nat where "maxAuthRateLimitEntries = 2048"
definition authRateLimitCleanupInterval :: int where "authRateLimitCleanupInterval = 60 * 1000000000"
definition authRateLimitOverflowKey :: string where "authRateLimitOverflowKey = ''__overflow__''"

record auth_attempt_state =
  as_failures :: int
  as_windowStart :: "int option"
  as_blockedUntil :: "int option"
  as_accountFailures :: "(string \<times> int) list"

record auth_rate_limiter =
  rl_maxAttempts :: int
  rl_window :: int
  rl_block :: int
  rl_attempts :: "(string \<times> auth_attempt_state) list"
  rl_lastCleanup :: "int option"

definition zero_attempt :: auth_attempt_state where
  "zero_attempt = \<lparr>as_failures = 0, as_windowStart = None, as_blockedUntil = None, as_accountFailures = []\<rparr>"

definition NewAuthRateLimiter :: "int \<Rightarrow> int \<Rightarrow> int \<Rightarrow> auth_rate_limiter option" where
  "NewAuthRateLimiter maxAttempts window block =
    (if maxAttempts \<le> 0 \<or> window \<le> 0 \<or> block \<le> 0 then None
     else Some \<lparr>rl_maxAttempts = maxAttempts, rl_window = window, rl_block = block,
                rl_attempts = [], rl_lastCleanup = None\<rparr>)"

definition normalize_account :: "string \<Rightarrow> string" where
  "normalize_account account = to_lower (trim_space account)"

definition authRateLimitKey :: "string \<Rightarrow> string" where
  "authRateLimitKey ip = (let source = trim_space ip in if source = [] then ''unknown'' else source)"

definition window_expired :: "auth_rate_limiter \<Rightarrow> int \<Rightarrow> auth_attempt_state \<Rightarrow> bool" where
  "window_expired l now st =
    (case as_windowStart st of None \<Rightarrow> True | Some w \<Rightarrow> now - w > rl_window l)"

definition block_expired :: "int \<Rightarrow> auth_attempt_state \<Rightarrow> bool" where
  "block_expired now st = (case as_blockedUntil st of None \<Rightarrow> True | Some b \<Rightarrow> \<not> now < b)"

definition trackedKeyLocked :: "auth_rate_limiter \<Rightarrow> string \<Rightarrow> string" where
  "trackedKeyLocked l ip =
    (let key = authRateLimitKey ip in
     if map_of (rl_attempts l) key \<noteq> None \<or> length (rl_attempts l) < maxAuthRateLimitEntries - 1
     then key else authRateLimitOverflowKey)"

definition cleanupExpiredLocked :: "auth_rate_limiter \<Rightarrow> int \<Rightarrow> bool \<Rightarrow> auth_rate_limiter" where
  "cleanupExpiredLocked l now force =
    (if \<not> force \<and> (case rl_lastCleanup l of None \<Rightarrow> False | Some c \<Rightarrow> now - c < authRateLimitCleanupInterval)
     then l
     else l\<lparr>rl_attempts := filter (\<lambda>(key, st). \<not> (window_expired l now st \<and> block_expired now st)) (rl_attempts l),
            rl_lastCleanup := Some now\<rparr>)"

definition attempt_at :: "auth_rate_limiter \<Rightarrow> string \<Rightarrow> auth_attempt_state" where
  "attempt_at l key = (case map_of (rl_attempts l) key of None \<Rightarrow> zero_attempt | Some st \<Rightarrow> st)"

definition Allow :: "auth_rate_limiter option \<Rightarrow> int \<Rightarrow> string \<Rightarrow> auth_rate_limiter option \<times> int \<times> bool" where
  "Allow lim now ip =
    (case lim of None \<Rightarrow> (None, 0, True)
     | Some l0 \<Rightarrow>
       (let l = cleanupExpiredLocked l0 now False;
            key = trackedKeyLocked l ip;
            st = attempt_at l key in
        case as_blockedUntil st of
          Some b \<Rightarrow>
            if now < b then (Some l, b - now, False)
            else (Some (if window_expired l now st then l\<lparr>rl_attempts := AList.delete key (rl_attempts l)\<rparr> else l), 0, True)
        | None \<Rightarrow>
            (Some (if window_expired l now st then l\<lparr>rl_attempts := AList.delete key (rl_attempts l)\<rparr> else l), 0, True)))"

definition RecordFailure :: "auth_rate_limiter option \<Rightarrow> int \<Rightarrow> string \<Rightarrow> string \<Rightarrow> auth_rate_limiter option" where
  "RecordFailure lim now ip account0 =
    (case lim of None \<Rightarrow> None
     | Some l0 \<Rightarrow>
       (let l = cleanupExpiredLocked l0 now (length (rl_attempts l0) \<ge> maxAuthRateLimitEntries - 1);
            key = trackedKeyLocked l ip;
            st0 = attempt_at l key;
            st1 = (if window_expired l now st0 then zero_attempt\<lparr>as_windowStart := Some now\<rparr> else st0);
            account = normalize_account account0;
            st2 = (if account = [] then st1
                   else st1\<lparr>as_accountFailures :=
                     AList.update account
                       ((case map_of (as_accountFailures st1) account of None \<Rightarrow> 0 | Some n \<Rightarrow> n) + 1)
                       (as_accountFailures st1)\<rparr>);
            st3 = st2\<lparr>as_failures := as_failures st2 + 1\<rparr>;
            st4 = (if as_failures st3 \<ge> rl_maxAttempts l then st3\<lparr>as_blockedUntil := Some (now + rl_block l)\<rparr> else st3)
        in Some (l\<lparr>rl_attempts := AList.update key st4 (rl_attempts l)\<rparr>)))"

definition removeAccountFailuresLocked :: "auth_rate_limiter \<Rightarrow> string \<Rightarrow> string \<Rightarrow> auth_rate_limiter" where
  "removeAccountFailuresLocked l key account =
    (case map_of (rl_attempts l) key of None \<Rightarrow> l
     | Some st \<Rightarrow>
       (let failures = (case map_of (as_accountFailures st) account of None \<Rightarrow> 0 | Some n \<Rightarrow> n) in
        if failures = 0 then l
        else
          (let st1 = st\<lparr>as_failures := as_failures st - failures,
                        as_accountFailures := AList.delete account (as_accountFailures st)\<rparr>;
               st2 = (if as_failures st1 < rl_maxAttempts l then st1\<lparr>as_blockedUntil := None\<rparr> else st1)
           in if as_failures st2 \<le> 0 then l\<lparr>rl_attempts := AList.delete key (rl_attempts l)\<rparr>
              else l\<lparr>rl_attempts := AList.update key st2 (rl_attempts l)\<rparr>)))"

definition Reset :: "auth_rate_limiter option \<Rightarrow> string \<Rightarrow> string \<Rightarrow> auth_rate_limiter option" where
  "Reset lim ip account0 =
    (case lim of None \<Rightarrow> None
     | Some l \<Rightarrow>
       (let account = normalize_account account0 in
        if account = [] then Some l
        else Some (removeAccountFailuresLocked l (authRateLimitKey ip) account)))"

definition ResetAccount :: "auth_rate_limiter option \<Rightarrow> string \<Rightarrow> auth_rate_limiter option" where
  "ResetAccount lim account0 =
    (case lim of None \<Rightarrow> None
     | Some l \<Rightarrow>
       (let account = normalize_account account0 in
        if account = [] then Some l
        else Some (fold (\<lambda>key l'. removeAccountFailuresLocked l' key account) (map fst (rl_attempts l)) l)))"

text \<open>
  \<^verbatim>\<open>retryAfterSeconds\<close>: the ceiling is exact for every duration whose
  \<^verbatim>\<open>Seconds()\<close> a double represents without losing the nanosecond (97 days).
\<close>

definition retryAfterSeconds :: "int \<Rightarrow> string" where
  "retryAfterSeconds d = (if d \<le> 0 then ''1'' else itoa (- ((- d) div 1000000000)))"

section \<open>The invariant\<close>

definition attempt_ok :: "auth_rate_limiter \<Rightarrow> auth_attempt_state \<Rightarrow> bool" where
  "attempt_ok l st \<longleftrightarrow>
    0 < as_failures st \<and> as_windowStart st \<noteq> None \<and> wf_map (as_accountFailures st) \<and>
    list_all (\<lambda>p. 0 < snd p) (as_accountFailures st) \<and>
    sum_list (map snd (as_accountFailures st)) \<le> as_failures st \<and>
    (as_blockedUntil st \<noteq> None \<longrightarrow> rl_maxAttempts l \<le> as_failures st)"

definition own_entries :: "auth_rate_limiter \<Rightarrow> nat" where
  "own_entries l = length (filter (\<lambda>k. k \<noteq> authRateLimitOverflowKey) (map fst (rl_attempts l)))"

definition limiter_ok :: "auth_rate_limiter \<Rightarrow> bool" where
  "limiter_ok l \<longleftrightarrow>
    0 < rl_maxAttempts l \<and> 0 < rl_window l \<and> 0 < rl_block l \<and> wf_map (rl_attempts l) \<and>
    own_entries l \<le> maxAuthRateLimitEntries - 1 \<and> list_all (\<lambda>p. attempt_ok l (snd p)) (rl_attempts l)"

abbreviation alookup :: "string \<Rightarrow> (string \<times> int) list \<Rightarrow> int" where
  "alookup k m \<equiv> (case map_of m k of None \<Rightarrow> 0 | Some n \<Rightarrow> n)"

lemma sum_update: "wf_map m \<Longrightarrow> sum_list (map snd (AList.update k v m)) = sum_list (map snd m) - alookup k m + v"
proof (induction m)
  case (Cons p m)
  obtain a b where p: "p = (a, b)" by (cases p)
  have "wf_map m" "a \<notin> fst ` set m" using Cons.prems by (auto simp: wf_map_def p)
  moreover from this have "map_of m a = None" by (simp add: map_of_eq_None_iff)
  ultimately show ?case using Cons.IH by (auto simp: p)
qed simp

lemma sum_delete: "wf_map m \<Longrightarrow> sum_list (map snd (AList.delete k m)) = sum_list (map snd m) - alookup k m"
proof (induction m)
  case (Cons p m)
  obtain a b where p: "p = (a, b)" by (cases p)
  have w: "wf_map m" "a \<notin> fst ` set m" using Cons.prems by (auto simp: wf_map_def p)
  then have "AList.delete a m = m" by simp
  then show ?case using Cons.IH w by (auto simp: p)
qed simp

lemma list_all_set_update: "list_all P m \<Longrightarrow> P (k, v) \<Longrightarrow> list_all P (AList.update k v m)"
  by (induction m) auto

lemma list_all_delete: "list_all P m \<Longrightarrow> list_all P (AList.delete k m)"
  by (auto simp: list_all_iff AList.delete_eq)

lemma alookup_nonneg: "list_all (\<lambda>p. 0 < snd p) m \<Longrightarrow> 0 \<le> alookup k m"
  by (auto simp: list_all_iff split: option.splits dest!: map_of_SomeD)

lemma sum_list_nonneg_acc: "list_all (\<lambda>p. (0::int) < snd p) m \<Longrightarrow> 0 \<le> sum_list (map snd m)"
  by (induction m) auto

lemma own_entries_bound: "wf_map (rl_attempts l) \<Longrightarrow> length (rl_attempts l) \<le> Suc (own_entries l)"
proof -
  assume w: "wf_map (rl_attempts l)"
  have "length (filter (\<lambda>k. k = x) ks) \<le> Suc 0" if "distinct ks" for ks :: "string list" and x
    using that by (induction ks) (auto simp: filter_empty_conv)
  then have "length (filter (\<lambda>k. k = authRateLimitOverflowKey) (map fst (rl_attempts l))) \<le> Suc 0"
    using w unfolding wf_map_def by blast
  moreover have "length (map fst (rl_attempts l)) =
      length (filter (\<lambda>k. k = authRateLimitOverflowKey) (map fst (rl_attempts l))) + own_entries l"
    unfolding own_entries_def by (simp only: sum_length_filter_compl)
  ultimately show ?thesis by simp
qed

lemma own_entries_filter: "own_entries (l\<lparr>rl_attempts := filter P (rl_attempts l)\<rparr>) \<le> own_entries l"
proof -
  have "length (filter Q (map fst (filter P m))) \<le> length (filter Q (map fst m))" for Q :: "string \<Rightarrow> bool" and m
    by (induction m) auto
  then show ?thesis by (simp add: own_entries_def)
qed

lemma attempt_ok_attempts [simp]: "attempt_ok (l\<lparr>rl_attempts := m\<rparr>) st = attempt_ok l st"
  by (simp add: attempt_ok_def)

lemma limiter_ok_filter:
  assumes "limiter_ok l"
  shows "limiter_ok (l\<lparr>rl_attempts := filter P (rl_attempts l)\<rparr>)"
  using assms own_entries_filter[of P l] by (auto simp: limiter_ok_def list_all_iff)

lemma limiter_ok_delete: "limiter_ok l \<Longrightarrow> limiter_ok (l\<lparr>rl_attempts := AList.delete k (rl_attempts l)\<rparr>)"
  unfolding AList.delete_eq by (rule limiter_ok_filter)

lemma limiter_ok_lastCleanup [simp]: "limiter_ok (l\<lparr>rl_lastCleanup := c\<rparr>) = limiter_ok l"
  by (simp add: limiter_ok_def attempt_ok_def own_entries_def)

lemma limiter_ok_cleanup: "limiter_ok l \<Longrightarrow> limiter_ok (cleanupExpiredLocked l now force)"
  using limiter_ok_filter by (auto simp: cleanupExpiredLocked_def)

lemma cleanup_fields [simp]:
  "rl_maxAttempts (cleanupExpiredLocked l now force) = rl_maxAttempts l"
  "rl_window (cleanupExpiredLocked l now force) = rl_window l"
  "rl_block (cleanupExpiredLocked l now force) = rl_block l"
  by (simp_all add: cleanupExpiredLocked_def)

lemma limiter_ok_update:
  assumes ok: "limiter_ok l" and st: "attempt_ok l st" and key: "key = trackedKeyLocked l ip \<or> key \<in> fst ` set (rl_attempts l)"
  shows "limiter_ok (l\<lparr>rl_attempts := AList.update key st (rl_attempts l)\<rparr>)"
proof -
  let ?l' = "l\<lparr>rl_attempts := AList.update key st (rl_attempts l)\<rparr>"
  have "own_entries ?l' \<le> maxAuthRateLimitEntries - 1"
  proof (cases "key \<in> fst ` set (rl_attempts l) \<or> key = authRateLimitOverflowKey")
    case True
    then have "own_entries ?l' = own_entries l" by (auto simp: own_entries_def update_keys)
    then show ?thesis using ok by (simp add: limiter_ok_def)
  next
    case False
    then have k: "key = trackedKeyLocked l ip" "map_of (rl_attempts l) key = None" "key \<noteq> authRateLimitOverflowKey"
      using key by (auto simp: map_of_eq_None_iff)
    have len: "length (rl_attempts l) < maxAuthRateLimitEntries - 1"
    proof (rule ccontr)
      assume "\<not> length (rl_attempts l) < maxAuthRateLimitEntries - 1"
      then show False using k by (simp add: trackedKeyLocked_def Let_def split: if_splits)
    qed
    have "own_entries ?l' \<le> length (map fst (AList.update key st (rl_attempts l)))"
      by (simp add: own_entries_def order_trans[OF length_filter_le])
    also have "\<dots> \<le> Suc (length (rl_attempts l))" by (simp add: length_update)
    finally show ?thesis using len by simp
  qed
  then show ?thesis using ok st by (auto simp: limiter_ok_def intro!: list_all_set_update)
qed

lemma attempt_at_ok: "limiter_ok l \<Longrightarrow> map_of (rl_attempts l) key = Some st \<Longrightarrow> attempt_ok l st"
  by (auto simp: limiter_ok_def list_all_iff dest!: map_of_SomeD)

text \<open>The entry \<^verbatim>\<open>RecordFailure\<close> stores, from the entry it found.\<close>

definition record_entry :: "auth_rate_limiter \<Rightarrow> int \<Rightarrow> string \<Rightarrow> auth_attempt_state \<Rightarrow> auth_attempt_state" where
  "record_entry l now account0 st0 =
    (let st1 = (if window_expired l now st0 then zero_attempt\<lparr>as_windowStart := Some now\<rparr> else st0);
         account = normalize_account account0;
         st2 = (if account = [] then st1
                else st1\<lparr>as_accountFailures := AList.update account (alookup account (as_accountFailures st1) + 1) (as_accountFailures st1)\<rparr>);
         st3 = st2\<lparr>as_failures := as_failures st2 + 1\<rparr>
     in if as_failures st3 \<ge> rl_maxAttempts l then st3\<lparr>as_blockedUntil := Some (now + rl_block l)\<rparr> else st3)"

lemma RecordFailure_entry:
  "RecordFailure (Some l0) now ip account =
    (let l = cleanupExpiredLocked l0 now (length (rl_attempts l0) \<ge> maxAuthRateLimitEntries - 1);
         key = trackedKeyLocked l ip
     in Some (l\<lparr>rl_attempts := AList.update key (record_entry l now account (attempt_at l key)) (rl_attempts l)\<rparr>))"
  by (simp add: RecordFailure_def record_entry_def Let_def)

definition window_entry :: "auth_rate_limiter \<Rightarrow> int \<Rightarrow> auth_attempt_state \<Rightarrow> auth_attempt_state" where
  "window_entry l now st0 = (if window_expired l now st0 then zero_attempt\<lparr>as_windowStart := Some now\<rparr> else st0)"

definition count_account :: "string \<Rightarrow> (string \<times> int) list \<Rightarrow> (string \<times> int) list" where
  "count_account account af =
    (if normalize_account account = [] then af
     else AList.update (normalize_account account) (alookup (normalize_account account) af + 1) af)"

lemma record_entry_eq:
  "record_entry l now account st0 =
    (let st1 = window_entry l now st0 in
     st1\<lparr>as_accountFailures := count_account account (as_accountFailures st1), as_failures := as_failures st1 + 1,
       as_blockedUntil := (if rl_maxAttempts l \<le> as_failures st1 + 1 then Some (now + rl_block l) else as_blockedUntil st1)\<rparr>)"
  by (simp add: record_entry_def window_entry_def[symmetric] count_account_def Let_def)

definition entry_base_ok :: "auth_rate_limiter \<Rightarrow> auth_attempt_state \<Rightarrow> bool" where
  "entry_base_ok l st \<longleftrightarrow>
    0 \<le> as_failures st \<and> as_windowStart st \<noteq> None \<and> wf_map (as_accountFailures st) \<and>
    list_all (\<lambda>p. 0 < snd p) (as_accountFailures st) \<and>
    sum_list (map snd (as_accountFailures st)) \<le> as_failures st \<and>
    (as_blockedUntil st \<noteq> None \<longrightarrow> rl_maxAttempts l \<le> as_failures st)"

lemma record_entry_ok:
  assumes "attempt_ok l st0 \<or> st0 = zero_attempt"
  shows "attempt_ok l (record_entry l now account st0)"
proof -
  define st1 where "st1 = window_entry l now st0"
  have base: "entry_base_ok l st1"
    using assms by (auto simp: st1_def window_entry_def entry_base_ok_def attempt_ok_def zero_attempt_def window_expired_def)
  define af where "af = count_account account (as_accountFailures st1)"
  have af: "wf_map af" "list_all (\<lambda>p. 0 < snd p) af" "sum_list (map snd af) \<le> as_failures st1 + 1"
    using base alookup_nonneg[of "as_accountFailures st1" "normalize_account account"]
    by (auto simp: af_def count_account_def entry_base_ok_def sum_update intro!: list_all_set_update)
  show ?thesis using base af unfolding record_entry_eq st1_def[symmetric] af_def[symmetric] Let_def
    by (auto simp: attempt_ok_def entry_base_ok_def)
qed

lemma attempt_at_cases: "limiter_ok l \<Longrightarrow> attempt_ok l (attempt_at l key) \<or> attempt_at l key = zero_attempt"
  by (auto simp: attempt_at_def split: option.splits dest: attempt_at_ok)

lemma RecordFailure_ok:
  assumes "limiter_ok l0" "RecordFailure (Some l0) now ip account = Some l'"
  shows "limiter_ok l'"
proof -
  define l where "l = cleanupExpiredLocked l0 now (length (rl_attempts l0) \<ge> maxAuthRateLimitEntries - 1)"
  have l: "limiter_ok l" unfolding l_def using assms(1) by (rule limiter_ok_cleanup)
  have "l' = l\<lparr>rl_attempts := AList.update (trackedKeyLocked l ip)
      (record_entry l now account (attempt_at l (trackedKeyLocked l ip))) (rl_attempts l)\<rparr>"
    using assms(2) by (simp add: RecordFailure_entry l_def Let_def)
  then show ?thesis using limiter_ok_update[OF l record_entry_ok[OF attempt_at_cases[OF l]]] by blast
qed

lemma Allow_ok:
  assumes "limiter_ok l0" "Allow (Some l0) now ip = (Some l', r)"
  shows "limiter_ok l'"
  using assms limiter_ok_cleanup[OF assms(1), of now False]
  by (auto simp: Allow_def Let_def limiter_ok_delete split: option.splits if_splits)

lemma removeAccountFailuresLocked_ok:
  assumes "limiter_ok l" shows "limiter_ok (removeAccountFailuresLocked l key account)"
proof (cases "map_of (rl_attempts l) key")
  case None then show ?thesis using assms by (simp add: removeAccountFailuresLocked_def)
next
  case (Some st)
  have key: "key \<in> fst ` set (rl_attempts l)" using Some by (force dest: map_of_SomeD)
  have st: "attempt_ok l st" using attempt_at_ok[OF assms Some] .
  define n where "n = alookup account (as_accountFailures st)"
  define af where "af = AList.delete account (as_accountFailures st)"
  have af: "wf_map af" "list_all (\<lambda>p. 0 < snd p) af" "sum_list (map snd af) \<le> as_failures st - n"
    using st by (auto simp: af_def attempt_ok_def n_def sum_delete intro!: list_all_delete)
  let ?st' = "st\<lparr>as_failures := as_failures st - n, as_accountFailures := af,
      as_blockedUntil := (if as_failures st - n < rl_maxAttempts l then None else as_blockedUntil st)\<rparr>"
  have eq: "removeAccountFailuresLocked l key account =
     (if n = 0 then l else if as_failures st - n \<le> 0 then l\<lparr>rl_attempts := AList.delete key (rl_attempts l)\<rparr>
      else l\<lparr>rl_attempts := AList.update key ?st' (rl_attempts l)\<rparr>)"
    by (simp add: removeAccountFailuresLocked_def Some n_def af_def Let_def)
  have "attempt_ok l ?st'" if "0 < as_failures st - n" using st af that by (auto simp: attempt_ok_def)
  then show ?thesis using assms key by (auto simp: eq limiter_ok_delete intro!: limiter_ok_update)
qed

section \<open>What the limiter promises\<close>

datatype limiter_op = OpAllow int string | OpFail int string string | OpReset string string | OpResetAccount string

fun limiter_step :: "limiter_op \<Rightarrow> auth_rate_limiter option \<Rightarrow> auth_rate_limiter option" where
  "limiter_step (OpAllow now ip) l = fst (Allow l now ip)"
| "limiter_step (OpFail now ip account) l = RecordFailure l now ip account"
| "limiter_step (OpReset ip account) l = Reset l ip account"
| "limiter_step (OpResetAccount account) l = ResetAccount l account"

lemma ResetAccount_fold_ok: "limiter_ok l \<Longrightarrow> limiter_ok (fold (\<lambda>key l'. removeAccountFailuresLocked l' key account) keys l)"
  by (induction keys arbitrary: l) (auto simp: removeAccountFailuresLocked_ok)

lemma limiter_step_ok:
  assumes "limiter_ok l" shows "\<exists>l'. limiter_step x (Some l) = Some l' \<and> limiter_ok l'"
proof (cases x)
  case (OpAllow now ip)
  have "fst (Allow (Some l) now ip) \<noteq> None"
    by (auto simp: Allow_def Let_def split: option.splits)
  then obtain l' r where a: "Allow (Some l) now ip = (Some l', r)" by (metis not_None_eq prod.collapse)
  then show ?thesis using Allow_ok[OF assms a] OpAllow by simp
next
  case (OpFail now ip account)
  then show ?thesis using RecordFailure_ok[OF assms, of now ip account] by (auto simp: RecordFailure_entry Let_def)
next
  case (OpReset ip account)
  then show ?thesis using assms by (auto simp: Reset_def Let_def removeAccountFailuresLocked_ok)
next
  case (OpResetAccount account)
  then show ?thesis using assms by (auto simp: ResetAccount_def Let_def ResetAccount_fold_ok)
qed

lemma limiter_run_ok: "limiter_ok l \<Longrightarrow> \<exists>l'. fold limiter_step ops (Some l) = Some l' \<and> limiter_ok l'"
proof (induction ops arbitrary: l)
  case (Cons x ops)
  obtain l' where "limiter_step x (Some l) = Some l'" "limiter_ok l'" using limiter_step_ok[OF Cons.prems] by blast
  then show ?case using Cons.IH[of l'] by simp
qed simp

lemma NewAuthRateLimiter_ok: "NewAuthRateLimiter m w b = Some l \<Longrightarrow> limiter_ok l"
  by (auto simp: NewAuthRateLimiter_def limiter_ok_def own_entries_def split: if_splits)

text \<open>
  C13. Whatever sequence of requests a limiter serves, from whatever addresses, it never
  tracks more than 2048 entries, every entry counts at least one failure and at least the
  failures it attributes to accounts, and an entry is blocked only at the configured number
  of failures.
\<close>

theorem limiter_bounded:
  assumes "NewAuthRateLimiter m w b = Some l0"
  shows "\<exists>l. fold limiter_step ops (Some l0) = Some l \<and> length (rl_attempts l) \<le> maxAuthRateLimitEntries
    \<and> list_all (\<lambda>p. attempt_ok l (snd p)) (rl_attempts l)"
proof -
  obtain l where l: "fold limiter_step ops (Some l0) = Some l" "limiter_ok l"
    using limiter_run_ok[OF NewAuthRateLimiter_ok[OF assms]] by blast
  have "length (rl_attempts l) \<le> Suc (own_entries l)" using l(2) by (intro own_entries_bound) (simp add: limiter_ok_def)
  also have "\<dots> \<le> maxAuthRateLimitEntries" using l(2) by (simp add: limiter_ok_def maxAuthRateLimitEntries_def)
  finally show ?thesis using l by (auto simp: limiter_ok_def)
qed

theorem limiter_bounded_witness:
  "\<exists>l. fold limiter_step [OpFail 5 ''1.2.3.4'' ''bob''] (NewAuthRateLimiter 1 60 60) = Some l
    \<and> length (rl_attempts l) \<le> maxAuthRateLimitEntries"
proof -
  obtain l0 where l0: "NewAuthRateLimiter 1 60 60 = Some l0" by (simp add: NewAuthRateLimiter_def)
  from limiter_bounded[OF l0, of "[OpFail 5 ''1.2.3.4'' ''bob'']"] l0 show ?thesis by auto
qed

fun record_all :: "string \<Rightarrow> (int \<times> string) list \<Rightarrow> auth_rate_limiter option \<Rightarrow> auth_rate_limiter option" where
  "record_all ip [] l = l"
| "record_all ip ((t, account) # evs) l = record_all ip evs (RecordFailure l t ip account)"

text \<open>The entry of an address that fails at \<open>t\<close> for the n-th time in a window begun at \<open>w\<close>.\<close>

definition counting :: "auth_rate_limiter \<Rightarrow> string \<Rightarrow> int \<Rightarrow> nat \<Rightarrow> int \<Rightarrow> bool" where
  "counting l key w n t \<longleftrightarrow>
    (\<exists>st. map_of (rl_attempts l) key = Some st \<and> as_windowStart st = Some w \<and> as_failures st = int n \<and>
      (rl_maxAttempts l \<le> int n \<longrightarrow> as_blockedUntil st = Some (t + rl_block l)))"

lemma map_of_cleanup:
  "wf_map (rl_attempts l) \<Longrightarrow> map_of (rl_attempts l) key = Some st \<Longrightarrow>
   \<not> window_expired l now st \<or> \<not> block_expired now st \<Longrightarrow>
   map_of (rl_attempts (cleanupExpiredLocked l now force)) key = Some st"
  by (simp add: cleanupExpiredLocked_def map_of_filter)

lemma map_of_cleanup_None:
  "wf_map (rl_attempts l) \<Longrightarrow> map_of (rl_attempts l) key = None \<Longrightarrow>
   map_of (rl_attempts (cleanupExpiredLocked l now force)) key = None"
  by (simp add: cleanupExpiredLocked_def map_of_filter)

lemma record_entry_counts:
  "as_windowStart (record_entry l now account zero_attempt) = Some now"
  "as_failures (record_entry l now account zero_attempt) = 1"
  "as_windowStart st = Some w \<Longrightarrow> now - w \<le> rl_window l \<Longrightarrow>
     as_windowStart (record_entry l now account st) = Some w \<and> as_failures (record_entry l now account st) = as_failures st + 1"
  "rl_maxAttempts l \<le> as_failures (record_entry l now account st) \<Longrightarrow>
     as_blockedUntil (record_entry l now account st) = Some (now + rl_block l)"
  by (auto simp: record_entry_eq window_entry_def zero_attempt_def window_expired_def Let_def split: if_splits)

lemma record_entry_cleanup [simp]:
  "record_entry (cleanupExpiredLocked l t force) now account st = record_entry l now account st"
proof -
  have "window_expired (cleanupExpiredLocked l t force) now st = window_expired l now st"
    by (cases "as_windowStart st") (simp_all add: window_expired_def)
  then show ?thesis by (simp add: record_entry_eq window_entry_def Let_def)
qed

lemma counting_start:
  assumes "limiter_ok l" "map_of (rl_attempts l) (authRateLimitKey ip) = None"
    "length (rl_attempts l) < maxAuthRateLimitEntries - 1"
  shows "\<exists>l'. RecordFailure (Some l) t ip account = Some l' \<and> limiter_ok l' \<and> counting l' (authRateLimitKey ip) t 1 t
    \<and> rl_maxAttempts l' = rl_maxAttempts l \<and> rl_window l' = rl_window l \<and> rl_block l' = rl_block l"
proof -
  define c where "c = cleanupExpiredLocked l t (maxAuthRateLimitEntries - 1 \<le> length (rl_attempts l))"
  have w: "wf_map (rl_attempts l)" using assms(1) by (simp add: limiter_ok_def)
  have cn: "map_of (rl_attempts c) (authRateLimitKey ip) = None" unfolding c_def by (rule map_of_cleanup_None[OF w assms(2)])
  have "length (rl_attempts c) \<le> length (rl_attempts l)" by (simp add: c_def cleanupExpiredLocked_def)
  then have k: "trackedKeyLocked c ip = authRateLimitKey ip" using assms(3) by (simp add: trackedKeyLocked_def Let_def)
  have z: "attempt_at c (authRateLimitKey ip) = zero_attempt" by (simp add: attempt_at_def cn)
  define l' where "l' = c\<lparr>rl_attempts := AList.update (authRateLimitKey ip) (record_entry c t account zero_attempt) (rl_attempts c)\<rparr>"
  have r: "RecordFailure (Some l) t ip account = Some l'"
    by (simp add: RecordFailure_entry c_def[symmetric] k z l'_def Let_def del: One_nat_def)
  have "counting l' (authRateLimitKey ip) t 1 t"
    using record_entry_counts[where l = c and now = t and account = account] by (auto simp: counting_def l'_def)
  then show ?thesis using r RecordFailure_ok[OF assms(1) r] by (simp add: l'_def c_def)
qed

lemma counting_step:
  assumes ok: "limiter_ok l" and c: "counting l (authRateLimitKey ip) w n t0" and t: "t - w \<le> rl_window l"
  shows "\<exists>l'. RecordFailure (Some l) t ip account = Some l' \<and> limiter_ok l' \<and> counting l' (authRateLimitKey ip) w (Suc n) t
    \<and> rl_maxAttempts l' = rl_maxAttempts l \<and> rl_window l' = rl_window l \<and> rl_block l' = rl_block l"
proof -
  obtain st where st: "map_of (rl_attempts l) (authRateLimitKey ip) = Some st" "as_windowStart st = Some w" "as_failures st = int n"
    using c by (auto simp: counting_def)
  define d where "d = cleanupExpiredLocked l t (maxAuthRateLimitEntries - 1 \<le> length (rl_attempts l))"
  have w: "wf_map (rl_attempts l)" using ok by (simp add: limiter_ok_def)
  have dn: "map_of (rl_attempts d) (authRateLimitKey ip) = Some st" unfolding d_def
    by (rule map_of_cleanup[OF w st(1)]) (use st(2) t in \<open>simp add: window_expired_def\<close>)
  have k: "trackedKeyLocked d ip = authRateLimitKey ip" "attempt_at d (authRateLimitKey ip) = st"
    using dn by (simp_all add: trackedKeyLocked_def attempt_at_def Let_def)
  define l' where "l' = d\<lparr>rl_attempts := AList.update (authRateLimitKey ip) (record_entry d t account st) (rl_attempts d)\<rparr>"
  have r: "RecordFailure (Some l) t ip account = Some l'"
    by (simp add: RecordFailure_entry d_def[symmetric] k l'_def Let_def del: One_nat_def)
  have "counting l' (authRateLimitKey ip) w (Suc n) t"
    using record_entry_counts(3)[of st w t d account] record_entry_counts(4)[of d t account st] st t
    by (auto simp: counting_def l'_def d_def)
  then show ?thesis using r RecordFailure_ok[OF ok r] by (simp add: l'_def d_def)
qed

lemma counting_run:
  "limiter_ok l \<Longrightarrow> counting l (authRateLimitKey ip) w n t0 \<Longrightarrow> \<forall>e\<in>set evs. fst e - w \<le> rl_window l \<Longrightarrow>
   \<exists>l'. record_all ip evs (Some l) = Some l' \<and> limiter_ok l' \<and>
     counting l' (authRateLimitKey ip) w (n + length evs) (last (t0 # map fst evs)) \<and>
     rl_maxAttempts l' = rl_maxAttempts l \<and> rl_block l' = rl_block l"
proof (induction evs arbitrary: l n t0)
  case (Cons e evs)
  obtain t account where e: "e = (t, account)" by (cases e)
  obtain l' where l': "RecordFailure (Some l) t ip account = Some l'" "limiter_ok l'"
    "counting l' (authRateLimitKey ip) w (Suc n) t" "rl_maxAttempts l' = rl_maxAttempts l"
    "rl_window l' = rl_window l" "rl_block l' = rl_block l"
    using counting_step[OF Cons.prems(1,2), of t account] Cons.prems(3) by (auto simp: e)
  show ?case using Cons.IH[OF l'(2,3)] Cons.prems(3) l' by (auto simp: e)
qed auto

text \<open>
  An address that fails to log in \<open>maxAttempts\<close> times or more within one window, with
  whatever accounts, is refused from its last failure on for the whole block duration, and
  is told exactly the time that remains.
\<close>

theorem lockout:
  assumes "limiter_ok l" "map_of (rl_attempts l) (authRateLimitKey ip) = None"
    "length (rl_attempts l) < maxAuthRateLimitEntries - 1"
    "\<forall>e\<in>set evs. fst e - t \<le> rl_window l" "rl_maxAttempts l \<le> 1 + int (length evs)"
    "now < last (t # map fst evs) + rl_block l"
  shows "\<exists>l' l''. record_all ip ((t, account) # evs) (Some l) = Some l' \<and>
    Allow (Some l') now ip = (l'', last (t # map fst evs) + rl_block l - now, False)"
proof -
  obtain l1 where l1: "RecordFailure (Some l) t ip account = Some l1" "limiter_ok l1"
    "counting l1 (authRateLimitKey ip) t 1 t" "rl_maxAttempts l1 = rl_maxAttempts l"
    "rl_window l1 = rl_window l" "rl_block l1 = rl_block l"
    using counting_start[OF assms(1-3)] by blast
  obtain l' where l': "record_all ip evs (Some l1) = Some l'" "limiter_ok l'"
    "counting l' (authRateLimitKey ip) t (1 + length evs) (last (t # map fst evs))"
    "rl_maxAttempts l' = rl_maxAttempts l" "rl_block l' = rl_block l"
    using counting_run[OF l1(2,3)] assms(4) l1 by fastforce
  obtain st where st: "map_of (rl_attempts l') (authRateLimitKey ip) = Some st"
    "as_blockedUntil st = Some (last (t # map fst evs) + rl_block l)"
    using l' assms(5) by (auto simp: counting_def)
  define c where "c = cleanupExpiredLocked l' now False"
  have "map_of (rl_attempts c) (authRateLimitKey ip) = Some st" unfolding c_def
    by (rule map_of_cleanup) (use l'(2) st assms(6) in \<open>auto simp: limiter_ok_def block_expired_def\<close>)
  then have "trackedKeyLocked c ip = authRateLimitKey ip" "attempt_at c (authRateLimitKey ip) = st"
    by (simp_all add: trackedKeyLocked_def attempt_at_def Let_def)
  then have "Allow (Some l') now ip = (Some c, last (t # map fst evs) + rl_block l - now, False)"
    using st assms(6) by (simp add: Allow_def c_def[symmetric] Let_def)
  then show ?thesis using l' l1 by simp
qed

theorem lockout_witness:
  "\<exists>l' l''. record_all ''1.2.3.4'' [(0, ''bob''), (7, ''amy'')] (NewAuthRateLimiter 2 60 100) = Some l' \<and>
    Allow (Some l') 50 ''1.2.3.4'' = (l'', 57, False)"
proof -
  obtain l0 where l0: "NewAuthRateLimiter 2 60 100 = Some l0"
    and f: "rl_attempts l0 = []" "rl_window l0 = 60" "rl_maxAttempts l0 = 2" "rl_block l0 = 100"
    by (auto simp: NewAuthRateLimiter_def)
  show ?thesis
    using lockout[OF NewAuthRateLimiter_ok[OF l0], of "''1.2.3.4''" "[(7, ''amy'')]" 0 50 "''bob''"]
    by (simp add: f l0 maxAuthRateLimitEntries_def)
qed

end
