(* ===== verification/GoJson.thy ===== *)
theory GoJson
  imports GoBase
begin

text \<open>
  JSON values as the program passes them in \<^verbatim>\<open>interface{}\<close> payloads, and the
  encoder \<^verbatim>\<open>encoding/json.Marshal\<close> with its default HTML escaping and sorted map
  keys.  \<open>JInt\<close> is a number that is an integer, \<open>JNum\<close> any other number, by
  its literal; the rounding of a literal that is no \<^verbatim>\<open>float64\<close> is not modelled (the
  program reads only small integers back).  An object stands for a
  \<^verbatim>\<open>map[string]interface{}\<close>; a struct payload is the object of its fields, whose
  encoding has the same length.
\<close>

datatype jv = JNull | JBool bool | JInt int | JNum string | JStr string | JArr "jv list" | JObj "(string \<times> jv) list"

definition hex_digit :: "nat \<Rightarrow> char" where
  "hex_digit n = (if n < 10 then char_of (48 + n) else char_of (87 + n))"

definition u_escape :: "nat \<Rightarrow> string" where
  "u_escape r = [CHR 0x5C, CHR ''u'', hex_digit (r div 4096 mod 16), hex_digit (r div 256 mod 16),
     hex_digit (r div 16 mod 16), hex_digit (r mod 16)]"

definition json_esc :: "nat \<times> string \<Rightarrow> string" where
  "json_esc p =
    (let r = fst p; b = snd p in
     if r = 34 then [CHR 0x5C, CHR 0x22]
     else if r = 92 then [CHR 0x5C, CHR 0x5C]
     else if r = 8 then [CHR 0x5C, CHR ''b'']
     else if r = 12 then [CHR 0x5C, CHR ''f'']
     else if r = 10 then [CHR 0x5C, CHR ''n'']
     else if r = 13 then [CHR 0x5C, CHR ''r'']
     else if r = 9 then [CHR 0x5C, CHR ''t'']
     else if r < 32 \<or> r = 60 \<or> r = 62 \<or> r = 38 \<or> r = 8232 \<or> r = 8233 then u_escape r
     else if r = rune_error \<and> length b = 1 then u_escape rune_error
     else b)"

definition json_str :: "string \<Rightarrow> string" where
  "json_str s = [CHR 0x22] @ concat (map json_esc (segs s)) @ [CHR 0x22]"

fun comma_sep :: "string list \<Rightarrow> string" where
  "comma_sep [] = []"
| "comma_sep [x] = x"
| "comma_sep (x # y # xs) = x @ '','' @ comma_sep (y # xs)"

definition json_field :: "string \<Rightarrow> string \<Rightarrow> string" where
  "json_field k v = json_str k @ '':'' @ v"

definition json_object :: "(string \<times> string) list \<Rightarrow> string" where
  "json_object kvs = ''{'' @ comma_sep (map (\<lambda>(k, v). json_field k v) kvs) @ ''}''"

definition json_array :: "string list \<Rightarrow> string" where
  "json_array xs = ''['' @ comma_sep xs @ '']''"

fun json_enc :: "jv \<Rightarrow> string" where
  "json_enc JNull = ''null''"
| "json_enc (JBool b) = (if b then ''true'' else ''false'')"
| "json_enc (JInt i) = itoa i"
| "json_enc (JNum n) = (if n = [] then ''0'' else n)"
| "json_enc (JStr s) = json_str s"
| "json_enc (JArr xs) = json_array (map json_enc xs)"
| "json_enc (JObj kvs) = json_object (sort_key fst (map (\<lambda>p. (fst p, json_enc (snd p))) kvs))"

lemma json_str_not_Nil [simp]: "json_str s \<noteq> []"
  by (simp add: json_str_def)

lemma json_object_not_Nil [simp]: "json_object kvs \<noteq> []"
  by (simp add: json_object_def)

lemma json_enc_not_Nil [simp]: "json_enc v \<noteq> []"
  by (cases v) (auto simp: itoa_def json_array_def)

text \<open>\<^verbatim>\<open>payload[key].(string)\<close> and the like: \<open>None\<close> is a failed assertion.\<close>

definition str_at :: "(string \<times> jv) list \<Rightarrow> string \<Rightarrow> string option" where
  "str_at m k = (case map_of m k of Some (JStr s) \<Rightarrow> Some s | _ \<Rightarrow> None)"

definition bool_at :: "(string \<times> jv) list \<Rightarrow> string \<Rightarrow> bool option" where
  "bool_at m k = (case map_of m k of Some (JBool b) \<Rightarrow> Some b | _ \<Rightarrow> None)"

definition value_at :: "(string \<times> jv) list \<Rightarrow> string \<Rightarrow> jv" where
  "value_at m k = (case map_of m k of Some v \<Rightarrow> v | None \<Rightarrow> JNull)"

section \<open>Validity\<close>

text \<open>
  \<^verbatim>\<open>json.Valid\<close>: a recogniser of one JSON value with white space around it.  Each
  function gives what is left after what it recognised.  The first argument bounds the steps (twice
  the length of the text is enough), the second the nesting (10000 in the library).
\<close>

fun skip_ws :: "string \<Rightarrow> string" where
  "skip_ws [] = []"
| "skip_ws (c # cs) = (if c \<in> {CHR '' '', CHR 0x09, CHR 0x0A, CHR 0x0D} then skip_ws cs else c # cs)"

definition is_digit :: "char \<Rightarrow> bool" where
  "is_digit c \<longleftrightarrow> 48 \<le> (of_char c :: nat) \<and> (of_char c :: nat) \<le> 57"

definition is_hex :: "char \<Rightarrow> bool" where
  "is_hex c \<longleftrightarrow> is_digit c \<or> 65 \<le> (of_char c :: nat) \<and> (of_char c :: nat) \<le> 70 \<or> 97 \<le> (of_char c :: nat) \<and> (of_char c :: nat) \<le> 102"

fun jp_string :: "string \<Rightarrow> string option" where
  "jp_string [] = None"
| "jp_string (c # cs) =
     (if c = CHR 0x22 then Some cs
      else if c = CHR 0x5C then
        (case cs of
           [] \<Rightarrow> None
         | e # es \<Rightarrow>
             if e \<in> {CHR 0x22, CHR 0x5C, CHR ''/'', CHR ''b'', CHR ''f'', CHR ''n'', CHR ''r'', CHR ''t''} then jp_string es
             else if e = CHR ''u'' then
               (case es of h1 # h2 # h3 # h4 # rest \<Rightarrow> if list_all is_hex [h1, h2, h3, h4] then jp_string rest else None
                | _ \<Rightarrow> None)
             else None)
      else if (of_char c :: nat) < 32 then None else jp_string cs)"

definition jp_digits :: "string \<Rightarrow> string option" where
  "jp_digits s = (case s of [] \<Rightarrow> None | c # cs \<Rightarrow> if is_digit c then Some (dropWhile is_digit cs) else None)"

definition jp_exp :: "string \<Rightarrow> string option" where
  "jp_exp s = (case s of
     c # cs \<Rightarrow> if c \<in> {CHR ''e'', CHR ''E''}
       then (case cs of d # ds \<Rightarrow> if d \<in> {CHR ''+'', CHR ''-''} then jp_digits ds else jp_digits cs | [] \<Rightarrow> None)
       else Some s
   | [] \<Rightarrow> Some s)"

definition jp_frac :: "string \<Rightarrow> string option" where
  "jp_frac s = (case s of c # cs \<Rightarrow> if c = CHR ''.'' then Option.bind (jp_digits cs) jp_exp else jp_exp s | [] \<Rightarrow> Some s)"

definition jp_number :: "string \<Rightarrow> string option" where
  "jp_number s0 =
    (let s = (case s0 of c # cs \<Rightarrow> if c = CHR ''-'' then cs else s0 | [] \<Rightarrow> s0)
     in case s of
          [] \<Rightarrow> None
        | c # cs \<Rightarrow> if c = CHR ''0'' then jp_frac cs else if is_digit c then jp_frac (dropWhile is_digit cs) else None)"

definition jp_literal :: "string \<Rightarrow> string \<Rightarrow> string option" where
  "jp_literal w s = (if has_prefix s w then Some (drop (length w) s) else None)"

fun jp_value :: "nat \<Rightarrow> nat \<Rightarrow> string \<Rightarrow> string option"
  and jp_elems :: "nat \<Rightarrow> nat \<Rightarrow> string \<Rightarrow> string option"
  and jp_members :: "nat \<Rightarrow> nat \<Rightarrow> string \<Rightarrow> string option" where
  "jp_value 0 d s = None"
| "jp_value (Suc n) d s =
     (case s of
        [] \<Rightarrow> None
      | c # cs \<Rightarrow>
          if c = CHR 0x22 then jp_string cs
          else if c = CHR ''{'' then
            (if d = 0 then None
             else (case skip_ws cs of x # xs \<Rightarrow> if x = CHR ''}'' then Some xs else jp_members n (d - 1) (x # xs) | [] \<Rightarrow> None))
          else if c = CHR ''['' then
            (if d = 0 then None
             else (case skip_ws cs of x # xs \<Rightarrow> if x = CHR '']'' then Some xs else jp_elems n (d - 1) (x # xs) | [] \<Rightarrow> None))
          else if c = CHR ''t'' then jp_literal ''true'' s
          else if c = CHR ''f'' then jp_literal ''false'' s
          else if c = CHR ''n'' then jp_literal ''null'' s
          else jp_number s)"
| "jp_elems 0 d s = None"
| "jp_elems (Suc n) d s =
     (case jp_value n d s of
        None \<Rightarrow> None
      | Some r \<Rightarrow> (case skip_ws r of
          x # xs \<Rightarrow> if x = CHR '']'' then Some xs else if x = CHR '','' then jp_elems n d (skip_ws xs) else None
        | [] \<Rightarrow> None))"
| "jp_members 0 d s = None"
| "jp_members (Suc n) d s =
     (case s of
        [] \<Rightarrow> None
      | q # qs \<Rightarrow>
          if q \<noteq> CHR 0x22 then None
          else (case jp_string qs of
              None \<Rightarrow> None
            | Some r \<Rightarrow> (case skip_ws r of
                x # xs \<Rightarrow>
                  if x \<noteq> CHR '':'' then None
                  else (case jp_value n d (skip_ws xs) of
                      None \<Rightarrow> None
                    | Some r' \<Rightarrow> (case skip_ws r' of
                        y # ys \<Rightarrow> if y = CHR ''}'' then Some ys else if y = CHR '','' then jp_members n d (skip_ws ys) else None
                      | [] \<Rightarrow> None))
              | [] \<Rightarrow> None)))"

definition json_valid :: "string \<Rightarrow> bool" where
  "json_valid s = (case jp_value (2 * length s + 2) 10000 (skip_ws s) of None \<Rightarrow> False | Some r \<Rightarrow> skip_ws r = [])"

end
