(* ===== verification/JsonDecode.thy ===== *)
theory JsonDecode
  imports GoJson
begin

text \<open>
  The decoder \<^verbatim>\<open>encoding/json.Unmarshal\<close> into \<^verbatim>\<open>interface{}\<close>,
  over the recognisers of GoJson: each function gives the value and what is left of the text.  The
  steps are bounded as there (twice the length of the text, nesting 10000).  A decoded object is a
  Go map: of a repeated key the last value stays.
\<close>

section \<open>Strings and numbers\<close>

definition hex_val :: "nat \<Rightarrow> nat" where
  "hex_val r = (if r \<le> 57 then r - 48 else if r \<le> 70 then r - 55 else r - 87)"

definition hex4 :: "nat \<Rightarrow> nat \<Rightarrow> nat \<Rightarrow> nat \<Rightarrow> nat" where
  "hex4 a b c d = ((hex_val a * 16 + hex_val b) * 16 + hex_val c) * 16 + hex_val d"

definition simple_escape :: "nat \<Rightarrow> nat" where
  "simple_escape r = (if r = 98 then 8 else if r = 102 then 12 else if r = 110 then 10 else if r = 114 then 13
     else if r = 116 then 9 else r)"

definition high_surrogate :: "nat \<Rightarrow> bool" where
  "high_surrogate r \<longleftrightarrow> 55296 \<le> r \<and> r < 56320"

definition low_surrogate :: "nat \<Rightarrow> bool" where
  "low_surrogate r \<longleftrightarrow> 56320 \<le> r \<and> r < 57344"

text \<open>
  The runes of the text between the quotes give the runes of the string.  Half of a surrogate pair
  is U+FFFD.  The \<open>unq_low\<close> case has read a high half.
\<close>

fun unq :: "nat list \<Rightarrow> nat list" and unq_low :: "nat \<Rightarrow> nat list \<Rightarrow> nat list" where
  "unq [] = []"
| "unq [r] = [r]"
| "unq (r # e # rs) =
     (if r \<noteq> 92 then r # unq (e # rs)
      else if e \<noteq> 117 then simple_escape e # unq rs
      else (case rs of
          a # b # c # d # rest \<Rightarrow>
            (let u = hex4 a b c d in
             if high_surrogate u then unq_low u rest else (if low_surrogate u then rune_error else u) # unq rest)
        | _ \<Rightarrow> []))"
| "unq_low u (s # v # a # b # c # d # rest) =
     (if s = 92 \<and> v = 117 \<and> low_surrogate (hex4 a b c d)
      then (65536 + (u - 55296) * 1024 + (hex4 a b c d - 56320)) # unq rest
      else rune_error # unq (s # v # a # b # c # d # rest))"
| "unq_low u rs = rune_error # unq rs"

definition jd_string :: "string \<Rightarrow> (string \<times> string) option" where
  "jd_string s = (case jp_string s of
     None \<Rightarrow> None
   | Some rest \<Rightarrow> Some (str_of_runes (unq (runes (take (length s - length rest - 1) s))), rest))"

definition digit_val :: "char \<Rightarrow> int" where
  "digit_val c = of_char c - 48"

definition digits_val :: "string \<Rightarrow> int" where
  "digits_val ds = foldl (\<lambda>n c. n * 10 + digit_val c) 0 ds"

text \<open>\<^verbatim>\<open>float64\<close> to \<^verbatim>\<open>int\<close>: the literal cut off towards zero (rounding to the
  nearest double first is not modelled).\<close>

definition literal_trunc :: "string \<Rightarrow> int" where
  "literal_trunc lit0 =
    (let neg = (case lit0 of c # cs \<Rightarrow> c = CHR ''-'' | [] \<Rightarrow> False);
         lit = (if neg then tl lit0 else lit0);
         ip = takeWhile is_digit lit; r1 = dropWhile is_digit lit;
         fp = (case r1 of c # cs \<Rightarrow> if c = CHR ''.'' then takeWhile is_digit cs else [] | [] \<Rightarrow> []);
         r2 = (case r1 of c # cs \<Rightarrow> if c = CHR ''.'' then dropWhile is_digit cs else r1 | [] \<Rightarrow> []);
         ex = (case r2 of e # s # ds \<Rightarrow> if s = CHR ''-'' then - digits_val ds
                 else if s = CHR ''+'' then digits_val ds else digits_val (s # ds) | _ \<Rightarrow> 0);
         k = ex - int (length fp); m = digits_val (ip @ fp);
         mag = (if k \<ge> 0 then m * 10 ^ nat k else m div 10 ^ nat (- k))
     in if neg then - mag else mag)"

definition number_of_literal :: "string \<Rightarrow> jv" where
  "number_of_literal lit =
    (if list_all is_digit lit then JInt (digits_val lit)
     else if hd lit = CHR ''-'' \<and> list_all is_digit (tl lit) then JInt (- digits_val (tl lit))
     else JNum lit)"

definition jd_number :: "string \<Rightarrow> (jv \<times> string) option" where
  "jd_number s = (case jp_number s of
     None \<Rightarrow> None
   | Some rest \<Rightarrow> Some (number_of_literal (take (length s - length rest) s), rest))"

section \<open>Values\<close>

definition jd_literal :: "string \<Rightarrow> jv \<Rightarrow> string \<Rightarrow> (jv \<times> string) option" where
  "jd_literal w v s = map_option (\<lambda>r. (v, r)) (jp_literal w s)"

fun jd_value :: "nat \<Rightarrow> nat \<Rightarrow> string \<Rightarrow> (jv \<times> string) option"
  and jd_elems :: "nat \<Rightarrow> nat \<Rightarrow> string \<Rightarrow> (jv list \<times> string) option"
  and jd_members :: "nat \<Rightarrow> nat \<Rightarrow> (string \<times> jv) list \<Rightarrow> string \<Rightarrow> ((string \<times> jv) list \<times> string) option" where
  "jd_value 0 d s = None"
| "jd_value (Suc n) d s =
     (case s of
        [] \<Rightarrow> None
      | c # cs \<Rightarrow>
          if c = CHR 0x22 then map_option (\<lambda>(v, r). (JStr v, r)) (jd_string cs)
          else if c = CHR ''{'' then
            (if d = 0 then None
             else (case skip_ws cs of
                 x # xs \<Rightarrow> if x = CHR ''}'' then Some (JObj [], xs)
                   else map_option (\<lambda>(m, r). (JObj m, r)) (jd_members n (d - 1) [] (x # xs))
               | [] \<Rightarrow> None))
          else if c = CHR ''['' then
            (if d = 0 then None
             else (case skip_ws cs of
                 x # xs \<Rightarrow> if x = CHR '']'' then Some (JArr [], xs)
                   else map_option (\<lambda>(m, r). (JArr m, r)) (jd_elems n (d - 1) (x # xs))
               | [] \<Rightarrow> None))
          else if c = CHR ''t'' then jd_literal ''true'' (JBool True) s
          else if c = CHR ''f'' then jd_literal ''false'' (JBool False) s
          else if c = CHR ''n'' then jd_literal ''null'' JNull s
          else jd_number s)"
| "jd_elems 0 d s = None"
| "jd_elems (Suc n) d s =
     (case jd_value n d s of
        None \<Rightarrow> None
      | Some (v, r) \<Rightarrow> (case skip_ws r of
          x # xs \<Rightarrow>
            if x = CHR '']'' then Some ([v], xs)
            else if x = CHR '','' then map_option (\<lambda>(vs, r). (v # vs, r)) (jd_elems n d (skip_ws xs))
            else None
        | [] \<Rightarrow> None))"
| "jd_members 0 d m s = None"
| "jd_members (Suc n) d m s =
     (case s of
        [] \<Rightarrow> None
      | q # qs \<Rightarrow>
          if q \<noteq> CHR 0x22 then None
          else (case jd_string qs of
              None \<Rightarrow> None
            | Some (k, r) \<Rightarrow> (case skip_ws r of
                x # xs \<Rightarrow>
                  if x \<noteq> CHR '':'' then None
                  else (case jd_value n d (skip_ws xs) of
                      None \<Rightarrow> None
                    | Some (v, r') \<Rightarrow> (case skip_ws r' of
                        y # ys \<Rightarrow>
                          if y = CHR ''}'' then Some (AList.update k v m, ys)
                          else if y = CHR '','' then jd_members n d (AList.update k v m) (skip_ws ys)
                          else None
                      | [] \<Rightarrow> None))
              | [] \<Rightarrow> None)))"

definition json_dec :: "string \<Rightarrow> jv option" where
  "json_dec s = (case jd_value (2 * length s + 2) 10000 (skip_ws s) of
     None \<Rightarrow> None
   | Some (v, r) \<Rightarrow> if skip_ws r = [] then Some v else None)"

text \<open>
  \<^verbatim>\<open>json.Unmarshal\<close> into a \<^verbatim>\<open>map[string]interface{}\<close>: \<open>None\<close> is
  an error, the nil map of a \<^verbatim>\<open>null\<close> is the empty one.
\<close>

definition unmarshal_map :: "string \<Rightarrow> (string \<times> jv) list option" where
  "unmarshal_map s = (case json_dec s of Some (JObj m) \<Rightarrow> Some m | Some JNull \<Rightarrow> Some [] | _ \<Rightarrow> None)"

definition coalesce :: "'a option \<Rightarrow> 'a \<Rightarrow> 'a" where
  "coalesce x d = (case x of None \<Rightarrow> d | Some v \<Rightarrow> v)"

definition obj_fields :: "jv \<Rightarrow> (string \<times> jv) list" where
  "obj_fields v = (case v of JObj m \<Rightarrow> m | _ \<Rightarrow> [])"

definition arr_at :: "(string \<times> jv) list \<Rightarrow> string \<Rightarrow> jv list" where
  "arr_at m k = (case map_of m k of Some (JArr xs) \<Rightarrow> xs | _ \<Rightarrow> [])"

lemma arr_at_update [simp]: "arr_at (AList.update k v m) k' = (if k' = k then (case v of JArr xs \<Rightarrow> xs | _ \<Rightarrow> []) else arr_at m k')"
  by (simp add: arr_at_def)

lemma arr_at_delete [simp]: "arr_at (AList.delete k m) k' = (if k' = k then [] else arr_at m k')"
  by (simp add: arr_at_def)

lemma obj_fields_simps [simp]: "obj_fields (JObj m) = m"
  by (simp add: obj_fields_def)

text \<open>The decimal digits of a number denote it, and start with 0 only for 0.\<close>

definition digit_fact :: "nat \<Rightarrow> bool" where
  "digit_fact n \<longleftrightarrow> is_digit (char_of (48 + n)) \<and> digit_val (char_of (48 + n)) = int n \<and> (0 < n \<longrightarrow> char_of (48 + n) \<noteq> CHR ''0'')"

lemma digit_facts: "list_all digit_fact [0, 1, 2, 3, 4, 5, 6, 7, 8, 9]"
  by code_simp

lemma digit_char:
  assumes "n < 10"
  shows "is_digit (char_of (48 + n)) \<and> digit_val (char_of (48 + n)) = int n \<and> (0 < n \<longrightarrow> char_of (48 + n) \<noteq> CHR ''0'')"
proof -
  have "n \<in> set [0, 1, 2, 3, 4, 5, 6, 7, 8, 9]" using assms by auto
  then have "digit_fact n" using digit_facts unfolding list_all_iff by blast
  then show ?thesis by (rule digit_fact_def[THEN iffD1])
qed

lemma digits_val_snoc: "digits_val (ds @ [c]) = digits_val ds * 10 + digit_val c"
  by (simp add: digits_val_def)

lemma nat_digits_val: "list_all is_digit (nat_digits n) \<and> digits_val (nat_digits n) = int n"
proof (induction n rule: nat_digits.induct)
  case (1 n)
  show ?case
  proof (cases "n < 10")
    case True
    then show ?thesis using digit_char[OF True] by (subst (1 2) nat_digits.simps) (simp add: digits_val_def)
  next
    case False
    have "int n = int (n div 10) * 10 + int (n mod 10)" by presburger
    then show ?thesis using False "1.IH"[OF False] digit_char[of "n mod 10"]
      by (subst (1 2) nat_digits.simps) (simp add: digits_val_snoc)
  qed
qed

lemma nat_digits_hd: "0 < n \<Longrightarrow> hd (nat_digits n) \<noteq> CHR ''0''"
proof (induction n rule: nat_digits.induct)
  case (1 n)
  show ?case
  proof (cases "n < 10")
    case True
    note digit_char[OF True]
    then show ?thesis using True 1(2) by (subst nat_digits.simps) simp
  next
    case False
    then show ?thesis using "1.IH"[OF False] by (subst nat_digits.simps) (simp add: hd_append)
  qed
qed

end
