(* ===== verification/RunEvents.thy ===== *)
theory RunEvents
  imports JsonDecode
begin

text \<open>
  The event log of one run and the output assembled from it
  (\<^verbatim>\<open>internal/service/run_hub.go\<close>, \<^verbatim>\<open>applyEvent\<close> down to
  \<^verbatim>\<open>cacheBytes\<close>).  \<open>run_output\<close> groups the fields of
  \<^verbatim>\<open>RunSnapshot\<close> that \<^verbatim>\<open>rebuildCachedOutputLocked\<close> clears and
  replays; \<open>run_log\<close> groups the fields \<^verbatim>\<open>trimLocked\<close> works on.  A tool call is the
  map with the keys id, name, status and, once there is one, result.
\<close>

record run_event =
  ev_cursor :: int
  ev_event :: string
  ev_data :: jv

record tool_call =
  tc_id :: string
  tc_name :: string
  tc_status :: string
  tc_result :: "jv option"

record run_segment =
  seg_type :: string
  seg_content :: string
  seg_thinking :: string
  seg_tools :: "tool_call list"

record run_output =
  out_content :: string
  out_thinking :: string
  out_tool_calls :: "tool_call list"
  out_segments :: "run_segment list"
  out_error :: string
  out_error_code :: string
  out_request_id :: string

definition empty_output :: run_output where
  "empty_output = \<lparr>out_content = [], out_thinking = [], out_tool_calls = [], out_segments = [],
     out_error = [], out_error_code = [], out_request_id = []\<rparr>"

text \<open>\<^verbatim>\<open>toMap\<close>: a value that is no object gives an empty map.\<close>

fun toMap :: "jv \<Rightarrow> (string \<times> jv) list" where
  "toMap (JObj m) = m"
| "toMap v = []"

fun intFromPayload :: "jv \<Rightarrow> int" where
  "intFromPayload (JInt i) = i"
| "intFromPayload (JNum lit) = literal_trunc lit"
| "intFromPayload v = 0"

definition trimTrailingRunes :: "string \<Rightarrow> int \<Rightarrow> string" where
  "trimTrailingRunes value count =
    (if count \<le> 0 \<or> value = [] then value
     else (let rs = runes value in
       if count \<ge> int (length rs) then [] else str_of_runes (take (length rs - nat count) rs)))"

definition appendContentSegment :: "run_segment list \<Rightarrow> string \<Rightarrow> run_segment list" where
  "appendContentSegment segments delta =
    (if delta = [] then segments
     else if segments \<noteq> [] \<and> seg_type (last segments) = ''content'' \<and> seg_thinking (last segments) = []
     then butlast segments @ [(last segments)\<lparr>seg_content := seg_content (last segments) @ delta\<rparr>]
     else segments @ [\<lparr>seg_type = ''content'', seg_content = delta, seg_thinking = [], seg_tools = []\<rparr>])"

definition appendThinkingSegment :: "run_segment list \<Rightarrow> string \<Rightarrow> run_segment list" where
  "appendThinkingSegment segments delta =
    (if delta = [] then segments
     else if segments \<noteq> [] \<and> seg_type (last segments) = ''content'' \<and> seg_content (last segments) = []
     then butlast segments @ [(last segments)\<lparr>seg_thinking := seg_thinking (last segments) @ delta\<rparr>]
     else segments @ [\<lparr>seg_type = ''content'', seg_content = [], seg_thinking = delta, seg_tools = []\<rparr>])"

definition appendToolCallSegment :: "run_segment list \<Rightarrow> tool_call \<Rightarrow> run_segment list" where
  "appendToolCallSegment segments tc =
    (if segments \<noteq> [] \<and> seg_type (last segments) = ''tool''
     then butlast segments @ [(last segments)\<lparr>seg_tools := seg_tools (last segments) @ [tc]\<rparr>]
     else segments @ [\<lparr>seg_type = ''tool'', seg_content = [], seg_thinking = [], seg_tools = [tc]\<rparr>])"

definition tool_done :: "jv \<Rightarrow> tool_call \<Rightarrow> tool_call" where
  "tool_done result tc = tc\<lparr>tc_result := Some result, tc_status := ''done''\<rparr>"

text \<open>The first tool call with the id is finished; the others stay.\<close>

fun finish_tool :: "string \<Rightarrow> jv \<Rightarrow> tool_call list \<Rightarrow> tool_call list" where
  "finish_tool i result [] = []"
| "finish_tool i result (tc # tcs) = (if tc_id tc = i then tool_done result tc # tcs else tc # finish_tool i result tcs)"

fun updateSegmentToolCall :: "string \<Rightarrow> jv \<Rightarrow> run_segment list \<Rightarrow> run_segment list" where
  "updateSegmentToolCall i result [] = []"
| "updateSegmentToolCall i result (sg # sgs) =
     (if i \<in> tc_id ` set (seg_tools sg) then sg\<lparr>seg_tools := finish_tool i result (seg_tools sg)\<rparr> # sgs
      else sg # updateSegmentToolCall i result sgs)"

text \<open>
  The backward loop of \<^verbatim>\<open>trimRunSegments\<close> over the reversed segments: the runes still to
  remove from the content and from the thinking.
\<close>

fun trim_segments_rev :: "int \<Rightarrow> int \<Rightarrow> run_segment list \<Rightarrow> run_segment list" where
  "trim_segments_rev remC remT [] = []"
| "trim_segments_rev remC remT (sg # sgs) =
     (if \<not> (remC > 0 \<or> remT > 0) then sg # sgs
      else if seg_type sg \<noteq> ''content'' then sg # trim_segments_rev remC remT sgs
      else
        (let cutC = (if remC > 0 \<and> seg_content sg \<noteq> [] then min (int (rune_count (seg_content sg))) remC else 0);
             cutT = (if remT > 0 \<and> seg_thinking sg \<noteq> [] then min (int (rune_count (seg_thinking sg))) remT else 0)
         in sg\<lparr>seg_content := trimTrailingRunes (seg_content sg) cutC,
               seg_thinking := trimTrailingRunes (seg_thinking sg) cutT\<rparr>
            # trim_segments_rev (remC - cutC) (remT - cutT) sgs))"

definition trimRunSegments :: "run_segment list \<Rightarrow> int \<Rightarrow> int \<Rightarrow> run_segment list" where
  "trimRunSegments segments contentRunes thinkingRunes =
    filter (\<lambda>sg. seg_type sg \<noteq> ''content'' \<or> seg_content sg \<noteq> [] \<or> seg_thinking sg \<noteq> [])
      (rev (trim_segments_rev (max contentRunes 0) (max thinkingRunes 0) (rev segments)))"

definition applyEvent :: "run_output \<Rightarrow> string \<Rightarrow> jv \<Rightarrow> run_output" where
  "applyEvent s event data =
    (let payload = toMap data in
     if event = ''content_delta'' then
       (case str_at payload ''delta'' of
          Some delta \<Rightarrow> s\<lparr>out_content := out_content s @ delta, out_segments := appendContentSegment (out_segments s) delta\<rparr>
        | None \<Rightarrow> s)
     else if event = ''thinking_delta'' then
       (case str_at payload ''delta'' of
          Some delta \<Rightarrow> s\<lparr>out_thinking := out_thinking s @ delta, out_segments := appendThinkingSegment (out_segments s) delta\<rparr>
        | None \<Rightarrow> s)
     else if event = ''assistant_attempt_reset'' then
       (let contentRunes = intFromPayload (value_at payload ''content_runes'');
            thinkingRunes = intFromPayload (value_at payload ''thinking_runes'')
        in s\<lparr>out_content := trimTrailingRunes (out_content s) contentRunes,
             out_thinking := trimTrailingRunes (out_thinking s) thinkingRunes,
             out_segments := trimRunSegments (out_segments s) contentRunes thinkingRunes\<rparr>)
     else if event = ''tool_call_start'' then
       (case str_at payload ''tool_call_id'' of
          None \<Rightarrow> s
        | Some i \<Rightarrow>
            if i = [] then s
            else (let tc = \<lparr>tc_id = i, tc_name = (case str_at payload ''tool_name'' of Some n \<Rightarrow> n | None \<Rightarrow> []),
                            tc_status = ''running'', tc_result = None\<rparr>
                  in s\<lparr>out_tool_calls := out_tool_calls s @ [tc], out_segments := appendToolCallSegment (out_segments s) tc\<rparr>))
     else if event = ''tool_call_result'' then
       (case str_at payload ''tool_call_id'' of
          None \<Rightarrow> s
        | Some i \<Rightarrow>
            if i = [] then s
            else s\<lparr>out_tool_calls := finish_tool i (value_at payload ''result'') (out_tool_calls s),
                   out_segments := updateSegmentToolCall i (value_at payload ''result'') (out_segments s)\<rparr>)
     else if event = ''error'' then
       s\<lparr>out_error := (case str_at payload ''error'' of Some t \<Rightarrow> t | None \<Rightarrow> out_error s),
         out_error_code := (case str_at payload ''code'' of Some t \<Rightarrow> t | None \<Rightarrow> out_error_code s),
         out_request_id := (case str_at payload ''request_id'' of Some t \<Rightarrow> t | None \<Rightarrow> out_request_id s)\<rparr>
     else s)"

definition apply_entry :: "run_output \<Rightarrow> run_event \<Rightarrow> run_output" where
  "apply_entry s e = applyEvent s (ev_event e) (ev_data e)"

section \<open>The bounded event cache\<close>

record run_log =
  lg_events :: "run_event list"
  lg_bytes :: int
  lg_cursor :: int
  lg_replay_from :: int
  lg_output_truncated :: bool
  lg_output :: run_output

text \<open>\<^verbatim>\<open>json.Marshal\<close> of a \<^verbatim>\<open>RunEvent\<close>, of a tool call, of a segment.\<close>

definition event_json :: "run_event \<Rightarrow> string" where
  "event_json e = json_object [(''cursor'', itoa (ev_cursor e)), (''event'', json_str (ev_event e)),
     (''data'', json_enc (ev_data e))]"

definition event_size :: "run_event \<Rightarrow> int" where
  "event_size e = int (length (event_json e))"

definition tool_call_json :: "tool_call \<Rightarrow> string" where
  "tool_call_json tc = json_object
    ([(''id'', json_str (tc_id tc)), (''name'', json_str (tc_name tc))] @
     (case tc_result tc of None \<Rightarrow> [] | Some r \<Rightarrow> [(''result'', json_enc r)]) @
     [(''status'', json_str (tc_status tc))])"

definition segment_json :: "run_segment \<Rightarrow> string" where
  "segment_json sg = json_object
    ([(''type'', json_str (seg_type sg))] @
     (if seg_content sg = [] then [] else [(''content'', json_str (seg_content sg))]) @
     (if seg_thinking sg = [] then [] else [(''thinking'', json_str (seg_thinking sg))]) @
     (if seg_tools sg = [] then [] else [(''tool_calls'', json_array (map tool_call_json (seg_tools sg)))]))"

text \<open>
  \<^verbatim>\<open>cacheBytes\<close>.  A nil slice is written as null; a segment list emptied by an
  attempt reset is written with the two bytes less of an empty array, so the number here is
  never smaller than the program's.
\<close>

definition output_json :: "run_output \<Rightarrow> string" where
  "output_json o' = json_object
    [(''content'', json_str (out_content o')), (''thinking'', json_str (out_thinking o')),
     (''tool_calls'', if out_tool_calls o' = [] then ''null'' else json_array (map tool_call_json (out_tool_calls o'))),
     (''segments'', if out_segments o' = [] then ''null'' else json_array (map segment_json (out_segments o'))),
     (''error'', json_str (out_error o')), (''error_code'', json_str (out_error_code o')),
     (''request_id'', json_str (out_request_id o'))]"

definition cacheBytes :: "run_log \<Rightarrow> int" where
  "cacheBytes s = lg_bytes s + int (length (output_json (lg_output s)))"

definition rebuildCachedOutputLocked :: "run_log \<Rightarrow> run_log" where
  "rebuildCachedOutputLocked s = s\<lparr>lg_output := foldl apply_entry empty_output (lg_events s)\<rparr>"

definition output_event :: "run_event \<Rightarrow> bool" where
  "output_event e \<longleftrightarrow> ev_event e = ''content_delta'' \<or> ev_event e = ''thinking_delta''
     \<or> ev_event e = ''tool_call_start'' \<or> ev_event e = ''tool_call_result''"

text \<open>Dropping the oldest event, the body both loops of \<^verbatim>\<open>trimLocked\<close> share.\<close>

definition drop_first :: "run_log \<Rightarrow> run_log" where
  "drop_first s =
    (case lg_events s of [] \<Rightarrow> s
     | first # rest \<Rightarrow> s\<lparr>lg_events := rest, lg_bytes := lg_bytes s - event_size first,
         lg_output_truncated := (lg_output_truncated s \<or> output_event first), lg_replay_from := ev_cursor first\<rparr>)"

function trim_to_target :: "int \<Rightarrow> run_log \<Rightarrow> run_log" where
  "trim_to_target target s =
    (if lg_bytes s > target \<and> lg_events s \<noteq> [] then trim_to_target target (drop_first s) else s)"
  by pat_completeness auto
termination
  by (relation "measure (\<lambda>(target, s). length (lg_events s))") (auto simp: drop_first_def neq_Nil_conv)

function trim_to_max :: "int \<Rightarrow> run_log \<Rightarrow> run_log" where
  "trim_to_max maxBytes s =
    (if cacheBytes s > maxBytes \<and> lg_events s \<noteq> []
     then trim_to_max maxBytes (rebuildCachedOutputLocked (drop_first s)) else s)"
  by pat_completeness auto
termination
  by (relation "measure (\<lambda>(target, s). length (lg_events s))")
    (auto simp: drop_first_def rebuildCachedOutputLocked_def neq_Nil_conv)

declare trim_to_target.simps [simp del] trim_to_max.simps [simp del]

definition trimLocked :: "int \<Rightarrow> run_log \<Rightarrow> run_log" where
  "trimLocked maxBytes s =
    (if maxBytes \<le> 0 \<or> lg_bytes s \<le> maxBytes div 2 then s
     else if cacheBytes s \<le> maxBytes then s
     else trim_to_max maxBytes (rebuildCachedOutputLocked (trim_to_target (maxBytes div 3) s)))"

text \<open>The log part of \<^verbatim>\<open>appendEventLocked\<close>.\<close>

definition append_log :: "int \<Rightarrow> string \<Rightarrow> jv \<Rightarrow> run_log \<Rightarrow> run_log \<times> run_event" where
  "append_log maxBytes event data s =
    (let s1 = s\<lparr>lg_cursor := lg_cursor s + 1, lg_output := applyEvent (lg_output s) event data\<rparr>;
         entry = \<lparr>ev_cursor = lg_cursor s1, ev_event = event, ev_data = data\<rparr>;
         s2 = s1\<lparr>lg_events := lg_events s1 @ [entry], lg_bytes := lg_bytes s1 + event_size entry\<rparr>
     in (trimLocked maxBytes s2, entry))"

definition eventsAfterCursor :: "run_event list \<Rightarrow> int \<Rightarrow> run_event list" where
  "eventsAfterCursor events cursor = filter (\<lambda>e. ev_cursor e > cursor) events"

definition empty_log :: run_log where
  "empty_log = \<lparr>lg_events = [], lg_bytes = 0, lg_cursor = 0, lg_replay_from = 0, lg_output_truncated = False,
     lg_output = empty_output\<rparr>"

section \<open>The cache against the whole history\<close>

text \<open>
  \<open>numbered H\<close>: the history \<open>H\<close> carries the cursors 1, 2, ...  \<open>log_core H s\<close>: the cache
  holds a suffix of it, with the right byte count, and the flag for lost output is honest.
  \<open>log_of H s\<close> adds that the cached output is what the retained events give.
\<close>

definition numbered :: "run_event list \<Rightarrow> bool" where
  "numbered H \<longleftrightarrow> (\<forall>i < length H. ev_cursor (H ! i) = int (Suc i))"

definition log_core :: "run_event list \<Rightarrow> run_log \<Rightarrow> bool" where
  "log_core H s \<longleftrightarrow> numbered H \<and> lg_cursor s = int (length H) \<and>
     0 \<le> lg_replay_from s \<and> lg_replay_from s \<le> lg_cursor s \<and>
     lg_events s = drop (nat (lg_replay_from s)) H \<and>
     lg_bytes s = sum_list (map event_size (lg_events s)) \<and>
     (\<not> lg_output_truncated s \<longrightarrow> \<not> list_ex output_event (take (nat (lg_replay_from s)) H))"

definition log_of :: "run_event list \<Rightarrow> run_log \<Rightarrow> bool" where
  "log_of H s \<longleftrightarrow> log_core H s \<and> lg_output s = foldl apply_entry empty_output (lg_events s)"

lemma event_size_pos: "0 < event_size e"
  by (simp add: event_size_def event_json_def)

lemma event_sizes_nonneg: "0 \<le> sum_list (map event_size es)"
  by (induction es) (auto simp: less_imp_le event_size_pos)

lemma numbered_Nil [simp]: "numbered []"
  by (simp add: numbered_def)

lemma numbered_snoc:
  "numbered H \<Longrightarrow> ev_cursor e = int (Suc (length H)) \<Longrightarrow> numbered (H @ [e])"
  by (auto simp: numbered_def nth_append less_Suc_eq)

lemma numbered_append: "numbered (H @ G) \<Longrightarrow> numbered H"
  unfolding numbered_def by (metis length_append nth_append trans_less_add1)

lemma log_of_empty: "log_of [] empty_log"
  by (simp add: log_of_def log_core_def empty_log_def)

lemma log_core_drop_first:
  assumes "log_core H s"
  shows "log_core H (drop_first s)"
proof (cases "lg_events s")
  case (Cons e es)
  define k where "k = nat (lg_replay_from s)"
  have k: "lg_replay_from s = int k" "drop k H = e # es" "k < length H"
    using assms Cons by (auto simp: log_core_def k_def) (metis drop_eq_Nil2 list.distinct(1) not_le)
  then have "H ! k = e" "drop (Suc k) H = es" "take (Suc k) H = take k H @ [e]"
    by (auto simp: take_Suc_conv_app_nth nth_via_drop drop_Suc drop_tl)
  with assms k Cons show ?thesis
    by (auto simp: log_core_def drop_first_def numbered_def nat_add_distrib)
qed (use assms in \<open>simp add: drop_first_def\<close>)

lemma log_core_trim_to_target: "log_core H s \<Longrightarrow> log_core H (trim_to_target target s)"
  by (induction target s rule: trim_to_target.induct)
    (subst trim_to_target.simps, auto simp: log_core_drop_first)

lemma log_core_rebuild: "log_core H s \<Longrightarrow> log_of H (rebuildCachedOutputLocked s)"
  by (simp add: log_of_def log_core_def rebuildCachedOutputLocked_def)

lemma log_of_core: "log_of H s \<Longrightarrow> log_core H s"
  by (simp add: log_of_def)

lemma log_of_trim_to_max: "log_of H s \<Longrightarrow> log_of H (trim_to_max maxBytes s)"
  by (induction maxBytes s rule: trim_to_max.induct)
    (subst trim_to_max.simps, auto intro: log_core_drop_first log_core_rebuild log_of_core)

lemma log_of_trimLocked: "log_of H s \<Longrightarrow> log_of H (trimLocked maxBytes s)"
  by (auto simp: trimLocked_def intro!: log_of_trim_to_max log_core_rebuild log_core_trim_to_target
      dest: log_of_core)

lemma append_log_entry:
  "snd (append_log maxBytes event data s) = \<lparr>ev_cursor = lg_cursor s + 1, ev_event = event, ev_data = data\<rparr>"
  by (simp add: append_log_def Let_def)

lemma log_of_append_raw:
  assumes "log_of H s"
  shows "log_of (H @ [\<lparr>ev_cursor = lg_cursor s + 1, ev_event = event, ev_data = data\<rparr>])
    (s\<lparr>lg_cursor := lg_cursor s + 1, lg_output := applyEvent (lg_output s) event data,
       lg_events := lg_events s @ [\<lparr>ev_cursor = lg_cursor s + 1, ev_event = event, ev_data = data\<rparr>],
       lg_bytes := lg_bytes s + event_size \<lparr>ev_cursor = lg_cursor s + 1, ev_event = event, ev_data = data\<rparr>\<rparr>)"
  using assms by (auto simp: log_of_def log_core_def apply_entry_def numbered_snoc)

lemma log_of_append:
  assumes "log_of H s"
  shows "log_of (H @ [snd (append_log maxBytes event data s)]) (fst (append_log maxBytes event data s))"
  using log_of_trimLocked[OF log_of_append_raw[OF assms]] by (simp add: append_log_def Let_def)

section \<open>Bounds and replay\<close>

lemma trim_to_max_bound: "cacheBytes (trim_to_max m s) \<le> m \<or> lg_events (trim_to_max m s) = []"
  by (induction m s rule: trim_to_max.induct) (subst (1 2) trim_to_max.simps, auto)

lemma output_json_length: "0 \<le> int (length (output_json o'))"
  by simp

lemma trimLocked_bound:
  assumes "log_of H s" "0 < m"
  shows "lg_bytes (trimLocked m s) \<le> m"
    "lg_bytes (trimLocked m s) \<le> m div 2 \<or> cacheBytes (trimLocked m s) \<le> m"
proof -
  let ?t = "trimLocked m s"
  have cb: "lg_bytes u \<le> cacheBytes u" for u by (simp add: cacheBytes_def)
  have "log_of H ?t" using assms(1) by (rule log_of_trimLocked)
  then have e: "lg_events ?t = [] \<Longrightarrow> lg_bytes ?t = 0" by (simp add: log_of_def log_core_def)
  have c: "lg_bytes ?t \<le> m div 2 \<or> cacheBytes ?t \<le> m \<or> lg_events ?t = []"
    using trim_to_max_bound[of m "rebuildCachedOutputLocked (trim_to_target (m div 3) s)"] assms(2)
    by (auto simp: trimLocked_def)
  have h: "0 \<le> m div 2" "m div 2 \<le> m" using assms(2) by auto
  show "lg_bytes ?t \<le> m" using c e h cb[of ?t] by linarith
  show "lg_bytes ?t \<le> m div 2 \<or> cacheBytes ?t \<le> m" using c e h by linarith
qed

lemma append_log_bound:
  assumes "log_of H s" "0 < m"
  shows "lg_bytes (fst (append_log m e d s)) \<le> m"
    "lg_bytes (fst (append_log m e d s)) \<le> m div 2 \<or> cacheBytes (fst (append_log m e d s)) \<le> m"
  using trimLocked_bound[OF log_of_append_raw[OF assms(1)] assms(2)] by (simp_all add: append_log_def Let_def)

lemma eventsAfter_drop:
  assumes "numbered H" "k \<le> c"
  shows "eventsAfterCursor (drop k H) (int c) = drop c H"
proof -
  have "drop k H = take (c - k) (drop k H) @ drop c H"
    using assms(2) by (metis append_take_drop_id drop_drop le_add_diff_inverse2)
  moreover have "filter (\<lambda>e. ev_cursor e > int c) (take (c - k) (drop k H)) = []"
    using assms by (auto simp: filter_empty_conv in_set_conv_nth numbered_def min_def split: if_splits)
  moreover have "filter (\<lambda>e. ev_cursor e > int c) (drop c H) = drop c H"
    using assms(1) by (auto simp: filter_id_conv in_set_conv_nth numbered_def)
  ultimately show ?thesis unfolding eventsAfterCursor_def by (metis append_Nil filter_append)
qed

lemma replay_core:
  assumes "log_core H s" "lg_replay_from s \<le> c"
  shows "eventsAfterCursor (lg_events s) c = drop (nat c) H"
  using assms eventsAfter_drop[of H "nat (lg_replay_from s)" "nat c"] by (auto simp: log_core_def)

text \<open>A run that records a list of events from the start, and the history it should keep.\<close>

definition record_events :: "int \<Rightarrow> (string \<times> jv) list \<Rightarrow> run_log" where
  "record_events maxBytes evs = foldl (\<lambda>s (e, d). fst (append_log maxBytes e d s)) empty_log evs"

definition history :: "(string \<times> jv) list \<Rightarrow> run_event list" where
  "history evs = map (\<lambda>(i, e, d). \<lparr>ev_cursor = int (Suc i), ev_event = e, ev_data = d\<rparr>) (enumerate 0 evs)"

lemma history_snoc:
  "history (evs @ [(e, d)]) = history evs @ [\<lparr>ev_cursor = int (Suc (length evs)), ev_event = e, ev_data = d\<rparr>]"
  by (simp add: history_def enumerate_append_eq)

lemma length_history [simp]: "length (history evs) = length evs"
  by (simp add: history_def)

lemma record_events_snoc: "record_events m (evs @ [(e, d)]) = fst (append_log m e d (record_events m evs))"
  by (simp add: record_events_def)

lemma append_log_unlimited [simp]:
  "m \<le> 0 \<Longrightarrow> lg_replay_from (fst (append_log m e d s)) = lg_replay_from s"
  by (simp add: append_log_def trimLocked_def Let_def)

lemma record_events_log: "log_of (history evs) (record_events maxBytes evs)"
proof (induction evs rule: rev_induct)
  case Nil
  show ?case by (simp add: record_events_def history_def log_of_empty)
next
  case (snoc p evs)
  obtain e d where p: "p = (e, d)" by fastforce
  have "lg_cursor (record_events maxBytes evs) = int (length evs)"
    using snoc by (simp add: log_of_def log_core_def)
  with log_of_append[OF snoc, of maxBytes e d] show ?case
    by (simp add: p history_snoc append_log_entry record_events_def add.commute)
qed

text \<open>
  C10.  A client that asks for the events after a cursor the cache still covers gets exactly the
  events recorded after that cursor, each once and in order, whatever trimming happened.
\<close>

theorem replay_complete:
  assumes "lg_replay_from (record_events maxBytes evs) \<le> c"
  shows "eventsAfterCursor (lg_events (record_events maxBytes evs)) c = drop (nat c) (history evs)"
  by (rule replay_core[OF log_of_core[OF record_events_log] assms])

text \<open>
  The event cache of a run never exceeds its byte limit, its byte counter is the sum of the
  encoded events it keeps, and once it is over half the limit the events together with the
  assembled output fit the limit.
\<close>

theorem cache_bounded:
  assumes "0 < maxBytes"
  shows "lg_bytes (record_events maxBytes evs) \<le> maxBytes \<and>
    lg_bytes (record_events maxBytes evs) = sum_list (map event_size (lg_events (record_events maxBytes evs))) \<and>
    (lg_bytes (record_events maxBytes evs) \<le> maxBytes div 2 \<or> cacheBytes (record_events maxBytes evs) \<le> maxBytes)"
proof (cases evs rule: rev_cases)
  case Nil
  then show ?thesis using assms by (simp add: record_events_def empty_log_def)
next
  case (snoc fs p)
  obtain e d where p: "p = (e, d)" by fastforce
  have "lg_bytes (record_events maxBytes evs) = sum_list (map event_size (lg_events (record_events maxBytes evs)))"
    using log_of_core[OF record_events_log] by (simp add: log_core_def)
  then show ?thesis
    using append_log_bound[OF record_events_log[of fs maxBytes] assms, of e d]
    unfolding snoc p record_events_snoc by blast
qed

theorem cache_bounded_witness:
  "lg_bytes (record_events 100 [(''error'', JNull), (''error'', JNull)]) \<le> 100"
  using cache_bounded[of 100 "[(''error'', JNull), (''error'', JNull)]"] by simp

theorem replay_complete_witness:
  "eventsAfterCursor (lg_events (record_events 0 [(''a'', JNull), (''b'', JNull)])) 1 =
    drop 1 (history [(''a'', JNull), (''b'', JNull)])"
  using replay_complete[of 0 "[(''a'', JNull), (''b'', JNull)]" 1]
  by (simp add: record_events_def empty_log_def)

section \<open>The assembled output\<close>

lemma runes_Nil [simp]: "runes [] = []" "rune_count [] = 0"
  by (simp_all add: runes_def)

lemma trim_zero [simp]: "n \<le> 0 \<Longrightarrow> trimTrailingRunes s n = s" "trimTrailingRunes [] n = []"
  by (simp_all add: trimTrailingRunes_def)

lemma valid_utf8_append [intro]: "valid_utf8 a \<Longrightarrow> valid_utf8 b \<Longrightarrow> valid_utf8 (a @ b)"
  by (simp add: valid_utf8_def runes_append_valid str_of_runes_append)

lemma valid_utf8_Nil [simp]: "valid_utf8 []"
  by (simp add: valid_utf8_def runes_def)

lemma trim_runes_valid:
  "valid_utf8 s \<Longrightarrow> trimTrailingRunes s n = str_of_runes (take (rune_count s - nat n) (runes s))"
  by (auto simp: trimTrailingRunes_def Let_def valid_utf8_def)

lemma valid_take_runes: "valid_utf8 (str_of_runes (take n (runes s)))"
  by (rule valid_utf8_str_of_runes) (metis append_take_drop_id list_all_append runes_valid)

lemma valid_utf8_trim [intro]: "valid_utf8 s \<Longrightarrow> valid_utf8 (trimTrailingRunes s n)"
  by (simp add: trim_runes_valid valid_take_runes)

lemma trim_append:
  assumes "valid_utf8 a" "valid_utf8 b"
  shows "trimTrailingRunes (a @ b) n =
    trimTrailingRunes a (n - min (int (rune_count b)) (max n 0)) @ trimTrailingRunes b (min (int (rune_count b)) (max n 0))"
proof (cases "n \<le> int (rune_count b)")
  case True
  with assms show ?thesis
    by (simp add: trim_runes_valid valid_utf8_append rune_count_append_valid runes_append_valid
        str_of_runes_append valid_utf8_def max_def min_def)
next
  case False
  then have "rune_count a + rune_count b - nat n = rune_count a - nat (n - int (rune_count b))" by linarith
  moreover have "nat n \<ge> rune_count b" using False by linarith
  ultimately show ?thesis
    using assms False
    by (simp add: trim_runes_valid valid_utf8_append rune_count_append_valid runes_append_valid
        str_of_runes_append max_def min_def)
qed

lemma trim_min: "valid_utf8 b \<Longrightarrow> trimTrailingRunes b (min (int (rune_count b)) (max n 0)) = trimTrailingRunes b n"
  by (auto simp: trim_runes_valid min_def max_def)

text \<open>
  \<open>out_ok\<close>: the segments are valid text, tool segments carry none, and joined they are the
  content and the thinking of the run.
\<close>

definition seg_ok :: "run_segment \<Rightarrow> bool" where
  "seg_ok sg \<longleftrightarrow> valid_utf8 (seg_content sg) \<and> valid_utf8 (seg_thinking sg) \<and>
     (seg_type sg \<noteq> ''content'' \<longrightarrow> seg_content sg = [] \<and> seg_thinking sg = [])"

definition segs_content :: "run_segment list \<Rightarrow> string" where
  "segs_content sgs = concat (map seg_content sgs)"

definition segs_thinking :: "run_segment list \<Rightarrow> string" where
  "segs_thinking sgs = concat (map seg_thinking sgs)"

definition out_ok :: "run_output \<Rightarrow> bool" where
  "out_ok o' \<longleftrightarrow> list_all seg_ok (out_segments o') \<and> segs_content (out_segments o') = out_content o' \<and>
     segs_thinking (out_segments o') = out_thinking o'"

lemma segs_joined [simp]:
  "segs_content [] = []" "segs_thinking [] = []"
  "segs_content (xs @ ys) = segs_content xs @ segs_content ys"
  "segs_thinking (xs @ ys) = segs_thinking xs @ segs_thinking ys"
  "segs_content (sg # ys) = seg_content sg @ segs_content ys"
  "segs_thinking (sg # ys) = seg_thinking sg @ segs_thinking ys"
  by (simp_all add: segs_content_def segs_thinking_def)

lemma segs_joined_valid:
  "list_all seg_ok sgs \<Longrightarrow> valid_utf8 (segs_content sgs)"
  "list_all seg_ok sgs \<Longrightarrow> valid_utf8 (segs_thinking sgs)"
  by (induction sgs) (auto simp: seg_ok_def)

lemma trim_segments_rev:
  assumes "list_all seg_ok sgs" "0 \<le> c" "0 \<le> t"
  shows "list_all seg_ok (trim_segments_rev c t sgs) \<and>
    segs_content (rev (trim_segments_rev c t sgs)) = trimTrailingRunes (segs_content (rev sgs)) c \<and>
    segs_thinking (rev (trim_segments_rev c t sgs)) = trimTrailingRunes (segs_thinking (rev sgs)) t"
  using assms
proof (induction c t sgs rule: trim_segments_rev.induct)
  case (1 c t)
  then show ?case by (simp add: trimTrailingRunes_def)
next
  case (2 c t sg sgs)
  let ?cc = "min (int (rune_count (seg_content sg))) c"
  let ?ct = "min (int (rune_count (seg_thinking sg))) t"
  have ok: "seg_ok sg" "list_all seg_ok (rev sgs)" using 2 by auto
  have v: "valid_utf8 (seg_content sg)" "valid_utf8 (seg_thinking sg)" using ok(1) by (auto simp: seg_ok_def)
  note tc = trim_append[OF segs_joined_valid(1)[OF ok(2)] v(1), of c]
  note tt = trim_append[OF segs_joined_valid(2)[OF ok(2)] v(2), of t]
  show ?case
  proof (cases "\<not> (0 < c \<or> 0 < t)")
    case True
    then show ?thesis using 2 by (simp add: trimTrailingRunes_def)
  next
    case act: False
    show ?thesis
    proof (cases "seg_type sg = ''content''")
      case False
      then have "seg_content sg = []" "seg_thinking sg = []" using ok(1) by (auto simp: seg_ok_def)
      with False act 2 show ?thesis by simp
    next
      case True
      have cut: "(if 0 < c \<and> seg_content sg \<noteq> [] then min (int (rune_count (seg_content sg))) c else 0) = ?cc"
        "(if 0 < t \<and> seg_thinking sg \<noteq> [] then min (int (rune_count (seg_thinking sg))) t else 0) = ?ct"
        using 2(4,5) by auto
      have IH: "list_all seg_ok (trim_segments_rev (c - ?cc) (t - ?ct) sgs) \<and>
        segs_content (rev (trim_segments_rev (c - ?cc) (t - ?ct) sgs)) = trimTrailingRunes (segs_content (rev sgs)) (c - ?cc) \<and>
        segs_thinking (rev (trim_segments_rev (c - ?cc) (t - ?ct) sgs)) = trimTrailingRunes (segs_thinking (rev sgs)) (t - ?ct)"
        using 2(2)[OF _ _ refl refl] act True 2(3-5) unfolding cut by auto
      have "\<not> (c = 0 \<and> t = 0)" using act by auto
      moreover have "seg_ok (sg\<lparr>seg_content := trimTrailingRunes (seg_content sg) ?cc,
          seg_thinking := trimTrailingRunes (seg_thinking sg) ?ct\<rparr>)"
        using True v by (simp add: seg_ok_def valid_utf8_trim)
      ultimately show ?thesis
        using act True tc tt 2(4,5) IH by (simp add: Let_def cut max_absorb1, blast)
    qed
  qed
qed

lemma segs_filter:
  assumes "\<And>sg. sg \<in> set sgs \<Longrightarrow> \<not> P sg \<Longrightarrow> seg_content sg = [] \<and> seg_thinking sg = []"
  shows "segs_content (filter P sgs) = segs_content sgs" "segs_thinking (filter P sgs) = segs_thinking sgs"
  using assms by (induction sgs) auto

lemma trim_run_segments:
  assumes "list_all seg_ok sgs"
  shows "list_all seg_ok (trimRunSegments sgs c t)"
    "segs_content (trimRunSegments sgs c t) = trimTrailingRunes (segs_content sgs) c"
    "segs_thinking (trimRunSegments sgs c t) = trimTrailingRunes (segs_thinking sgs) t"
proof -
  let ?ts = "trim_segments_rev (max c 0) (max t 0) (rev sgs)"
  have t: "list_all seg_ok ?ts \<and> segs_content (rev ?ts) = trimTrailingRunes (segs_content sgs) (max c 0) \<and>
    segs_thinking (rev ?ts) = trimTrailingRunes (segs_thinking sgs) (max t 0)"
    using trim_segments_rev[of "rev sgs" "max c 0" "max t 0"] assms by simp
  moreover have "trimTrailingRunes x (max n 0) = trimTrailingRunes x n" for x n
    by (simp add: max_def)
  ultimately show "list_all seg_ok (trimRunSegments sgs c t)"
    "segs_content (trimRunSegments sgs c t) = trimTrailingRunes (segs_content sgs) c"
    "segs_thinking (trimRunSegments sgs c t) = trimTrailingRunes (segs_thinking sgs) t"
    unfolding trimRunSegments_def by (auto simp: list_all_iff) (subst segs_filter; auto)+
qed

lemma append_content_segment:
  assumes "list_all seg_ok sgs" "valid_utf8 d"
  shows "list_all seg_ok (appendContentSegment sgs d) \<and> segs_content (appendContentSegment sgs d) = segs_content sgs @ d \<and>
    segs_thinking (appendContentSegment sgs d) = segs_thinking sgs"
  using assms by (cases sgs rule: rev_cases) (auto simp: appendContentSegment_def seg_ok_def)

lemma append_thinking_segment:
  assumes "list_all seg_ok sgs" "valid_utf8 d"
  shows "list_all seg_ok (appendThinkingSegment sgs d) \<and> segs_thinking (appendThinkingSegment sgs d) = segs_thinking sgs @ d \<and>
    segs_content (appendThinkingSegment sgs d) = segs_content sgs"
  using assms by (cases sgs rule: rev_cases) (auto simp: appendThinkingSegment_def seg_ok_def)

lemma append_tool_segment:
  assumes "list_all seg_ok sgs"
  shows "list_all seg_ok (appendToolCallSegment sgs tc) \<and> segs_content (appendToolCallSegment sgs tc) = segs_content sgs \<and>
    segs_thinking (appendToolCallSegment sgs tc) = segs_thinking sgs"
  using assms by (cases sgs rule: rev_cases) (auto simp: appendToolCallSegment_def seg_ok_def)

lemma update_tool_segment:
  "list_all seg_ok sgs \<Longrightarrow> list_all seg_ok (updateSegmentToolCall i r sgs) \<and>
    segs_content (updateSegmentToolCall i r sgs) = segs_content sgs \<and>
    segs_thinking (updateSegmentToolCall i r sgs) = segs_thinking sgs"
  by (induction i r sgs rule: updateSegmentToolCall.induct) (auto simp: seg_ok_def)

lemmas segment_ops = append_content_segment append_thinking_segment append_tool_segment update_tool_segment
  trim_run_segments

text \<open>The text an event carries is valid UTF-8.\<close>

definition valid_data :: "jv \<Rightarrow> bool" where
  "valid_data d = (case str_at (toMap d) ''delta'' of Some t \<Rightarrow> valid_utf8 t | None \<Rightarrow> True)"

lemma applyEvent_out_ok:
  assumes "out_ok o'" "valid_data d"
  shows "out_ok (applyEvent o' ev d)"
  using assms
  by (auto simp: applyEvent_def Let_def out_ok_def valid_data_def segment_ops split: option.splits)

definition valid_history :: "(string \<times> jv) list \<Rightarrow> bool" where
  "valid_history evs \<longleftrightarrow> list_all (\<lambda>(e, d). valid_data d) evs"

definition output_of :: "run_event list \<Rightarrow> run_output" where
  "output_of es = foldl apply_entry empty_output es"

lemma fold_out_ok: "list_all (\<lambda>e. valid_data (ev_data e)) es \<Longrightarrow> out_ok (output_of es)"
proof (induction es rule: rev_induct)
  case Nil
  show ?case by (simp add: output_of_def out_ok_def empty_output_def)
next
  case (snoc e es)
  then show ?case by (simp add: output_of_def apply_entry_def applyEvent_out_ok)
qed

text \<open>
  What an output assembled from a suffix of the history has to do with the full one: its texts are
  suffixes.
\<close>

definition text_suffix :: "run_output \<Rightarrow> run_output \<Rightarrow> bool" where
  "text_suffix s f \<longleftrightarrow> valid_utf8 (out_content s) \<and> valid_utf8 (out_thinking s) \<and>
     (\<exists>p q. valid_utf8 p \<and> valid_utf8 q \<and> out_content f = p @ out_content s \<and> out_thinking f = q @ out_thinking s)"

lemma trim_suffix:
  assumes "valid_utf8 p" "valid_utf8 x"
  shows "\<exists>p'. valid_utf8 p' \<and> trimTrailingRunes (p @ x) n = p' @ trimTrailingRunes x n"
  using trim_append[OF assms, of n] trim_min[OF assms(2), of n] valid_utf8_trim[OF assms(1)] by auto

definition event_text :: "string \<Rightarrow> string \<Rightarrow> string \<Rightarrow> string \<Rightarrow> jv \<Rightarrow> string" where
  "event_text delta_event counter x ev d =
    (if ev = delta_event then x @ (case str_at (toMap d) ''delta'' of Some t \<Rightarrow> t | None \<Rightarrow> [])
     else if ev = ''assistant_attempt_reset'' then trimTrailingRunes x (intFromPayload (value_at (toMap d) counter))
     else x)"

lemma applyEvent_texts:
  "out_content (applyEvent s ev d) = event_text ''content_delta'' ''content_runes'' (out_content s) ev d"
  "out_thinking (applyEvent s ev d) = event_text ''thinking_delta'' ''thinking_runes'' (out_thinking s) ev d"
  unfolding applyEvent_def event_text_def Let_def by (simp_all split: option.split)

lemma event_text_suffix:
  assumes "valid_utf8 p" "valid_utf8 x" "valid_data d"
  shows "valid_utf8 (event_text e c x ev d) \<and>
    (\<exists>p'. valid_utf8 p' \<and> event_text e c (p @ x) ev d = p' @ event_text e c x ev d)"
  using assms trim_suffix[OF assms(1,2)] by (auto simp: event_text_def valid_data_def split: option.split)

lemma applyEvent_text_suffix:
  assumes "text_suffix s f" "valid_data d"
  shows "text_suffix (applyEvent s ev d) (applyEvent f ev d)"
proof -
  obtain p q where pq: "valid_utf8 p" "valid_utf8 q" "out_content f = p @ out_content s"
    "out_thinking f = q @ out_thinking s" and v: "valid_utf8 (out_content s)" "valid_utf8 (out_thinking s)"
    using assms(1) by (auto simp: text_suffix_def)
  note c = event_text_suffix[OF pq(1) v(1) assms(2), of "''content_delta''" "''content_runes''" ev]
    and t = event_text_suffix[OF pq(2) v(2) assms(2), of "''thinking_delta''" "''thinking_runes''" ev]
  from c t obtain p' q' where "valid_utf8 p'" "valid_utf8 q'"
    "event_text ''content_delta'' ''content_runes'' (p @ out_content s) ev d =
       p' @ event_text ''content_delta'' ''content_runes'' (out_content s) ev d"
    "event_text ''thinking_delta'' ''thinking_runes'' (q @ out_thinking s) ev d =
       q' @ event_text ''thinking_delta'' ''thinking_runes'' (out_thinking s) ev d"
    by blast
  with c t show ?thesis
    unfolding text_suffix_def applyEvent_texts pq(3,4) by (intro conjI exI[of _ p'] exI[of _ q']) simp_all
qed

lemma fold_text_suffix:
  assumes "list_all (\<lambda>e. valid_data (ev_data e)) es" "text_suffix s f"
  shows "text_suffix (foldl apply_entry s es) (foldl apply_entry f es)"
  using assms by (induction es arbitrary: s f) (auto simp: apply_entry_def applyEvent_text_suffix)

text \<open>Two outputs that agree on everything but the error fields.\<close>

definition same_text :: "run_output \<Rightarrow> run_output \<Rightarrow> bool" where
  "same_text s f \<longleftrightarrow> out_content s = out_content f \<and> out_thinking s = out_thinking f \<and>
     out_tool_calls s = out_tool_calls f \<and> out_segments s = out_segments f"

lemma applyEvent_same_text: "same_text s f \<Longrightarrow> same_text (applyEvent s ev d) (applyEvent f ev d)"
  unfolding applyEvent_def Let_def same_text_def by (simp split: option.split)

lemma fold_same_text: "same_text s f \<Longrightarrow> same_text (foldl apply_entry s es) (foldl apply_entry f es)"
  by (induction es arbitrary: s f) (auto simp: apply_entry_def applyEvent_same_text)

lemma apply_no_output:
  "\<not> output_event e \<Longrightarrow> same_text empty_output s \<Longrightarrow> same_text empty_output (apply_entry s e)"
  by (cases "ev_event e = ''assistant_attempt_reset''"; cases "ev_event e = ''error''")
    (simp_all add: same_text_def apply_entry_def applyEvent_def Let_def output_event_def empty_output_def
      trimRunSegments_def)

lemma fold_no_output:
  "\<not> list_ex output_event es \<Longrightarrow> same_text empty_output s \<Longrightarrow> same_text empty_output (foldl apply_entry s es)"
  by (induction es arbitrary: s) (auto simp: apply_no_output)

lemma valid_history_data: "valid_history evs \<Longrightarrow> list_all (\<lambda>e. valid_data (ev_data e)) (history evs)"
  by (auto simp: valid_history_def history_def list_all_iff enumerate_eq_zip) (fastforce dest: set_zip_rightD)

text \<open>
  C12.  The segments of a run are its text: joined, the content segments give exactly the content
  and the thinking segments exactly the thinking, after any sequence of deltas, tool calls, results
  and retracted attempts, and after any trimming of the cache.
\<close>

theorem segments_are_the_output:
  assumes "valid_history evs"
  shows "out_ok (lg_output (record_events maxBytes evs))"
proof -
  have "lg_output (record_events maxBytes evs) = output_of (drop (nat (lg_replay_from (record_events maxBytes evs))) (history evs))"
    using record_events_log[of evs maxBytes] by (simp add: log_of_def log_core_def output_of_def)
  moreover have "list_all (\<lambda>e. valid_data (ev_data e)) (drop n (history evs))" for n
    using valid_history_data[OF assms] by (metis append_take_drop_id list_all_append)
  ultimately show ?thesis by (simp add: fold_out_ok)
qed

theorem segments_are_the_output_witness:
  "out_ok (lg_output (record_events 10 [(''content_delta'', JObj [(''delta'', JStr ''ab'')])]))"
  by (rule segments_are_the_output)
    (simp add: valid_history_def valid_data_def str_at_def valid_utf8_ascii is_ascii_def)

text \<open>
  C11.  Trimming never shows a wrong answer: the cached content and thinking are always suffixes of
  what the whole run produced, and while the truncation flag is off they, the tool calls and the
  segments are exactly those of the whole run.
\<close>

theorem trimmed_output_honest:
  assumes "valid_history evs"
  shows "(\<exists>p. out_content (output_of (history evs)) = p @ out_content (lg_output (record_events maxBytes evs))) \<and>
    (\<exists>q. out_thinking (output_of (history evs)) = q @ out_thinking (lg_output (record_events maxBytes evs))) \<and>
    (lg_output_truncated (record_events maxBytes evs) \<or>
       same_text (lg_output (record_events maxBytes evs)) (output_of (history evs)))"
proof -
  let ?s = "record_events maxBytes evs"
  define k where "k = nat (lg_replay_from ?s)"
  let ?old = "take k (history evs)" and ?new = "drop k (history evs)"
  have s: "lg_output ?s = foldl apply_entry empty_output ?new"
    "\<not> lg_output_truncated ?s \<Longrightarrow> \<not> list_ex output_event ?old"
    using record_events_log[of evs maxBytes] by (auto simp: log_of_def log_core_def k_def)
  have f: "output_of (history evs) = foldl apply_entry (output_of ?old) ?new"
    unfolding output_of_def foldl_append[symmetric] by simp
  have v: "list_all (\<lambda>e. valid_data (ev_data e)) ?old" "list_all (\<lambda>e. valid_data (ev_data e)) ?new"
    using valid_history_data[OF assms] by (metis append_take_drop_id list_all_append)+
  have "text_suffix empty_output (output_of ?old)"
    using fold_out_ok[OF v(1)] segs_joined_valid[of "out_segments (output_of ?old)"]
    by (auto simp: text_suffix_def out_ok_def empty_output_def)
  then have "text_suffix (lg_output ?s) (output_of (history evs))"
    unfolding s(1) f by (rule fold_text_suffix[OF v(2)])
  moreover have "same_text (lg_output ?s) (output_of (history evs))" if "\<not> lg_output_truncated ?s"
    unfolding s(1) f
    by (rule fold_same_text, unfold output_of_def, rule fold_no_output[OF s(2)[OF that]]) (simp add: same_text_def)
  ultimately show ?thesis unfolding text_suffix_def by blast
qed

theorem trimmed_output_honest_witness:
  "\<exists>p. out_content (output_of (history [(''content_delta'', JObj [(''delta'', JStr ''ab'')])])) =
    p @ out_content (lg_output (record_events 10 [(''content_delta'', JObj [(''delta'', JStr ''ab'')])]))"
  using trimmed_output_honest[of "[(''content_delta'', JObj [(''delta'', JStr ''ab'')])]" 10]
  by (simp add: valid_history_def valid_data_def str_at_def valid_utf8_ascii is_ascii_def)

end
