(* ===== verification/Errors.thy ===== *)
theory Errors
  imports GoBase
begin

text \<open>
  The error values of the modelled packages and their unwrapping chain
  (\<^verbatim>\<open>errors.Is\<close>, \<^verbatim>\<open>errors.As\<close>).  The run cancellation causes
  and their \<^verbatim>\<open>Unwrap\<close> are those of
  \<^verbatim>\<open>internal/service/run_terminal.go\<close>; the first-output timeout is the one of
  \<^verbatim>\<open>internal/modelstream/collect.go\<close>.  An error of a package outside the
  repository appears only through the facts the program reads off it: the network errors
  that satisfy \<^verbatim>\<open>net.Error\<close>, the SQLSTATE of a database error, its text.
\<close>

text \<open>\<^verbatim>\<open>RunCancelCause\<close>; \<open>CauseNone\<close> is the empty string.\<close>

datatype run_cancel_cause =
  CauseNone | RunCancelUserStop | RunCancelFirstOutputTimeout | RunCancelServerDrain
| RunCancelAccountChanged | RunCancelSessionDeleted | RunCancelUpstream | CauseOther string

datatype go_err =
  ContextCanceled | DeadlineExceeded
| ErrFirstOutputTimeout | ErrEmptyOutput | ErrNilReader
| RunCancellation run_cancel_cause
| ErrNotFound | ErrBadConn | ErrConnDone | ErrEOF | ErrUnexpectedEOF
| NetError string | SqlError string string
| ErrRunIDConflict | ErrRunNotFound | ErrSessionRunActive | ErrServerDraining
| ErrRunTerminal | ErrRunNotDurable | ErrRunExecutionOwned
| ErrAccountStateChanged | ErrChatRunIntentConflict | ErrChatRunTerminal
| ErrOCRSourceUnavailable | ErrOCRLeaseLost | ErrAttachmentUnavailable
| ErrRetryTargetStale | ErrAnswerAttemptNotFound | ErrAnswerAttemptNotSelectable | ErrAnswerAttemptLastRemaining
| ErrMessageAlreadyAnswered | ErrMessageUnchanged | ErrChatRunActive
| ErrCompactionNotFound | ErrCompactionUndoDenied | ErrCompactionUndoStale | ErrAnswerSelectionRevisionConflict
| ErrQuota string int int "int option"
| ErrServiceQuota string string int int "int option"
| ErrAuthenticationUnavailable | ErrUnavailable string
| ErrSensitiveValue | ErrMemoryChangeNotFound | ErrMemoryChangeNotUndoable | ErrSessionMemoryConflict
| ErrMemoryMaintenanceOutputBudgetInsufficient | ErrMemoryMaintenanceOutputLimit
| ErrInvalidMessageInput | ErrMessageTooLarge | ErrTooManyAttachments | ErrSessionNotFound | ErrConversationTurnNotFound
| ErrText string
| ErrWrap string go_err

text \<open>\<^verbatim>\<open>runCancellationError.Unwrap\<close>.\<close>

definition run_cancellation_unwrap :: "run_cancel_cause \<Rightarrow> go_err" where
  "run_cancellation_unwrap c =
    (if c = RunCancelFirstOutputTimeout then ErrFirstOutputTimeout else ContextCanceled)"

text \<open>
  The chain \<^verbatim>\<open>errors.Is\<close> walks: the error itself, then what
  \<^verbatim>\<open>Unwrap\<close> gives.  \<^verbatim>\<open>context.DeadlineExceeded\<close> also satisfies
  \<^verbatim>\<open>net.Error\<close> (it has \<^verbatim>\<open>Timeout\<close> and \<^verbatim>\<open>Temporary\<close>).
\<close>

fun err_chain :: "go_err \<Rightarrow> go_err list" where
  "err_chain ErrFirstOutputTimeout = [ErrFirstOutputTimeout, DeadlineExceeded]"
| "err_chain (RunCancellation c) =
     RunCancellation c #
     (if c = RunCancelFirstOutputTimeout then [ErrFirstOutputTimeout, DeadlineExceeded] else [ContextCanceled])"
| "err_chain (ErrWrap s e) = ErrWrap s e # err_chain e"
| "err_chain e = [e]"

definition err_is :: "go_err \<Rightarrow> go_err \<Rightarrow> bool" where
  "err_is e t \<longleftrightarrow> t \<in> set (err_chain e)"

fun net_error :: "go_err \<Rightarrow> bool" where
  "net_error (NetError s) = True"
| "net_error DeadlineExceeded = True"
| "net_error e = False"

fun sql_state :: "go_err \<Rightarrow> string option" where
  "sql_state (SqlError st msg) = Some st"
| "sql_state e = None"

text \<open>\<^verbatim>\<open>errors.As\<close> into \<^verbatim>\<open>net.Error\<close>, an SQLSTATE error, a run cancellation.\<close>

definition as_net_error :: "go_err \<Rightarrow> bool" where
  "as_net_error e \<longleftrightarrow> list_ex net_error (err_chain e)"

definition as_sql_state :: "go_err \<Rightarrow> string option" where
  "as_sql_state e =
    (case filter (\<lambda>x. sql_state x \<noteq> None) (err_chain e) of [] \<Rightarrow> None | x # _ \<Rightarrow> sql_state x)"

fun as_run_cancellation :: "go_err \<Rightarrow> run_cancel_cause option" where
  "as_run_cancellation (RunCancellation c) = Some c"
| "as_run_cancellation (ErrWrap s e) = as_run_cancellation e"
| "as_run_cancellation e = None"

lemma err_is_refl [simp]: "err_is e e"
  by (cases e) (auto simp: err_is_def)

lemma err_chain_not_Nil [simp]: "err_chain e \<noteq> []"
  by (cases e) auto

lemma err_is_wrap [simp]: "err_is (ErrWrap s e) t \<longleftrightarrow> t = ErrWrap s e \<or> err_is e t"
  by (auto simp: err_is_def)

lemma err_is_run_cancellation:
  "err_is (RunCancellation c) t \<longleftrightarrow> t = RunCancellation c \<or> err_is (run_cancellation_unwrap c) t"
  by (auto simp: err_is_def run_cancellation_unwrap_def)

end
