(* ===== verification/Modelstream.thy ===== *)
theory Modelstream
  imports Errors
begin

text \<open>
  \<^verbatim>\<open>internal/modelstream\<close> (\<^verbatim>\<open>collect.go\<close> and the observers of
  \<^verbatim>\<open>observer.go\<close>): the first-output guard and the reader contract of model streams.

  A Go context that carries output gates is the list of its frames, the innermost first.  A
  frame is one \<^verbatim>\<open>WithDeferredFirstOutputTimeout\<close>: the cause its own cancelable
  context has (\<open>None\<close> while it is live) and its gate.  \<open>fr_linked\<close> says whether the gate's
  \<^verbatim>\<open>parent\<close> pointer is the gate of the next frame; it is false below an
  \<^verbatim>\<open>IsolateFirstOutputTimeout\<close> and for the outermost gate.  Cancelling a frame
  cancels every frame inside it that is still live, as the Go context tree does.

  The model stream, the concatenation of chunks (\<^verbatim>\<open>schema.ConcatMessages\<close>) and
  the chunk handler are arguments of the definitions.
\<close>

section \<open>Output gates\<close>

record output_gate =
  og_cause :: go_err
  og_timeout :: int
  og_timer :: bool
  og_armed :: bool
  og_observed :: bool
  og_fired :: bool
  og_stopped :: bool

record frame =
  fr_cause :: "go_err option"
  fr_gate :: output_gate
  fr_linked :: bool

type_synonym gctx = "frame list"

definition set_cause :: "go_err \<Rightarrow> frame \<Rightarrow> frame" where
  "set_cause c f = (if fr_cause f = None then f\<lparr>fr_cause := Some c\<rparr> else f)"

text \<open>\<^verbatim>\<open>CancelCauseFunc\<close> of frame \<open>i\<close>: that frame and every live frame inside it.\<close>

definition cancel_frame :: "nat \<Rightarrow> go_err \<Rightarrow> gctx \<Rightarrow> gctx" where
  "cancel_frame i c fs = (if i < length fs then map (set_cause c) (take (Suc i) fs) @ drop (Suc i) fs else fs)"

definition ctx_cause :: "gctx \<Rightarrow> go_err option" where
  "ctx_cause fs = (case fs of [] \<Rightarrow> None | f # _ \<Rightarrow> fr_cause f)"

text \<open>
  \<^verbatim>\<open>WithDeferredFirstOutputTimeout\<close> on a parent context, whose gates are hidden when
  \<open>isolated\<close> (\<^verbatim>\<open>IsolateFirstOutputTimeout\<close>).  A missing cause becomes
  \<^verbatim>\<open>ErrFirstOutputTimeout\<close>; a child of a cancelled parent is born cancelled.
\<close>

definition with_deferred_timeout :: "gctx \<Rightarrow> bool \<Rightarrow> int \<Rightarrow> go_err option \<Rightarrow> gctx" where
  "with_deferred_timeout parent isolated timeout cause =
    \<lparr>fr_cause = ctx_cause parent,
     fr_gate = \<lparr>og_cause = (case cause of None \<Rightarrow> ErrFirstOutputTimeout | Some c \<Rightarrow> c),
       og_timeout = timeout, og_timer = False, og_armed = False, og_observed = False,
       og_fired = False, og_stopped = False\<rparr>,
     fr_linked = (parent \<noteq> [] \<and> \<not> isolated)\<rparr> # parent"

definition gate_arm :: "output_gate \<Rightarrow> output_gate" where
  "gate_arm g =
    (if og_armed g \<or> og_observed g \<or> og_fired g \<or> og_stopped g then g
     else g\<lparr>og_armed := True, og_timer := 0 < og_timeout g\<rparr>)"

text \<open>\<^verbatim>\<open>ArmFirstOutputTimeout\<close>: every gate of the chain.\<close>

fun arm_ctx :: "gctx \<Rightarrow> gctx" where
  "arm_ctx [] = []"
| "arm_ctx (f # fs) =
     f\<lparr>fr_gate := gate_arm (fr_gate f)\<rparr> # (if fr_linked f then arm_ctx fs else fs)"

text \<open>\<^verbatim>\<open>fire\<close>, the timer callback of the gate of frame \<open>i\<close>.\<close>

definition gate_fires :: "output_gate \<Rightarrow> bool" where
  "gate_fires g \<longleftrightarrow> og_armed g \<and> \<not> og_observed g \<and> \<not> og_stopped g \<and> \<not> og_fired g"

definition fire_frame :: "nat \<Rightarrow> gctx \<Rightarrow> gctx" where
  "fire_frame i fs =
    (if i < length fs \<and> gate_fires (fr_gate (fs ! i))
     then cancel_frame i (og_cause (fr_gate (fs ! i)))
            (fs[i := (fs ! i)\<lparr>fr_gate := (fr_gate (fs ! i))\<lparr>og_fired := True, og_timer := False\<rparr>\<rparr>])
     else fs)"

text \<open>\<^verbatim>\<open>mark\<close>: a gate that fired or was stopped ends the walk.\<close>

definition gate_mark :: "output_gate \<Rightarrow> output_gate" where
  "gate_mark g = (if og_observed g then g else g\<lparr>og_observed := True, og_timer := False\<rparr>)"

fun mark_ctx :: "gctx \<Rightarrow> gctx" where
  "mark_ctx [] = []"
| "mark_ctx (f # fs) =
     (if og_fired (fr_gate f) \<or> og_stopped (fr_gate f) then f # fs
      else f\<lparr>fr_gate := gate_mark (fr_gate f)\<rparr> # (if fr_linked f then mark_ctx fs else fs))"

definition gate_stop :: "output_gate \<Rightarrow> output_gate" where
  "gate_stop g = (if og_stopped g then g else g\<lparr>og_stopped := True, og_timer := False\<rparr>)"

definition stop_frame :: "nat \<Rightarrow> gctx \<Rightarrow> gctx" where
  "stop_frame i fs = (if i < length fs then fs[i := (fs ! i)\<lparr>fr_gate := gate_stop (fr_gate (fs ! i))\<rparr>] else fs)"

definition with_first_output_timeout :: "gctx \<Rightarrow> bool \<Rightarrow> int \<Rightarrow> go_err option \<Rightarrow> gctx" where
  "with_first_output_timeout parent isolated timeout cause =
    arm_ctx (with_deferred_timeout parent isolated timeout cause)"

section \<open>Meaningful output\<close>

text \<open>The fields of a chunk that the program reads (\<^verbatim>\<open>schema.Message\<close>).\<close>

record message =
  m_content :: string
  m_reasoning :: string
  m_tool_names :: "string list"
  m_finish_reason :: "string option"

definition HasMeaningfulOutput :: "message option \<Rightarrow> bool" where
  "HasMeaningfulOutput m =
    (case m of None \<Rightarrow> False
     | Some msg \<Rightarrow>
         if \<not> blank (m_content msg) \<or> \<not> blank (m_reasoning msg) then True
         else list_ex (\<lambda>name. \<not> blank name) (m_tool_names msg))"

text \<open>\<^verbatim>\<open>HasMeaningfulAgenticOutput\<close> over the content blocks of a typed message.\<close>

datatype content_block =
  BlockText string | BlockReasoning string | BlockToolCall string | BlockOther

fun block_meaningful :: "content_block option \<Rightarrow> bool" where
  "block_meaningful None = False"
| "block_meaningful (Some (BlockText t)) = (\<not> blank t)"
| "block_meaningful (Some (BlockReasoning t)) = (\<not> blank t)"
| "block_meaningful (Some (BlockToolCall n)) = (\<not> blank n)"
| "block_meaningful (Some BlockOther) = False"

definition HasMeaningfulAgenticOutput :: "content_block option list option \<Rightarrow> bool" where
  "HasMeaningfulAgenticOutput m = (case m of None \<Rightarrow> False | Some bs \<Rightarrow> list_ex block_meaningful bs)"

definition ObserveMessage :: "gctx \<Rightarrow> message \<Rightarrow> gctx \<times> bool" where
  "ObserveMessage ctx m = (if HasMeaningfulOutput (Some m) then (mark_ctx ctx, True) else (ctx, False))"

section \<open>Consuming a stream\<close>

text \<open>
  What can happen to the contexts between two frames of a stream, and the results of
  \<^verbatim>\<open>Recv\<close>.  The list of events and results is what the provider, the timers and the
  owners of the contexts do; when it ends without an end of stream or an error, the reader
  is still blocked in \<^verbatim>\<open>Recv\<close>, which is the result \<open>None\<close>.
\<close>

datatype ctx_event = TimerFires nat | Cancelled nat go_err

fun ctx_step :: "ctx_event \<Rightarrow> gctx \<Rightarrow> gctx" where
  "ctx_step (TimerFires i) fs = fire_frame i fs"
| "ctx_step (Cancelled i e) fs = cancel_frame i e fs"

datatype recv = RecvChunk "message option" | RecvError go_err

type_synonym stream = "(ctx_event list \<times> recv) list"

definition concatChunks :: "(message list \<Rightarrow> go_err + message) \<Rightarrow> message list \<Rightarrow> go_err + message option" where
  "concatChunks concat_msgs chunks =
    (if chunks = [] then Inr None
     else case concat_msgs chunks of
       Inl e \<Rightarrow> Inl (ErrWrap ''concat model stream: '' e) | Inr m \<Rightarrow> Inr (Some m))"

definition streamError :: "gctx \<Rightarrow> go_err \<Rightarrow> go_err" where
  "streamError ctx fallback = (case ctx_cause ctx of Some c \<Rightarrow> c | None \<Rightarrow> fallback)"

definition partial_result :: "(message list \<Rightarrow> go_err + message) \<Rightarrow> message list \<Rightarrow> go_err \<Rightarrow> message option \<times> go_err option" where
  "partial_result concat_msgs chunks e =
    (case concatChunks concat_msgs chunks of
       Inl ce \<Rightarrow> (None, Some ce) | Inr partial \<Rightarrow> (partial, Some e))"

fun Consume :: "(message list \<Rightarrow> go_err + message) \<Rightarrow> (message \<Rightarrow> go_err option) option \<Rightarrow>
    gctx \<Rightarrow> stream \<Rightarrow> message list \<Rightarrow> ((message option \<times> go_err option) \<times> gctx) option" where
  "Consume cm onChunk ctx [] chunks = None"
| "Consume cm onChunk ctx ((evs, r) # rest) chunks =
    (let ctx1 = fold ctx_step evs ctx in
     case r of
       RecvError e \<Rightarrow>
         if err_is e ErrEOF then
           (case concatChunks cm chunks of
              Inl ce \<Rightarrow> Some ((None, Some ce), ctx1)
            | Inr result \<Rightarrow> Some ((result, ctx_cause ctx1), ctx1))
         else Some (partial_result cm chunks (streamError ctx1 e), ctx1)
     | RecvChunk None \<Rightarrow> Consume cm onChunk ctx1 rest chunks
     | RecvChunk (Some chunk) \<Rightarrow>
         (let chunks1 = chunks @ [chunk]; ctx2 = fst (ObserveMessage ctx1 chunk) in
          case ctx_cause ctx2 of
            Some cause \<Rightarrow> Some (partial_result cm chunks1 cause, ctx2)
          | None \<Rightarrow>
              (case onChunk of
                 None \<Rightarrow> Consume cm onChunk ctx2 rest chunks1
               | Some h \<Rightarrow>
                   (case h chunk of
                      Some e \<Rightarrow> Some (partial_result cm chunks1 e, ctx2)
                    | None \<Rightarrow> Consume cm onChunk ctx2 rest chunks1))))"

text \<open>
  \<^verbatim>\<open>Collect\<close> on an opened model: \<open>open_stream\<close> is what the model's
  \<^verbatim>\<open>Stream\<close> returned (an error, a nil reader, or the stream).  The deferred
  \<^verbatim>\<open>stop\<close> and \<^verbatim>\<open>cancel(nil)\<close> act on the frame that is dropped on return.
\<close>

definition Collect :: "(message list \<Rightarrow> go_err + message) \<Rightarrow> gctx \<Rightarrow> int \<Rightarrow> (ctx_event list \<times> (go_err + stream option)) option \<Rightarrow>
    ((message option \<times> go_err option) \<times> gctx) option" where
  "Collect cm parent timeout opened =
    (case opened of
       None \<Rightarrow> Some ((None, Some (ErrText ''model stream chat model is nil'')), parent)
     | Some (evs, res) \<Rightarrow>
       (let ctx0 = fold ctx_step evs (with_first_output_timeout parent False timeout (Some ErrFirstOutputTimeout)) in
        case res of
          Inl e \<Rightarrow> Some ((None, Some (ErrWrap ''open model stream: '' (streamError ctx0 e))), tl ctx0)
        | Inr None \<Rightarrow> Some ((None, Some ErrNilReader), tl ctx0)
        | Inr (Some s) \<Rightarrow>
            (case Consume cm None ctx0 s [] of
               None \<Rightarrow> None
             | Some ((result, err), ctx1) \<Rightarrow>
                 (case err of
                    Some e \<Rightarrow> Some ((None, Some (ErrWrap ''receive model stream: '' e)), tl ctx1)
                  | None \<Rightarrow>
                      if \<not> HasMeaningfulOutput result then Some ((None, Some ErrEmptyOutput), tl ctx1)
                      else Some ((result, None), tl ctx1)))))"

section \<open>Gate lemmas\<close>

lemma gate_arm_idem: "gate_arm (gate_arm g) = gate_arm g"
  by (simp add: gate_arm_def)

lemma arm_ctx_idem: "arm_ctx (arm_ctx fs) = arm_ctx fs"
  by (induction fs rule: arm_ctx.induct) (auto simp: gate_arm_idem)

lemma length_arm_ctx [simp]: "length (arm_ctx fs) = length fs"
  by (induction fs rule: arm_ctx.induct) auto

lemma length_mark_ctx [simp]: "length (mark_ctx fs) = length fs"
  by (induction fs rule: mark_ctx.induct) auto

lemma length_cancel_frame [simp]: "length (cancel_frame i c fs) = length fs"
  by (auto simp: cancel_frame_def)

lemma length_fire_frame [simp]: "length (fire_frame i fs) = length fs"
  by (simp add: fire_frame_def)

lemma length_stop_frame [simp]: "length (stop_frame i fs) = length fs"
  by (simp add: stop_frame_def)

lemma cancel_frame_nth:
  "j < length fs \<Longrightarrow> cancel_frame i c fs ! j = (if j \<le> i \<and> i < length fs then set_cause c (fs ! j) else fs ! j)"
  by (auto simp: cancel_frame_def nth_append min_def)

lemma set_cause_gate [simp]: "fr_gate (set_cause c f) = fr_gate f" "fr_linked (set_cause c f) = fr_linked f"
  by (simp_all add: set_cause_def)

lemma set_cause_cancelled [simp]: "fr_cause (set_cause c f) \<noteq> None"
  by (simp add: set_cause_def)

lemma set_cause_first: "fr_cause f = Some d \<Longrightarrow> fr_cause (set_cause c f) = Some d"
  by (simp add: set_cause_def)

text \<open>The gates a mark reaches: linked, none of them fired or stopped.\<close>

fun chain_live :: "nat \<Rightarrow> gctx \<Rightarrow> bool" where
  "chain_live i [] = False"
| "chain_live 0 (f # fs) = (\<not> og_fired (fr_gate f) \<and> \<not> og_stopped (fr_gate f))"
| "chain_live (Suc i) (f # fs) =
     (\<not> og_fired (fr_gate f) \<and> \<not> og_stopped (fr_gate f) \<and> fr_linked f \<and> chain_live i fs)"

lemma chain_live_length: "chain_live i fs \<Longrightarrow> i < length fs"
  by (induction i fs rule: chain_live.induct) auto

lemma chain_live_mono: "chain_live n fs \<Longrightarrow> i \<le> n \<Longrightarrow> chain_live i fs"
proof (induction n fs arbitrary: i rule: chain_live.induct)
  case (3 n f fs)
  then show ?case by (cases i) simp_all
qed simp_all

lemma mark_ctx_observed:
  "chain_live i fs \<Longrightarrow> og_observed (fr_gate (mark_ctx fs ! i)) \<and> fr_cause (mark_ctx fs ! i) = fr_cause (fs ! i)"
  by (induction i fs rule: chain_live.induct) (auto simp: gate_mark_def)

lemma fire_observed: "og_observed (fr_gate (fs ! i)) \<Longrightarrow> fire_frame i fs = fs"
  by (simp add: fire_frame_def gate_fires_def)

lemma mark_ctx_closed: "fs \<noteq> [] \<Longrightarrow> og_fired (fr_gate (hd fs)) \<or> og_stopped (fr_gate (hd fs)) \<Longrightarrow> mark_ctx fs = fs"
  by (cases fs) auto

lemma mark_ctx_cause: "map fr_cause (mark_ctx fs) = map fr_cause fs"
  by (induction fs rule: mark_ctx.induct) auto

lemma arm_ctx_cause: "map fr_cause (arm_ctx fs) = map fr_cause fs"
  by (induction fs rule: arm_ctx.induct) auto

section \<open>Reachable contexts\<close>

text \<open>
  The life of a context: guards are attached, armed, observed, stopped; timers fire and
  owners cancel, in any order.
\<close>

inductive gctx_reach :: "gctx \<Rightarrow> bool" where
  background: "gctx_reach []"
| attach: "gctx_reach fs \<Longrightarrow> gctx_reach (with_deferred_timeout fs isolated t c)"
| arm: "gctx_reach fs \<Longrightarrow> gctx_reach (arm_ctx fs)"
| mark: "gctx_reach fs \<Longrightarrow> gctx_reach (mark_ctx fs)"
| fire: "gctx_reach fs \<Longrightarrow> gctx_reach (fire_frame i fs)"
| stop: "gctx_reach fs \<Longrightarrow> gctx_reach (stop_frame i fs)"
| cancel: "gctx_reach fs \<Longrightarrow> gctx_reach (cancel_frame i e fs)"

text \<open>
  A gate never both accepts output and times out; the frame of a gate that fired is
  cancelled; a timer runs only while the gate is armed and undecided.
\<close>

definition frame_ok :: "frame \<Rightarrow> bool" where
  "frame_ok f \<longleftrightarrow>
    (let g = fr_gate f in
     \<not> (og_fired g \<and> og_observed g) \<and> (og_fired g \<longrightarrow> og_armed g \<and> fr_cause f \<noteq> None) \<and>
     (og_timer g \<longrightarrow> og_armed g \<and> 0 < og_timeout g \<and> \<not> og_observed g \<and> \<not> og_fired g \<and> \<not> og_stopped g))"

lemma frame_ok_arm: "frame_ok f \<Longrightarrow> frame_ok (f\<lparr>fr_gate := gate_arm (fr_gate f)\<rparr>)"
  by (auto simp: frame_ok_def gate_arm_def Let_def)

lemma frame_ok_mark: "frame_ok f \<Longrightarrow> \<not> og_fired (fr_gate f) \<Longrightarrow> frame_ok (f\<lparr>fr_gate := gate_mark (fr_gate f)\<rparr>)"
  by (auto simp: frame_ok_def gate_mark_def Let_def)

lemma frame_ok_stop: "frame_ok f \<Longrightarrow> frame_ok (f\<lparr>fr_gate := gate_stop (fr_gate f)\<rparr>)"
  by (auto simp: frame_ok_def gate_stop_def Let_def)

lemma frame_ok_set_cause: "frame_ok f \<Longrightarrow> frame_ok (set_cause c f)"
  by (auto simp: frame_ok_def set_cause_def Let_def)

lemma list_all_update: "list_all P xs \<Longrightarrow> P x \<Longrightarrow> list_all P (xs[i := x])"
  by (auto simp: list_all_iff dest: set_update_subset_insert[THEN subsetD])

lemma frames_ok_cancel: "list_all frame_ok fs \<Longrightarrow> list_all frame_ok (cancel_frame i c fs)"
  by (auto simp: cancel_frame_def list_all_iff frame_ok_set_cause dest: in_set_takeD in_set_dropD)

lemma frames_ok_fire:
  assumes "list_all frame_ok fs" shows "list_all frame_ok (fire_frame i fs)"
proof (cases "i < length fs \<and> gate_fires (fr_gate (fs ! i))")
  case True
  define f where "f = (fs ! i)\<lparr>fr_gate := (fr_gate (fs ! i))\<lparr>og_fired := True, og_timer := False\<rparr>\<rparr>"
  define c where "c = og_cause (fr_gate (fs ! i))"
  have eq: "fire_frame i fs = cancel_frame i c (fs[i := f])" using True by (simp add: fire_frame_def f_def c_def)
  have "frame_ok (cancel_frame i c (fs[i := f]) ! j)" if "j < length fs" for j
  proof (cases "j = i")
    case True
    have "frame_ok (set_cause c f)" using \<open>i < length fs \<and> gate_fires (fr_gate (fs ! i))\<close> assms
      by (auto simp: frame_ok_def f_def set_cause_def gate_fires_def list_all_length Let_def)
    then show ?thesis using True that by (simp add: cancel_frame_nth)
  next
    case False
    then show ?thesis using assms that by (simp add: cancel_frame_nth frame_ok_set_cause list_all_length)
  qed
  then show ?thesis by (simp add: eq list_all_length)
qed (use assms in \<open>auto simp: fire_frame_def\<close>)

lemma frames_ok_arm_ctx: "list_all frame_ok fs \<Longrightarrow> list_all frame_ok (arm_ctx fs)"
  by (induction fs rule: arm_ctx.induct) (auto simp: frame_ok_arm)

lemma frames_ok_mark_ctx: "list_all frame_ok fs \<Longrightarrow> list_all frame_ok (mark_ctx fs)"
  by (induction fs rule: mark_ctx.induct) (auto simp: frame_ok_mark)

lemma frames_ok_reach: "gctx_reach fs \<Longrightarrow> list_all frame_ok fs"
proof (induction rule: gctx_reach.induct)
  case (attach fs isolated t c)
  then show ?case by (simp add: with_deferred_timeout_def frame_ok_def)
next
  case (arm fs)
  then show ?case by (intro frames_ok_arm_ctx)
next
  case (mark fs)
  then show ?case by (intro frames_ok_mark_ctx)
next
  case (fire fs i)
  then show ?case by (intro frames_ok_fire)
next
  case (stop fs i)
  then have "list_all frame_ok (fs[i := (fs ! i)\<lparr>fr_gate := gate_stop (fr_gate (fs ! i))\<rparr>])" if "i < length fs"
    using that by (intro list_all_update frame_ok_stop) (auto simp: list_all_length)
  with stop show ?case by (simp add: stop_frame_def)
next
  case (cancel fs i e)
  then show ?case by (intro frames_ok_cancel)
qed simp

section \<open>What the guard promises\<close>

fun is_fire :: "nat set \<Rightarrow> ctx_event \<Rightarrow> bool" where
  "is_fire A (TimerFires i) = (i \<in> A)"
| "is_fire A (Cancelled i e) = False"

lemma fold_fires_observed:
  "list_all (is_fire A) evs \<Longrightarrow> \<forall>i\<in>A. i < length fs \<longrightarrow> og_observed (fr_gate (fs ! i)) \<Longrightarrow> fold ctx_step evs fs = fs"
proof (induction evs)
  case (Cons e evs)
  then obtain i where "e = TimerFires i" "i \<in> A" by (cases e) auto
  moreover from this Cons.prems have "fire_frame i fs = fs"
    by (cases "i < length fs") (simp add: fire_observed, simp add: fire_frame_def)
  ultimately show ?case using Cons by simp
qed simp

text \<open>
  One meaningful chunk disarms every guard of its ownership chain for good: whatever
  timers of that chain go off afterwards, no context of the chain is cancelled by them.
\<close>

theorem output_disarms_chain:
  assumes "chain_live n ctx" "HasMeaningfulOutput (Some m)" "list_all (is_fire {..n}) evs"
  shows "fold ctx_step evs (fst (ObserveMessage ctx m)) = fst (ObserveMessage ctx m)
    \<and> map fr_cause (fst (ObserveMessage ctx m)) = map fr_cause ctx"
proof -
  have live: "chain_live i ctx" if "i \<le> n" for i
    using chain_live_mono[OF assms(1) that] .
  have "og_observed (fr_gate (mark_ctx ctx ! i))" if "i \<le> n" for i
    using mark_ctx_observed[OF live[OF that]] by simp
  then have "fold ctx_step evs (mark_ctx ctx) = mark_ctx ctx"
    using assms(3) by (intro fold_fires_observed[of "{..n}"]) auto
  then show ?thesis using assms(2) by (simp add: ObserveMessage_def mark_ctx_cause)
qed

definition demo_gate :: output_gate where
  "demo_gate = \<lparr>og_cause = ErrFirstOutputTimeout, og_timeout = 5, og_timer = True, og_armed = True,
     og_observed = False, og_fired = False, og_stopped = False\<rparr>"

definition demo_message :: message where
  "demo_message = \<lparr>m_content = ''hi'', m_reasoning = [], m_tool_names = [], m_finish_reason = None\<rparr>"

definition demo_ctx :: gctx where
  "demo_ctx = [\<lparr>fr_cause = None, fr_gate = demo_gate, fr_linked = True\<rparr>,
     \<lparr>fr_cause = None, fr_gate = demo_gate, fr_linked = False\<rparr>]"

lemma demo_message_meaningful: "HasMeaningfulOutput (Some demo_message)"
  by (simp add: HasMeaningfulOutput_def demo_message_def)

theorem output_disarms_chain_witness:
  "fold ctx_step [TimerFires 1, TimerFires 0] (fst (ObserveMessage demo_ctx demo_message))
     = fst (ObserveMessage demo_ctx demo_message)"
  using output_disarms_chain[of 1 demo_ctx demo_message "[TimerFires 1, TimerFires 0]"]
  by (simp add: demo_ctx_def demo_gate_def demo_message_meaningful)

text \<open>
  C9. In every reachable context a gate never both accepts output and times out, and a gate
  that timed out has cancelled its context; so a late chunk after the timeout is the work of
  a cancelled context and disarms no enclosing guard.
\<close>

theorem timeout_excludes_output:
  assumes "gctx_reach ctx" "f \<in> set ctx" "og_fired (fr_gate f)"
  shows "\<not> og_observed (fr_gate f) \<and> fr_cause f \<noteq> None \<and> (hd ctx = f \<longrightarrow> fst (ObserveMessage ctx m) = ctx)"
proof -
  have "frame_ok f" using frames_ok_reach[OF assms(1)] assms(2) by (simp add: list_all_iff)
  moreover have "hd ctx = f \<longrightarrow> fst (ObserveMessage ctx m) = ctx"
    by (cases ctx) (use assms in \<open>auto simp: ObserveMessage_def\<close>)
  ultimately show ?thesis using assms(3) by (auto simp: frame_ok_def Let_def)
qed

theorem timeout_excludes_output_witness:
  "\<exists>ctx f. gctx_reach ctx \<and> f \<in> set ctx \<and> og_fired (fr_gate f) \<and> fr_cause f = Some ErrFirstOutputTimeout
     \<and> fst (ObserveMessage ctx demo_message) = ctx"
proof -
  define ctx where "ctx = fire_frame 0 (with_first_output_timeout [] False 5 None)"
  have r: "gctx_reach ctx"
    unfolding ctx_def with_first_output_timeout_def by (intro gctx_reach.intros)
  have h: "hd ctx \<in> set ctx" "og_fired (fr_gate (hd ctx))" "fr_cause (hd ctx) = Some ErrFirstOutputTimeout"
    by (simp_all add: ctx_def with_first_output_timeout_def with_deferred_timeout_def fire_frame_def
        gate_fires_def gate_arm_def cancel_frame_def set_cause_def ctx_cause_def)
  show ?thesis using timeout_excludes_output[OF r h(1,2), of demo_message] r h by blast
qed

section \<open>What the reader promises\<close>

fun terminal_recv :: "recv \<Rightarrow> bool" where
  "terminal_recv (RecvError e) = True"
| "terminal_recv (RecvChunk c) = False"

text \<open>The non-nil chunks up to the first error or end of the stream.\<close>

fun stream_chunks :: "stream \<Rightarrow> message list" where
  "stream_chunks [] = []"
| "stream_chunks ((evs, RecvError e) # s) = []"
| "stream_chunks ((evs, RecvChunk None) # s) = stream_chunks s"
| "stream_chunks ((evs, RecvChunk (Some m)) # s) = m # stream_chunks s"

lemma Consume_returns: "list_ex (\<lambda>p. terminal_recv (snd p)) s \<Longrightarrow> Consume cm h ctx s chunks \<noteq> None"
proof (induction s arbitrary: ctx chunks)
  case (Cons p s)
  obtain evs r where p: "p = (evs, r)" by (cases p)
  show ?case
  proof (cases r)
    case (RecvChunk c)
    then show ?thesis using Cons p by (auto simp: Let_def split: option.splits)
  qed (auto simp: p Let_def split: sum.splits)
qed simp

text \<open>
  A stream that comes to its end with the context still live and every chunk accepted by the
  handler gives the concatenation of all its chunks, in order.
\<close>

lemma Consume_ok:
  assumes "Consume cm h ctx s chunks = Some ((r, None), ctx')"
  shows "concatChunks cm (chunks @ stream_chunks s) = Inr r \<and> ctx_cause ctx' = None \<and>
    (\<exists>evs e. (evs, RecvError e) \<in> set s \<and> err_is e ErrEOF)"
  using assms
proof (induction s arbitrary: ctx chunks)
  case (Cons p s)
  obtain evs x where p: "p = (evs, x)" by (cases p)
  show ?case
  proof (cases x)
    case (RecvError e)
    then show ?thesis using Cons.prems
      by (auto simp: p Let_def partial_result_def split: if_splits sum.splits)
  next
    case (RecvChunk c)
    then show ?thesis using Cons.prems Cons.IH
      by (cases c) (fastforce simp: p Let_def partial_result_def split: option.splits sum.splits)+
  qed
qed simp

text \<open>
  \<^verbatim>\<open>Collect\<close> never reports success for less than a whole answer: a result without
  an error means the stream reached its end, the result is the concatenation of all its
  chunks, it has meaningful output, and the operation's own context was not cancelled.  And
  it always returns once the provider ends the stream.
\<close>

theorem Collect_success:
  assumes "Collect cm parent timeout (Some (evs, Inr (Some s))) = Some ((r, None), ctx')"
  shows "HasMeaningfulOutput r \<and> (\<exists>m. r = Some m \<and> cm (stream_chunks s) = Inr m) \<and> stream_chunks s \<noteq> []
    \<and> (\<exists>evs' e. (evs', RecvError e) \<in> set s \<and> err_is e ErrEOF)"
proof -
  define ctx0 where "ctx0 = fold ctx_step evs (with_first_output_timeout parent False timeout (Some ErrFirstOutputTimeout))"
  obtain ctx1 where c: "Consume cm None ctx0 s [] = Some ((r, None), ctx1)" and m: "HasMeaningfulOutput r"
    using assms unfolding Collect_def ctx0_def[symmetric]
    by (auto simp: ctx0_def[symmetric] Let_def split: option.splits if_splits)
  have "concatChunks cm (stream_chunks s) = Inr r"
    and e: "\<exists>evs' e. (evs', RecvError e) \<in> set s \<and> err_is e ErrEOF" using Consume_ok[OF c] by simp_all
  moreover have "r \<noteq> None" using m by (cases r) (simp_all add: HasMeaningfulOutput_def)
  ultimately show ?thesis using m by (auto simp: concatChunks_def split: if_splits sum.splits)
qed

theorem Collect_success_witness:
  "HasMeaningfulOutput (Some demo_message) \<and>
   Collect (\<lambda>ms. Inr (hd ms)) [] 5 (Some ([], Inr (Some [([], RecvChunk (Some demo_message)), ([], RecvError ErrEOF)])))
     = Some ((Some demo_message, None), [])"
proof -
  let ?s = "[([], RecvChunk (Some demo_message)), ([], RecvError ErrEOF)]"
  have c: "Collect (\<lambda>ms. Inr (hd ms)) [] 5 (Some ([], Inr (Some ?s))) = Some ((Some demo_message, None), [])"
    by (simp add: Collect_def with_first_output_timeout_def with_deferred_timeout_def ObserveMessage_def
        demo_message_meaningful concatChunks_def ctx_cause_def gate_arm_def err_is_def)
  from Collect_success[OF c] c show ?thesis by simp
qed

end
