(* ===== verification/RunHub.thy ===== *)
theory RunHub
  imports RunEvents Modelstream
begin

text \<open>
  The in-memory run hub (\<^verbatim>\<open>internal/service/run_hub.go\<close>).

  \<open>run_facts\<close> holds the fields \<^verbatim>\<open>RunSnapshot\<close> and
  \<^verbatim>\<open>runState\<close> share through the embedded struct, \<open>run_snapshot\<close> adds the view of
  the event log a clone shows, \<open>run_state\<close> the log itself and the run's control fields.
  A run with a context has all three of \<^verbatim>\<open>runContext\<close>,
  \<^verbatim>\<open>cancelCause\<close> and \<^verbatim>\<open>firstOutputStop\<close>; one restored
  from the store has none.  Subscriber channels are the numbered buffers of \<open>hb_chans\<close> and
  bound cancel functions are numbers whose calls \<open>hb_calls\<close> records.  \<^verbatim>\<open>time.Now\<close>
  and \<^verbatim>\<open>uuid.NewString\<close> are arguments.  Each definition is one critical section of
  \<^verbatim>\<open>h.mu\<close>.  The calls an operation makes after it has released the lock are due:
  \<open>rs_due\<close> holds those on the context of the run, \<open>hb_bound_due\<close> the bound cancel functions, and
  each is made by a step of its own, \<open>perform_due\<close> or \<open>perform_bound\<close>, whatever other clients do in
  between (also in another order than the code has them).
\<close>

datatype run_status = RunStatusRunning | RunStatusCompleted | RunStatusFailed | RunStatusCanceled | RunStatusOther string

definition RunKindChat :: string where "RunKindChat = ''chat''"
definition RunKindCompaction :: string where "RunKindCompaction = ''compaction''"
definition RunKindMemoryMaintenance :: string where "RunKindMemoryMaintenance = ''memory_maintenance''"

definition RunOperationSend :: string where "RunOperationSend = ''send''"
definition RunOperationRetry :: string where "RunOperationRetry = ''retry''"
definition RunOperationCompaction :: string where "RunOperationCompaction = ''compaction''"
definition RunOperationMemoryCompact :: string where "RunOperationMemoryCompact = ''memory_compact''"
definition RunOperationMemoryRetry :: string where "RunOperationMemoryRetry = ''memory_retry''"

record run_intent =
  ri_operation :: string
  ri_version :: int
  ri_hash :: string
  ri_retry_target :: int

record run_facts =
  rf_run_id :: string
  rf_session_id :: int
  rf_user_id :: int
  rf_user_message_id :: int
  rf_terminal_message_id :: int
  rf_kind :: string
  rf_operation :: string
  rf_intent_version :: int
  rf_intent_hash :: string
  rf_retry_target :: int
  rf_runtime_snapshot :: string
  rf_status :: run_status
  rf_cancel_cause :: run_cancel_cause
  rf_usage :: jv
  rf_runtime :: jv
  rf_created_at :: int
  rf_accepted_at :: int
  rf_terminal_at :: "int option"
  rf_updated_at :: int
  rf_expires_at :: int

record run_snapshot = run_facts +
  sn_cursor :: int
  sn_output :: run_output
  sn_replay_from :: int
  sn_output_truncated :: bool
  sn_reused :: bool

text \<open>
  A call on the context of a run that is due: \<^verbatim>\<open>cancelCause\<close>,
  \<^verbatim>\<open>firstOutputStop\<close>, the look of \<^verbatim>\<open>BeginExecution\<close> at the cause of
  the context, and the arming that follows it.
\<close>

datatype due_call = CancelCall go_err | StopCall | ArmCheck | ArmCall

record run_state = run_facts +
  rs_log :: run_log
  rs_subscribers :: "nat list"
  rs_context :: "gctx option"
  rs_bound_cancel :: "nat option"
  rs_cancel_requested :: bool
  rs_finishing :: bool
  rs_durable :: bool
  rs_execution_owned :: bool
  rs_due :: "due_call list"

record run_chan =
  ch_buffer :: "run_event list"
  ch_closed :: bool

record run_hub =
  hb_runs :: "(string \<times> run_state) list"
  hb_ttl :: int
  hb_max_bytes :: int
  hb_draining :: bool
  hb_chans :: "run_chan list"
  hb_calls :: "nat list"
  hb_bound_due :: "nat list"

definition NewRunHub :: "int \<Rightarrow> int \<Rightarrow> run_hub" where
  "NewRunHub ttl maxBytes = \<lparr>hb_runs = [], hb_ttl = ttl, hb_max_bytes = maxBytes, hb_draining = False,
     hb_chans = [], hb_calls = [], hb_bound_due = []\<rparr>"

abbreviation hub_run :: "run_hub \<Rightarrow> string \<Rightarrow> run_state option" where
  "hub_run h runID \<equiv> map_of (hb_runs h) runID"

definition put_run :: "string \<Rightarrow> run_state \<Rightarrow> run_hub \<Rightarrow> run_hub" where
  "put_run runID s h = h\<lparr>hb_runs := AList.update runID s (hb_runs h)\<rparr>"

definition running :: "run_state \<Rightarrow> bool" where
  "running s \<longleftrightarrow> rf_status s = RunStatusRunning"

text \<open>\<^verbatim>\<open>cloneStateSnapshot\<close>.\<close>

definition cloneStateSnapshot :: "run_state \<Rightarrow> run_snapshot" where
  "cloneStateSnapshot s = run_facts.extend (run_facts.truncate s)
     (run_snapshot.fields (lg_cursor (rs_log s)) (lg_output (rs_log s)) (lg_replay_from (rs_log s))
        (lg_output_truncated (rs_log s)) False)"

definition legacyRunIntent :: "string \<Rightarrow> run_intent" where
  "legacyRunIntent kind =
    \<lparr>ri_operation = (if kind = RunKindCompaction then RunOperationCompaction
       else if kind = RunKindMemoryMaintenance then RunOperationMemoryCompact else RunOperationSend),
     ri_version = 0, ri_hash = [], ri_retry_target = 0\<rparr>"

definition sameRunScope :: "run_state \<Rightarrow> int \<Rightarrow> int \<Rightarrow> string \<Rightarrow> run_intent \<Rightarrow> bool" where
  "sameRunScope s sessionID userID kind intent \<longleftrightarrow>
    rf_session_id s = sessionID \<and> rf_user_id s = userID \<and> rf_kind s = kind \<and>
    rf_operation s = ri_operation intent \<and> rf_intent_version s = ri_version intent \<and>
    rf_intent_hash s = ri_hash intent \<and> rf_retry_target s = ri_retry_target intent"

definition newRunContext :: "int \<Rightarrow> gctx" where
  "newRunContext timeout = with_deferred_timeout [] False timeout (Some (RunCancellation RunCancelFirstOutputTimeout))"

text \<open>The calls of \<^verbatim>\<open>cancelCause\<close> and \<^verbatim>\<open>firstOutputStop\<close>, and the calls that are due.\<close>

definition call_cancel_cause :: "go_err \<Rightarrow> run_state \<Rightarrow> run_state" where
  "call_cancel_cause e s = s\<lparr>rs_context := map_option (cancel_frame 0 e) (rs_context s)\<rparr>"

definition call_first_output_stop :: "run_state \<Rightarrow> run_state" where
  "call_first_output_stop s = s\<lparr>rs_context := map_option (stop_frame 0) (rs_context s)\<rparr>"

definition add_due :: "due_call list \<Rightarrow> run_state \<Rightarrow> run_state" where
  "add_due cs s = s\<lparr>rs_due := rs_due s @ cs\<rparr>"

definition due_bound :: "run_state \<Rightarrow> run_hub \<Rightarrow> run_hub" where
  "due_bound s h = (case rs_bound_cancel s of None \<Rightarrow> h | Some f \<Rightarrow> h\<lparr>hb_bound_due := hb_bound_due h @ [f]\<rparr>)"

text \<open>A call that was due is made.\<close>

fun make_call :: "due_call \<Rightarrow> run_state \<Rightarrow> run_state" where
  "make_call (CancelCall e) s = call_cancel_cause e s"
| "make_call StopCall s = call_first_output_stop s"
| "make_call ArmCheck s =
     (case rs_context s of None \<Rightarrow> s | Some c \<Rightarrow> if ctx_cause c = None then add_due [ArmCall] s else s)"
| "make_call ArmCall s = s\<lparr>rs_context := map_option arm_ctx (rs_context s)\<rparr>"

definition perform_due :: "run_hub \<Rightarrow> string \<Rightarrow> due_call \<Rightarrow> run_hub" where
  "perform_due h runID c =
    (case hub_run h runID of
       None \<Rightarrow> h
     | Some s \<Rightarrow> if c \<in> set (rs_due s) then put_run runID (make_call c (s\<lparr>rs_due := remove1 c (rs_due s)\<rparr>)) h else h)"

definition perform_bound :: "run_hub \<Rightarrow> nat \<Rightarrow> run_hub" where
  "perform_bound h f =
    (if f \<in> set (hb_bound_due h)
     then h\<lparr>hb_bound_due := remove1 f (hb_bound_due h), hb_calls := hb_calls h @ [f]\<rparr> else h)"

definition new_run_state :: "string \<Rightarrow> int \<Rightarrow> int \<Rightarrow> int \<Rightarrow> string \<Rightarrow> run_intent \<Rightarrow> int \<Rightarrow> int \<Rightarrow> int \<Rightarrow> run_state" where
  "new_run_state runID sessionID userID userMessageID kind intent timeout now expires =
    \<lparr>rf_run_id = runID, rf_session_id = sessionID, rf_user_id = userID, rf_user_message_id = userMessageID,
     rf_terminal_message_id = 0, rf_kind = kind, rf_operation = ri_operation intent,
     rf_intent_version = ri_version intent, rf_intent_hash = ri_hash intent, rf_retry_target = ri_retry_target intent,
     rf_runtime_snapshot = [], rf_status = RunStatusRunning, rf_cancel_cause = CauseNone, rf_usage = JNull,
     rf_runtime = JNull, rf_created_at = now, rf_accepted_at = now, rf_terminal_at = None, rf_updated_at = now,
     rf_expires_at = expires,
     rs_log = empty_log, rs_subscribers = [], rs_context = Some (newRunContext timeout), rs_bound_cancel = None,
     rs_cancel_requested = False, rs_finishing = False, rs_durable = False, rs_execution_owned = False,
     rs_due = []\<rparr>"

definition StartWithIntentAndFirstOutputTimeout ::
  "run_hub \<Rightarrow> int \<Rightarrow> string \<Rightarrow> int \<Rightarrow> int \<Rightarrow> int \<Rightarrow> string \<Rightarrow> string \<Rightarrow> run_intent \<Rightarrow> int
     \<Rightarrow> (go_err + run_snapshot) \<times> run_hub" where
  "StartWithIntentAndFirstOutputTimeout h now fresh sessionID userID userMessageID clientRunID kind0 intent timeout =
    (let runID = (if trim_space clientRunID = [] then fresh else trim_space clientRunID);
         kind = (if kind0 = [] then RunKindChat else kind0)
     in case hub_run h runID of
          Some existing \<Rightarrow>
            if \<not> sameRunScope existing sessionID userID kind intent then (Inl ErrRunIDConflict, h)
            else (let s = (if running existing then existing\<lparr>rf_expires_at := now + hb_ttl h\<rparr> else existing)
                  in (Inr ((cloneStateSnapshot s)\<lparr>sn_reused := True\<rparr>), put_run runID s h))
        | None \<Rightarrow>
            if hb_draining h then (Inl ErrServerDraining, h)
            else if list_ex (\<lambda>(k, s). rf_session_id s = sessionID \<and> rf_user_id s = userID \<and> running s) (hb_runs h)
            then (Inl ErrSessionRunActive, h)
            else (let s = new_run_state runID sessionID userID userMessageID kind intent timeout now (now + hb_ttl h)
                  in (Inr (cloneStateSnapshot s), put_run runID s h)))"

definition Start :: "run_hub \<Rightarrow> int \<Rightarrow> string \<Rightarrow> int \<Rightarrow> int \<Rightarrow> int \<Rightarrow> string \<Rightarrow> string \<Rightarrow> (go_err + run_snapshot) \<times> run_hub" where
  "Start h now fresh sessionID userID userMessageID clientRunID kind =
    StartWithIntentAndFirstOutputTimeout h now fresh sessionID userID userMessageID clientRunID kind (legacyRunIntent kind) 0"

definition StartWithFirstOutputTimeout ::
  "run_hub \<Rightarrow> int \<Rightarrow> string \<Rightarrow> int \<Rightarrow> int \<Rightarrow> int \<Rightarrow> string \<Rightarrow> string \<Rightarrow> int \<Rightarrow> (go_err + run_snapshot) \<times> run_hub" where
  "StartWithFirstOutputTimeout h now fresh sessionID userID userMessageID clientRunID kind timeout =
    StartWithIntentAndFirstOutputTimeout h now fresh sessionID userID userMessageID clientRunID kind (legacyRunIntent kind) timeout"

definition StartWithIntent ::
  "run_hub \<Rightarrow> int \<Rightarrow> string \<Rightarrow> int \<Rightarrow> int \<Rightarrow> int \<Rightarrow> string \<Rightarrow> string \<Rightarrow> run_intent \<Rightarrow> (go_err + run_snapshot) \<times> run_hub" where
  "StartWithIntent h now fresh sessionID userID userMessageID clientRunID kind intent =
    StartWithIntentAndFirstOutputTimeout h now fresh sessionID userID userMessageID clientRunID kind intent 0"

text \<open>\<^verbatim>\<open>Match\<close>: the snapshot, whether the run exists, the error.\<close>

definition Match :: "run_hub \<Rightarrow> string \<Rightarrow> int \<Rightarrow> int \<Rightarrow> string \<Rightarrow> run_intent \<Rightarrow> run_snapshot option \<times> bool \<times> go_err option" where
  "Match h runID sessionID userID kind intent =
    (case hub_run h runID of
       None \<Rightarrow> (None, False, None)
     | Some s \<Rightarrow>
         if \<not> sameRunScope s sessionID userID kind intent then (None, True, Some ErrRunIDConflict)
         else (Some (cloneStateSnapshot s), True, None))"

definition BeginDrain :: "run_hub \<Rightarrow> run_hub" where
  "BeginDrain h = h\<lparr>hb_draining := True\<rparr>"

definition activeCount :: "run_hub \<Rightarrow> nat" where
  "activeCount h = length (filter (\<lambda>(k, s). running s) (hb_runs h))"

section \<open>Events\<close>

definition run_chan_cap :: nat where "run_chan_cap = 32"

text \<open>
  The select with a default of \<^verbatim>\<open>appendEventLocked\<close>: a full channel loses the
  event.
\<close>

definition try_send :: "run_event \<Rightarrow> run_chan \<Rightarrow> run_chan" where
  "try_send e c = (if length (ch_buffer c) < run_chan_cap then c\<lparr>ch_buffer := ch_buffer c @ [e]\<rparr> else c)"

definition send_all :: "nat list \<Rightarrow> run_event \<Rightarrow> run_chan list \<Rightarrow> run_chan list" where
  "send_all subs e cs = foldl (\<lambda>cs i. cs[i := try_send e (cs ! i)]) cs subs"

definition appendEventLocked :: "run_hub \<Rightarrow> int \<Rightarrow> run_state \<Rightarrow> string \<Rightarrow> jv \<Rightarrow> run_hub \<times> run_state \<times> run_event" where
  "appendEventLocked h now s event data =
    (let (lg, entry) = append_log (hb_max_bytes h) event data (rs_log s)
     in (h\<lparr>hb_chans := send_all (rs_subscribers s) entry (hb_chans h)\<rparr>,
         s\<lparr>rs_log := lg, rf_updated_at := now, rf_expires_at := now + hb_ttl h\<rparr>, entry))"

definition Record :: "run_hub \<Rightarrow> int \<Rightarrow> string \<Rightarrow> string \<Rightarrow> jv \<Rightarrow> bool \<times> run_hub" where
  "Record h now runID event data =
    (case hub_run h runID of
       None \<Rightarrow> (False, h)
     | Some s \<Rightarrow>
         if \<not> running s \<or> rs_finishing s then (False, h)
         else (let (h', s', e) = appendEventLocked h now s event data in (True, put_run runID s' h')))"

section \<open>Cancellation\<close>

definition Bind :: "run_hub \<Rightarrow> string \<Rightarrow> nat \<Rightarrow> bool \<times> run_hub" where
  "Bind h runID cancel =
    (case hub_run h runID of
       None \<Rightarrow> (False, h)
     | Some s \<Rightarrow>
         if \<not> running s \<or> rs_finishing s then (False, h)
         else (let s' = s\<lparr>rs_bound_cancel := Some cancel\<rparr>; h' = put_run runID s' h
               in (True, if rs_cancel_requested s then due_bound s' h' else h')))"

definition shouldReplaceCancelCause :: "run_cancel_cause \<Rightarrow> run_cancel_cause \<Rightarrow> bool" where
  "shouldReplaceCancelCause current nxt =
    (if current = nxt then False
     else if nxt = RunCancelSessionDeleted then True
     else nxt = RunCancelAccountChanged \<and> current \<noteq> RunCancelSessionDeleted)"

text \<open>What both cancellation paths do to a run, with the call on its context that follows the unlock.\<close>

definition cancel_applies :: "run_cancel_cause \<Rightarrow> (run_state \<Rightarrow> bool) \<Rightarrow> run_state \<Rightarrow> bool" where
  "cancel_applies cause matches s \<longleftrightarrow>
    matches s \<and> running s \<and> \<not> rs_finishing s \<and>
    \<not> (rs_cancel_requested s \<and> \<not> shouldReplaceCancelCause (rf_cancel_cause s) cause)"

definition request_cancel :: "int \<Rightarrow> run_cancel_cause \<Rightarrow> run_state \<Rightarrow> run_state" where
  "request_cancel now cause s = add_due [CancelCall (RunCancellation cause)]
     (s\<lparr>rs_cancel_requested := True, rf_cancel_cause := cause, rf_updated_at := now\<rparr>)"

definition cancelMatching :: "run_hub \<Rightarrow> int \<Rightarrow> run_cancel_cause \<Rightarrow> (run_state \<Rightarrow> bool) \<Rightarrow> nat \<times> run_hub" where
  "cancelMatching h now cause matches =
    (let hit = (\<lambda>s. cancel_applies cause matches s);
         hits = filter (\<lambda>p. hit (snd p)) (hb_runs h)
     in (length hits,
         h\<lparr>hb_runs := map (\<lambda>(k, s). (k, if hit s then request_cancel now cause s else s)) (hb_runs h),
           hb_bound_due := hb_bound_due h @ List.map_filter (\<lambda>p. rs_bound_cancel (snd p)) hits\<rparr>))"

definition CancelForDrain :: "run_hub \<Rightarrow> int \<Rightarrow> nat \<times> run_hub" where
  "CancelForDrain h now = cancelMatching h now RunCancelServerDrain (\<lambda>s. True)"

definition CancelByUser :: "run_hub \<Rightarrow> int \<Rightarrow> int \<Rightarrow> nat \<times> run_hub" where
  "CancelByUser h now userID = cancelMatching h now RunCancelAccountChanged (\<lambda>s. rf_user_id s = userID)"

definition CancelSession :: "run_hub \<Rightarrow> int \<Rightarrow> int \<Rightarrow> int \<Rightarrow> nat \<times> run_hub" where
  "CancelSession h now sessionID userID =
    cancelMatching h now RunCancelSessionDeleted (\<lambda>s. rf_session_id s = sessionID \<and> rf_user_id s = userID)"

text \<open>\<^verbatim>\<open>CancelWithCause\<close> of \<^verbatim>\<open>run_terminal.go\<close>, and \<^verbatim>\<open>Cancel\<close>.\<close>

definition CancelWithCause :: "run_hub \<Rightarrow> int \<Rightarrow> string \<Rightarrow> int \<Rightarrow> int \<Rightarrow> run_cancel_cause \<Rightarrow> bool \<times> run_hub" where
  "CancelWithCause h now runID sessionID userID cause0 =
    (let cause = (if cause0 = CauseNone then RunCancelUserStop else cause0)
     in case hub_run h runID of
          None \<Rightarrow> (False, h)
        | Some s \<Rightarrow>
            if rf_session_id s \<noteq> sessionID \<or> rf_user_id s \<noteq> userID \<or> \<not> running s \<or> rs_finishing s then (False, h)
            else if rs_cancel_requested s then (rf_cancel_cause s = cause, h)
            else (True, due_bound s (put_run runID (request_cancel now cause s) h)))"

definition Cancel :: "run_hub \<Rightarrow> int \<Rightarrow> string \<Rightarrow> int \<Rightarrow> int \<Rightarrow> bool \<times> run_hub" where
  "Cancel h now runID sessionID userID = CancelWithCause h now runID sessionID userID RunCancelUserStop"

section \<open>Queries\<close>

definition IsCanceled :: "run_hub \<Rightarrow> string \<Rightarrow> bool" where
  "IsCanceled h runID = (case hub_run h runID of None \<Rightarrow> False | Some s \<Rightarrow> rf_status s = RunStatusCanceled)"

definition IsServerDraining :: "run_hub \<Rightarrow> string \<Rightarrow> bool" where
  "IsServerDraining h runID = (case hub_run h runID of None \<Rightarrow> False | Some s \<Rightarrow> rf_cancel_cause s = RunCancelServerDrain)"

definition CancelCause :: "run_hub \<Rightarrow> string \<Rightarrow> run_cancel_cause" where
  "CancelCause h runID = (case hub_run h runID of None \<Rightarrow> CauseNone | Some s \<Rightarrow> rf_cancel_cause s)"

definition Active :: "run_hub \<Rightarrow> int \<Rightarrow> int \<Rightarrow> run_snapshot option" where
  "Active h sessionID userID =
    foldl (\<lambda>latest (k, s).
      if rf_session_id s \<noteq> sessionID \<or> rf_user_id s \<noteq> userID \<or> \<not> running s then latest
      else (case latest of None \<Rightarrow> Some (cloneStateSnapshot s)
            | Some l \<Rightarrow> if rf_updated_at s > rf_updated_at l then Some (cloneStateSnapshot s) else Some l))
      None (hb_runs h)"

definition CountActiveByUser :: "run_hub \<Rightarrow> int \<Rightarrow> string \<Rightarrow> nat" where
  "CountActiveByUser h userID kind =
    length (filter (\<lambda>(k, s). rf_user_id s = userID \<and> running s \<and> (kind = [] \<or> rf_kind s = kind)) (hb_runs h))"

definition Get :: "run_hub \<Rightarrow> string \<Rightarrow> int \<Rightarrow> int \<Rightarrow> run_snapshot option" where
  "Get h runID sessionID userID =
    (case hub_run h runID of None \<Rightarrow> None
     | Some s \<Rightarrow> if rf_session_id s \<noteq> sessionID \<or> rf_user_id s \<noteq> userID then None else Some (cloneStateSnapshot s))"

section \<open>Subscriptions and cleanup\<close>

text \<open>The replayed events, the channel of a running run, the snapshot.\<close>

definition EventsAfter :: "run_hub \<Rightarrow> string \<Rightarrow> int \<Rightarrow> int \<Rightarrow> int
    \<Rightarrow> (go_err + run_event list \<times> nat option \<times> run_snapshot) \<times> run_hub" where
  "EventsAfter h runID sessionID userID cursor =
    (case hub_run h runID of
       None \<Rightarrow> (Inl ErrRunNotFound, h)
     | Some s \<Rightarrow>
         if rf_session_id s \<noteq> sessionID \<or> rf_user_id s \<noteq> userID then (Inl ErrRunNotFound, h)
         else (let events = eventsAfterCursor (lg_events (rs_log s)) cursor; snap = cloneStateSnapshot s in
           if \<not> running s then (Inr (events, None, snap), h)
           else (let ch = length (hb_chans h) in
             (Inr (events, Some ch, snap),
              put_run runID (s\<lparr>rs_subscribers := rs_subscribers s @ [ch]\<rparr>)
                (h\<lparr>hb_chans := hb_chans h @ [\<lparr>ch_buffer = [], ch_closed = False\<rparr>]\<rparr>)))))"

text \<open>The cleanup function \<^verbatim>\<open>EventsAfter\<close> returns, and a client that takes one event.\<close>

definition unsubscribe :: "run_hub \<Rightarrow> string \<Rightarrow> nat \<Rightarrow> run_hub" where
  "unsubscribe h runID ch =
    (case hub_run h runID of None \<Rightarrow> h
     | Some s \<Rightarrow> put_run runID (s\<lparr>rs_subscribers := filter (\<lambda>c. c \<noteq> ch) (rs_subscribers s)\<rparr>) h)"

definition receive :: "run_hub \<Rightarrow> nat \<Rightarrow> run_event option \<times> run_hub" where
  "receive h ch =
    (if ch < length (hb_chans h) then
       (case ch_buffer (hb_chans h ! ch) of
          [] \<Rightarrow> (None, h)
        | e # es \<Rightarrow> (Some e, h\<lparr>hb_chans := (hb_chans h)[ch := (hb_chans h ! ch)\<lparr>ch_buffer := es\<rparr>]\<rparr>))
     else (None, h))"

definition EventsSince :: "run_hub \<Rightarrow> string \<Rightarrow> int \<Rightarrow> int \<Rightarrow> int \<Rightarrow> go_err + run_event list \<times> run_snapshot" where
  "EventsSince h runID sessionID userID cursor =
    (case hub_run h runID of
       None \<Rightarrow> Inl ErrRunNotFound
     | Some s \<Rightarrow>
         if rf_session_id s \<noteq> sessionID \<or> rf_user_id s \<noteq> userID then Inl ErrRunNotFound
         else Inr (eventsAfterCursor (lg_events (rs_log s)) cursor, cloneStateSnapshot s))"

definition close_chans :: "nat list \<Rightarrow> run_chan list \<Rightarrow> run_chan list" where
  "close_chans subs cs = foldl (\<lambda>cs i. cs[i := (cs ! i)\<lparr>ch_closed := True\<rparr>]) cs subs"

definition closeSubscribersLocked :: "run_state \<Rightarrow> run_hub \<Rightarrow> run_state \<times> run_hub" where
  "closeSubscribersLocked s h = (s\<lparr>rs_subscribers := []\<rparr>, h\<lparr>hb_chans := close_chans (rs_subscribers s) (hb_chans h)\<rparr>)"

definition run_expired :: "int \<Rightarrow> run_state \<Rightarrow> bool" where
  "run_expired now s \<longleftrightarrow> \<not> running s \<and> now > rf_expires_at s"

definition cleanup :: "run_hub \<Rightarrow> int \<Rightarrow> run_hub" where
  "cleanup h now =
    (let gone = filter (\<lambda>p. run_expired now (snd p)) (hb_runs h)
     in h\<lparr>hb_runs := filter (\<lambda>p. \<not> run_expired now (snd p)) (hb_runs h),
          hb_chans := close_chans (concat (map (\<lambda>p. rs_subscribers (snd p)) gone)) (hb_chans h)\<rparr>)"

end
