(* ===== verification/MessageData.thy ===== *)
theory MessageData
  imports JsonDecode
begin

text \<open>
  A row of the table \<^verbatim>\<open>messages\<close> and what is read off its document: the columns
  PostgreSQL generates from \<^verbatim>\<open>message_data\<close>
  (\<^verbatim>\<open>src/backend/migrations/init.sql\<close>), the jsonb operators of the queries, and the
  readers of \<^verbatim>\<open>message_repository.go\<close> that decode the document in Go.

  A jsonb document is its value.  \<open>json_text\<close> is the operator \<open>\<rightarrow>>\<close> on a value that is
  there; a number literal is printed as it was written.
\<close>

section \<open>The jsonb operators\<close>

definition pg_escape :: "char \<Rightarrow> string" where
  "pg_escape c =
    (if c = CHR 0x22 then [CHR 0x5C, CHR 0x22] else if c = CHR 0x5C then [CHR 0x5C, CHR 0x5C]
     else if c = CHR 0x08 then [CHR 0x5C, CHR ''b''] else if c = CHR 0x0C then [CHR 0x5C, CHR ''f'']
     else if c = CHR 0x0A then [CHR 0x5C, CHR ''n''] else if c = CHR 0x0D then [CHR 0x5C, CHR ''r'']
     else if c = CHR 0x09 then [CHR 0x5C, CHR ''t''] else if (of_char c :: nat) < 32 then u_escape (of_char c)
     else [c])"

definition pg_quote :: "string \<Rightarrow> string" where
  "pg_quote s = CHR 0x22 # concat (map pg_escape s) @ [CHR 0x22]"

fun sep_by :: "string \<Rightarrow> string list \<Rightarrow> string" where
  "sep_by d [] = []"
| "sep_by d [x] = x"
| "sep_by d (x # xs) = x @ d @ sep_by d xs"

text \<open>\<^verbatim>\<open>message_data::text\<close>: a comma and a colon are followed by a space.\<close>

fun jsonb_text :: "jv \<Rightarrow> string" where
  "jsonb_text JNull = ''null''"
| "jsonb_text (JBool b) = (if b then ''true'' else ''false'')"
| "jsonb_text (JInt i) = itoa i"
| "jsonb_text (JNum s) = s"
| "jsonb_text (JStr s) = pg_quote s"
| "jsonb_text (JArr xs) = ''['' @ sep_by '', '' (map jsonb_text xs) @ '']''"
| "jsonb_text (JObj m) = ''{'' @ sep_by '', '' (map (\<lambda>(k, v). pg_quote k @ '': '' @ jsonb_text v) m) @ ''}''"

definition json_text :: "jv \<Rightarrow> string option" where
  "json_text v = (case v of JNull \<Rightarrow> None | JStr s \<Rightarrow> Some s | _ \<Rightarrow> Some (jsonb_text v))"

definition text_at :: "jv \<Rightarrow> string \<Rightarrow> string option" where
  "text_at v k = Option.bind (map_of (obj_fields v) k) json_text"

definition meta_text :: "jv \<Rightarrow> string \<Rightarrow> string option" where
  "meta_text v k = Option.bind (map_of (obj_fields v) ''metadata'') (\<lambda>m. text_at m k)"

section \<open>Rows and their generated columns\<close>

record message_row =
  mr_id :: int
  mr_session_id :: int
  mr_schema :: string
  mr_data :: jv
  mr_answer_attempt :: "int option"
  mr_compressed :: bool
  mr_summary_id :: "int option"
  mr_created_at :: int
  mr_updated_at :: int
  mr_deleted :: bool

definition data_role :: "jv \<Rightarrow> string option" where
  "data_role v = text_at v ''role''"

definition mr_role :: "message_row \<Rightarrow> string" where
  "mr_role m = coalesce (data_role (mr_data m)) []"

definition mr_content :: "message_row \<Rightarrow> string" where
  "mr_content m = coalesce (text_at (mr_data m) ''content'') []"

definition mr_has_tool_calls :: "message_row \<Rightarrow> bool" where
  "mr_has_tool_calls m =
    (if mr_schema m = ''v1'' then arr_at (obj_fields (mr_data m)) ''tool_calls'' \<noteq> []
     else if mr_schema m = ''v2'' then
       list_ex (contains (jsonb_text (mr_data m)))
         [''\"type\":\"function_tool_call\"'', ''\"type\":\"mcp_tool_call\"'', ''\"type\":\"server_tool_call\"'']
     else False)"

definition mr_has_reasoning :: "message_row \<Rightarrow> bool" where
  "mr_has_reasoning m =
    (if mr_schema m = ''v1'' then coalesce (text_at (mr_data m) ''reasoning_content'') [] \<noteq> []
     else if mr_schema m = ''v2'' then contains (jsonb_text (mr_data m)) ''\"type\":\"reasoning\"'' else False)"

definition mr_has_multimodal :: "message_row \<Rightarrow> bool" where
  "mr_has_multimodal m =
    (if mr_schema m = ''v1'' then
       map_of (obj_fields (mr_data m)) ''user_input_multi_content'' \<noteq> None \<or>
       map_of (obj_fields (mr_data m)) ''assistant_gen_multi_content'' \<noteq> None
     else if mr_schema m = ''v2'' then
       list_ex (contains (jsonb_text (mr_data m)))
         [''\"type\":\"user_input_image\"'', ''\"type\":\"user_input_audio\"'', ''\"type\":\"user_input_video\"'',
          ''\"type\":\"user_input_file\"'', ''\"type\":\"assistant_gen_image\"'', ''\"type\":\"assistant_gen_audio\"'',
          ''\"type\":\"assistant_gen_video\"'']
     else False)"

text \<open>The tests of the queries on the metadata.\<close>

definition mr_ephemeral_error :: "message_row \<Rightarrow> bool" where
  "mr_ephemeral_error m \<longleftrightarrow> meta_text (mr_data m) ''ephemeral_error'' = Some ''true''"

definition mr_compaction_summary :: "message_row \<Rightarrow> bool" where
  "mr_compaction_summary m \<longleftrightarrow> meta_text (mr_data m) ''compaction_summary'' = Some ''true''"

definition mr_run_id :: "message_row \<Rightarrow> string option" where
  "mr_run_id m = meta_text (mr_data m) ''run_id''"

text \<open>
  The boundary of a checkpoint, if it is written with digits; the code writes an id of the table, so
  the cast to \<^verbatim>\<open>BIGINT\<close> is in range.
\<close>

definition mr_boundary :: "message_row \<Rightarrow> int option" where
  "mr_boundary m =
    (case meta_text (mr_data m) ''compaction_before_message_id'' of
       Some s \<Rightarrow> if s \<noteq> [] \<and> list_all is_digit s then Some (digits_val s) else None
     | None \<Rightarrow> None)"

section \<open>The readers in Go\<close>

definition ParseMessageData :: "jv \<Rightarrow> (string \<times> jv) list option" where
  "ParseMessageData v = (case v of JObj m \<Rightarrow> Some m | JNull \<Rightarrow> Some [] | _ \<Rightarrow> None)"

definition metadata_map :: "(string \<times> jv) list \<Rightarrow> (string \<times> jv) list" where
  "metadata_map m = obj_fields (value_at m ''metadata'')"

definition go_flag :: "(string \<times> jv) list \<Rightarrow> string \<Rightarrow> bool" where
  "go_flag m k \<longleftrightarrow> bool_at (metadata_map m) k = Some True"

definition isCompactionSummaryMessageData :: "jv \<Rightarrow> bool" where
  "isCompactionSummaryMessageData v = (case ParseMessageData v of None \<Rightarrow> False | Some m \<Rightarrow> go_flag m ''compaction_summary'')"

definition go_content :: "(string \<times> jv) list \<Rightarrow> string" where
  "go_content m = coalesce (str_at m ''content'') []"

section \<open>Facts\<close>

lemma generated_update [simp]:
  "mr_role (m\<lparr>mr_compressed := c, mr_summary_id := s\<rparr>) = mr_role m"
  "mr_role (m\<lparr>mr_deleted := d\<rparr>) = mr_role m" "mr_role (m\<lparr>mr_updated_at := t\<rparr>) = mr_role m"
  "mr_role (m\<lparr>mr_id := i\<rparr>) = mr_role m" "mr_role (m\<lparr>mr_answer_attempt := a\<rparr>) = mr_role m"
  by (simp_all add: mr_role_def)

lemma json_text_bool [simp]: "json_text (JBool b) = Some (if b then ''true'' else ''false'')"
  by (simp add: json_text_def)

lemma json_text_str [simp]: "json_text (JStr s) = Some s"
  by (simp add: json_text_def)

lemma json_text_int [simp]: "json_text (JInt i) = Some (itoa i)"
  by (simp add: json_text_def)

text \<open>What the Go readers flag the queries flag too.\<close>

lemma go_flag_sql:
  assumes "ParseMessageData v = Some m" "go_flag m k"
  shows "meta_text v k = Some ''true''"
  using assms
  by (auto simp: ParseMessageData_def go_flag_def metadata_map_def bool_at_def value_at_def meta_text_def text_at_def obj_fields_def
    split: jv.splits option.splits if_splits)

section \<open>Documents of version 2\<close>

text \<open>
  The text of a \<^verbatim>\<open>jsonb\<close> has a space after the colon of a member, so the
  patterns of the generated columns for version 2 find nothing in a document that has the block.
\<close>

definition v2_reasoning_row :: message_row where
  "v2_reasoning_row = \<lparr>mr_id = 1, mr_session_id = 1, mr_schema = ''v2'',
     mr_data = JObj [(''role'', JStr ''assistant''), (''content_blocks'', JArr [JObj [(''type'', JStr ''reasoning'')]])],
     mr_answer_attempt = None, mr_compressed = False, mr_summary_id = None, mr_created_at = 1, mr_updated_at = 1, mr_deleted = False\<rparr>"

lemma v2_reasoning_unseen: "\<not> mr_has_reasoning v2_reasoning_row"
  by code_simp

end
