(* ===== verification/RunStore.thy ===== *)
theory RunStore
  imports RunHub MessageData
begin

text \<open>
  The durable side of a run: the tables \<^verbatim>\<open>chat_run_reservations\<close> and
  \<^verbatim>\<open>answer_attempts\<close> with the parts of \<^verbatim>\<open>users\<close>,
  \<^verbatim>\<open>sessions\<close> and \<^verbatim>\<open>messages\<close> the operations read, and the operations of
  \<^verbatim>\<open>internal/repository\<close> on them: \<^verbatim>\<open>chat_run_repository.go\<close>, the
  reservation of \<^verbatim>\<open>chat_run_admission_repository.go\<close>, the quota checks of
  \<^verbatim>\<open>quota_repository.go\<close> and \<^verbatim>\<open>answer_attempt_repository.go\<close>.

  A nullable column is an option, a jsonb document is its value, \<^verbatim>\<open>NOW()\<close> is an
  argument.  A statement runs on the table as it is (the code locks the rows it decides on); a
  transaction that fails leaves the database as it was.  \<open>db_fault\<close> says what the driver
  reports besides: a failure before anything is written, or an error after the commit took effect.
  Row order is insertion order.  \<open>ur_limits\<close> are the limits of the user's effective
  group, the columns the join of \<^verbatim>\<open>limitsForUserInTx\<close> gives.
\<close>

record chat_run_row =
  cr_run_id :: string
  cr_user_id :: int
  cr_session_id :: int
  cr_kind :: string
  cr_operation :: string
  cr_intent_version :: int
  cr_intent_hash :: string
  cr_retry_target :: "int option"
  cr_runtime_snapshot :: string
  cr_status :: run_status
  cr_cancel_cause :: run_cancel_cause
  cr_public_error_code :: string
  cr_public_error_message :: string
  cr_user_message_id :: "int option"
  cr_terminal_message_id :: "int option"
  cr_terminal_event :: "jv option"
  cr_message_reserved :: bool
  cr_expires_at :: int
  cr_released_at :: "int option"
  cr_accepted_at :: int
  cr_terminal_at :: "int option"
  cr_updated_at :: int

datatype attempt_status =
  AnswerAttemptStatusRunning | AnswerAttemptStatusCompleted | AnswerAttemptStatusIncomplete | AnswerAttemptStatusFailed

record answer_attempt =
  aa_id :: int
  aa_session_id :: int
  aa_user_message_id :: int
  aa_run_id :: "string option"
  aa_number :: int
  aa_status :: attempt_status
  aa_selected :: bool
  aa_completed_at :: "int option"

record session_row =
  sr_user_id :: int
  sr_deleted :: bool
  sr_selection_revision :: int
  sr_updated_at :: int

record quota_limits =
  ql_daily_message :: int
  ql_daily_token :: int
  ql_concurrent_run :: int
  ql_daily_tool_call :: int
  ql_daily_web_search :: int
  ql_daily_web_extract :: int
  ql_daily_ocr_file :: int
  ql_daily_ocr_page :: int

record user_row =
  ur_auth_version :: int
  ur_active :: bool
  ur_limits :: quota_limits

record run_db =
  db_runs :: "chat_run_row list"
  db_attempts :: "answer_attempt list"
  db_messages :: "message_row list"
  db_sessions :: "(int \<times> session_row) list"
  db_users :: "(int \<times> user_row) list"
  db_next_attempt :: int

datatype db_fault = FaultNone | FaultBefore go_err | FaultAfter go_err

text \<open>A transaction body under a fault: a failed body or a failed begin rolls back.\<close>

definition run_tx :: "db_fault \<Rightarrow> ('d \<Rightarrow> (go_err + 'a) \<times> 'd) \<Rightarrow> 'd \<Rightarrow> (go_err + 'a) \<times> 'd" where
  "run_tx fault body db =
    (case fault of
       FaultBefore e \<Rightarrow> (Inl e, db)
     | FaultNone \<Rightarrow> (case body db of (Inl e, db') \<Rightarrow> (Inl e, db) | (Inr r, db') \<Rightarrow> (Inr r, db'))
     | FaultAfter e \<Rightarrow> (case body db of (Inl e', db') \<Rightarrow> (Inl e', db) | (Inr r, db') \<Rightarrow> (Inl (ErrWrap ''commit'' e), db')))"

lemma run_tx_cases:
  "snd (run_tx fault body db) = db \<or> (\<exists>r. fst (body db) = Inr r \<and> snd (run_tx fault body db) = snd (body db))"
  by (auto simp: run_tx_def split: db_fault.splits prod.splits sum.splits)

lemma run_tx_Inr: "run_tx fault body db = (Inr r, db') \<Longrightarrow> body db = (Inr r, db')"
  by (auto simp: run_tx_def split: db_fault.splits prod.splits sum.splits)

section \<open>Run records\<close>

record chat_run_record =
  rr_run_id :: string
  rr_user_id :: int
  rr_session_id :: int
  rr_kind :: string
  rr_operation :: string
  rr_intent_version :: int
  rr_intent_hash :: string
  rr_retry_target :: int
  rr_runtime_snapshot :: string
  rr_status :: run_status
  rr_cancel_cause :: run_cancel_cause
  rr_public_error_code :: string
  rr_public_error_message :: string
  rr_user_message_id :: int
  rr_terminal_message_id :: int
  rr_terminal_event :: "jv option"
  rr_accepted_at :: int
  rr_terminal_at :: "int option"
  rr_expires_at :: int

record transition_input =
  ti_run_id :: string
  ti_status :: run_status
  ti_cancel_cause :: run_cancel_cause
  ti_public_error_code :: string
  ti_public_error_message :: string
  ti_terminal_message_id :: int
  ti_terminal_event :: "jv option"
  ti_expires_at :: int

definition coalesce0 :: "int option \<Rightarrow> int" where
  "coalesce0 x = (case x of None \<Rightarrow> 0 | Some i \<Rightarrow> i)"

text \<open>\<^verbatim>\<open>chatRunSelect\<close> with \<^verbatim>\<open>scanChatRun\<close>.\<close>

definition scanChatRun :: "chat_run_row \<Rightarrow> chat_run_record" where
  "scanChatRun r = \<lparr>rr_run_id = cr_run_id r, rr_user_id = cr_user_id r, rr_session_id = cr_session_id r,
     rr_kind = cr_kind r, rr_operation = cr_operation r, rr_intent_version = cr_intent_version r,
     rr_intent_hash = cr_intent_hash r, rr_retry_target = coalesce0 (cr_retry_target r),
     rr_runtime_snapshot = cr_runtime_snapshot r, rr_status = cr_status r, rr_cancel_cause = cr_cancel_cause r,
     rr_public_error_code = cr_public_error_code r, rr_public_error_message = cr_public_error_message r,
     rr_user_message_id = coalesce0 (cr_user_message_id r), rr_terminal_message_id = coalesce0 (cr_terminal_message_id r),
     rr_terminal_event = cr_terminal_event r, rr_accepted_at = cr_accepted_at r, rr_terminal_at = cr_terminal_at r,
     rr_expires_at = cr_expires_at r\<rparr>"

definition find_run :: "run_db \<Rightarrow> string \<Rightarrow> chat_run_row option" where
  "find_run db runID = find (\<lambda>r. cr_run_id r = runID) (db_runs db)"

definition update_runs :: "(chat_run_row \<Rightarrow> bool) \<Rightarrow> (chat_run_row \<Rightarrow> chat_run_row) \<Rightarrow> run_db \<Rightarrow> run_db" where
  "update_runs P f db = db\<lparr>db_runs := map (\<lambda>r. if P r then f r else r) (db_runs db)\<rparr>"

definition update_attempts :: "(answer_attempt \<Rightarrow> bool) \<Rightarrow> (answer_attempt \<Rightarrow> answer_attempt) \<Rightarrow> run_db \<Rightarrow> run_db" where
  "update_attempts P f db = db\<lparr>db_attempts := map (\<lambda>a. if P a then f a else a) (db_attempts db)\<rparr>"

definition row_running :: "chat_run_row \<Rightarrow> bool" where
  "row_running r \<longleftrightarrow> cr_status r = RunStatusRunning"

definition GetChatRun :: "run_db \<Rightarrow> string \<Rightarrow> go_err + chat_run_record" where
  "GetChatRun db runID = (case find_run db runID of None \<Rightarrow> Inl ErrNotFound | Some r \<Rightarrow> Inr (scanChatRun r))"

text \<open>\<^verbatim>\<open>loadTerminalChatRunForScope\<close>: the record and whether it is terminal.\<close>

definition loadTerminalChatRunForScope :: "run_db \<Rightarrow> string \<Rightarrow> int \<Rightarrow> int \<Rightarrow> chat_run_record option \<times> bool" where
  "loadTerminalChatRunForScope db runID sessionID userID =
    (case find (\<lambda>r. cr_run_id r = runID \<and> cr_session_id r = sessionID \<and> cr_user_id r = userID) (db_runs db) of
       None \<Rightarrow> (None, False)
     | Some r \<Rightarrow> (Some (scanChatRun r), cr_status r \<noteq> RunStatusRunning))"

definition BindChatRunUserMessage :: "db_fault \<Rightarrow> int \<Rightarrow> string \<Rightarrow> int \<Rightarrow> run_db \<Rightarrow> (go_err + bool) \<times> run_db" where
  "BindChatRunUserMessage fault now runID userMessageID db =
    (if runID = [] \<or> userMessageID \<le> 0 then (Inr False, db)
     else
       (let P = (\<lambda>r. cr_run_id r = runID \<and> row_running r \<and>
                   (cr_user_message_id r = None \<or> cr_user_message_id r = Some userMessageID))
        in run_tx fault (\<lambda>db. (Inr (length (filter P (db_runs db)) = 1),
             update_runs P (\<lambda>r. r\<lparr>cr_user_message_id := Some userMessageID, cr_updated_at := now\<rparr>) db)) db))"

definition terminal_status :: "run_status \<Rightarrow> bool" where
  "terminal_status st \<longleftrightarrow> st = RunStatusCompleted \<or> st = RunStatusFailed \<or> st = RunStatusCanceled"

text \<open>The SET clause of the transition; \<^verbatim>\<open>NULLIF($6, 0)\<close> keeps a message id already there.\<close>

definition terminal_row :: "int \<Rightarrow> transition_input \<Rightarrow> chat_run_row \<Rightarrow> chat_run_row" where
  "terminal_row now input r =
    r\<lparr>cr_status := ti_status input, cr_cancel_cause := ti_cancel_cause input,
      cr_public_error_code := ti_public_error_code input, cr_public_error_message := ti_public_error_message input,
      cr_terminal_message_id := (if ti_terminal_message_id input \<noteq> 0 then Some (ti_terminal_message_id input)
        else cr_terminal_message_id r),
      cr_terminal_event := ti_terminal_event input, cr_message_reserved := False,
      cr_released_at := (case cr_released_at r of None \<Rightarrow> Some now | Some t \<Rightarrow> Some t),
      cr_terminal_at := Some now, cr_updated_at := now, cr_expires_at := ti_expires_at input\<rparr>"

definition transitionChatRun :: "int \<Rightarrow> transition_input \<Rightarrow> run_db \<Rightarrow> (go_err + chat_run_record \<times> bool) \<times> run_db" where
  "transitionChatRun now input db =
    (if ti_run_id input = [] \<or> ti_expires_at input = 0 then (Inl (ErrText ''invalid chat run transition''), db)
     else if \<not> terminal_status (ti_status input) then (Inl (ErrText ''invalid chat run terminal status''), db)
     else (case find_run db (ti_run_id input) of
         None \<Rightarrow> (Inl ErrNotFound, db)
       | Some r \<Rightarrow>
           if row_running r
           then (Inr (scanChatRun (terminal_row now input r), True),
                 update_runs (\<lambda>r. cr_run_id r = ti_run_id input \<and> row_running r) (terminal_row now input) db)
           else (Inr (scanChatRun r, False), db)))"

definition fail_attempt :: "int \<Rightarrow> answer_attempt \<Rightarrow> answer_attempt" where
  "fail_attempt now a = a\<lparr>aa_status := AnswerAttemptStatusFailed, aa_completed_at := Some now\<rparr>"

definition attempt_running_for :: "string \<Rightarrow> answer_attempt \<Rightarrow> bool" where
  "attempt_running_for runID a \<longleftrightarrow> aa_run_id a = Some runID \<and> aa_status a = AnswerAttemptStatusRunning"

definition markAnswerAttemptTerminalForRun :: "int \<Rightarrow> string \<Rightarrow> run_db \<Rightarrow> run_db" where
  "markAnswerAttemptTerminalForRun now runID db =
    (if trim_space runID = [] then db
     else update_attempts (attempt_running_for (trim_space runID)) (fail_attempt now) db)"

definition TransitionChatRun :: "db_fault \<Rightarrow> int \<Rightarrow> transition_input \<Rightarrow> run_db \<Rightarrow> (go_err + chat_run_record \<times> bool) \<times> run_db" where
  "TransitionChatRun fault now input db =
    (case fault of
       FaultBefore e \<Rightarrow> (Inl e, db)
     | _ \<Rightarrow>
       (case transitionChatRun now input db of
          (Inl e, db') \<Rightarrow> (Inl e, db)
        | (Inr (record, transitioned), db') \<Rightarrow>
            if \<not> transitioned then (Inr (record, False), db)
            else run_tx fault (\<lambda>_. (Inr (record, True), markAnswerAttemptTerminalForRun now (ti_run_id input) db')) db))"

definition zh_server_restarted :: string where
  "zh_server_restarted = str_of_runes [0x670D, 0x52A1, 0x5DF2, 0x91CD, 0x542F, 0xFF0C, 0x8BF7, 0x91CD, 0x8BD5]"

definition error_event :: "string \<Rightarrow> string \<Rightarrow> bool \<Rightarrow> jv" where
  "error_event code message retryable = JObj [(''event'', JStr ''error''),
     (''data'', JObj [(''error'', JStr message), (''code'', JStr code), (''retryable'', JBool retryable)])]"

definition reconciled_row :: "int \<Rightarrow> chat_run_row \<Rightarrow> chat_run_row" where
  "reconciled_row now r =
    r\<lparr>cr_status := RunStatusFailed, cr_cancel_cause := CauseNone, cr_public_error_code := ''server_restarted'',
      cr_public_error_message := zh_server_restarted,
      cr_terminal_event := Some (error_event ''server_restarted'' zh_server_restarted True),
      cr_message_reserved := False,
      cr_released_at := (case cr_released_at r of None \<Rightarrow> Some now | Some t \<Rightarrow> Some t),
      cr_terminal_at := Some now, cr_updated_at := now, cr_expires_at := max (cr_expires_at r) (now + 600000000000)\<rparr>"

text \<open>
  Both bulk updates fail the running attempts of the runs they end; the second statement sees the
  runs the first one returned.
\<close>

definition ReconcileRunningChatRuns :: "int \<Rightarrow> run_db \<Rightarrow> nat \<times> run_db" where
  "ReconcileRunningChatRuns now db =
    (let ids = map cr_run_id (filter row_running (db_runs db))
     in (length ids,
         update_attempts (\<lambda>a. aa_run_id a \<in> Some ` set ids \<and> aa_status a = AnswerAttemptStatusRunning) (fail_attempt now)
           (update_runs row_running (reconciled_row now) db)))"

definition canceled_row :: "int \<Rightarrow> run_cancel_cause \<Rightarrow> string \<Rightarrow> string \<Rightarrow> bool \<Rightarrow> chat_run_row \<Rightarrow> chat_run_row" where
  "canceled_row now cause code message retryable r =
    r\<lparr>cr_status := RunStatusCanceled, cr_cancel_cause := cause, cr_public_error_code := code,
      cr_public_error_message := message, cr_terminal_event := Some (error_event code message retryable),
      cr_message_reserved := False,
      cr_released_at := (case cr_released_at r of None \<Rightarrow> Some now | Some t \<Rightarrow> Some t),
      cr_terminal_at := Some now, cr_updated_at := now\<rparr>"

definition cancelRunningChatRuns :: "int \<Rightarrow> int \<Rightarrow> int option \<Rightarrow> run_cancel_cause \<Rightarrow> string \<Rightarrow> string \<Rightarrow> bool \<Rightarrow> run_db \<Rightarrow> run_db" where
  "cancelRunningChatRuns now userID sessionID cause code message retryable db =
    (let P = (\<lambda>r. cr_user_id r = userID \<and> (case sessionID of None \<Rightarrow> True | Some s \<Rightarrow> cr_session_id r = s) \<and> row_running r);
         ids = map cr_run_id (filter P (db_runs db))
     in update_attempts (\<lambda>a. aa_run_id a \<in> Some ` set ids \<and> aa_status a = AnswerAttemptStatusRunning) (fail_attempt now)
          (update_runs P (canceled_row now cause code message retryable) db))"

section \<open>Quotas and reservations\<close>

record quota_usage =
  qu_daily_messages :: int
  qu_daily_tokens :: int
  qu_daily_tool_calls :: int
  qu_daily_web_searches :: int
  qu_daily_web_extracts :: int
  qu_daily_ocr_files :: int
  qu_daily_ocr_pages :: int
  qu_reset_at :: int

text \<open>\<open>ErrQuota\<close> carries the code, limit, use and reset time (none is the zero time).\<close>

definition quotaExceeded :: "string \<Rightarrow> int \<Rightarrow> int \<Rightarrow> int option \<Rightarrow> go_err" where
  "quotaExceeded code limit used resetAt = ErrQuota code limit used resetAt"

definition checkOCRQuota :: "quota_limits \<Rightarrow> quota_usage \<Rightarrow> int \<Rightarrow> go_err option" where
  "checkOCRQuota limits usage pageCount =
    (if ql_daily_ocr_file limits > 0 \<and> qu_daily_ocr_files usage \<ge> ql_daily_ocr_file limits
     then Some (quotaExceeded ''daily_ocr_file_limit_exceeded'' (ql_daily_ocr_file limits) (qu_daily_ocr_files usage) (Some (qu_reset_at usage)))
     else if ql_daily_ocr_page limits > 0 \<and> qu_daily_ocr_pages usage + pageCount > ql_daily_ocr_page limits
     then Some (quotaExceeded ''daily_ocr_page_limit_exceeded'' (ql_daily_ocr_page limits) (qu_daily_ocr_pages usage) (Some (qu_reset_at usage)))
     else None)"

definition checkToolQuota :: "quota_limits \<Rightarrow> quota_usage \<Rightarrow> string \<Rightarrow> go_err option" where
  "checkToolQuota limits usage toolName =
    (if ql_daily_tool_call limits > 0 \<and> qu_daily_tool_calls usage \<ge> ql_daily_tool_call limits
     then Some (ErrQuota ''daily_tool_call_limit_exceeded'' (ql_daily_tool_call limits) (qu_daily_tool_calls usage) (Some (qu_reset_at usage)))
     else if toolName = ''web_search'' \<and> ql_daily_web_search limits > 0 \<and> qu_daily_web_searches usage \<ge> ql_daily_web_search limits
     then Some (ErrQuota ''daily_web_search_limit_exceeded'' (ql_daily_web_search limits) (qu_daily_web_searches usage) (Some (qu_reset_at usage)))
     else if toolName = ''web_extract'' \<and> ql_daily_web_extract limits > 0 \<and> qu_daily_web_extracts usage \<ge> ql_daily_web_extract limits
     then Some (ErrQuota ''daily_web_extract_limit_exceeded'' (ql_daily_web_extract limits) (qu_daily_web_extracts usage) (Some (qu_reset_at usage)))
     else None)"

record reservation_input =
  rv_user_id :: int
  rv_auth_version :: int
  rv_session_id :: int
  rv_run_id :: string
  rv_kind :: string
  rv_operation :: string
  rv_intent_version :: int
  rv_intent_hash :: string
  rv_retry_target :: int
  rv_runtime_snapshot :: string
  rv_reserve_message :: bool
  rv_accepted_at :: "int option"
  rv_expires_at :: "int option"

text \<open>
  \<^verbatim>\<open>normalizeChatRunReservation\<close>; \<open>None\<close> is the zero time.
\<close>

definition default_operation :: "string \<Rightarrow> string" where
  "default_operation kind = (if kind = ''compaction'' then ''compaction''
     else if kind = ''memory_maintenance'' then ''memory_compact'' else ''send'')"

definition valid_operation :: "string \<Rightarrow> string \<Rightarrow> bool" where
  "valid_operation kind operation \<longleftrightarrow>
    kind = ''chat'' \<and> (operation = ''send'' \<or> operation = ''retry'') \<or>
    kind = ''compaction'' \<and> operation = ''compaction'' \<or>
    kind = ''memory_maintenance'' \<and> (operation = ''memory_compact'' \<or> operation = ''memory_retry'')"

definition normalized_kind :: "reservation_input \<Rightarrow> string" where
  "normalized_kind input = (if rv_kind input = [] then ''chat'' else rv_kind input)"

definition normalized_operation :: "reservation_input \<Rightarrow> string" where
  "normalized_operation input = (if rv_operation input = [] then default_operation (normalized_kind input) else rv_operation input)"

definition normalized_snapshot :: "reservation_input \<Rightarrow> string" where
  "normalized_snapshot input = (if rv_runtime_snapshot input = [] then ''{}'' else rv_runtime_snapshot input)"

definition check_reservation :: "reservation_input \<Rightarrow> go_err option" where
  "check_reservation input =
    (if rv_user_id input \<le> 0 \<or> rv_auth_version input \<le> 0 \<or> rv_session_id input \<le> 0 \<or> trim_space (rv_run_id input) = []
        \<or> rv_expires_at input = None
     then Some (ErrText ''invalid chat run reservation'')
     else if \<not> valid_operation (normalized_kind input) (normalized_operation input) \<or> rv_intent_version input < 0 \<or>
       (rv_intent_version input > 0 \<and> rv_intent_hash input = [])
     then Some (ErrText ''invalid chat run intent'')
     else if normalized_operation input = ''retry'' \<and> rv_retry_target input \<le> 0 then Some (ErrText ''invalid retry target'')
     else if normalized_operation input \<noteq> ''retry'' \<and> rv_retry_target input \<noteq> 0 then Some (ErrText ''unexpected retry target'')
     else if \<not> json_valid (normalized_snapshot input) \<or> length (normalized_snapshot input) > 16384
     then Some (ErrText ''invalid runtime snapshot'')
     else None)"

definition normalizeChatRunReservation ::
  "int \<Rightarrow> reservation_input \<Rightarrow> go_err + reservation_input" where
  "normalizeChatRunReservation now input =
    (case check_reservation input of
       Some e \<Rightarrow> Inl e
     | None \<Rightarrow> Inr (input\<lparr>rv_run_id := trim_space (rv_run_id input), rv_kind := normalized_kind input,
         rv_operation := normalized_operation input, rv_runtime_snapshot := normalized_snapshot input,
         rv_accepted_at := (case rv_accepted_at input of None \<Rightarrow> Some now | Some t \<Rightarrow> Some t)\<rparr>))"

definition chatRunReservationMatches :: "chat_run_record \<Rightarrow> reservation_input \<Rightarrow> bool" where
  "chatRunReservationMatches record input \<longleftrightarrow>
    rr_user_id record = rv_user_id input \<and> rr_session_id record = rv_session_id input \<and>
    rr_kind record = rv_kind input \<and> rr_operation record = rv_operation input \<and>
    rr_intent_version record = rv_intent_version input \<and> rr_intent_hash record = rv_intent_hash input \<and>
    rr_retry_target record = rv_retry_target input"

definition lockChatRunUser :: "run_db \<Rightarrow> int \<Rightarrow> int \<Rightarrow> go_err option" where
  "lockChatRunUser db userID authVersion =
    (case map_of (db_users db) userID of
       None \<Rightarrow> Some ErrNotFound
     | Some u \<Rightarrow> if \<not> ur_active u \<or> ur_auth_version u \<noteq> authVersion then Some ErrAccountStateChanged else None)"

definition lockActiveSession :: "run_db \<Rightarrow> int \<Rightarrow> int \<Rightarrow> go_err option" where
  "lockActiveSession db sessionID userID =
    (case map_of (db_sessions db) sessionID of
       None \<Rightarrow> Some ErrNotFound
     | Some s \<Rightarrow> if sr_user_id s = userID \<and> \<not> sr_deleted s then None else Some ErrNotFound)"

definition lockActiveChatRun :: "run_db \<Rightarrow> string \<Rightarrow> int \<Rightarrow> int \<Rightarrow> go_err option" where
  "lockActiveChatRun db runID sessionID userID =
    (if list_ex (\<lambda>r. cr_run_id r = runID \<and> cr_session_id r = sessionID \<and> cr_user_id r = userID \<and> row_running r) (db_runs db)
     then None else Some ErrChatRunTerminal)"

text \<open>The message count and the reset time of \<^verbatim>\<open>usageForTodayInTx\<close>; days start at UTC midnight.\<close>

definition day_start :: "int \<Rightarrow> int" where
  "day_start now = now - now mod 86400000000000"

definition daily_messages :: "run_db \<Rightarrow> int \<Rightarrow> int \<Rightarrow> int" where
  "daily_messages db userID now = int (length (filter (\<lambda>m.
     (case map_of (db_sessions db) (mr_session_id m) of None \<Rightarrow> False | Some s \<Rightarrow> sr_user_id s = userID) \<and>
     mr_role m = ''user'' \<and> \<not> mr_compaction_summary m \<and> mr_created_at m \<ge> day_start now) (db_messages db)))"

definition active_of :: "int \<Rightarrow> chat_run_row \<Rightarrow> bool" where
  "active_of userID r \<longleftrightarrow> cr_user_id r = userID \<and> row_running r \<and> cr_released_at r = None"

definition active_runs :: "run_db \<Rightarrow> int \<Rightarrow> int" where
  "active_runs db userID = int (length (filter (active_of userID) (db_runs db)))"

definition pending_messages :: "run_db \<Rightarrow> int \<Rightarrow> int" where
  "pending_messages db userID = int (length (filter (\<lambda>r. active_of userID r \<and> cr_message_reserved r) (db_runs db)))"

definition new_run_row :: "int \<Rightarrow> reservation_input \<Rightarrow> chat_run_row" where
  "new_run_row now input =
    \<lparr>cr_run_id = rv_run_id input, cr_user_id = rv_user_id input, cr_session_id = rv_session_id input,
     cr_kind = rv_kind input, cr_operation = rv_operation input, cr_intent_version = rv_intent_version input,
     cr_intent_hash = rv_intent_hash input,
     cr_retry_target = (if rv_retry_target input = 0 then None else Some (rv_retry_target input)),
     cr_runtime_snapshot = rv_runtime_snapshot input, cr_status = RunStatusRunning, cr_cancel_cause = CauseNone,
     cr_public_error_code = [], cr_public_error_message = [], cr_user_message_id = None, cr_terminal_message_id = None,
     cr_terminal_event = None, cr_message_reserved = rv_reserve_message input,
     cr_expires_at = coalesce0 (rv_expires_at input), cr_released_at = None,
     cr_accepted_at = coalesce0 (rv_accepted_at input), cr_terminal_at = None, cr_updated_at = now\<rparr>"

text \<open>\<^verbatim>\<open>reserveChatRunInTx\<close>: whether the run existed, and its record.\<close>

definition quota_refusal :: "run_db \<Rightarrow> int \<Rightarrow> reservation_input \<Rightarrow> go_err option" where
  "quota_refusal db now input =
    (case map_of (db_users db) (rv_user_id input) of
       None \<Rightarrow> Some ErrNotFound
     | Some u \<Rightarrow>
         (let limits = ur_limits u; active = active_runs db (rv_user_id input);
              used = daily_messages db (rv_user_id input) now + pending_messages db (rv_user_id input)
          in if ql_concurrent_run limits > 0 \<and> active \<ge> ql_concurrent_run limits
             then Some (quotaExceeded ''concurrent_run_limit_exceeded'' (ql_concurrent_run limits) active None)
             else if rv_reserve_message input \<and> ql_daily_message limits > 0 \<and> used \<ge> ql_daily_message limits
             then Some (quotaExceeded ''daily_message_limit_exceeded'' (ql_daily_message limits) used
               (Some (day_start now + 86400000000000)))
             else None))"

definition reserveChatRunInTx ::
  "int \<Rightarrow> reservation_input \<Rightarrow> run_db \<Rightarrow> (go_err + bool \<times> chat_run_record) \<times> run_db" where
  "reserveChatRunInTx now input0 db =
    (case normalizeChatRunReservation now input0 of
       Inl e \<Rightarrow> (Inl e, db)
     | Inr input \<Rightarrow>
       (case lockChatRunUser db (rv_user_id input) (rv_auth_version input) of
          Some e \<Rightarrow> (Inl e, db)
        | None \<Rightarrow>
          (case lockActiveSession db (rv_session_id input) (rv_user_id input) of
             Some e \<Rightarrow> (Inl e, db)
           | None \<Rightarrow>
             (case find_run db (rv_run_id input) of
                Some r \<Rightarrow>
                  if \<not> chatRunReservationMatches (scanChatRun r) input then (Inl ErrChatRunIntentConflict, db)
                  else (Inr (True, scanChatRun r), db)
              | None \<Rightarrow>
                (case quota_refusal db now input of
                   Some e \<Rightarrow> (Inl e, db)
                 | None \<Rightarrow>
                     (Inr (False, scanChatRun (new_run_row now input)),
                      db\<lparr>db_runs := db_runs db @ [new_run_row now input]\<rparr>))))))"

definition ReserveChatRun ::
  "db_fault \<Rightarrow> int \<Rightarrow> reservation_input \<Rightarrow> run_db \<Rightarrow> (go_err + bool \<times> chat_run_record) \<times> run_db" where
  "ReserveChatRun fault now input db = run_tx fault (reserveChatRunInTx now input) db"

definition bindAdmissionMessage :: "int \<Rightarrow> string \<Rightarrow> int \<Rightarrow> run_db \<Rightarrow> (go_err + chat_run_record) \<times> run_db" where
  "bindAdmissionMessage now runID userMessageID db =
    (let P = (\<lambda>r. cr_run_id r = runID \<and> row_running r \<and> cr_user_message_id r = None);
         f = (\<lambda>r. r\<lparr>cr_user_message_id := Some userMessageID, cr_message_reserved := False, cr_updated_at := now\<rparr>)
     in case find P (db_runs db) of
          None \<Rightarrow> (Inl ErrChatRunTerminal, db)
        | Some r \<Rightarrow> (Inr (scanChatRun (f r)), update_runs P f db))"

end
