(* ===== verification/RunTerminal.thy ===== *)
theory RunTerminal
  imports RunStore
begin

text \<open>
  The terminal protocol of a run (\<^verbatim>\<open>internal/service/run_terminal.go\<close>): durable
  admission, execution ownership, cancellation against completion, and the transition that
  freezes a terminal decision, stores it and publishes what was stored.

  A store is a pair of functions on a world \<open>'w\<close> that answers a call and moves on (the
  database and what its driver will do next).  The transition is split where the code releases
  \<^verbatim>\<open>h.mu\<close>: \<open>transition_freeze\<close>, the store calls, \<open>transition_publish\<close>.  The
  retry loop runs with fuel, \<open>None\<close> standing for a loop that is still retrying.  Public messages
  are the code's texts, written as code points.
\<close>

record run_terminal =
  rt_status :: run_status
  rt_cancel_cause :: run_cancel_cause
  rt_public_error_code :: string
  rt_public_error_message :: string
  rt_event :: string
  rt_data :: jv
  rt_terminal_message_id :: int
  rt_usage :: jv
  rt_runtime :: jv
  rt_finalization_failure :: bool

section \<open>Public messages\<close>

definition zh_run_failed :: string where
  "zh_run_failed = str_of_runes [0x4EFB, 0x52A1, 0x672A, 0x80FD, 0x5B8C, 0x6210, 0xFF0C, 0x8BF7, 0x91CD, 0x8BD5]"

definition zh_first_output_timeout :: string where
  "zh_first_output_timeout = str_of_runes [0x7B49, 0x5F85, 0x6A21, 0x578B, 0x9996, 0x4E2A, 0x8F93, 0x51FA, 0x8D85, 0x65F6, 0xFF0C, 0x8BF7, 0x91CD, 0x8BD5]"

definition zh_server_draining :: string where
  "zh_server_draining = str_of_runes [0x670D, 0x52A1, 0x6B63, 0x5728, 0x66F4, 0x65B0, 0xFF0C, 0x8BF7, 0x91CD, 0x8BD5]"

definition zh_account_changed :: string where
  "zh_account_changed = str_of_runes [0x8D26, 0x53F7, 0x72B6, 0x6001, 0x5DF2, 0x53D8, 0x66F4, 0xFF0C, 0x8BF7, 0x91CD, 0x65B0, 0x767B, 0x5F55]"

definition zh_session_deleted :: string where
  "zh_session_deleted = str_of_runes [0x4F1A, 0x8BDD, 0x5DF2, 0x5220, 0x9664]"

definition zh_upstream_canceled :: string where
  "zh_upstream_canceled = str_of_runes [0x4E0A, 0x6E38, 0x8BF7, 0x6C42, 0x5DF2, 0x4E2D, 0x65AD, 0xFF0C, 0x8BF7, 0x91CD, 0x8BD5]"

definition zh_run_canceled :: string where
  "zh_run_canceled = str_of_runes [0x4EFB, 0x52A1, 0x5DF2, 0x53D6, 0x6D88]"

definition RunCancellationPublicError :: "run_cancel_cause \<Rightarrow> string \<times> string \<times> bool" where
  "RunCancellationPublicError cause =
    (case cause of
       RunCancelFirstOutputTimeout \<Rightarrow> (''first_output_timeout'', zh_first_output_timeout, True)
     | RunCancelServerDrain \<Rightarrow> (''server_draining'', zh_server_draining, True)
     | RunCancelAccountChanged \<Rightarrow> (''account_changed'', zh_account_changed, False)
     | RunCancelSessionDeleted \<Rightarrow> (''session_deleted'', zh_session_deleted, False)
     | RunCancelUpstream \<Rightarrow> (''upstream_canceled'', zh_upstream_canceled, True)
     | _ \<Rightarrow> (''run_canceled'', zh_run_canceled, True))"

definition canceled_event :: "string \<Rightarrow> run_terminal \<Rightarrow> run_terminal" where
  "canceled_event kind t =
    (if rt_event t \<noteq> [] then t
     else if kind = RunKindCompaction
     then t\<lparr>rt_event := ''compaction_skip'', rt_data := JObj [(''reason'', JStr ''canceled'')]\<rparr>
     else if kind = RunKindMemoryMaintenance
     then t\<lparr>rt_event := ''memory_maintenance_canceled'', rt_data := JObj [(''reason'', JStr ''canceled'')]\<rparr>
     else t\<lparr>rt_event := ''message_complete'',
       rt_data := JObj [(''message_id'', JInt (rt_terminal_message_id t)), (''finish_reason'', JStr ''canceled'')]\<rparr>)"

definition error_data :: "string \<Rightarrow> string \<Rightarrow> bool \<Rightarrow> jv" where
  "error_data message code retryable =
    JObj [(''error'', JStr message), (''code'', JStr code), (''retryable'', JBool retryable)]"

definition normalizeRunTerminal :: "string \<Rightarrow> run_terminal \<Rightarrow> run_terminal" where
  "normalizeRunTerminal kind t =
    (if rt_status t = RunStatusCanceled then
       (if rt_cancel_cause t = RunCancelUserStop
        then canceled_event kind (t\<lparr>rt_public_error_code := [], rt_public_error_message := []\<rparr>)
        else (let (code, message, retryable) = RunCancellationPublicError (rt_cancel_cause t);
                  t' = t\<lparr>rt_public_error_code := code, rt_public_error_message := message\<rparr>
              in if rt_event t \<noteq> [] then t'
                 else t'\<lparr>rt_event := ''error'', rt_data := error_data message code retryable\<rparr>))
     else if rt_event t \<noteq> [] then t
     else if rt_status t = RunStatusFailed then
       (let code = (if rt_public_error_code t = [] then ''run_failed'' else rt_public_error_code t);
            message = (if rt_public_error_message t = [] then zh_run_failed else rt_public_error_message t)
        in t\<lparr>rt_public_error_code := code, rt_public_error_message := message, rt_event := ''error'',
             rt_data := error_data message code True\<rparr>)
     else if rt_status t = RunStatusCompleted then
       (if kind = RunKindChat
        then t\<lparr>rt_event := ''message_complete'',
          rt_data := JObj [(''message_id'', JInt (rt_terminal_message_id t)), (''finish_reason'', JStr ''stop'')]\<rparr>
        else if kind = RunKindCompaction
        then t\<lparr>rt_event := ''compaction_complete'', rt_data := JObj [(''compacted'', JBool True)]\<rparr>
        else t\<lparr>rt_event := ''memory_maintenance_complete'', rt_data := JObj [(''updated'', JBool True)]\<rparr>)
     else t)"

text \<open>A completion event, as a struct or as a map, whose incomplete field is set.\<close>

definition preservesIncompleteMessageCompletion :: "run_terminal \<Rightarrow> bool" where
  "preservesIncompleteMessageCompletion t \<longleftrightarrow>
    rt_event t = ''message_complete'' \<and>
    (case rt_data t of JObj m \<Rightarrow> bool_at m ''incomplete'' = Some True | _ \<Rightarrow> False)"

definition marshalTerminalEvent :: "string \<Rightarrow> jv \<Rightarrow> jv option" where
  "marshalTerminalEvent event data =
    (if trim_space event = [] then None else Some (JObj [(''event'', JStr event), (''data'', data)]))"

definition fallbackStoredTerminalEvent :: "chat_run_record \<Rightarrow> string \<times> jv" where
  "fallbackStoredTerminalEvent r =
    (if rr_status r = RunStatusCompleted then
       (if rr_operation r = RunOperationCompaction \<or> rr_kind r = RunKindCompaction
        then (''compaction_complete'', JObj [(''compacted'', JBool True)])
        else if rr_kind r = RunKindMemoryMaintenance
        then (''memory_maintenance_complete'', JObj [(''updated'', JBool True)])
        else (''message_complete'', JObj [(''message_id'', JInt (rr_terminal_message_id r)), (''finish_reason'', JStr ''stop'')]))
     else
       (let code = (if rr_public_error_code r = [] then ''run_failed'' else rr_public_error_code r);
            message = (if rr_public_error_message r = [] then zh_run_failed else rr_public_error_message r)
        in (''error'', error_data message code True)))"

text \<open>The event a stored record replays: its own document when it has a name, else the fallback.\<close>

definition stored_event :: "chat_run_record \<Rightarrow> string \<times> jv" where
  "stored_event r =
    (case rr_terminal_event r of
       Some (JObj m) \<Rightarrow>
         (case str_at m ''event'' of
            Some e \<Rightarrow> if e \<noteq> [] then (e, value_at m ''data'') else fallbackStoredTerminalEvent r
          | None \<Rightarrow> fallbackStoredTerminalEvent r)
     | _ \<Rightarrow> fallbackStoredTerminalEvent r)"

definition terminalRecoveryInitialBackoff :: nat where "terminalRecoveryInitialBackoff = 25000000"
definition terminalRecoveryMaxBackoff :: nat where "terminalRecoveryMaxBackoff = 1000000000"

fun backoff_loop :: "nat \<Rightarrow> nat \<Rightarrow> nat" where
  "backoff_loop 0 delay = delay"
| "backoff_loop (Suc steps) delay = (if delay < terminalRecoveryMaxBackoff then backoff_loop steps (delay * 2) else delay)"

definition terminalRecoveryBackoff :: "nat \<Rightarrow> nat" where
  "terminalRecoveryBackoff retry =
    (let delay = backoff_loop retry terminalRecoveryInitialBackoff
     in if delay > terminalRecoveryMaxBackoff then terminalRecoveryMaxBackoff else delay)"

definition isRetryableTerminalPersistenceError :: "go_err \<Rightarrow> bool" where
  "isRetryableTerminalPersistenceError e =
    (if err_is e DeadlineExceeded \<or> err_is e ContextCanceled \<or> err_is e ErrBadConn \<or> err_is e ErrConnDone
        \<or> err_is e ErrEOF \<or> err_is e ErrUnexpectedEOF then True
     else if as_net_error e then True
     else (case as_sql_state e of
             None \<Rightarrow> False
           | Some st \<Rightarrow> if length st < 2 then False else take 2 st \<in> {''08'', ''40'', ''53'', ''57'', ''58''}))"

definition RunCancelCauseFromContext :: "gctx option \<Rightarrow> run_cancel_cause" where
  "RunCancelCauseFromContext c =
    (case c of None \<Rightarrow> CauseNone
     | Some fs \<Rightarrow> (case ctx_cause fs of None \<Rightarrow> CauseNone
         | Some e \<Rightarrow> (case as_run_cancellation e of None \<Rightarrow> CauseNone | Some cause \<Rightarrow> cause)))"

section \<open>Stored terminals in the hub\<close>

definition storedRunMatchesState :: "chat_run_record \<Rightarrow> run_state \<Rightarrow> bool" where
  "storedRunMatchesState r s \<longleftrightarrow>
    rr_run_id r = rf_run_id s \<and> rr_user_id r = rf_user_id s \<and> rr_session_id r = rf_session_id s \<and> rr_kind r = rf_kind s \<and>
    rr_operation r = rf_operation s \<and>
    (rr_intent_version r = 0 \<or>
     rr_intent_version r = rf_intent_version s \<and> rr_intent_hash r = rf_intent_hash s \<and> rr_retry_target r = rf_retry_target s)"

definition set_output_error :: "string \<Rightarrow> string \<Rightarrow> run_log \<Rightarrow> run_log" where
  "set_output_error code message lg = lg\<lparr>lg_output := (lg_output lg)\<lparr>out_error_code := code,
     out_error := (if message \<noteq> [] then message else out_error (lg_output lg))\<rparr>\<rparr>"

definition stored_facts :: "int \<Rightarrow> chat_run_record \<Rightarrow> run_state \<Rightarrow> run_state" where
  "stored_facts now r s0 =
    (let s = s0\<lparr>rf_status := rr_status r, rf_cancel_cause := rr_cancel_cause r,
           rs_log := set_output_error (rr_public_error_code r) (rr_public_error_message r) (rs_log s0),
           rf_user_message_id := rr_user_message_id r, rf_terminal_message_id := rr_terminal_message_id r\<rparr>;
         s' = (if rr_intent_version r > 0
               then s\<lparr>rf_operation := rr_operation r, rf_intent_version := rr_intent_version r,
                      rf_intent_hash := rr_intent_hash r, rf_retry_target := rr_retry_target r\<rparr> else s)
     in s'\<lparr>rf_accepted_at := rr_accepted_at r, rf_terminal_at := rr_terminal_at r, rf_expires_at := rr_expires_at r,
           rf_updated_at := now\<rparr>)"

text \<open>\<^verbatim>\<open>applyStoredRunTerminal\<close>: the event is always there, so no error follows it.\<close>

definition applyStoredRunTerminal :: "run_hub \<Rightarrow> int \<Rightarrow> run_state \<Rightarrow> chat_run_record \<Rightarrow> run_hub \<times> run_state \<times> run_event" where
  "applyStoredRunTerminal h now s r =
    (let (ev, data) = stored_event r; (h', s', entry) = appendEventLocked h now s ev data
     in (h', stored_facts now r s', entry))"

text \<open>The release of a run's resources at its end, under the lock.\<close>

definition release_run :: "run_state \<Rightarrow> run_state" where
  "release_run s = call_cancel_cause ContextCanceled (call_first_output_stop s)"

definition PersistDurable :: "string \<Rightarrow> ('w \<Rightarrow> go_err option \<times> 'w) \<Rightarrow> run_hub \<Rightarrow> 'w \<Rightarrow> go_err option \<times> run_hub \<times> 'w" where
  "PersistDurable runID persist h w =
    (case hub_run h runID of
       None \<Rightarrow> (Some ErrRunTerminal, h, w)
     | Some s \<Rightarrow>
         if \<not> running s \<or> rs_finishing s then (Some ErrRunTerminal, h, w)
         else (case persist w of
             (Some e, w') \<Rightarrow> (Some e, h, w')
           | (None, w') \<Rightarrow> (None, put_run runID (s\<lparr>rs_durable := True\<rparr>) h, w')))"

text \<open>
  \<^verbatim>\<open>PersistAdmission\<close> after its callback: the run is read again, since cancellations
  and events may have come in between.  A run that turns out to be terminal is released by the calls
  that follow the unlock.
\<close>

definition admit_record :: "run_hub \<Rightarrow> int \<Rightarrow> string \<Rightarrow> chat_run_record \<Rightarrow> (go_err + run_snapshot) \<times> run_hub" where
  "admit_record h now runID r =
    (case hub_run h runID of
       None \<Rightarrow> (Inl ErrRunTerminal, h)
     | Some s0 \<Rightarrow>
         if \<not> running s0 \<or> rs_finishing s0 then (Inl ErrRunTerminal, h)
         else if \<not> storedRunMatchesState r s0 then (Inl ErrRunIDConflict, h)
         else
           (let s = s0\<lparr>rs_durable := True, rf_user_message_id := rr_user_message_id r,
                  rf_terminal_message_id := rr_terminal_message_id r, rf_runtime_snapshot := rr_runtime_snapshot r,
                  rf_accepted_at := rr_accepted_at r, rf_expires_at := rr_expires_at r\<rparr>
            in if rr_status r = RunStatusRunning
               then (let s' = s\<lparr>rf_updated_at := now\<rparr> in (Inr (cloneStateSnapshot s'), put_run runID s' h))
               else (let (h1, s1, e) = applyStoredRunTerminal h now s r;
                         (s2, h2) = closeSubscribersLocked s1 h1;
                         s3 = add_due [StopCall, CancelCall ContextCanceled] s2
                     in (Inr (cloneStateSnapshot s2), due_bound s3 (put_run runID s3 h2)))))"

definition PersistAdmission :: "string \<Rightarrow> ('w \<Rightarrow> (go_err + chat_run_record) \<times> 'w) \<Rightarrow> int \<Rightarrow> run_hub \<Rightarrow> 'w
    \<Rightarrow> (go_err + run_snapshot) \<times> run_hub \<times> 'w" where
  "PersistAdmission runID persist now h w =
    (case hub_run h runID of
       None \<Rightarrow> (Inl ErrRunTerminal, h, w)
     | Some s \<Rightarrow>
         if \<not> running s \<or> rs_finishing s then (Inl ErrRunTerminal, h, w)
         else (case persist w of
             (Inl e, w') \<Rightarrow> (Inl e, h, w')
           | (Inr r, w') \<Rightarrow> (let (res, h') = admit_record h now runID r in (res, h', w'))))"

definition restored_state :: "int \<Rightarrow> run_intent \<Rightarrow> chat_run_record \<Rightarrow> run_state" where
  "restored_state now intent r =
    \<lparr>rf_run_id = rr_run_id r, rf_session_id = rr_session_id r, rf_user_id = rr_user_id r, rf_user_message_id = 0,
     rf_terminal_message_id = 0, rf_kind = rr_kind r, rf_operation = ri_operation intent,
     rf_intent_version = ri_version intent, rf_intent_hash = ri_hash intent, rf_retry_target = ri_retry_target intent,
     rf_runtime_snapshot = rr_runtime_snapshot r, rf_status = RunStatusRunning, rf_cancel_cause = CauseNone,
     rf_usage = JNull, rf_runtime = JNull, rf_created_at = rr_accepted_at r, rf_accepted_at = rr_accepted_at r,
     rf_terminal_at = None, rf_updated_at = now, rf_expires_at = rr_expires_at r,
     rs_log = empty_log, rs_subscribers = [], rs_context = None, rs_bound_cancel = None, rs_cancel_requested = False,
     rs_finishing = False, rs_durable = True, rs_execution_owned = False, rs_due = []\<rparr>"

definition RestoreTerminal :: "run_hub \<Rightarrow> int \<Rightarrow> chat_run_record \<Rightarrow> run_intent \<Rightarrow> (go_err + run_snapshot) \<times> run_hub" where
  "RestoreTerminal h now r intent =
    (if rr_run_id r = [] \<or> rr_status r = RunStatusRunning then (Inl (ErrText ''terminal chat run is required''), h)
     else (case hub_run h (rr_run_id r) of
         Some s \<Rightarrow>
           if \<not> sameRunScope s (rr_session_id r) (rr_user_id r) (rr_kind r) intent then (Inl ErrRunIDConflict, h)
           else (Inr (cloneStateSnapshot s), h)
       | None \<Rightarrow>
           (let s = restored_state now intent r
            in if \<not> storedRunMatchesState r s then (Inl ErrRunIDConflict, h)
               else (let (h', s', e) = applyStoredRunTerminal h now s r
                     in (Inr (cloneStateSnapshot s'), put_run (rr_run_id r) s' h')))))"

definition hub_context :: "run_hub \<Rightarrow> string \<Rightarrow> gctx option" where
  "hub_context h runID = Option.bind (hub_run h runID) rs_context"

text \<open>
  \<^verbatim>\<open>BeginExecution\<close>, whose look at the context and arming of its guard are due when the
  lock is released; a run without a context (restored from the store) is never running, so it never
  gets here.
\<close>

definition BeginExecution :: "run_hub \<Rightarrow> string \<Rightarrow> (go_err + gctx option) \<times> run_hub" where
  "BeginExecution h runID =
    (case hub_run h runID of
       None \<Rightarrow> (Inl ErrRunTerminal, h)
     | Some s \<Rightarrow>
         if \<not> running s \<or> rs_finishing s then (Inl ErrRunTerminal, h)
         else if \<not> rs_durable s then (Inl ErrRunNotDurable, h)
         else if rs_execution_owned s then (Inl ErrRunExecutionOwned, h)
         else (Inr (rs_context s), put_run runID (add_due [ArmCheck] (s\<lparr>rs_execution_owned := True\<rparr>)) h))"

section \<open>The transition\<close>

definition clearFinishing :: "run_hub \<Rightarrow> string \<Rightarrow> run_hub" where
  "clearFinishing h runID =
    (case hub_run h runID of None \<Rightarrow> h | Some s \<Rightarrow> put_run runID (s\<lparr>rs_finishing := False\<rparr>) h)"

text \<open>
  The arbitration under the lock: the cancel cause of the run or of its context, a requested
  cancellation against another terminal, the error already shown, the defaults.
\<close>

definition adopt_cancel :: "run_state \<Rightarrow> run_terminal \<Rightarrow> run_state \<times> run_terminal" where
  "adopt_cancel s t0 =
    (let t = (if rf_cancel_cause s \<noteq> CauseNone then t0\<lparr>rt_cancel_cause := rf_cancel_cause s\<rparr> else t0);
         cause = RunCancelCauseFromContext (rs_context s)
     in if rt_cancel_cause t = CauseNone \<and> cause \<noteq> CauseNone
        then (s\<lparr>rf_cancel_cause := cause, rs_cancel_requested := True\<rparr>, t\<lparr>rt_cancel_cause := cause\<rparr>)
        else (s, t))"

definition cancel_wins :: "run_state \<Rightarrow> run_terminal \<Rightarrow> run_terminal" where
  "cancel_wins s t =
    (if rs_cancel_requested s \<and> rt_status t \<noteq> RunStatusCanceled \<and> \<not> rt_finalization_failure t
     then (let t1 = (if \<not> preservesIncompleteMessageCompletion t \<or> rt_cancel_cause t = RunCancelSessionDeleted
                     then t\<lparr>rt_event := [], rt_data := JNull\<rparr> else t)
           in t1\<lparr>rt_status := RunStatusCanceled, rt_public_error_code := [], rt_public_error_message := []\<rparr>)
     else t)"

definition keep_shown_error :: "run_state \<Rightarrow> run_terminal \<Rightarrow> run_terminal" where
  "keep_shown_error s t =
    (if rt_status t = RunStatusCanceled then t
     else if rt_public_error_code t = [] \<and> out_error_code (lg_output (rs_log s)) \<noteq> []
     then t\<lparr>rt_public_error_code := out_error_code (lg_output (rs_log s)),
            rt_public_error_message := out_error (lg_output (rs_log s))\<rparr>
     else if rt_public_error_message t = [] then t\<lparr>rt_public_error_message := out_error (lg_output (rs_log s))\<rparr>
     else t)"

definition frozen_terminal :: "run_state \<Rightarrow> run_terminal \<Rightarrow> run_state \<times> run_terminal" where
  "frozen_terminal s t =
    (let (s1, t1) = adopt_cancel s t
     in (s1\<lparr>rs_finishing := True\<rparr>, normalizeRunTerminal (rf_kind s1) (keep_shown_error s1 (cancel_wins s1 t1))))"

datatype freeze_result = FreezeError go_err | FreezeDone run_snapshot | FreezeGo run_terminal bool

definition transition_freeze :: "run_hub \<Rightarrow> string \<Rightarrow> go_err option \<Rightarrow> run_terminal \<Rightarrow> freeze_result \<times> run_hub" where
  "transition_freeze h runID ctxErr t =
    (if \<not> terminal_status (rt_status t) then (FreezeError (ErrText ''invalid terminal status''), h)
     else (case hub_run h runID of
         None \<Rightarrow> (FreezeError (ErrText ''run not found''), h)
       | Some s \<Rightarrow>
         (case ctxErr of
            Some e \<Rightarrow> (FreezeError e, h)
          | None \<Rightarrow>
              if \<not> running s then (FreezeDone (cloneStateSnapshot s), h)
              else (let (s', t') = frozen_terminal s t in (FreezeGo t' (rs_durable s), put_run runID s' h)))))"

definition terminal_input :: "string \<Rightarrow> int \<Rightarrow> run_terminal \<Rightarrow> transition_input" where
  "terminal_input runID expires t = \<lparr>ti_run_id = runID, ti_status = rt_status t, ti_cancel_cause = rt_cancel_cause t,
     ti_public_error_code = rt_public_error_code t, ti_public_error_message = rt_public_error_message t,
     ti_terminal_message_id = rt_terminal_message_id t, ti_terminal_event = marshalTerminalEvent (rt_event t) (rt_data t),
     ti_expires_at = expires\<rparr>"

text \<open>
  \<^verbatim>\<open>persistFrozenRunTerminal\<close>: the stored record with its transitioned flag, or
  \<open>None\<close> when the run has no row and was never durable.
\<close>

fun persistFrozenRunTerminal ::
  "nat \<Rightarrow> (transition_input \<Rightarrow> 'w \<Rightarrow> (go_err + chat_run_record \<times> bool) \<times> 'w) \<Rightarrow> bool \<Rightarrow> bool \<Rightarrow> transition_input \<Rightarrow> 'w
     \<Rightarrow> ((go_err + (chat_run_record \<times> bool) option) \<times> 'w) option" where
  "persistFrozenRunTerminal 0 call isCommit durable input w = None"
| "persistFrozenRunTerminal (Suc fuel) call isCommit durable input w =
     (case call input w of
        (Inr (record, transitioned), w') \<Rightarrow> Some (Inr (Some (record, transitioned)), w')
      | (Inl e, w') \<Rightarrow>
          if \<not> isCommit \<and> err_is e ErrNotFound \<and> \<not> durable then Some (Inr None, w')
          else if \<not> isRetryableTerminalPersistenceError e then Some (Inl e, w')
          else persistFrozenRunTerminal fuel call isCommit durable input w')"

definition memory_facts :: "int \<Rightarrow> int \<Rightarrow> run_terminal \<Rightarrow> run_state \<Rightarrow> run_state" where
  "memory_facts now ttl t s =
    s\<lparr>rf_status := rt_status t, rf_cancel_cause := rt_cancel_cause t,
      rs_log := set_output_error (rt_public_error_code t) (rt_public_error_message t) (rs_log s),
      rf_terminal_message_id := rt_terminal_message_id t, rf_usage := rt_usage t, rf_runtime := rt_runtime t,
      rf_terminal_at := Some now, rf_updated_at := now, rf_expires_at := now + ttl\<rparr>"

definition publish_state :: "run_hub \<Rightarrow> int \<Rightarrow> run_state \<Rightarrow> run_terminal \<Rightarrow> (chat_run_record \<times> bool) option
    \<Rightarrow> run_hub \<times> run_state \<times> run_event option" where
  "publish_state h now s t stored =
    (case stored of
       Some (r, transitioned) \<Rightarrow>
         (let (h1, s1, e) = applyStoredRunTerminal h now s r
          in (h1, if transitioned then s1\<lparr>rf_usage := rt_usage t, rf_runtime := rt_runtime t\<rparr> else s1, Some e))
     | None \<Rightarrow>
         (let (h1, s1, e) = (if rt_event t \<noteq> []
                then (let (h1, s1, e) = appendEventLocked h now s (rt_event t) (rt_data t) in (h1, s1, Some e))
                else (h, s, None))
          in (h1, memory_facts now (hb_ttl h) t s1, e)))"

text \<open>The publication: snapshot, transitioned, terminal event.\<close>

definition transition_publish :: "run_hub \<Rightarrow> int \<Rightarrow> string \<Rightarrow> run_terminal \<Rightarrow> (chat_run_record \<times> bool) option
    \<Rightarrow> (go_err + run_snapshot \<times> bool \<times> run_event option) \<times> run_hub" where
  "transition_publish h now runID t stored =
    (case hub_run h runID of
       None \<Rightarrow> (Inl (ErrText ''run not found''), h)
     | Some s \<Rightarrow>
         if \<not> running s
         then (let s' = s\<lparr>rs_finishing := False\<rparr> in (Inr (cloneStateSnapshot s', False, None), put_run runID s' h))
         else
           (let (h1, s1, e) = publish_state h now s t stored;
                s2 = release_run (s1\<lparr>rs_finishing := False\<rparr>);
                (s3, h3) = closeSubscribersLocked s2 h1
            in (Inr (cloneStateSnapshot s3, (case stored of None \<Rightarrow> True | Some (r, tr) \<Rightarrow> tr), e), put_run runID s3 h3)))"

record 'w run_store_ops =
  so_bind :: "string \<Rightarrow> int \<Rightarrow> 'w \<Rightarrow> (go_err + bool) \<times> 'w"
  so_transition :: "transition_input \<Rightarrow> 'w \<Rightarrow> (go_err + chat_run_record \<times> bool) \<times> 'w"

text \<open>
  \<^verbatim>\<open>transition\<close> with its store and commit callback, both of which may be missing.
\<close>

definition transition ::
  "nat \<Rightarrow> 'w run_store_ops option \<Rightarrow> (transition_input \<Rightarrow> 'w \<Rightarrow> (go_err + chat_run_record \<times> bool) \<times> 'w) option
    \<Rightarrow> go_err option \<Rightarrow> int \<Rightarrow> string \<Rightarrow> run_terminal \<Rightarrow> run_hub \<Rightarrow> 'w
    \<Rightarrow> ((go_err + run_snapshot \<times> bool \<times> run_event option) \<times> run_hub \<times> 'w) option" where
  "transition fuel store commit ctxErr now runID t h w =
    (case transition_freeze h runID ctxErr t of
       (FreezeError e, h') \<Rightarrow> Some (Inl e, h', w)
     | (FreezeDone snap, h') \<Rightarrow> Some (Inr (snap, False, None), h', w)
     | (FreezeGo t' durable, h') \<Rightarrow>
         (case (store, commit) of
            (None, None) \<Rightarrow> (let (res, h'') = transition_publish h' now runID t' None in Some (res, h'', w))
          | _ \<Rightarrow>
            if commit \<noteq> None \<and> \<not> durable
            then Some (Inl (ErrText ''terminal commit requires durable run''), clearFinishing h' runID, w)
            else
              (let call = (case commit of Some c \<Rightarrow> c | None \<Rightarrow> so_transition (the store));
                   input = terminal_input runID (now + hb_ttl h) t'
               in case persistFrozenRunTerminal fuel call (commit \<noteq> None) durable input w of
                    None \<Rightarrow> None
                  | Some (Inl e, w') \<Rightarrow> Some (Inl e, clearFinishing h' runID, w')
                  | Some (Inr stored, w') \<Rightarrow>
                      (let (res, h'') = transition_publish h' now runID t' stored in Some (res, h'', w')))))"

definition bare_terminal :: "run_status \<Rightarrow> run_terminal" where
  "bare_terminal st = \<lparr>rt_status = st, rt_cancel_cause = CauseNone, rt_public_error_code = [],
     rt_public_error_message = [], rt_event = [], rt_data = JNull, rt_terminal_message_id = 0, rt_usage = JNull,
     rt_runtime = JNull, rt_finalization_failure = False\<rparr>"

definition Complete where
  "Complete fuel store now runID usage runtime =
    transition fuel store None None now runID ((bare_terminal RunStatusCompleted)\<lparr>rt_usage := usage, rt_runtime := runtime\<rparr>)"

definition Canceled where
  "Canceled fuel store now runID usage runtime =
    transition fuel store None None now runID ((bare_terminal RunStatusCanceled)\<lparr>rt_usage := usage, rt_runtime := runtime\<rparr>)"

definition Fail where
  "Fail fuel store now runID errText =
    transition fuel store None None now runID ((bare_terminal RunStatusFailed)\<lparr>rt_public_error_message := errText\<rparr>)"

definition FailIfRunning where
  "FailIfRunning fuel store now runID errText h w =
    map_option (\<lambda>(res, h', w'). ((case res of Inl e \<Rightarrow> False | Inr (snap, transitioned, ev) \<Rightarrow> transitioned), h', w'))
      (transition fuel store None None now runID
        ((bare_terminal RunStatusFailed)\<lparr>rt_public_error_code := ''run_incomplete'', rt_public_error_message := errText\<rparr>) h w)"

definition SetUserMessageIDContext ::
  "'w run_store_ops option \<Rightarrow> int \<Rightarrow> string \<Rightarrow> int \<Rightarrow> run_hub \<Rightarrow> 'w \<Rightarrow> (go_err + bool) \<times> run_hub \<times> 'w" where
  "SetUserMessageIDContext store now runID userMessageID h w =
    (if userMessageID \<le> 0 then (Inr False, h, w)
     else (case hub_run h runID of
         None \<Rightarrow> (Inr False, h, w)
       | Some s \<Rightarrow>
           if \<not> running s \<or> rs_finishing s \<or> (rf_user_message_id s \<noteq> 0 \<and> rf_user_message_id s \<noteq> userMessageID)
           then (Inr False, h, w)
           else
             (let (bound, w') = (case store of
                     Some ops \<Rightarrow> if rs_durable s then so_bind ops runID userMessageID w else (Inr True, w)
                   | None \<Rightarrow> (Inr True, w))
              in case bound of
                   Inl e \<Rightarrow> (Inl e, h, w')
                 | Inr False \<Rightarrow> (Inr False, h, w')
                 | Inr True \<Rightarrow>
                     (Inr True, put_run runID (s\<lparr>rf_user_message_id := userMessageID, rf_updated_at := now\<rparr>) h, w'))))"

text \<open>\<^verbatim>\<open>FinalizeForDrain\<close>: the runs it ends and the causes it ends them with.\<close>

definition drain_pending :: "run_hub \<Rightarrow> (string \<times> run_cancel_cause) list" where
  "drain_pending h = map (\<lambda>(k, s). (k, if rf_cancel_cause s = CauseNone then RunCancelServerDrain else rf_cancel_cause s))
     (filter (\<lambda>(k, s). running s) (hb_runs h))"

fun drain_each where
  "drain_each fuel store now [] n errs h w = Some (n, errs, h, w)"
| "drain_each fuel store now ((runID, cause) # rest) n errs h w =
     (case transition fuel store None None now runID ((bare_terminal RunStatusCanceled)\<lparr>rt_cancel_cause := cause\<rparr>) h w of
        None \<Rightarrow> None
      | Some (Inl e, h', w') \<Rightarrow> drain_each fuel store now rest n (errs @ [ErrWrap ''finalize run'' e]) h' w'
      | Some (Inr (snap, transitioned, ev), h', w') \<Rightarrow>
          drain_each fuel store now rest (if transitioned then Suc n else n) errs h' w')"

text \<open>
  The workers of the pending runs touch different runs; here they run one after the other.  The
  drain budget running out early is the result of a prefix of the list.
\<close>

definition FinalizeForDrain where
  "FinalizeForDrain fuel store now h w = drain_each fuel store now (drain_pending h) (0::nat) [] h w"

end
