(* ===== verification/RunProtocol.thy ===== *)
theory RunProtocol
  imports RunTerminal
begin

text \<open>
  The hub under every interleaving of its critical sections.  \<open>cfg_step\<close> is one step of any
  client: a hub operation, one of the three parts of a transition, a call that an operation left due
  when it released the lock, a timer of a run's first-output guard, the first output of a run.  Beside the hub a configuration holds the transitions under way,
  the frozen terminal of each run whose \<^verbatim>\<open>transitionMu\<close> a transition owns; the
  operations that take that mutex need it to be free.  \<open>cfg_ok\<close> is the invariant and
  \<open>goes_on\<close> says what no step takes back.
\<close>

definition stored_ok :: "(chat_run_record \<times> bool) option \<Rightarrow> bool" where
  "stored_ok stored \<longleftrightarrow> (case stored of None \<Rightarrow> True | Some (r, tr) \<Rightarrow> rr_status r \<noteq> RunStatusRunning)"

inductive cfg_step :: "run_hub \<times> (string \<rightharpoonup> run_terminal) \<Rightarrow> run_hub \<times> (string \<rightharpoonup> run_terminal) \<Rightarrow> bool" where
  st_start: "cfg_step (h, P)
    (snd (StartWithIntentAndFirstOutputTimeout h now fresh sessionID userID umid clientRunID kind intent timeout), P)"
| st_begin_drain: "cfg_step (h, P) (BeginDrain h, P)"
| st_record: "cfg_step (h, P) (snd (Record h now runID ev data), P)"
| st_bind: "cfg_step (h, P) (snd (Bind h runID f), P)"
| st_cancel_drain: "cfg_step (h, P) (snd (CancelForDrain h now), P)"
| st_cancel_user: "cfg_step (h, P) (snd (CancelByUser h now userID), P)"
| st_cancel_session: "cfg_step (h, P) (snd (CancelSession h now sessionID userID), P)"
| st_cancel: "cfg_step (h, P) (snd (CancelWithCause h now runID sessionID userID cause), P)"
| st_subscribe: "cfg_step (h, P) (snd (EventsAfter h runID sessionID userID cursor), P)"
| st_unsubscribe: "cfg_step (h, P) (unsubscribe h runID ch, P)"
| st_receive: "cfg_step (h, P) (snd (receive h ch), P)"
| st_cleanup: "cfg_step (h, P) (cleanup h now, P)"
| st_durable: "P runID = None \<Longrightarrow> PersistDurable runID persist h () = (res, h', w) \<Longrightarrow> cfg_step (h, P) (h', P)"
| st_admit: "P runID = None \<Longrightarrow> cfg_step (h, P) (snd (admit_record h now runID r), P)"
| st_restore: "cfg_step (h, P) (snd (RestoreTerminal h now r intent), P)"
| st_begin: "cfg_step (h, P) (snd (BeginExecution h runID), P)"
| st_user_message: "P runID = None \<Longrightarrow> SetUserMessageIDContext store now runID m h () = (res, h', w) \<Longrightarrow> cfg_step (h, P) (h', P)"
| st_freeze: "P runID = None \<Longrightarrow> transition_freeze h runID ctxErr t = (FreezeGo t' d, h') \<Longrightarrow> cfg_step (h, P) (h', P(runID \<mapsto> t'))"
| st_give_up: "P runID = Some t \<Longrightarrow> cfg_step (h, P) (clearFinishing h runID, P(runID := None))"
| st_publish: "P runID = Some t \<Longrightarrow> stored_ok stored \<Longrightarrow>
    cfg_step (h, P) (snd (transition_publish h now runID t stored), P(runID := None))"
| st_due: "cfg_step (h, P) (perform_due h runID c, P)"
| st_bound: "cfg_step (h, P) (perform_bound h f, P)"
| st_timer: "hub_run h runID = Some s \<Longrightarrow>
    cfg_step (h, P) (put_run runID (s\<lparr>rs_context := map_option (fire_frame 0) (rs_context s)\<rparr>) h, P)"
| st_output: "hub_run h runID = Some s \<Longrightarrow> running s \<Longrightarrow>
    cfg_step (h, P) (put_run runID (s\<lparr>rs_context := map_option mark_ctx (rs_context s)\<rparr>) h, P)"

section \<open>The context of a run\<close>

definition ctx_ok :: "gctx \<Rightarrow> bool" where
  "ctx_ok c \<longleftrightarrow> (\<exists>f. c = [f] \<and> \<not> fr_linked f)"

definition ctx_cancelled :: "gctx \<Rightarrow> bool" where
  "ctx_cancelled c \<longleftrightarrow> ctx_cause c \<noteq> None"

definition ctx_stopped :: "gctx \<Rightarrow> bool" where
  "ctx_stopped c \<longleftrightarrow> (case c of [] \<Rightarrow> True | f # _ \<Rightarrow> og_stopped (fr_gate f))"

lemma ctx_ops:
  assumes "ctx_ok c"
  shows "ctx_ok (cancel_frame 0 e c)" "ctx_cancelled (cancel_frame 0 e c)" "ctx_ok (stop_frame 0 c)"
    "ctx_stopped (stop_frame 0 c)" "ctx_cancelled (stop_frame 0 c) = ctx_cancelled c"
    "ctx_stopped (cancel_frame 0 e c) = ctx_stopped c"
    "ctx_ok (arm_ctx c)" "ctx_cancelled (arm_ctx c) = ctx_cancelled c" "ctx_ok (fire_frame 0 c)"
    "ctx_cancelled c \<Longrightarrow> ctx_cancelled (fire_frame 0 c)" "ctx_stopped c \<Longrightarrow> fire_frame 0 c = c"
    "ctx_ok (mark_ctx c)" "ctx_cancelled (mark_ctx c) = ctx_cancelled c"
    "ctx_stopped (arm_ctx c) = ctx_stopped c" "ctx_stopped (mark_ctx c) = ctx_stopped c"
    "ctx_stopped (fire_frame 0 c) = ctx_stopped c"
  using assms
  by (auto simp: ctx_ok_def ctx_cancelled_def ctx_stopped_def ctx_cause_def cancel_frame_def set_cause_def stop_frame_def
      gate_stop_def fire_frame_def gate_fires_def gate_arm_def gate_mark_def split: if_splits)

lemma newRunContext_ok: "ctx_ok (newRunContext timeout)"
  by (simp add: ctx_ok_def newRunContext_def with_deferred_timeout_def)

section \<open>The invariant\<close>

text \<open>
  The calls that are due stand for their effect: the context of a run is cancelled, or the call that
  cancels it is due; the same for its first-output guard.
\<close>

fun cancels :: "due_call \<Rightarrow> bool" where
  "cancels (CancelCall e) = True"
| "cancels c = False"

definition cancel_set :: "due_call list \<Rightarrow> gctx \<Rightarrow> bool" where
  "cancel_set cs c \<longleftrightarrow> ctx_cancelled c \<or> list_ex cancels cs"

definition stop_set :: "due_call list \<Rightarrow> gctx \<Rightarrow> bool" where
  "stop_set cs c \<longleftrightarrow> ctx_stopped c \<or> StopCall \<in> set cs"

definition run_ok :: "string \<Rightarrow> run_state \<Rightarrow> bool" where
  "run_ok runID s \<longleftrightarrow>
    rf_run_id s = runID \<and> (\<exists>H. log_core H (rs_log s)) \<and>
    (case rs_context s of None \<Rightarrow> \<not> running s
     | Some c \<Rightarrow> ctx_ok c \<and> (rs_cancel_requested s \<longrightarrow> cancel_set (rs_due s) c) \<and> (running s \<or> cancel_set (rs_due s) c \<and> stop_set (rs_due s) c)) \<and>
    (running s \<longrightarrow> (rs_cancel_requested s \<longleftrightarrow> rf_cancel_cause s \<noteq> CauseNone)) \<and>
    (\<not> running s \<longrightarrow> \<not> rs_finishing s \<and> rs_subscribers s = [])"

definition exclusive :: "run_hub \<Rightarrow> bool" where
  "exclusive h \<longleftrightarrow> (\<forall>i j s t. hub_run h i = Some s \<and> hub_run h j = Some t \<and> running s \<and> running t \<and>
     rf_session_id s = rf_session_id t \<and> rf_user_id s = rf_user_id t \<longrightarrow> i = j)"

definition hub_ok :: "run_hub \<Rightarrow> bool" where
  "hub_ok h \<longleftrightarrow> wf_map (hb_runs h) \<and> (\<forall>i s. hub_run h i = Some s \<longrightarrow> run_ok i s) \<and> exclusive h"

definition pending_ok :: "run_hub \<Rightarrow> (string \<rightharpoonup> run_terminal) \<Rightarrow> bool" where
  "pending_ok h P \<longleftrightarrow>
    (\<forall>i t. P i = Some t \<longrightarrow> terminal_status (rt_status t) \<and> (\<exists>s. hub_run h i = Some s \<and> running s)) \<and>
    (\<forall>i s. hub_run h i = Some s \<longrightarrow> (rs_finishing s \<longleftrightarrow> P i \<noteq> None))"

definition cfg_ok :: "run_hub \<times> (string \<rightharpoonup> run_terminal) \<Rightarrow> bool" where
  "cfg_ok c \<longleftrightarrow> hub_ok (fst c) \<and> pending_ok (fst c) (snd c)"

text \<open>
  What no step takes back while a run is in the hub: its identity; once terminal, everything but the
  effect of the calls that are still due on its context, and when none is due, everything; the
  cancellation of its context and the stop of its guard; its events; a requested cancellation; its
  durability and its execution owner.  A frozen run records no event and keeps its cancel cause until
  the freeze ends.
\<close>

definition ctx_goes_on :: "gctx option \<Rightarrow> gctx option \<Rightarrow> bool" where
  "ctx_goes_on x y \<longleftrightarrow>
    (case x of None \<Rightarrow> y = None
     | Some c \<Rightarrow> (case y of None \<Rightarrow> False
         | Some d \<Rightarrow> (ctx_cancelled c \<longrightarrow> ctx_cancelled d) \<and> (ctx_stopped c \<longrightarrow> ctx_stopped d)))"

definition goes_on :: "run_state \<Rightarrow> run_state \<Rightarrow> bool" where
  "goes_on s s' \<longleftrightarrow>
    rf_session_id s' = rf_session_id s \<and> rf_user_id s' = rf_user_id s \<and> rf_kind s' = rf_kind s \<and>
    (\<not> running s \<longrightarrow> s'\<lparr>rs_context := rs_context s, rs_due := rs_due s\<rparr> = s) \<and>
    (\<not> running s \<and> rs_due s = [] \<longrightarrow> s' = s) \<and> ctx_goes_on (rs_context s) (rs_context s') \<and>
    lg_cursor (rs_log s) \<le> lg_cursor (rs_log s') \<and>
    (running s' \<longrightarrow> (rs_cancel_requested s \<longrightarrow> rs_cancel_requested s')) \<and>
    (rs_durable s \<longrightarrow> rs_durable s') \<and> (rs_execution_owned s \<longrightarrow> rs_execution_owned s') \<and>
    (rs_finishing s \<and> running s' \<longrightarrow> rs_log s' = rs_log s \<and> rf_cancel_cause s' = rf_cancel_cause s)"

lemma put_run_runs [simp]: "hb_runs (put_run runID s h) = AList.update runID s (hb_runs h)"
  by (simp add: put_run_def)

lemma due_bound_runs [simp]: "hb_runs (due_bound s h) = hb_runs h"
  by (simp add: due_bound_def split: option.split)

lemma ctx_goes_on_refl [simp]: "ctx_goes_on x x"
  by (simp add: ctx_goes_on_def split: option.split)

lemma due_sets [simp]:
  "cancel_set (ds @ cs) c \<longleftrightarrow> cancel_set ds c \<or> list_ex cancels cs"
  "stop_set (ds @ cs) c \<longleftrightarrow> stop_set ds c \<or> StopCall \<in> set cs"
  "ctx_cancelled c \<Longrightarrow> cancel_set ds c" "ctx_stopped c \<Longrightarrow> stop_set ds c"
  by (auto simp: cancel_set_def stop_set_def)

text \<open>
  A step that changes the runs one by one, each in a way that goes on, and may drop terminal ones.
\<close>

definition run_step :: "string \<Rightarrow> run_state \<Rightarrow> run_state \<Rightarrow> bool" where
  "run_step i s s' \<longleftrightarrow> (run_ok i s \<longrightarrow> run_ok i s' \<and> goes_on s s') \<and> (running s' \<longrightarrow> running s) \<and>
     (rs_finishing s' \<longleftrightarrow> rs_finishing s)"

definition local_step :: "run_hub \<Rightarrow> run_hub \<Rightarrow> bool" where
  "local_step h h' \<longleftrightarrow> (wf_map (hb_runs h) \<longrightarrow> wf_map (hb_runs h') \<and>
     (\<forall>i. case hub_run h i of None \<Rightarrow> hub_run h' i = None
       | Some s \<Rightarrow> (hub_run h' i = None \<and> \<not> running s) \<or> (\<exists>s'. hub_run h' i = Some s' \<and> run_step i s s')))"

lemma goes_on_refl [simp]: "goes_on s s"
  by (simp add: goes_on_def)

lemma run_step_refl [simp]: "run_step i s s"
  by (simp add: run_step_def)

lemma local_step_same: "hb_runs h' = hb_runs h \<Longrightarrow> local_step h h'"
  by (auto simp: local_step_def split: option.split)

lemma local_step_refl [simp]: "local_step h h"
  by (simp add: local_step_same)

lemma local_stepI:
  assumes "hub_run h i = Some s" "hb_runs h' = AList.update i s' (hb_runs h)"
    "run_ok i s \<Longrightarrow> run_ok i s' \<and> goes_on s s'" "running s' \<Longrightarrow> running s" "rs_finishing s' \<longleftrightarrow> rs_finishing s"
  shows "local_step h h'"
  using assms by (auto simp: local_step_def run_step_def split: option.split)

lemma local_step_cases:
  assumes "local_step h h'" "hub_ok h"
  shows "hub_run h i = None \<Longrightarrow> hub_run h' i = None"
    "hub_run h i = Some s \<Longrightarrow> hub_run h' i = None \<and> \<not> running s \<or>
       (\<exists>s'. hub_run h' i = Some s' \<and> run_ok i s' \<and> goes_on s s' \<and> (running s' \<longrightarrow> running s) \<and> (rs_finishing s' \<longleftrightarrow> rs_finishing s))"
  using assms by (auto simp: local_step_def hub_ok_def run_step_def dest!: spec[of _ i] split: option.splits)

lemma local_step_back:
  assumes "local_step h h'" "hub_ok h" "hub_run h' i = Some s'"
  obtains s where "hub_run h i = Some s" "run_ok i s'" "goes_on s s'" "running s' \<Longrightarrow> running s"
    "rs_finishing s' \<longleftrightarrow> rs_finishing s"
  using local_step_cases[OF assms(1,2), of i] assms(3) that by (cases "hub_run h i") auto

lemma local_step_ok:
  assumes "local_step h h'" "cfg_ok (h, P)"
  shows "cfg_ok (h', P)"
proof -
  have ok: "hub_ok h" "pending_ok h P" using assms(2) by (auto simp: cfg_ok_def)
  note before = local_step_back[OF assms(1) ok(1)]
  have "exclusive h'"
    unfolding exclusive_def
  proof (intro allI impI, elim conjE)
    fix i j s t
    assume a: "hub_run h' i = Some s" "hub_run h' j = Some t" "running s" "running t"
      "rf_session_id s = rf_session_id t" "rf_user_id s = rf_user_id t"
    from a(1,3) obtain s0 where "hub_run h i = Some s0" "goes_on s0 s" "running s0" by (auto elim: before)
    moreover from a(2,4) obtain t0 where "hub_run h j = Some t0" "goes_on t0 t" "running t0" by (auto elim: before)
    ultimately show "i = j" using ok(1) a(5,6) by (auto simp: hub_ok_def exclusive_def goes_on_def)
  qed
  moreover have "wf_map (hb_runs h')" using assms(1) ok(1) by (simp add: local_step_def hub_ok_def)
  ultimately have "hub_ok h'" by (auto simp: hub_ok_def elim: before)
  moreover have "pending_ok h' P"
    unfolding pending_ok_def
  proof (intro conjI allI impI)
    fix i t
    assume p: "P i = Some t"
    then obtain s where s: "hub_run h i = Some s" "running s" "rs_finishing s" and t: "terminal_status (rt_status t)"
      using ok(2) unfolding pending_ok_def by fastforce
    then show "terminal_status (rt_status t)" "\<exists>s. hub_run h' i = Some s \<and> running s"
      using local_step_cases(2)[OF assms(1) ok(1) s(1)] by (auto simp: run_ok_def)
  next
    fix i s
    assume "hub_run h' i = Some s"
    then show "rs_finishing s \<longleftrightarrow> P i \<noteq> None" using ok(2) by (auto simp: pending_ok_def elim: before)
  qed
  ultimately show ?thesis by (simp add: cfg_ok_def)
qed

section \<open>The operations\<close>

lemma log_core_trimLocked: "log_core H s \<Longrightarrow> log_core H (trimLocked m s)"
  by (auto simp: trimLocked_def intro: log_of_core log_of_trim_to_max log_core_rebuild log_core_trim_to_target)

lemma log_core_append:
  assumes "log_core H lg"
  shows "log_core (H @ [snd (append_log m ev d lg)]) (fst (append_log m ev d lg))"
    "lg_cursor (fst (append_log m ev d lg)) = lg_cursor lg + 1"
proof -
  have "log_core (H @ [\<lparr>ev_cursor = lg_cursor lg + 1, ev_event = ev, ev_data = d\<rparr>])
    (lg\<lparr>lg_cursor := lg_cursor lg + 1, lg_output := applyEvent (lg_output lg) ev d,
       lg_events := lg_events lg @ [\<lparr>ev_cursor = lg_cursor lg + 1, ev_event = ev, ev_data = d\<rparr>],
       lg_bytes := lg_bytes lg + event_size \<lparr>ev_cursor = lg_cursor lg + 1, ev_event = ev, ev_data = d\<rparr>\<rparr>)"
    using assms by (auto simp: log_core_def numbered_snoc)
  then show a: "log_core (H @ [snd (append_log m ev d lg)]) (fst (append_log m ev d lg))"
    using log_core_trimLocked by (fastforce simp: append_log_def Let_def)
  show "lg_cursor (fst (append_log m ev d lg)) = lg_cursor lg + 1"
    using a assms by (simp add: log_core_def)
qed

lemma appendEventLocked_eq:
  "appendEventLocked h now s ev d =
    (h\<lparr>hb_chans := send_all (rs_subscribers s) (snd (append_log (hb_max_bytes h) ev d (rs_log s))) (hb_chans h)\<rparr>,
     s\<lparr>rs_log := fst (append_log (hb_max_bytes h) ev d (rs_log s)), rf_updated_at := now, rf_expires_at := now + hb_ttl h\<rparr>,
     snd (append_log (hb_max_bytes h) ev d (rs_log s)))"
  by (simp add: appendEventLocked_def split_def Let_def)

lemma running_update [simp]:
  "running (s\<lparr>rs_log := lg\<rparr>) = running s" "running (s\<lparr>rf_updated_at := t\<rparr>) = running s"
  "running (s\<lparr>rf_expires_at := t\<rparr>) = running s" "running (s\<lparr>rs_context := c\<rparr>) = running s"
  "running (s\<lparr>rs_subscribers := x\<rparr>) = running s" "running (s\<lparr>rs_bound_cancel := b\<rparr>) = running s"
  "running (s\<lparr>rs_cancel_requested := q\<rparr>) = running s" "running (s\<lparr>rf_cancel_cause := cc\<rparr>) = running s"
  "running (s\<lparr>rs_finishing := q\<rparr>) = running s" "running (s\<lparr>rs_durable := q\<rparr>) = running s"
  "running (s\<lparr>rs_execution_owned := q\<rparr>) = running s" "running (s\<lparr>rf_user_message_id := n\<rparr>) = running s"
  "running (s\<lparr>rf_terminal_message_id := n\<rparr>) = running s" "running (s\<lparr>rf_accepted_at := t\<rparr>) = running s"
  "running (s\<lparr>rf_runtime_snapshot := rt\<rparr>) = running s" "running (s\<lparr>rf_usage := u\<rparr>) = running s"
  "running (s\<lparr>rf_runtime := u\<rparr>) = running s" "running (s\<lparr>rs_due := ds\<rparr>) = running s" "running (s\<lparr>rf_status := st\<rparr>) \<longleftrightarrow> st = RunStatusRunning"
  by (simp_all add: running_def)

lemma Record_local: "local_step h (snd (Record h now runID ev d))"
proof (cases "hub_run h runID")
  case (Some s)
  show ?thesis
  proof (cases "running s \<and> \<not> rs_finishing s")
    case True
    have "run_ok i s \<Longrightarrow> lg_cursor (fst (append_log m ev d (rs_log s))) = lg_cursor (rs_log s) + 1 \<and>
      (\<exists>H. log_core H (fst (append_log m ev d (rs_log s))))" for i m
      using log_core_append by (fastforce simp: run_ok_def)
    with True Some show ?thesis
      by (intro local_stepI[OF Some]) (auto simp: Record_def appendEventLocked_eq run_ok_def goes_on_def split: option.splits)
  qed (use Some in \<open>auto simp: Record_def\<close>)
qed (simp add: Record_def)

lemma Bind_local: "local_step h (snd (Bind h runID f))"
proof (cases "hub_run h runID")
  case (Some s)
  then show ?thesis
    by (cases "running s \<and> \<not> rs_finishing s")
      (auto simp: Bind_def Let_def run_ok_def goes_on_def split: option.splits intro!: local_stepI[OF Some])
qed (simp add: Bind_def)

lemma request_cancel_ok:
  assumes "run_ok i s" "cause \<noteq> CauseNone" "running s" "\<not> rs_finishing s"
  shows "run_ok i (request_cancel now cause s) \<and> goes_on s (request_cancel now cause s)"
  using assms by (auto simp: run_ok_def goes_on_def request_cancel_def add_due_def split: option.splits)

lemma request_cancel_same [simp]:
  "running (request_cancel now cause s) = running s" "rs_finishing (request_cancel now cause s) = rs_finishing s"
  "rf_session_id (request_cancel now cause s) = rf_session_id s" "rf_user_id (request_cancel now cause s) = rf_user_id s"
  by (simp_all add: request_cancel_def add_due_def)

lemma CancelWithCause_local: "local_step h (snd (CancelWithCause h now runID sessionID userID cause))"
proof (cases "hub_run h runID")
  case (Some s)
  then show ?thesis
    by (auto simp: CancelWithCause_def Let_def request_cancel_ok intro!: local_stepI[OF Some])
qed (simp add: CancelWithCause_def)

lemma subscribe_local: "local_step h (snd (EventsAfter h runID sessionID userID cursor))"
proof (cases "hub_run h runID")
  case (Some s)
  then show ?thesis
    by (auto simp: EventsAfter_def Let_def run_ok_def goes_on_def split: option.splits intro!: local_stepI[OF Some])
qed (simp add: EventsAfter_def)

lemma unsubscribe_local: "local_step h (unsubscribe h runID ch)"
proof (cases "hub_run h runID")
  case (Some s)
  let ?s = "s\<lparr>rs_subscribers := filter (\<lambda>c. c \<noteq> ch) (rs_subscribers s)\<rparr>"
  have "run_ok runID ?s \<and> goes_on s ?s" if "run_ok runID s"
  proof (cases "running s")
    case False
    then have "?s = s" using that by (simp add: run_ok_def)
    then show ?thesis using that by simp
  qed (use that in \<open>simp add: run_ok_def goes_on_def split: option.splits\<close>)
  then show ?thesis
    using Some by (intro local_stepI[OF Some, where s' = ?s]) (auto simp: unsubscribe_def run_ok_def)
qed (simp add: unsubscribe_def)

lemma cleanup_local: "local_step h (cleanup h now)"
proof -
  have "hb_runs (cleanup h now) = filter (\<lambda>p. \<not> run_expired now (snd p)) (hb_runs h)"
    by (simp add: cleanup_def Let_def)
  then show ?thesis
    by (auto simp: local_step_def map_of_filter run_expired_def split: option.split)
qed

lemma cancelMatching_local: "cause \<noteq> CauseNone \<Longrightarrow> local_step h (snd (cancelMatching h now cause matches))"
proof -
  assume c: "cause \<noteq> CauseNone"
  let ?f = "\<lambda>k s. if cancel_applies cause matches s then request_cancel now cause s else s"
  have "hb_runs (snd (cancelMatching h now cause matches)) = map (\<lambda>(k, s). (k, ?f k s)) (hb_runs h)"
    by (simp add: cancelMatching_def Let_def)
  moreover have "run_step i s (?f i s)" for i s
    using request_cancel_ok[OF _ c] by (auto simp: run_step_def cancel_applies_def)
  ultimately show ?thesis
    unfolding local_step_def by (simp only: map_of_map_values wf_map_map_values) (auto split: option.split)
qed

lemma PersistDurable_local: "PersistDurable runID persist h w = (res, h', w') \<Longrightarrow> local_step h h'"
  by (auto simp: PersistDurable_def run_ok_def goes_on_def split: option.splits if_splits prod.splits intro!: local_stepI)

lemma BeginExecution_local: "local_step h (snd (BeginExecution h runID))"
proof (cases "hub_run h runID")
  case (Some s)
  then show ?thesis
    by (auto simp: BeginExecution_def add_due_def run_ok_def goes_on_def split: option.splits intro!: local_stepI[OF Some])
qed (simp add: BeginExecution_def)

lemma SetUserMessage_local: "SetUserMessageIDContext store now runID m h w = (res, h', w') \<Longrightarrow> local_step h h'"
  by (auto simp: SetUserMessageIDContext_def Let_def run_ok_def goes_on_def
      split: option.splits if_splits prod.splits sum.splits bool.splits intro!: local_stepI)

text \<open>
  A step that touches the context of a run and its due calls only, and takes nothing back from them.
\<close>

definition ctx_step_ok :: "due_call list \<Rightarrow> due_call list \<Rightarrow> gctx \<Rightarrow> gctx \<Rightarrow> bool" where
  "ctx_step_ok ds ds' c d \<longleftrightarrow> ctx_ok d \<and> (ctx_cancelled c \<longrightarrow> ctx_cancelled d) \<and> (ctx_stopped c \<longrightarrow> ctx_stopped d) \<and>
     (cancel_set ds c \<longrightarrow> cancel_set ds' d) \<and> (stop_set ds c \<longrightarrow> stop_set ds' d)"

lemma context_update_ok:
  assumes "run_ok i s" "\<And>c. rs_context s = Some c \<Longrightarrow> ctx_ok c \<Longrightarrow> ctx_step_ok (rs_due s) ds' c (f c)"
    "running s \<or> rs_due s \<noteq> []"
  shows "run_ok i (s\<lparr>rs_context := map_option f (rs_context s), rs_due := ds'\<rparr>) \<and>
    goes_on s (s\<lparr>rs_context := map_option f (rs_context s), rs_due := ds'\<rparr>)"
proof (cases "rs_context s")
  case None
  with assms(1,3) show ?thesis by (auto simp: run_ok_def goes_on_def running_def)
next
  case (Some c)
  with assms(1) have "ctx_ok c" by (simp add: run_ok_def)
  with assms Some show ?thesis by (auto simp: run_ok_def goes_on_def ctx_step_ok_def ctx_goes_on_def running_def)
qed

lemma cancels_remove1: "\<not> cancels c \<Longrightarrow> list_ex cancels (remove1 c ds) = list_ex cancels ds"
  by (induction ds) auto

text \<open>A due call that is made leaves its effect on the context in its place.\<close>

lemma make_call_eq:
  "\<exists>f ds'. make_call c s = s\<lparr>rs_context := map_option f (rs_context s), rs_due := ds'\<rparr> \<and>
    (\<forall>x ds. rs_context s = Some x \<and> ctx_ok x \<and> rs_due s = remove1 c ds \<longrightarrow> ctx_step_ok ds ds' x (f x))"
proof (cases c)
  case (CancelCall e)
  have "make_call c s = s\<lparr>rs_context := map_option (cancel_frame 0 e) (rs_context s), rs_due := rs_due s\<rparr>"
    by (simp add: CancelCall call_cancel_cause_def)
  moreover have "ctx_step_ok ds (remove1 c ds) x (cancel_frame 0 e x)" if "ctx_ok x" for x ds
    using ctx_ops(1,2,6)[OF that, of e] by (auto simp: ctx_step_ok_def stop_set_def CancelCall)
  ultimately show ?thesis by metis
next
  case StopCall
  have "make_call c s = s\<lparr>rs_context := map_option (stop_frame 0) (rs_context s), rs_due := rs_due s\<rparr>"
    by (simp add: StopCall call_first_output_stop_def)
  moreover have "ctx_step_ok ds (remove1 c ds) x (stop_frame 0 x)" if "ctx_ok x" for x ds
    using ctx_ops(3-5)[OF that] by (auto simp: ctx_step_ok_def cancel_set_def StopCall cancels_remove1)
  ultimately show ?thesis by metis
next
  case ArmCheck
  define ds' where "ds' = (case rs_context s of None \<Rightarrow> rs_due s
    | Some x \<Rightarrow> if ctx_cause x = None then rs_due s @ [ArmCall] else rs_due s)"
  have "make_call c s = s\<lparr>rs_context := map_option id (rs_context s), rs_due := ds'\<rparr>"
    by (simp add: ArmCheck add_due_def ds'_def option.map_id0 split: option.split)
  moreover have "ctx_step_ok ds ds' x (id x)" if "ctx_ok x" "rs_due s = remove1 c ds" for x ds
    using that by (auto simp: ctx_step_ok_def ds'_def cancel_set_def stop_set_def ArmCheck cancels_remove1 split: option.split)
  ultimately show ?thesis by metis
next
  case ArmCall
  have "make_call c s = s\<lparr>rs_context := map_option arm_ctx (rs_context s), rs_due := rs_due s\<rparr>"
    by (simp add: ArmCall)
  moreover have "ctx_step_ok ds (remove1 c ds) x (arm_ctx x)" if "ctx_ok x" for x ds
    using ctx_ops(7,8,14)[OF that] by (auto simp: ctx_step_ok_def cancel_set_def stop_set_def ArmCall cancels_remove1)
  ultimately show ?thesis by metis
qed

lemma due_local: "local_step h (perform_due h i c)"
proof (cases "\<exists>s. hub_run h i = Some s \<and> c \<in> set (rs_due s)")
  case True
  then obtain s where s: "hub_run h i = Some s" "c \<in> set (rs_due s)" by blast
  define s0 where "s0 = s\<lparr>rs_due := remove1 c (rs_due s)\<rparr>"
  obtain f ds' where f: "make_call c s0 = s0\<lparr>rs_context := map_option f (rs_context s0), rs_due := ds'\<rparr>"
    "\<forall>x ds. rs_context s0 = Some x \<and> ctx_ok x \<and> rs_due s0 = remove1 c ds \<longrightarrow> ctx_step_ok ds ds' x (f x)"
    using make_call_eq by blast
  have eq: "make_call c s0 = s\<lparr>rs_context := map_option f (rs_context s), rs_due := ds'\<rparr>"
    by (simp add: f(1)) (simp add: s0_def)
  have run: "hb_runs (perform_due h i c) = AList.update i (make_call c s0) (hb_runs h)"
    using s by (simp add: perform_due_def s0_def)
  show ?thesis
  proof (rule local_stepI[OF s(1) run])
    assume "run_ok i s"
    then show "run_ok i (make_call c s0) \<and> goes_on s (make_call c s0)"
      unfolding eq using f(2) s(2) by (intro context_update_ok) (auto simp: s0_def)
  qed (simp_all add: eq)
qed (auto simp: perform_due_def split: option.split)

lemma bound_local: "local_step h (perform_bound h f)"
  by (simp add: perform_bound_def local_step_same)

lemma timer_local:
  assumes "hub_run h i = Some s"
  shows "local_step h (put_run i (s\<lparr>rs_context := map_option (fire_frame 0) (rs_context s)\<rparr>) h)" (is "local_step h (put_run i ?s h)")
proof (rule local_stepI[OF assms])
  assume ok: "run_ok i s"
  have step: "ctx_step_ok (rs_due s) (rs_due s) c (fire_frame 0 c)" if "ctx_ok c" for c
    using ctx_ops(9,10,16)[OF that] by (auto simp: ctx_step_ok_def cancel_set_def stop_set_def)
  show "run_ok i ?s \<and> goes_on s ?s"
  proof (cases "running s \<or> rs_due s \<noteq> []")
    case True
    from context_update_ok[OF ok step this] show ?thesis by simp
  next
    case False
    then have "map_option (fire_frame 0) (rs_context s) = rs_context s"
      using ok ctx_ops(11) by (cases "rs_context s") (auto simp: run_ok_def stop_set_def)
    then show ?thesis using ok by simp
  qed
qed simp_all

lemma output_local:
  assumes "hub_run h i = Some s" "running s"
  shows "local_step h (put_run i (s\<lparr>rs_context := map_option mark_ctx (rs_context s)\<rparr>) h)" (is "local_step h (put_run i ?s h)")
proof (rule local_stepI[OF assms(1)])
  assume ok: "run_ok i s"
  have step: "ctx_step_ok (rs_due s) (rs_due s) c (mark_ctx c)" if "ctx_ok c" for c
    using ctx_ops(12,13,15)[OF that] by (auto simp: ctx_step_ok_def cancel_set_def stop_set_def)
  from context_update_ok[OF ok step] assms(2) show "run_ok i ?s \<and> goes_on s ?s" by simp
qed simp_all

section \<open>New runs\<close>

lemma insert_ok:
  assumes "cfg_ok (h, P)" "hub_run h i = None" "hb_runs h' = AList.update i s (hb_runs h)" "run_ok i s" "\<not> rs_finishing s"
    "running s \<Longrightarrow> \<forall>j t. hub_run h j = Some t \<longrightarrow> \<not> (running t \<and> rf_session_id t = rf_session_id s \<and> rf_user_id t = rf_user_id s)"
  shows "cfg_ok (h', P)"
proof -
  have ok: "hub_ok h" "pending_ok h P" using assms(1) by (auto simp: cfg_ok_def)
  have "P i = None"
    using ok(2) assms(2) unfolding pending_ok_def by (metis not_None_eq)
  then have "pending_ok h' P" using ok(2) assms(2,3,5) by (auto simp: pending_ok_def)
  moreover have "hub_ok h'"
    using ok(1) assms(2-4,6) unfolding hub_ok_def exclusive_def by (auto split: if_splits) blast
  ultimately show ?thesis by (simp add: cfg_ok_def)
qed

definition keeps_runs :: "run_hub \<Rightarrow> run_hub \<Rightarrow> bool" where
  "keeps_runs h h' \<longleftrightarrow> (\<forall>i s. hub_run h i = Some s \<longrightarrow>
     hub_run h' i = None \<and> \<not> running s \<or> (\<exists>s'. hub_run h' i = Some s' \<and> goes_on s s'))"

lemma local_keeps: "local_step h h' \<Longrightarrow> hub_ok h \<Longrightarrow> keeps_runs h h'"
  unfolding keeps_runs_def using local_step_cases(2) by blast

lemma insert_keeps: "hub_run h i = None \<Longrightarrow> hb_runs h' = AList.update i s (hb_runs h) \<Longrightarrow> keeps_runs h h'"
  by (auto simp: keeps_runs_def)

lemma log_core_empty: "\<exists>H. log_core H empty_log"
  using log_of_empty by (auto dest: log_of_core)

lemma new_run_ok: "run_ok i (new_run_state i sid uid um kind intent timeout now ex)"
  using log_core_empty newRunContext_ok by (auto simp: run_ok_def new_run_state_def running_def)

lemma Start_step:
  assumes "cfg_ok (h, P)"
  shows "cfg_ok (snd (StartWithIntentAndFirstOutputTimeout h now fresh sid uid um cid kind intent timeout), P) \<and>
    keeps_runs h (snd (StartWithIntentAndFirstOutputTimeout h now fresh sid uid um cid kind intent timeout))"
    (is "cfg_ok (?h, P) \<and> _")
proof -
  define i where "i = (if trim_space cid = [] then fresh else trim_space cid)"
  define k where "k = (if kind = [] then RunKindChat else kind)"
  note D = StartWithIntentAndFirstOutputTimeout_def[of h now fresh sid uid um cid kind intent timeout,
      folded i_def k_def, unfolded Let_def, folded i_def k_def]
  show ?thesis
  proof (cases "hub_run h i")
    case (Some s)
    have "local_step h ?h"
      unfolding D using Some
      by (auto simp: run_ok_def goes_on_def split: option.splits intro!: local_stepI[OF Some])
    then show ?thesis using assms local_step_ok local_keeps by (auto simp: cfg_ok_def)
  next
    case None
    let ?s = "new_run_state i sid uid um k intent timeout now (now + hb_ttl h)"
    let ?busy = "list_ex (\<lambda>(k, s). rf_session_id s = sid \<and> rf_user_id s = uid \<and> running s) (hb_runs h)"
    show ?thesis
    proof (cases "hb_draining h \<or> ?busy")
      case True
      then have "?h = h" unfolding D using None by (auto split: option.splits)
      then show ?thesis using assms by (simp add: keeps_runs_def)
    next
      case False
      then have h: "hb_runs ?h = AList.update i ?s (hb_runs h)" unfolding D using None by simp
      have "cfg_ok (?h, P)"
      proof (rule insert_ok[OF assms None h new_run_ok])
        show "\<forall>j t. hub_run h j = Some t \<longrightarrow> \<not> (running t \<and> rf_session_id t = rf_session_id ?s \<and> rf_user_id t = rf_user_id ?s)"
          using False by (fastforce simp: list_ex_iff new_run_state_def dest: map_of_SomeD)
      qed (simp add: new_run_state_def)
      then show ?thesis using insert_keeps[OF None h] by simp
    qed
  qed
qed

section \<open>Terminal states\<close>

lemma stored_facts_simps [simp]:
  "rf_status (stored_facts now r s) = rr_status r" "rf_run_id (stored_facts now r s) = rf_run_id s"
  "rf_session_id (stored_facts now r s) = rf_session_id s" "rf_user_id (stored_facts now r s) = rf_user_id s"
  "rf_kind (stored_facts now r s) = rf_kind s" "rf_cancel_cause (stored_facts now r s) = rr_cancel_cause r"
  "rs_context (stored_facts now r s) = rs_context s" "rs_finishing (stored_facts now r s) = rs_finishing s"
  "rs_subscribers (stored_facts now r s) = rs_subscribers s" "rs_durable (stored_facts now r s) = rs_durable s"
  "rs_execution_owned (stored_facts now r s) = rs_execution_owned s"
  "rs_cancel_requested (stored_facts now r s) = rs_cancel_requested s"
  "rs_bound_cancel (stored_facts now r s) = rs_bound_cancel s"
  "rs_log (stored_facts now r s) = set_output_error (rr_public_error_code r) (rr_public_error_message r) (rs_log s)"
  by (simp_all add: stored_facts_def Let_def)

lemma log_core_output: "log_core H (lg\<lparr>lg_output := o'\<rparr>) = log_core H lg"
  by (simp add: log_core_def)

lemma set_output_error_log: "log_core H (set_output_error c m lg) = log_core H lg"
  "lg_cursor (set_output_error c m lg) = lg_cursor lg"
  by (simp_all add: set_output_error_def log_core_output)

text \<open>The end of a run: what is left of it is terminal, released and unsubscribed.\<close>

definition ends :: "run_state \<Rightarrow> run_state \<Rightarrow> bool" where
  "ends s s' \<longleftrightarrow> rf_run_id s' = rf_run_id s \<and> rf_session_id s' = rf_session_id s \<and> rf_user_id s' = rf_user_id s \<and>
     rf_kind s' = rf_kind s \<and> \<not> running s' \<and> rs_context s' = rs_context s \<and>
     (rs_durable s \<longrightarrow> rs_durable s') \<and> (rs_execution_owned s \<longrightarrow> rs_execution_owned s') \<and>
     (rs_cancel_requested s' \<longrightarrow> rs_cancel_requested s) \<and>
     lg_cursor (rs_log s) \<le> lg_cursor (rs_log s') \<and> (\<exists>H. log_core H (rs_log s'))"

lemma append_log_run:
  assumes "run_ok i s"
  shows "lg_cursor (fst (append_log m ev d (rs_log s))) = lg_cursor (rs_log s) + 1"
    "\<exists>H. log_core H (fst (append_log m ev d (rs_log s)))"
  using assms log_core_append by (fastforce simp: run_ok_def)+

lemma applyStored_ends:
  assumes "run_ok i s" "rr_status r \<noteq> RunStatusRunning" "applyStoredRunTerminal h now s r = (h', s', e)"
  shows "ends s s' \<and> hb_runs h' = hb_runs h"
  using assms append_log_run[OF assms(1)]
  by (auto simp: applyStoredRunTerminal_def appendEventLocked_eq ends_def running_def set_output_error_log split: prod.splits)

lemma end_ok:
  assumes "run_ok i s" "running s" "ends s s'"
    "\<And>c. ctx_ok c \<Longrightarrow> ctx_step_ok (rs_due s) ds c (f c) \<and> cancel_set ds (f c) \<and> stop_set ds (f c)"
    "t = s'\<lparr>rs_context := map_option f (rs_context s'), rs_finishing := False, rs_subscribers := [], rs_due := ds\<rparr>"
  shows "run_ok i t" "goes_on s t" "\<not> running t"
proof -
  obtain c where c: "rs_context s = Some c" "ctx_ok c" using assms(1,2) by (auto simp: run_ok_def split: option.splits)
  with assms(3) have c': "rs_context s' = Some c" by (simp add: ends_def)
  note f = assms(4)[OF c(2), unfolded ctx_step_ok_def]
  show "\<not> running t" using assms(3,5) by (simp add: ends_def running_def)
  moreover have "rs_context t = Some (f c)" "rs_due t = ds" using c' by (simp_all add: assms(5))
  ultimately show "run_ok i t" "goes_on s t"
    using assms(1-3) c f unfolding run_ok_def goes_on_def by (auto simp: assms(5) ends_def ctx_goes_on_def)
qed

lemma release_ok:
  assumes "run_ok i s" "running s" "ends s s'"
  shows "run_ok i (release_run (s'\<lparr>rs_finishing := False, rs_subscribers := []\<rparr>)) \<and>
    goes_on s (release_run (s'\<lparr>rs_finishing := False, rs_subscribers := []\<rparr>)) \<and>
    \<not> running (release_run (s'\<lparr>rs_finishing := False, rs_subscribers := []\<rparr>))"
proof -
  let ?f = "\<lambda>c. cancel_frame 0 ContextCanceled (stop_frame 0 c)"
  have "ctx_step_ok (rs_due s) (rs_due s') c (?f c) \<and> cancel_set (rs_due s') (?f c) \<and> stop_set (rs_due s') (?f c)"
    if "ctx_ok c" for c
    using ctx_ops(3-5)[OF that] ctx_ops(1,2,6) by (simp add: ctx_step_ok_def)
  moreover have "release_run (s'\<lparr>rs_finishing := False, rs_subscribers := []\<rparr>) =
    s'\<lparr>rs_context := map_option ?f (rs_context s'), rs_finishing := False, rs_subscribers := [], rs_due := rs_due s'\<rparr>"
    by (simp add: release_run_def call_cancel_cause_def call_first_output_stop_def option.map_comp comp_def)
  ultimately show ?thesis using end_ok[OF assms, of "rs_due s'" ?f] by blast
qed

lemma release_due_ok:
  assumes "run_ok i s" "running s" "ends s s'"
    "t = add_due [StopCall, CancelCall ContextCanceled] (s'\<lparr>rs_finishing := False, rs_subscribers := []\<rparr>)"
  shows "run_ok i t" "goes_on s t" "\<not> running t"
proof -
  let ?ds = "rs_due s' @ [StopCall, CancelCall ContextCanceled]"
  have "ctx_step_ok (rs_due s) ?ds c (id c) \<and> cancel_set ?ds (id c) \<and> stop_set ?ds (id c)" if "ctx_ok c" for c
    using that by (simp add: ctx_step_ok_def)
  moreover have "t = s'\<lparr>rs_context := map_option id (rs_context s'), rs_finishing := False, rs_subscribers := [], rs_due := ?ds\<rparr>"
    by (simp add: assms(4) add_due_def option.map_id0)
  ultimately show "run_ok i t" "goes_on s t" "\<not> running t" using end_ok[OF assms(1-3), of ?ds id t] by blast+
qed

lemma closeSubscribersLocked_eq:
  "closeSubscribersLocked s h = (s\<lparr>rs_subscribers := []\<rparr>, h\<lparr>hb_chans := close_chans (rs_subscribers s) (hb_chans h)\<rparr>)"
  by (simp add: closeSubscribersLocked_def)

lemma release_subscribers: "(release_run s)\<lparr>rs_subscribers := []\<rparr> = release_run (s\<lparr>rs_subscribers := []\<rparr>)"
  by (simp add: release_run_def call_cancel_cause_def call_first_output_stop_def)

lemma memory_facts_simps [simp]:
  "rf_status (memory_facts now ttl t s) = rt_status t" "rf_run_id (memory_facts now ttl t s) = rf_run_id s"
  "rf_session_id (memory_facts now ttl t s) = rf_session_id s" "rf_user_id (memory_facts now ttl t s) = rf_user_id s"
  "rf_kind (memory_facts now ttl t s) = rf_kind s" "rs_context (memory_facts now ttl t s) = rs_context s"
  "rs_finishing (memory_facts now ttl t s) = rs_finishing s" "rs_durable (memory_facts now ttl t s) = rs_durable s"
  "rs_execution_owned (memory_facts now ttl t s) = rs_execution_owned s"
  "rs_cancel_requested (memory_facts now ttl t s) = rs_cancel_requested s"
  "rs_log (memory_facts now ttl t s) = set_output_error (rt_public_error_code t) (rt_public_error_message t) (rs_log s)"
  by (simp_all add: memory_facts_def)

lemma memory_facts_ends:
  assumes "terminal_status (rt_status t)" "\<exists>H. log_core H lg" "lg_cursor (rs_log s) \<le> lg_cursor lg"
  shows "ends s (memory_facts now ttl t (s\<lparr>rs_log := lg\<rparr>))"
    "ends s (memory_facts now ttl t (s\<lparr>rs_log := lg, rf_updated_at := u, rf_expires_at := x\<rparr>))"
  using assms by (auto simp: ends_def running_def terminal_status_def set_output_error_log)

lemma publish_state_ends:
  assumes "run_ok i s" "terminal_status (rt_status t)" "stored_ok stored"
    "publish_state h now s t stored = (h1, s1, e)"
  shows "ends s s1 \<and> hb_runs h1 = hb_runs h"
proof (cases stored)
  case None
  show ?thesis
  proof (cases "rt_event t = []")
    case True
    have "\<exists>H. log_core H (rs_log s)" using assms(1) by (simp add: run_ok_def)
    then show ?thesis
      using None True assms(4) memory_facts_ends(1)[OF assms(2), of "rs_log s" s] by (auto simp: publish_state_def)
  next
    case False
    let ?lg = "fst (append_log (hb_max_bytes h) (rt_event t) (rt_data t) (rs_log s))"
    have "\<exists>H. log_core H ?lg" "lg_cursor (rs_log s) \<le> lg_cursor ?lg"
      using append_log_run[OF assms(1), of "hb_max_bytes h" "rt_event t" "rt_data t"] by auto
    then show ?thesis
      using None False assms(4) memory_facts_ends(2)[OF assms(2), of ?lg s]
      by (auto simp: publish_state_def appendEventLocked_eq)
  qed
next
  case (Some p)
  obtain r tr where p: "p = (r, tr)" by fastforce
  obtain h' s' e' where a: "applyStoredRunTerminal h now s r = (h', s', e')" by (metis prod_cases3)
  have "ends s s' \<and> hb_runs h' = hb_runs h"
    using applyStored_ends[OF assms(1) _ a] assms(3) Some p by (auto simp: stored_ok_def)
  then show ?thesis
    using assms(4) Some p a by (auto simp: publish_state_def ends_def split: if_splits)
qed

lemma publish_step:
  assumes "cfg_ok (h, P)" "P i = Some t" "stored_ok stored"
  shows "\<exists>s s' h1 s1 e. hub_run h i = Some s \<and> running s \<and> run_ok i s \<and> publish_state h now s t stored = (h1, s1, e) \<and>
    s' = release_run (s1\<lparr>rs_finishing := False, rs_subscribers := []\<rparr>) \<and>
    hb_runs (snd (transition_publish h now i t stored)) = AList.update i s' (hb_runs h) \<and>
    fst (transition_publish h now i t stored) = Inr (cloneStateSnapshot s', (case stored of None \<Rightarrow> True | Some (r, tr) \<Rightarrow> tr), e) \<and>
    run_ok i s' \<and> goes_on s s' \<and> \<not> running s'"
proof -
  obtain s where s: "hub_run h i = Some s" "running s" and t: "terminal_status (rt_status t)"
    using assms(1,2) unfolding cfg_ok_def pending_ok_def by fastforce
  have ok: "run_ok i s" using assms(1) s(1) by (simp add: cfg_ok_def hub_ok_def)
  obtain h1 s1 e where p: "publish_state h now s t stored = (h1, s1, e)" by (metis prod_cases3)
  note en = publish_state_ends[OF ok t assms(3) p]
  have "transition_publish h now i t stored =
    (Inr (cloneStateSnapshot (release_run (s1\<lparr>rs_finishing := False, rs_subscribers := []\<rparr>)),
       (case stored of None \<Rightarrow> True | Some (r, tr) \<Rightarrow> tr), e),
     put_run i (release_run (s1\<lparr>rs_finishing := False, rs_subscribers := []\<rparr>))
       (h1\<lparr>hb_chans := close_chans (rs_subscribers (release_run (s1\<lparr>rs_finishing := False\<rparr>))) (hb_chans h1)\<rparr>))"
    using s p by (simp add: transition_publish_def closeSubscribersLocked_eq release_subscribers)
  then show ?thesis
    using s p en release_ok[OF ok s(2)] ok by fastforce
qed

lemma terminal_step_ok:
  assumes "cfg_ok (h, P)" "hub_run h i = Some s" "hb_runs h' = AList.update i s' (hb_runs h)"
    "run_ok i s'" "goes_on s s'" "\<not> running s'"
  shows "cfg_ok (h', P(i := None))" "keeps_runs h h'"
proof -
  have ok: "hub_ok h" "pending_ok h P" using assms(1) by (auto simp: cfg_ok_def)
  have "hub_ok h'"
    using ok(1) assms(3,4,6) unfolding hub_ok_def exclusive_def by (auto split: if_splits)
  moreover have "pending_ok h' (P(i := None))"
    using ok(2) assms(3,4,6) unfolding pending_ok_def by (auto simp: run_ok_def)
  ultimately show "cfg_ok (h', P(i := None))" by (simp add: cfg_ok_def)
  show "keeps_runs h h'" using assms(2,3,5) by (auto simp: keeps_runs_def)
qed

lemma admit_step:
  assumes "cfg_ok (h, P)" "P i = None"
  shows "cfg_ok (snd (admit_record h now i r), P) \<and> keeps_runs h (snd (admit_record h now i r))"
proof (cases "hub_run h i")
  case None
  then show ?thesis using assms by (simp add: admit_record_def keeps_runs_def)
next
  case (Some s)
  have ok: "run_ok i s" using assms(1) Some by (simp add: cfg_ok_def hub_ok_def)
  let ?s = "s\<lparr>rs_durable := True, rf_user_message_id := rr_user_message_id r, rf_terminal_message_id := rr_terminal_message_id r,
    rf_runtime_snapshot := rr_runtime_snapshot r, rf_accepted_at := rr_accepted_at r, rf_expires_at := rr_expires_at r\<rparr>"
  consider "\<not> running s \<or> rs_finishing s \<or> \<not> storedRunMatchesState r s"
    | "running s" "\<not> rs_finishing s" "storedRunMatchesState r s" "rr_status r = RunStatusRunning"
    | "running s" "\<not> rs_finishing s" "storedRunMatchesState r s" "rr_status r \<noteq> RunStatusRunning"
    by blast
  then show ?thesis
  proof cases
    case 1
    then have "snd (admit_record h now i r) = h" using Some by (auto simp: admit_record_def)
    then show ?thesis using assms(1) by (simp add: keeps_runs_def)
  next
    case 2
    then have "local_step h (snd (admit_record h now i r))"
      using Some by (intro local_stepI[OF Some, where s' = "?s\<lparr>rf_updated_at := now\<rparr>"])
        (auto simp: admit_record_def Let_def run_ok_def goes_on_def split: option.splits)
    then show ?thesis using assms(1) local_step_ok local_keeps by (auto simp: cfg_ok_def)
  next
    case 3
    have ok': "run_ok i ?s" using ok 3(1) by (simp add: run_ok_def split: option.splits)
    obtain h1 s1 e where a: "applyStoredRunTerminal h now ?s r = (h1, s1, e)" by (metis prod_cases3)
    have en: "ends ?s s1" "hb_runs h1 = hb_runs h" using applyStored_ends[OF ok' 3(4) a] by auto
    have fin: "rs_finishing s1 = rs_finishing s"
      using a by (auto simp: applyStoredRunTerminal_def appendEventLocked_eq split: prod.splits)
    define t where "t = add_due [StopCall, CancelCall ContextCanceled] (s1\<lparr>rs_finishing := False, rs_subscribers := []\<rparr>)"
    have eq: "s1\<lparr>rs_subscribers := []\<rparr> = s1\<lparr>rs_finishing := False, rs_subscribers := []\<rparr>"
      using fin 3(2) by simp
    have "hb_runs (snd (admit_record h now i r)) = AList.update i t (hb_runs h)"
      using 3 Some a en(2) by (simp add: admit_record_def Let_def closeSubscribersLocked_eq eq t_def)
    moreover have "run_ok i t" "\<not> running t" "goes_on ?s t"
      using release_due_ok[OF ok' _ en(1) t_def] 3(1) by auto
    moreover from this have "goes_on s t" using 3(1) by (auto simp: goes_on_def)
    ultimately show ?thesis
      using terminal_step_ok[OF assms(1) Some] assms(2) by (metis fun_upd_triv)
  qed
qed

lemma restored_log: "lg_cursor (rs_log (restored_state now intent r)) = 0"
  by (simp add: restored_state_def empty_log_def)

lemma restore_step:
  assumes "cfg_ok (h, P)"
  shows "cfg_ok (snd (RestoreTerminal h now r intent), P) \<and> keeps_runs h (snd (RestoreTerminal h now r intent))"
proof -
  let ?s = "restored_state now intent r"
  obtain h1 s1 e where a: "applyStoredRunTerminal h now ?s r = (h1, s1, e)" by (metis prod_cases3)
  show ?thesis
  proof (cases "rr_run_id r \<noteq> [] \<and> rr_status r \<noteq> RunStatusRunning \<and> hub_run h (rr_run_id r) = None \<and> storedRunMatchesState r ?s")
    case False
    then have "snd (RestoreTerminal h now r intent) = h"
      using a by (auto simp: RestoreTerminal_def Let_def split: option.splits)
    then show ?thesis using assms by (simp add: keeps_runs_def)
  next
    case True
    have h: "hb_runs (snd (RestoreTerminal h now r intent)) = AList.update (rr_run_id r) s1 (hb_runs h)"
      using True a by (auto simp: RestoreTerminal_def Let_def applyStoredRunTerminal_def appendEventLocked_eq split: prod.splits)
    have ok: "run_ok (rr_run_id r) s1" "\<not> rs_finishing s1" "\<not> running s1"
      using True a log_core_empty log_core_append
      by (fastforce simp: applyStoredRunTerminal_def appendEventLocked_eq run_ok_def running_def set_output_error_log
          restored_state_def split: prod.splits)+
    show ?thesis
      using insert_ok[OF assms _ h ok(1,2)] insert_keeps[OF _ h] True ok(3) by simp
  qed
qed

lemma normalize_status [simp]: "rt_status (normalizeRunTerminal kind t) = rt_status t"
  by (simp add: normalizeRunTerminal_def canceled_event_def Let_def split: prod.split)

lemma keep_shown_error_status [simp]: "rt_status (keep_shown_error s t) = rt_status t"
  by (simp add: keep_shown_error_def)

lemma cancel_wins_status:
  "rt_status (cancel_wins s t) = (if rs_cancel_requested s \<and> \<not> rt_finalization_failure t then RunStatusCanceled else rt_status t)"
  by (simp add: cancel_wins_def Let_def)

lemma adopt_cancel_status [simp]: "rt_status (snd (adopt_cancel s t)) = rt_status t"
  "rt_finalization_failure (snd (adopt_cancel s t)) = rt_finalization_failure t"
  by (simp_all add: adopt_cancel_def Let_def)

lemma frozen_terminal_eq:
  "frozen_terminal s t = ((fst (adopt_cancel s t))\<lparr>rs_finishing := True\<rparr>,
     normalizeRunTerminal (rf_kind (fst (adopt_cancel s t)))
       (keep_shown_error (fst (adopt_cancel s t)) (cancel_wins (fst (adopt_cancel s t)) (snd (adopt_cancel s t)))))"
  by (simp add: frozen_terminal_def split_def Let_def)

lemma frozen_status:
  "terminal_status (rt_status t) \<Longrightarrow> terminal_status (rt_status (snd (frozen_terminal s t)))"
  by (simp add: frozen_terminal_eq cancel_wins_status terminal_status_def)

lemma frozen_state:
  assumes "run_ok i s" "running s"
  shows "run_ok i (fst (frozen_terminal s t)) \<and> running (fst (frozen_terminal s t)) \<and> rs_finishing (fst (frozen_terminal s t)) \<and>
    rf_session_id (fst (frozen_terminal s t)) = rf_session_id s \<and> rf_user_id (fst (frozen_terminal s t)) = rf_user_id s \<and>
    (\<not> rs_finishing s \<longrightarrow> goes_on s (fst (frozen_terminal s t)))"
proof -
  obtain c where c: "rs_context s = Some c" using assms by (auto simp: run_ok_def split: option.splits)
  have "RunCancelCauseFromContext (Some c) \<noteq> CauseNone \<Longrightarrow> ctx_cancelled c"
    by (auto simp: RunCancelCauseFromContext_def ctx_cancelled_def split: option.splits)
  then show ?thesis
    using assms c by (auto simp: frozen_terminal_eq adopt_cancel_def Let_def run_ok_def goes_on_def)
qed

lemma freeze_step:
  assumes "cfg_ok (h, P)" "P i = None" "transition_freeze h i ctxErr t = (FreezeGo t' d, h')"
  shows "cfg_ok (h', P(i \<mapsto> t')) \<and> keeps_runs h h'"
proof -
  have ok: "hub_ok h" "pending_ok h P" using assms(1) by (auto simp: cfg_ok_def)
  from assms(3) obtain s where s: "terminal_status (rt_status t)" "hub_run h i = Some s" "running s"
    "h' = put_run i (fst (frozen_terminal s t)) h" "t' = snd (frozen_terminal s t)"
    by (auto simp: transition_freeze_def split: if_splits option.splits prod.splits)
  have nf: "\<not> rs_finishing s" using ok(2) s(2) assms(2) by (simp add: pending_ok_def)
  note f = frozen_state[OF _ s(3), of i t]
  have f': "run_ok i s" using ok(1) s(2) by (simp add: hub_ok_def)
  have "hub_ok h'"
    using ok(1) f[OF f'] s(2,3,4) unfolding hub_ok_def exclusive_def by (auto split: if_splits)
  moreover have "pending_ok h' (P(i \<mapsto> t'))"
    using ok(2) f[OF f'] s frozen_status[OF s(1)] unfolding pending_ok_def by auto
  ultimately show ?thesis using f[OF f'] s nf by (auto simp: cfg_ok_def keeps_runs_def)
qed

lemma give_up_step:
  assumes "cfg_ok (h, P)" "P i = Some t"
  shows "cfg_ok (clearFinishing h i, P(i := None)) \<and> keeps_runs h (clearFinishing h i)"
proof -
  have ok: "hub_ok h" "pending_ok h P" using assms(1) by (auto simp: cfg_ok_def)
  obtain s where s: "hub_run h i = Some s" "running s" using ok(2) assms(2) unfolding pending_ok_def by fastforce
  have f: "run_ok i s" using ok(1) s(1) by (simp add: hub_ok_def)
  have "run_ok i (s\<lparr>rs_finishing := False\<rparr>)" "goes_on s (s\<lparr>rs_finishing := False\<rparr>)"
    using f s(2) by (auto simp: run_ok_def goes_on_def split: option.splits)
  moreover have h: "clearFinishing h i = put_run i (s\<lparr>rs_finishing := False\<rparr>) h" using s(1) by (simp add: clearFinishing_def)
  moreover have "hub_ok (clearFinishing h i)"
    unfolding h using ok(1) calculation(1) s unfolding hub_ok_def exclusive_def by (auto split: if_splits)
  moreover have "pending_ok (clearFinishing h i) (P(i := None))"
    unfolding h using ok(2) unfolding pending_ok_def by auto
  ultimately show ?thesis using s by (auto simp: cfg_ok_def keeps_runs_def)
qed

lemma publish_cfg:
  assumes "cfg_ok (h, P)" "P i = Some t" "stored_ok stored"
  shows "cfg_ok (snd (transition_publish h now i t stored), P(i := None)) \<and>
    keeps_runs h (snd (transition_publish h now i t stored))"
proof -
  let ?h = "snd (transition_publish h now i t stored)"
  obtain s s' where s: "hub_run h i = Some s" "hb_runs ?h = AList.update i s' (hb_runs h)" "run_ok i s'"
    "goes_on s s'" "\<not> running s'"
    using publish_step[OF assms, of now] by (elim exE conjE) simp
  then show ?thesis using terminal_step_ok[OF assms(1) s] by simp
qed

lemmas local_ops = Record_local Bind_local CancelWithCause_local subscribe_local unsubscribe_local cleanup_local
  BeginExecution_local due_local bound_local timer_local output_local PersistDurable_local SetUserMessage_local

lemma cancel_ops_local:
  "local_step h (snd (CancelForDrain h now))" "local_step h (snd (CancelByUser h now userID))"
  "local_step h (snd (CancelSession h now sessionID userID))"
  by (simp_all add: CancelForDrain_def CancelByUser_def CancelSession_def cancelMatching_local)

lemma same_runs_local: "local_step h (BeginDrain h)" "local_step h (snd (receive h ch))"
  by (auto simp: BeginDrain_def receive_def split: list.split intro!: local_step_same)

lemma local_cfg: "local_step h h' \<Longrightarrow> cfg_ok (h, P) \<Longrightarrow> cfg_ok (h', P) \<and> keeps_runs h h'"
  using local_step_ok local_keeps by (auto simp: cfg_ok_def)

lemma local_fst:
  "local_step h h' \<Longrightarrow> cfg_ok (h, P) \<Longrightarrow> cfg_ok (h', P) \<and> keeps_runs (fst (h, P)) (fst (h', P))"
  using local_cfg by simp

lemma cfg_step_ok: "cfg_step c c' \<Longrightarrow> cfg_ok c \<Longrightarrow> cfg_ok c' \<and> keeps_runs (fst c) (fst c')"
proof (induction rule: cfg_step.induct)
  case (st_start h P now fresh sessionID userID umid clientRunID kind intent timeout)
  then show ?case unfolding fst_conv by (rule Start_step)
next
  case (st_admit P runID h now r)
  then show ?case using admit_step by simp
next
  case (st_restore h P now r intent)
  then show ?case unfolding fst_conv by (rule restore_step)
next
  case (st_freeze P runID h ctxErr t t' d h')
  then show ?case using freeze_step by simp
next
  case (st_give_up P runID t h)
  then show ?case using give_up_step by simp
next
  case (st_publish P runID t stored h now)
  then show ?case using publish_cfg by simp
qed ((rule local_fst[rotated], assumption), (rule local_ops cancel_ops_local same_runs_local; assumption))+

definition start_cfg :: "int \<Rightarrow> int \<Rightarrow> run_hub \<times> (string \<rightharpoonup> run_terminal)" where
  "start_cfg ttl maxBytes = (NewRunHub ttl maxBytes, Map.empty)"

lemma start_cfg_ok: "cfg_ok (start_cfg ttl maxBytes)"
  by (simp add: start_cfg_def cfg_ok_def hub_ok_def pending_ok_def exclusive_def NewRunHub_def)

lemma reachable_ok: "cfg_step\<^sup>*\<^sup>* (start_cfg ttl maxBytes) c \<Longrightarrow> cfg_ok c"
  by (induction rule: rtranclp_induct) (auto simp: start_cfg_ok dest: cfg_step_ok)

text \<open>
  C5.  At every moment a session of a user has at most one running run, whatever clients, workers,
  timers and transitions do and however their critical sections interleave.
\<close>

theorem one_running_run:
  assumes "cfg_step\<^sup>*\<^sup>* (start_cfg ttl maxBytes) (h, P)" "hub_run h i = Some s" "hub_run h j = Some t"
    "running s" "running t" "rf_session_id s = rf_session_id t" "rf_user_id s = rf_user_id t"
  shows "i = j"
  using reachable_ok[OF assms(1)] assms(2-) by (auto simp: cfg_ok_def hub_ok_def exclusive_def)

text \<open>
  C4.  No step takes back what a run is: a run only leaves the hub when it is terminal, and while
  it is there its scope is fixed, a terminal run never changes again (calls on its context that an
  operation left due when it released the lock may still be made; they never lift its cancellation),
  its cursor never falls, a requested cancellation stays requested, durability and the execution owner stay, and a run whose
  terminal is being stored records no event and keeps its cancel cause.
\<close>

theorem nothing_taken_back:
  assumes "cfg_step\<^sup>*\<^sup>* (start_cfg ttl maxBytes) c" "cfg_step c c'" "hub_run (fst c) i = Some s"
  shows "hub_run (fst c') i = None \<and> \<not> running s \<or> (\<exists>s'. hub_run (fst c') i = Some s' \<and> goes_on s s')"
  using cfg_step_ok[OF assms(2) reachable_ok[OF assms(1)]] assms(3) by (auto simp: keeps_runs_def)

text \<open>The calls that are due, made in some order.\<close>

definition calls_made :: "due_call list \<Rightarrow> run_state \<Rightarrow> gctx option" where
  "calls_made cs s = rs_context (fold make_call cs s)"

lemma make_call_ctx:
  assumes "rs_context s = Some c" "ctx_ok c"
  shows "\<exists>d. rs_context (make_call x s) = Some d \<and> ctx_ok d \<and>
    (ctx_cancelled c \<or> cancels x \<longrightarrow> ctx_cancelled d) \<and> (ctx_stopped c \<or> x = StopCall \<longrightarrow> ctx_stopped d)"
  using assms ctx_ops[OF assms(2)]
  by (cases x) (simp_all add: call_cancel_cause_def call_first_output_stop_def add_due_def)

lemma fold_calls_ctx:
  "rs_context s = Some c \<Longrightarrow> ctx_ok c \<Longrightarrow> \<exists>d. rs_context (fold make_call cs s) = Some d \<and>
    (ctx_cancelled c \<or> list_ex cancels cs \<longrightarrow> ctx_cancelled d) \<and> (ctx_stopped c \<or> StopCall \<in> set cs \<longrightarrow> ctx_stopped d)"
proof (induction cs arbitrary: s c)
  case (Cons x cs)
  obtain d where d: "rs_context (make_call x s) = Some d" "ctx_ok d"
    "ctx_cancelled c \<or> cancels x \<longrightarrow> ctx_cancelled d" "ctx_stopped c \<or> x = StopCall \<longrightarrow> ctx_stopped d"
    using make_call_ctx[OF Cons.prems] by blast
  from Cons.IH[OF d(1,2)] d(3,4) show ?case by (auto simp del: make_call.simps)
qed simp

lemma calls_made_ctx:
  assumes "run_ok i s" "set cs = set (rs_due s)" "rs_context s = Some c"
  shows "\<exists>d. calls_made cs s = Some d \<and> (cancel_set (rs_due s) c \<longrightarrow> ctx_cancelled d) \<and> (stop_set (rs_due s) c \<longrightarrow> ctx_stopped d)"
proof -
  have "ctx_ok c" using assms(1,3) by (simp add: run_ok_def)
  then show ?thesis
    using fold_calls_ctx[OF assms(3), of cs] assms(2)
    by (auto simp: calls_made_def cancel_set_def stop_set_def list_ex_iff)
qed

lemma make_call_none: "rs_context s = None \<Longrightarrow> rs_context (make_call x s) = None"
  by (cases x) (simp_all add: call_cancel_cause_def call_first_output_stop_def)

lemma calls_made_none: "rs_context s = None \<Longrightarrow> calls_made cs s = None"
  unfolding calls_made_def by (induction cs arbitrary: s) (simp_all add: make_call_none del: make_call.simps)

text \<open>
  C7.  A run that is terminal is released: no transition is under way, no subscriber is left, and
  its context, if it has one, is cancelled with its first-output guard stopped once the calls that an
  operation left due when it released the lock are made, in whatever order; at once when none is due.
  In the same sense a running run whose cancellation was requested has a cancelled context.
\<close>

theorem terminal_runs_released:
  assumes "cfg_step\<^sup>*\<^sup>* (start_cfg ttl maxBytes) (h, P)" "hub_run h i = Some s" "set cs = set (rs_due s)"
  shows "if running s
    then (\<exists>c. calls_made cs s = Some c \<and> (rs_cancel_requested s \<longrightarrow> ctx_cancelled c)) \<and> (rs_finishing s \<longleftrightarrow> P i \<noteq> None)
    else P i = None \<and> rs_subscribers s = [] \<and>
      (case calls_made cs s of None \<Rightarrow> rs_context s = None | Some c \<Rightarrow> ctx_cancelled c \<and> ctx_stopped c)"
proof (cases "rs_context s")
  case None
  then show ?thesis
    using reachable_ok[OF assms(1)] assms(2) calls_made_none[OF None]
    by (fastforce simp: cfg_ok_def hub_ok_def pending_ok_def run_ok_def)
next
  case (Some c)
  have ok: "run_ok i s" using reachable_ok[OF assms(1)] assms(2) by (simp add: cfg_ok_def hub_ok_def)
  obtain d where "calls_made cs s = Some d" "cancel_set (rs_due s) c \<longrightarrow> ctx_cancelled d"
    "stop_set (rs_due s) c \<longrightarrow> ctx_stopped d"
    using calls_made_ctx[OF ok assms(3) Some] by blast
  then show ?thesis
    using reachable_ok[OF assms(1)] assms(2) ok Some
    by (fastforce simp: cfg_ok_def pending_ok_def run_ok_def)
qed

section \<open>A concrete run\<close>

definition demo_intent :: run_intent where
  "demo_intent = \<lparr>ri_operation = ''send'', ri_version = 1, ri_hash = ''x'', ri_retry_target = 0\<rparr>"

definition demo_state :: run_state where
  "demo_state = new_run_state ''r'' 1 2 3 ''chat'' demo_intent 5 1 11"

definition demo_durable :: run_state where
  "demo_durable = demo_state\<lparr>rs_durable := True\<rparr>"

definition demo_hub :: run_hub where
  "demo_hub = put_run ''r'' demo_durable (put_run ''r'' demo_state (NewRunHub 10 1000))"

lemma trim_space_r [simp]: "trim_space ''r'' = ''r''"
  by (simp add: trim_space_def trim_ends_def dec_more_def is_space_def)

lemma demo_start:
  "snd (StartWithIntentAndFirstOutputTimeout (NewRunHub 10 1000) 1 ''f'' 1 2 3 ''r'' ''chat'' demo_intent 5) =
    put_run ''r'' demo_state (NewRunHub 10 1000)"
  by (simp add: StartWithIntentAndFirstOutputTimeout_def NewRunHub_def demo_state_def Let_def)

lemma demo_running: "running demo_state" "\<not> rs_finishing demo_state"
  by (simp_all add: demo_state_def new_run_state_def running_def)

lemma demo_reach: "cfg_step\<^sup>*\<^sup>* (start_cfg 10 1000) (demo_hub, Map.empty)"
proof -
  have "cfg_step (start_cfg 10 1000) (put_run ''r'' demo_state (NewRunHub 10 1000), Map.empty)"
    unfolding start_cfg_def demo_start[symmetric] by (rule cfg_step.st_start)
  moreover have "cfg_step (put_run ''r'' demo_state (NewRunHub 10 1000), Map.empty) (demo_hub, Map.empty)"
    by (rule cfg_step.st_durable[where runID = "''r''" and persist = "\<lambda>w. (None, w)" and res = None and w = "()"])
      (simp_all add: PersistDurable_def demo_running demo_hub_def demo_durable_def NewRunHub_def)
  ultimately show ?thesis by simp
qed

lemma demo_run: "hub_run demo_hub ''r'' = Some demo_durable" "running demo_durable" "rs_durable demo_durable"
  "\<not> rs_finishing demo_durable"
  using demo_running by (simp_all add: demo_hub_def demo_durable_def)

theorem one_running_run_witness: "''r'' = ''r'' \<and> running demo_durable"
  using one_running_run[OF demo_reach demo_run(1,1,2,2) refl refl] demo_run(2) by simp

theorem nothing_taken_back_witness:
  "hub_run (BeginDrain demo_hub) ''r'' = None \<and> \<not> running demo_durable \<or>
    (\<exists>s'. hub_run (BeginDrain demo_hub) ''r'' = Some s' \<and> goes_on demo_durable s')"
  using nothing_taken_back[OF demo_reach cfg_step.st_begin_drain] demo_run(1) by simp

text \<open>The same run after a user's stop, whose call on the context is due.\<close>

definition demo_stopped :: run_hub where
  "demo_stopped = snd (CancelWithCause demo_hub 2 ''r'' 1 2 RunCancelUserStop)"

lemma demo_stopped_run:
  "hub_run demo_stopped ''r'' = Some (request_cancel 2 RunCancelUserStop demo_durable)"
  "hb_ttl demo_stopped = 10" "rs_cancel_requested (request_cancel 2 RunCancelUserStop demo_durable)"
  "rs_durable (request_cancel 2 RunCancelUserStop demo_durable)"
  "rf_cancel_cause (request_cancel 2 RunCancelUserStop demo_durable) = RunCancelUserStop"
  "rs_due (request_cancel 2 RunCancelUserStop demo_durable) = [CancelCall (RunCancellation RunCancelUserStop)]"
proof -
  have "rf_session_id demo_durable = 1" "rf_user_id demo_durable = 2" "\<not> rs_cancel_requested demo_durable"
    "rs_bound_cancel demo_durable = None"
    by (simp_all add: demo_durable_def demo_state_def new_run_state_def)
  then show "hub_run demo_stopped ''r'' = Some (request_cancel 2 RunCancelUserStop demo_durable)"
    "hb_ttl demo_stopped = 10"
    using demo_run
    by (auto simp: demo_stopped_def CancelWithCause_def Let_def due_bound_def demo_hub_def put_run_def NewRunHub_def split: option.split)
  show "rs_cancel_requested (request_cancel 2 RunCancelUserStop demo_durable)"
    "rs_durable (request_cancel 2 RunCancelUserStop demo_durable)"
    "rf_cancel_cause (request_cancel 2 RunCancelUserStop demo_durable) = RunCancelUserStop"
    "rs_due (request_cancel 2 RunCancelUserStop demo_durable) = [CancelCall (RunCancellation RunCancelUserStop)]"
    using demo_run
    by (simp_all add: request_cancel_def add_due_def demo_durable_def demo_state_def new_run_state_def)
qed

lemma demo_stopped_reach: "cfg_step\<^sup>*\<^sup>* (start_cfg 10 1000) (demo_stopped, Map.empty)"
  using rtranclp.rtrancl_into_rtrancl[OF demo_reach cfg_step.st_cancel] by (simp add: demo_stopped_def)

text \<open>And after its completion.\<close>

lemma demo_completed:
  obtains h s where "cfg_step\<^sup>*\<^sup>* (start_cfg 10 1000) (h, Map.empty)" "hub_run h ''r'' = Some s" "\<not> running s"
    "rs_context s \<noteq> None"
proof -
  let ?t = "bare_terminal RunStatusCompleted"
  obtain t' d h1 where f: "transition_freeze demo_hub ''r'' None ?t = (FreezeGo t' d, h1)"
    using demo_run(1,2) by (simp add: transition_freeze_def terminal_status_def bare_terminal_def split_def Let_def)
  have r1: "cfg_step\<^sup>*\<^sup>* (start_cfg 10 1000) (h1, [''r'' \<mapsto> t'])"
    using rtranclp.rtrancl_into_rtrancl[OF demo_reach cfg_step.st_freeze[OF _ f]] by simp
  let ?h = "snd (transition_publish h1 3 ''r'' t' None)"
  have "cfg_step (h1, [''r'' \<mapsto> t']) (?h, Map.empty)"
    using cfg_step.st_publish[of "[''r'' \<mapsto> t']" "''r''" t' None h1 3] by (simp add: stored_ok_def)
  then have "cfg_step\<^sup>*\<^sup>* (start_cfg 10 1000) (?h, Map.empty)" using r1 by simp
  moreover obtain s s' where s: "hub_run h1 ''r'' = Some s" "running s" "run_ok ''r'' s" "goes_on s s'" "\<not> running s'"
    "hb_runs ?h = AList.update ''r'' s' (hb_runs h1)"
    using publish_step[OF reachable_ok[OF r1], of "''r''" t' None 3] by (auto simp: stored_ok_def)
  moreover have "rs_context s' \<noteq> None"
    using s(2-4) by (auto simp: run_ok_def goes_on_def ctx_goes_on_def split: option.splits)
  ultimately show thesis using that[of ?h s'] by simp
qed

theorem terminal_runs_released_witness:
  "(\<exists>c. calls_made [CancelCall (RunCancellation RunCancelUserStop)] (request_cancel 2 RunCancelUserStop demo_durable) = Some c \<and>
      ctx_cancelled c) \<and>
   (\<exists>h s c. cfg_step\<^sup>*\<^sup>* (start_cfg 10 1000) (h, Map.empty) \<and> hub_run h ''r'' = Some s \<and> \<not> running s \<and>
      calls_made (rs_due s) s = Some c \<and> ctx_cancelled c \<and> ctx_stopped c)"
proof (rule conjI)
  have "running (request_cancel 2 RunCancelUserStop demo_durable)" using demo_run(2) by simp
  with terminal_runs_released[OF demo_stopped_reach demo_stopped_run(1)] demo_stopped_run(3,6)
  show "\<exists>c. calls_made [CancelCall (RunCancellation RunCancelUserStop)] (request_cancel 2 RunCancelUserStop demo_durable) = Some c \<and>
      ctx_cancelled c" by force
  obtain h s where s: "cfg_step\<^sup>*\<^sup>* (start_cfg 10 1000) (h, Map.empty)" "hub_run h ''r'' = Some s" "\<not> running s"
    "rs_context s \<noteq> None" by (rule demo_completed)
  with terminal_runs_released[OF s(1,2) refl]
  obtain c where "calls_made (rs_due s) s = Some c" "ctx_cancelled c \<and> ctx_stopped c" by (auto split: option.splits)
  with s show "\<exists>h s c. cfg_step\<^sup>*\<^sup>* (start_cfg 10 1000) (h, Map.empty) \<and> hub_run h ''r'' = Some s \<and> \<not> running s \<and>
      calls_made (rs_due s) s = Some c \<and> ctx_cancelled c \<and> ctx_stopped c" by blast
qed

end
