(* ===== verification/RunPersist.thy ===== *)
theory RunPersist
  imports RunProtocol
begin

text \<open>
  The interface \<^verbatim>\<open>chatRunStore\<close> of the terminal protocol, what the retry loop
  makes of any store that keeps its laws, and the repository of \<open>RunStore\<close> as that store.
\<close>

text \<open>\<open>r\<close> is the record \<open>r0\<close> with the terminal facts of an input.\<close>

definition settled_by :: "transition_input \<Rightarrow> chat_run_record \<Rightarrow> chat_run_record \<Rightarrow> bool" where
  "settled_by input r0 r \<longleftrightarrow> terminal_status (ti_status input) \<and>
     rr_run_id r = rr_run_id r0 \<and> rr_user_id r = rr_user_id r0 \<and> rr_session_id r = rr_session_id r0 \<and>
     rr_kind r = rr_kind r0 \<and> rr_operation r = rr_operation r0 \<and> rr_intent_version r = rr_intent_version r0 \<and>
     rr_intent_hash r = rr_intent_hash r0 \<and> rr_retry_target r = rr_retry_target r0 \<and>
     rr_user_message_id r = rr_user_message_id r0 \<and> rr_accepted_at r = rr_accepted_at r0 \<and>
     rr_status r = ti_status input \<and> rr_cancel_cause r = ti_cancel_cause input \<and>
     rr_public_error_code r = ti_public_error_code input \<and> rr_public_error_message r = ti_public_error_message input \<and>
     rr_terminal_event r = ti_terminal_event input \<and> rr_expires_at r = ti_expires_at input \<and>
     rr_terminal_message_id r =
       (if ti_terminal_message_id input \<noteq> 0 then ti_terminal_message_id input else rr_terminal_message_id r0)"

definition valid_input :: "transition_input \<Rightarrow> bool" where
  "valid_input input \<longleftrightarrow> ti_run_id input \<noteq> [] \<and> ti_expires_at input \<noteq> 0 \<and> terminal_status (ti_status input)"

definition rr_running :: "chat_run_record \<Rightarrow> bool" where
  "rr_running r \<longleftrightarrow> rr_status r = RunStatusRunning"

lemma settled_not_running: "settled_by input r0 r \<Longrightarrow> \<not> rr_running r"
  by (auto simp: settled_by_def rr_running_def terminal_status_def)

section \<open>The interface\<close>

text \<open>
  \<open>step\<close> is one call of \<^verbatim>\<open>TransitionChatRun\<close> (or of a commit callback).  It commits
  the input on a running record, hands back a terminal record as it is, and when it fails the record
  is either untouched or, after an ambiguous commit, settled by the input.  \<open>transient\<close> says that all
  the trouble ahead is retryable, and \<open>trouble\<close> bounds how much of it there is.
\<close>

locale terminal_store =
  fixes step :: "transition_input \<Rightarrow> 'w \<Rightarrow> (go_err + chat_run_record \<times> bool) \<times> 'w"
    and lookup :: "'w \<Rightarrow> string \<Rightarrow> chat_run_record option"
    and transient :: "'w \<Rightarrow> bool"
    and trouble :: "'w \<Rightarrow> nat"
  assumes step_commits: "step input w = (Inr (r, True), w') \<Longrightarrow>
      \<exists>r0. lookup w (ti_run_id input) = Some r0 \<and> rr_running r0 \<and> settled_by input r0 r \<and> lookup w' (ti_run_id input) = Some r"
    and step_keeps: "step input w = (Inr (r, False), w') \<Longrightarrow>
      lookup w (ti_run_id input) = Some r \<and> \<not> rr_running r \<and> lookup w' (ti_run_id input) = Some r"
    and step_fails: "step input w = (Inl e, w') \<Longrightarrow>
      lookup w' (ti_run_id input) = lookup w (ti_run_id input) \<or>
      (\<exists>r0 r. lookup w (ti_run_id input) = Some r0 \<and> rr_running r0 \<and> settled_by input r0 r \<and> lookup w' (ti_run_id input) = Some r)"
    and step_progress: "transient w \<Longrightarrow> valid_input input \<Longrightarrow> lookup w (ti_run_id input) \<noteq> None \<Longrightarrow>
      step input w = (Inl e, w') \<Longrightarrow>
      isRetryableTerminalPersistenceError e \<and> \<not> err_is e ErrNotFound \<and> transient w' \<and> trouble w' < trouble w"
begin

text \<open>What a record may have become: itself, or settled by the input if it was running.\<close>

definition becomes :: "transition_input \<Rightarrow> chat_run_record \<Rightarrow> chat_run_record \<Rightarrow> bool" where
  "becomes input r0 r \<longleftrightarrow> r = r0 \<or> rr_running r0 \<and> settled_by input r0 r"

lemma step_becomes:
  assumes "step input w = (x, w')" "lookup w (ti_run_id input) = Some r0"
  shows "\<exists>r. lookup w' (ti_run_id input) = Some r \<and> becomes input r0 r"
proof (cases x)
  case (Inl e)
  then show ?thesis using step_fails assms by (fastforce simp: becomes_def)
next
  case (Inr p)
  obtain r tr where "x = Inr (r, tr)" using Inr by (cases p) auto
  then show ?thesis using step_commits step_keeps assms by (cases tr) (fastforce simp: becomes_def)+
qed

lemma becomes_trans: "becomes input r0 r1 \<Longrightarrow> becomes input r1 r2 \<Longrightarrow> becomes input r0 r2"
  by (auto simp: becomes_def dest: settled_not_running)

lemma persist_becomes:
  "persistFrozenRunTerminal n step c d input w = Some (x, w') \<Longrightarrow> lookup w (ti_run_id input) = Some r0 \<Longrightarrow>
    \<exists>r. lookup w' (ti_run_id input) = Some r \<and> becomes input r0 r"
proof (induction n arbitrary: w r0)
  case (Suc n)
  obtain y w1 where y: "step input w = (y, w1)" by fastforce
  obtain r1 where r1: "lookup w1 (ti_run_id input) = Some r1" "becomes input r0 r1"
    using step_becomes[OF y Suc.prems(2)] by blast
  show ?case
  proof (cases "w' = w1")
    case True
    then show ?thesis using r1 by blast
  next
    case False
    then have "persistFrozenRunTerminal n step c d input w1 = Some (x, w')"
      using Suc.prems(1) y by (auto split: sum.splits prod.splits if_splits)
    then show ?thesis using Suc.IH r1 becomes_trans by blast
  qed
qed simp

lemma persist_stored:
  "persistFrozenRunTerminal n step c d input w = Some (Inr (Some (r, tr)), w') \<Longrightarrow>
    lookup w' (ti_run_id input) = Some r \<and> \<not> rr_running r"
proof (induction n arbitrary: w)
  case (Suc n)
  obtain y w1 where y: "step input w = (y, w1)" by fastforce
  show ?case
  proof (cases y)
    case (Inr p)
    then have "step input w = (Inr (r, tr), w')" using Suc.prems y by (cases p) auto
    then show ?thesis using step_commits step_keeps settled_not_running by (cases tr; fastforce)
  qed (use Suc y in \<open>auto split: if_splits\<close>)
qed simp

text \<open>The record stored in the end: settled by the frozen input, or the terminal one found.\<close>

lemma persist_canonical:
  assumes "persistFrozenRunTerminal n step c d input w = Some (Inr (Some (r, tr)), w')"
    "lookup w (ti_run_id input) = Some r0"
  shows "lookup w' (ti_run_id input) = Some r \<and> (if rr_running r0 then settled_by input r0 r else r = r0)"
  using persist_becomes[OF assms] persist_stored[OF assms(1)] by (auto simp: becomes_def)

text \<open>Once the trouble is over the loop returns a stored record, with more fuel than trouble.\<close>

lemma persist_returns:
  "transient w \<Longrightarrow> valid_input input \<Longrightarrow> lookup w (ti_run_id input) \<noteq> None \<Longrightarrow> trouble w < n \<Longrightarrow>
    \<exists>r tr w'. persistFrozenRunTerminal n step c d input w = Some (Inr (Some (r, tr)), w')"
proof (induction n arbitrary: w)
  case (Suc n)
  obtain y w1 where y: "step input w = (y, w1)" by fastforce
  show ?case
  proof (cases y)
    case (Inl e)
    have p: "isRetryableTerminalPersistenceError e \<and> \<not> err_is e ErrNotFound \<and> transient w1 \<and> trouble w1 < trouble w"
      using step_progress[OF Suc.prems(1-3)] y Inl by simp
    moreover have "lookup w1 (ti_run_id input) \<noteq> None" using step_becomes[OF y] Suc.prems(3) by auto
    ultimately show ?thesis using Suc.IH[of w1] Suc.prems(2,4) y Inl by simp
  qed (use y in auto)
qed simp

end

section \<open>The repository as a store\<close>

text \<open>
  A world is the database and what its driver does to the calls to come: a fault and the time of each.
\<close>

type_synonym store_world = "run_db \<times> (db_fault \<times> int) list"

fun next_call :: "(db_fault \<times> int) list \<Rightarrow> (db_fault \<times> int) \<times> (db_fault \<times> int) list" where
  "next_call [] = ((FaultNone, 0), [])"
| "next_call (f # fs) = (f, fs)"

definition store_step :: "transition_input \<Rightarrow> store_world \<Rightarrow> (go_err + chat_run_record \<times> bool) \<times> store_world" where
  "store_step input w =
    (let ((f, now), fs) = next_call (snd w); (r, db) = TransitionChatRun f now input (fst w) in (r, (db, fs)))"

definition store_bind :: "string \<Rightarrow> int \<Rightarrow> store_world \<Rightarrow> (go_err + bool) \<times> store_world" where
  "store_bind runID m w =
    (let ((f, now), fs) = next_call (snd w); (r, db) = BindChatRunUserMessage f now runID m (fst w) in (r, (db, fs)))"

definition store_lookup :: "store_world \<Rightarrow> string \<Rightarrow> chat_run_record option" where
  "store_lookup w runID = map_option scanChatRun (find_run (fst w) runID)"

definition retryable_fault :: "db_fault \<Rightarrow> bool" where
  "retryable_fault f = (case f of FaultNone \<Rightarrow> True
     | FaultBefore e \<Rightarrow> isRetryableTerminalPersistenceError e \<and> \<not> err_is e ErrNotFound
     | FaultAfter e \<Rightarrow> isRetryableTerminalPersistenceError e \<and> \<not> err_is e ErrNotFound)"

definition store_transient :: "store_world \<Rightarrow> bool" where
  "store_transient w = list_all (\<lambda>(f, now). retryable_fault f) (snd w)"

definition store_trouble :: "store_world \<Rightarrow> nat" where
  "store_trouble w = length (snd w)"

definition repository_ops :: "store_world run_store_ops" where
  "repository_ops = \<lparr>so_bind = store_bind, so_transition = store_step\<rparr>"

lemma find_map_update:
  assumes "\<And>r. cr_run_id (f r) = cr_run_id r"
  shows "find (\<lambda>r. cr_run_id r = i) (map (\<lambda>r. if P r then f r else r) rs) =
    map_option (\<lambda>r. if P r then f r else r) (find (\<lambda>r. cr_run_id r = i) rs)"
  using assms by (induction rs) auto

lemma find_run_update_runs:
  "(\<And>r. cr_run_id (f r) = cr_run_id r) \<Longrightarrow> find_run (update_runs P f db) i = map_option (\<lambda>r. if P r then f r else r) (find_run db i)"
  by (simp add: find_run_def update_runs_def find_map_update)

lemma find_run_id: "find_run db i = Some r \<Longrightarrow> cr_run_id r = i"
  by (auto simp: find_run_def find_Some_iff)

lemma find_run_attempts [simp]:
  "find_run (update_attempts P f db) i = find_run db i" "find_run (markAnswerAttemptTerminalForRun now j db) i = find_run db i"
  by (simp_all add: find_run_def update_attempts_def markAnswerAttemptTerminalForRun_def)

lemma terminal_row_id [simp]: "cr_run_id (terminal_row now input r) = cr_run_id r"
  by (simp add: terminal_row_def)

lemma terminal_row_settled:
  "terminal_status (ti_status input) \<Longrightarrow> settled_by input (scanChatRun r) (scanChatRun (terminal_row now input r))"
  by (simp add: settled_by_def scanChatRun_def terminal_row_def coalesce0_def)

lemma scan_status [simp]: "rr_running (scanChatRun r) = row_running r"
  by (simp add: scanChatRun_def row_running_def rr_running_def)

text \<open>The transition of a row, case by case.\<close>

lemma transitionChatRun_cases:
  assumes "transitionChatRun now input db = (x, db')"
  obtains (invalid) e where "x = Inl e" "db' = db" "\<not> valid_input input"
  | (missing) "x = Inl ErrNotFound" "db' = db" "find_run db (ti_run_id input) = None"
  | (kept) r where "x = Inr (scanChatRun r, False)" "db' = db" "find_run db (ti_run_id input) = Some r" "\<not> row_running r"
  | (stored) r where "x = Inr (scanChatRun (terminal_row now input r), True)" "find_run db (ti_run_id input) = Some r" "row_running r"
      "find_run db' (ti_run_id input) = Some (terminal_row now input r)" "valid_input input"
proof (cases "valid_input input")
  case False
  then show thesis using assms invalid by (auto simp: transitionChatRun_def valid_input_def split: if_splits)
next
  case True
  show thesis
  proof (cases "find_run db (ti_run_id input)")
    case None
    then show thesis using assms True missing by (auto simp: transitionChatRun_def valid_input_def)
  next
    case (Some r)
    show thesis
    proof (cases "row_running r")
      case True': True
      have "find_run db' (ti_run_id input) = Some (terminal_row now input r)"
        using assms True True' Some find_run_id[OF Some]
        by (auto simp: transitionChatRun_def valid_input_def find_run_update_runs)
      then show thesis using assms True True' Some stored by (auto simp: transitionChatRun_def valid_input_def)
    qed (use assms True Some kept in \<open>auto simp: transitionChatRun_def valid_input_def\<close>)
  qed
qed

text \<open>One call with its fault, as the store sees it.\<close>

lemma TransitionChatRun_cases:
  assumes "TransitionChatRun f now input db = (x, db')"
  obtains (fault) e where "x = Inl e" "db' = db" "f = FaultBefore e"
  | (invalid) e where "x = Inl e" "db' = db" "\<not> valid_input input \<or> find_run db (ti_run_id input) = None"
  | (kept) r where "x = Inr (scanChatRun r, False)" "db' = db" "find_run db (ti_run_id input) = Some r" "\<not> row_running r"
  | (stored) r where "x = Inr (scanChatRun (terminal_row now input r), True) \<or> (\<exists>e. x = Inl (ErrWrap ''commit'' e) \<and> f = FaultAfter e)"
      "find_run db (ti_run_id input) = Some r" "row_running r"
      "find_run db' (ti_run_id input) = Some (terminal_row now input r)" "valid_input input"
proof (cases "\<exists>e. f = FaultBefore e")
  case True
  then show thesis using assms fault by (auto simp: TransitionChatRun_def)
next
  case False
  obtain y db1 where y: "transitionChatRun now input db = (y, db1)" by fastforce
  from y show thesis
  proof (cases rule: transitionChatRun_cases)
    case (stored r)
    then show thesis
      using assms y False that(4)[of r] by (cases f) (auto simp: TransitionChatRun_def run_tx_def)
  qed (use assms y False that in \<open>cases f; auto simp: TransitionChatRun_def\<close>)+
qed

lemma store_step_eq:
  "store_step input w =
    (fst (TransitionChatRun (fst (fst (next_call (snd w)))) (snd (fst (next_call (snd w)))) input (fst w)),
     (snd (TransitionChatRun (fst (fst (next_call (snd w)))) (snd (fst (next_call (snd w)))) input (fst w)), snd (next_call (snd w))))"
  by (simp add: store_step_def split_def Let_def)

lemma store_step_cases:
  assumes "store_step input w = (x, w')"
  obtains f now db' where "TransitionChatRun f now input (fst w) = (x, db')" "w' = (db', snd (next_call (snd w)))"
    "next_call (snd w) = ((f, now), snd (next_call (snd w)))"
  using assms by (simp add: store_step_eq) (metis fst_conv prod.collapse snd_conv)

lemma err_is_commit [simp]: "err_is (ErrWrap ''commit'' e) ErrNotFound = err_is e ErrNotFound"
  by simp

lemma retryable_wrap [simp]:
  "isRetryableTerminalPersistenceError (ErrWrap m e) = isRetryableTerminalPersistenceError e"
  by (simp add: isRetryableTerminalPersistenceError_def as_net_error_def as_sql_state_def)

interpretation chat_store: terminal_store store_step store_lookup store_transient store_trouble
proof
  fix input r w w'
  assume "store_step input w = (Inr (r, True), w')"
  then obtain f now db' where t: "TransitionChatRun f now input (fst w) = (Inr (r, True), db')" "w' = (db', snd (next_call (snd w)))"
    by (rule store_step_cases)
  from t(1) show "\<exists>r0. store_lookup w (ti_run_id input) = Some r0 \<and> rr_running r0 \<and> settled_by input r0 r \<and>
      store_lookup w' (ti_run_id input) = Some r"
    by (cases rule: TransitionChatRun_cases) (auto simp: store_lookup_def t(2) valid_input_def terminal_row_settled)
next
  fix input r w w'
  assume "store_step input w = (Inr (r, False), w')"
  then obtain f now db' where t: "TransitionChatRun f now input (fst w) = (Inr (r, False), db')" "w' = (db', snd (next_call (snd w)))"
    by (rule store_step_cases)
  from t(1) show "store_lookup w (ti_run_id input) = Some r \<and> \<not> rr_running r \<and> store_lookup w' (ti_run_id input) = Some r"
    by (cases rule: TransitionChatRun_cases) (auto simp: store_lookup_def t(2))
next
  fix input e w w'
  assume "store_step input w = (Inl e, w')"
  then obtain f now db' where t: "TransitionChatRun f now input (fst w) = (Inl e, db')" "w' = (db', snd (next_call (snd w)))"
    by (rule store_step_cases)
  from t(1) show "store_lookup w' (ti_run_id input) = store_lookup w (ti_run_id input) \<or>
      (\<exists>r0 r. store_lookup w (ti_run_id input) = Some r0 \<and> rr_running r0 \<and> settled_by input r0 r \<and>
        store_lookup w' (ti_run_id input) = Some r)"
    by (cases rule: TransitionChatRun_cases) (auto simp: store_lookup_def t(2) valid_input_def terminal_row_settled)
next
  fix input e w w'
  assume tr: "store_transient w" "valid_input input" "store_lookup w (ti_run_id input) \<noteq> None"
    and s: "store_step input w = (Inl e, w')"
  from s obtain f now db' where t: "TransitionChatRun f now input (fst w) = (Inl e, db')" "w' = (db', snd (next_call (snd w)))"
    "next_call (snd w) = ((f, now), snd (next_call (snd w)))"
    by (rule store_step_cases)
  have e: "f \<noteq> FaultNone \<and> (f = FaultBefore e \<or> (\<exists>e'. e = ErrWrap ''commit'' e' \<and> f = FaultAfter e'))"
    using t(1) tr(2,3) by (cases rule: TransitionChatRun_cases) (auto simp: store_lookup_def)
  then obtain fs where fs: "snd w = (f, now) # fs" using t(3) by (cases "snd w") auto
  then have "retryable_fault f" "store_transient w'" "store_trouble w' < store_trouble w"
    using tr(1) t(2) by (auto simp: store_transient_def store_trouble_def)
  then show "isRetryableTerminalPersistenceError e \<and> \<not> err_is e ErrNotFound \<and> store_transient w' \<and> store_trouble w' < store_trouble w"
    using e by (auto simp: retryable_fault_def)
qed

section \<open>The transition over the repository\<close>

text \<open>
  C1.  A terminal is stored exactly once: whatever mixture of failures before the commit and lost
  commit replies the database driver produces, the loop hands back the record that is stored; that
  record is the frozen terminal when the run was still running, and the terminal that was there
  already otherwise.
\<close>

theorem terminal_stored_once:
  assumes "persistFrozenRunTerminal n store_step isCommit durable input w = Some (Inr (Some (r, tr)), w')"
    "store_lookup w (ti_run_id input) = Some r0"
  shows "store_lookup w' (ti_run_id input) = Some r \<and> (if rr_running r0 then settled_by input r0 r else r = r0)"
  by (rule chat_store.persist_canonical[OF assms])

text \<open>
  C6.  The retry loop ends: if every fault ahead is one the code retries and the run has a row, then
  with more attempts than faults the loop returns a stored record.
\<close>

theorem terminal_stored_eventually:
  assumes "store_transient w" "valid_input input" "store_lookup w (ti_run_id input) \<noteq> None" "store_trouble w < n"
  shows "\<exists>r tr w'. persistFrozenRunTerminal n store_step isCommit durable input w = Some (Inr (Some (r, tr)), w')"
  by (rule chat_store.persist_returns[OF assms])

lemma persist_durable_some:
  "persistFrozenRunTerminal n call isCommit True input w = Some (Inr stored, w') \<Longrightarrow> stored \<noteq> None"
  by (induction n arbitrary: w) (auto split: sum.splits prod.splits if_splits)

lemma stored_facts_of:
  "rf_terminal_message_id (stored_facts now r s) = rr_terminal_message_id r"
  "rf_user_message_id (stored_facts now r s) = rr_user_message_id r"
  "rf_terminal_at (stored_facts now r s) = rr_terminal_at r"
  "rf_expires_at (stored_facts now r s) = rr_expires_at r"
  by (simp_all add: stored_facts_def Let_def)

text \<open>\<open>shows_record s r\<close>: the terminal facts of a run in the hub are those of its stored record.\<close>

definition shows_record :: "run_state \<Rightarrow> chat_run_record \<Rightarrow> bool" where
  "shows_record s r \<longleftrightarrow> rf_status s = rr_status r \<and> rf_cancel_cause s = rr_cancel_cause r \<and>
     rf_terminal_message_id s = rr_terminal_message_id r \<and> rf_user_message_id s = rr_user_message_id r \<and>
     rf_terminal_at s = rr_terminal_at r \<and> rf_expires_at s = rr_expires_at r \<and>
     out_error_code (lg_output (rs_log s)) = rr_public_error_code r"

lemma publish_shows_record:
  assumes "cfg_ok (h, P)" "P i = Some t" "\<not> rr_running r"
    "transition_publish h now i t (Some (r, tr)) = (Inr (snap, tr', ev), h')"
  shows "\<exists>s'. hub_run h' i = Some s' \<and> snap = cloneStateSnapshot s' \<and> shows_record s' r \<and> \<not> running s' \<and> tr' = tr \<and> ev \<noteq> None"
proof -
  have ok: "stored_ok (Some (r, tr))" using assms(3) by (simp add: stored_ok_def rr_running_def)
  obtain s s' h1 s1 e where p: "hub_run h i = Some s" "publish_state h now s t (Some (r, tr)) = (h1, s1, e)"
    "s' = release_run (s1\<lparr>rs_finishing := False, rs_subscribers := []\<rparr>)"
    "hb_runs h' = AList.update i s' (hb_runs h)" "snap = cloneStateSnapshot s'" "tr' = tr" "ev = e" "\<not> running s'"
    using publish_step[OF assms(1,2) ok, of now] assms(4) by (elim exE conjE) simp
  have "shows_record s1 r \<and> e \<noteq> None"
    using p(2) by (auto simp: publish_state_def applyStoredRunTerminal_def shows_record_def stored_facts_of
        set_output_error_def split: prod.splits if_splits)
  then have "shows_record s' r" "e \<noteq> None"
    by (simp_all add: p(3) shows_record_def release_run_def call_cancel_cause_def call_first_output_stop_def)
  with p show ?thesis by auto
qed

text \<open>The parts of a transition that went through, with a store and no commit callback.\<close>

lemma transition_parts:
  assumes "transition n (Some ops) None None now i t h w = Some (Inr (snap, tr, ev), h', w')"
    "hub_run h i = Some s" "running s" "rs_durable s"
  obtains r tr' where
    "transition_freeze h i None t = (FreezeGo (snd (frozen_terminal s t)) True, put_run i (fst (frozen_terminal s t)) h)"
    "persistFrozenRunTerminal n (so_transition ops) False True
       (terminal_input i (now + hb_ttl h) (snd (frozen_terminal s t))) w = Some (Inr (Some (r, tr')), w')"
    "transition_publish (put_run i (fst (frozen_terminal s t)) h) now i (snd (frozen_terminal s t)) (Some (r, tr')) =
       (Inr (snap, tr, ev), h')"
proof -
  let ?t = "snd (frozen_terminal s t)" and ?h = "put_run i (fst (frozen_terminal s t)) h"
  have v: "terminal_status (rt_status t)"
    using assms(1) by (auto simp: transition_def transition_freeze_def split: if_splits)
  have f: "transition_freeze h i None t = (FreezeGo ?t True, ?h)"
    using v assms(2-4) by (simp add: transition_freeze_def split_def Let_def)
  obtain y w1 where y: "persistFrozenRunTerminal n (so_transition ops) False True (terminal_input i (now + hb_ttl h) ?t) w
      = Some (Inr y, w1)"
    using assms(1) f by (auto simp: transition_def Let_def split: option.splits prod.splits sum.splits)
  then obtain r tr' where r: "y = Some (r, tr')" using persist_durable_some[OF y] by auto
  have "w1 = w'" "transition_publish ?h now i ?t y = (Inr (snap, tr, ev), h')"
    using assms(1) f y by (auto simp: transition_def Let_def split: prod.splits)
  then show thesis using that f y r by blast
qed

text \<open>
  C3.  What a transition publishes is what it stored: for a durable running run whose row is still
  running, the stored record is the frozen terminal, and the hub then shows that record's status,
  cause, messages, times and error code to every reader, with a terminal event.
\<close>

theorem transition_publishes_stored:
  assumes "cfg_step\<^sup>*\<^sup>* (start_cfg ttl maxBytes) (h, P)" "P i = None" "hub_run h i = Some s" "running s" "rs_durable s"
    "store_lookup w i = Some r0" "rr_running r0"
    "transition n (Some repository_ops) None None now i t h w = Some (Inr (snap, tr, ev), h', w')"
  shows "\<exists>r s'. store_lookup w' i = Some r \<and>
    settled_by (terminal_input i (now + hb_ttl h) (snd (frozen_terminal s t))) r0 r \<and>
    hub_run h' i = Some s' \<and> snap = cloneStateSnapshot s' \<and> shows_record s' r \<and> \<not> running s' \<and> ev \<noteq> None"
proof -
  let ?t = "snd (frozen_terminal s t)" and ?h = "put_run i (fst (frozen_terminal s t)) h"
  obtain r tr' where p: "transition_freeze h i None t = (FreezeGo ?t True, ?h)"
    "persistFrozenRunTerminal n store_step False True (terminal_input i (now + hb_ttl h) ?t) w = Some (Inr (Some (r, tr')), w')"
    "transition_publish ?h now i ?t (Some (r, tr')) = (Inr (snap, tr, ev), h')"
    using transition_parts[OF assms(8,3,4,5)] by (auto simp: repository_ops_def)
  have id: "ti_run_id (terminal_input i (now + hb_ttl h) ?t) = i" by (simp add: terminal_input_def)
  have "store_lookup w' i = Some r \<and> settled_by (terminal_input i (now + hb_ttl h) ?t) r0 r"
    using chat_store.persist_canonical[OF p(2)] assms(6,7) by (simp add: id)
  moreover have "cfg_ok (?h, P(i \<mapsto> ?t))"
    using freeze_step[OF reachable_ok[OF assms(1)] assms(2) p(1)] by simp
  ultimately show ?thesis
    using publish_shows_record[OF _ _ _ p(3)] settled_not_running by fastforce
qed

lemma frozen_cancel:
  assumes "run_ok i s" "running s" "rs_cancel_requested s"
  shows "rt_status (snd (frozen_terminal s t)) = (if rt_finalization_failure t then rt_status t else RunStatusCanceled)"
    "rt_cancel_cause (snd (frozen_terminal s t)) = rf_cancel_cause s"
proof -
  have c: "rf_cancel_cause s \<noteq> CauseNone" using assms(1-3) by (simp add: run_ok_def)
  then have a: "adopt_cancel s t = (s, t\<lparr>rt_cancel_cause := rf_cancel_cause s\<rparr>)" by (simp add: adopt_cancel_def Let_def)
  show "rt_status (snd (frozen_terminal s t)) = (if rt_finalization_failure t then rt_status t else RunStatusCanceled)"
    using assms(3) by (simp add: frozen_terminal_eq a cancel_wins_status)
  show "rt_cancel_cause (snd (frozen_terminal s t)) = rf_cancel_cause s"
    by (simp add: frozen_terminal_eq a normalizeRunTerminal_def canceled_event_def keep_shown_error_def cancel_wins_def Let_def
        split: prod.split)
qed

text \<open>
  C2.  Cancellation beats completion: a durable running run whose cancellation was requested and whose
  row is still running ends canceled, with the cause that was requested, in the store and in the hub,
  whatever terminal the transition (without a commit callback) was asked for.  Only the terminal of a
  failed finalization keeps its own status, and even it is stored and shown with the requested cause.
\<close>

theorem cancel_beats_completion:
  assumes "cfg_step\<^sup>*\<^sup>* (start_cfg ttl maxBytes) (h, P)" "P i = None" "hub_run h i = Some s" "running s" "rs_durable s"
    "rs_cancel_requested s" "store_lookup w i = Some r0" "rr_running r0"
    "transition n (Some repository_ops) None None now i t h w = Some (Inr (snap, tr, ev), h', w')"
  shows "let final = (if rt_finalization_failure t then rt_status t else RunStatusCanceled) in
    rf_status snap = final \<and> rf_cancel_cause snap = rf_cancel_cause s \<and>
    (\<exists>r. store_lookup w' i = Some r \<and> rr_status r = final \<and> rr_cancel_cause r = rf_cancel_cause s) \<and>
    (\<exists>s'. hub_run h' i = Some s' \<and> rf_status s' = final \<and> rf_cancel_cause s' = rf_cancel_cause s)"
proof -
  have ok: "run_ok i s" using reachable_ok[OF assms(1)] assms(3) by (simp add: cfg_ok_def hub_ok_def)
  obtain r tr' where p: "transition_freeze h i None t = (FreezeGo (snd (frozen_terminal s t)) True, put_run i (fst (frozen_terminal s t)) h)"
    "persistFrozenRunTerminal n store_step False True (terminal_input i (now + hb_ttl h) (snd (frozen_terminal s t))) w =
      Some (Inr (Some (r, tr')), w')"
    "transition_publish (put_run i (fst (frozen_terminal s t)) h) now i (snd (frozen_terminal s t)) (Some (r, tr')) =
      (Inr (snap, tr, ev), h')"
    using transition_parts[OF assms(9,3,4,5)] by (auto simp: repository_ops_def)
  have set: "store_lookup w' i = Some r \<and> settled_by (terminal_input i (now + hb_ttl h) (snd (frozen_terminal s t))) r0 r"
    using chat_store.persist_canonical[OF p(2)] assms(7,8) by (simp add: terminal_input_def)
  then have r: "rr_status r = (if rt_finalization_failure t then rt_status t else RunStatusCanceled)"
    "rr_cancel_cause r = rf_cancel_cause s"
    using frozen_cancel[OF ok assms(4,6)] by (auto simp: settled_by_def terminal_input_def)
  have "cfg_ok (put_run i (fst (frozen_terminal s t)) h, P(i \<mapsto> snd (frozen_terminal s t)))"
    using freeze_step[OF reachable_ok[OF assms(1)] assms(2) p(1)] by simp
  from publish_shows_record[OF this _ settled_not_running[OF conjunct2[OF set]] p(3)] obtain s'
    where "hub_run h' i = Some s'" "snap = cloneStateSnapshot s'" "shows_record s' r" by auto
  with r set show ?thesis
    by (simp add: Let_def shows_record_def cloneStateSnapshot_def run_facts.defs run_snapshot.defs)
qed

section \<open>The concrete run stored\<close>

definition demo_row :: chat_run_row where
  "demo_row = \<lparr>cr_run_id = ''r'', cr_user_id = 2, cr_session_id = 1, cr_kind = ''chat'', cr_operation = ''send'',
     cr_intent_version = 1, cr_intent_hash = ''x'', cr_retry_target = None, cr_runtime_snapshot = ''{}'',
     cr_status = RunStatusRunning, cr_cancel_cause = CauseNone, cr_public_error_code = [], cr_public_error_message = [],
     cr_user_message_id = None, cr_terminal_message_id = None, cr_terminal_event = None, cr_message_reserved = True,
     cr_expires_at = 11, cr_released_at = None, cr_accepted_at = 1, cr_terminal_at = None, cr_updated_at = 1\<rparr>"

definition demo_db :: run_db where
  "demo_db = \<lparr>db_runs = [demo_row], db_attempts = [], db_messages = [], db_sessions = [], db_users = [], db_next_attempt = 1\<rparr>"

text \<open>A lost commit reply, then a driver that works.\<close>

definition demo_world :: store_world where
  "demo_world = (demo_db, [(FaultAfter ErrEOF, 4)])"

lemma demo_lookup: "store_lookup demo_world ''r'' = Some (scanChatRun demo_row)" "rr_running (scanChatRun demo_row)"
  by (simp_all add: store_lookup_def demo_world_def demo_db_def demo_row_def find_run_def row_running_def)

lemma demo_transient: "store_transient demo_world" "store_trouble demo_world < 2"
  by (simp_all add: store_transient_def store_trouble_def demo_world_def retryable_fault_def
      isRetryableTerminalPersistenceError_def err_is_def)

definition demo_input :: transition_input where
  "demo_input = terminal_input ''r'' 20 ((bare_terminal RunStatusCompleted)\<lparr>rt_event := ''message_complete''\<rparr>)"

lemma demo_input_ok: "valid_input demo_input" "ti_run_id demo_input = ''r''"
  by (simp_all add: demo_input_def terminal_input_def valid_input_def terminal_status_def bare_terminal_def)

theorem terminal_stored_eventually_witness:
  "\<exists>r tr w'. persistFrozenRunTerminal 2 store_step False True demo_input demo_world = Some (Inr (Some (r, tr)), w')"
  using terminal_stored_eventually[OF demo_transient(1) demo_input_ok(1) _ demo_transient(2)] demo_lookup demo_input_ok(2) by simp

lemma demo_persist:
  obtains r tr w' where "persistFrozenRunTerminal 2 store_step False True demo_input demo_world = Some (Inr (Some (r, tr)), w')"
  using chat_store.persist_returns[OF demo_transient(1) demo_input_ok(1) _ demo_transient(2)] demo_lookup demo_input_ok(2)
  by (metis option.distinct(1))

theorem terminal_stored_once_witness:
  "\<exists>r tr w'. persistFrozenRunTerminal 2 store_step False True demo_input demo_world = Some (Inr (Some (r, tr)), w') \<and>
    store_lookup w' ''r'' = Some r \<and> settled_by demo_input (scanChatRun demo_row) r"
proof -
  obtain r tr w' where p: "persistFrozenRunTerminal 2 store_step False True demo_input demo_world = Some (Inr (Some (r, tr)), w')"
    by (rule demo_persist)
  with terminal_stored_once[OF p, unfolded demo_input_ok(2), OF demo_lookup(1)] demo_lookup(2) show ?thesis by auto
qed

lemma bare_status: "terminal_status (rt_status (bare_terminal RunStatusCompleted))"
  by (simp add: bare_terminal_def terminal_status_def)

text \<open>A transition of a durable running run returns, and with a snapshot.\<close>

lemma transition_returns:
  assumes "cfg_ok (h, P)" "P i = None" "hub_run h i = Some s" "running s" "rs_durable s" "terminal_status (rt_status t)"
    "store_lookup w i \<noteq> None" "store_transient w" "store_trouble w < n" "i \<noteq> []" "now + hb_ttl h \<noteq> 0"
  obtains snap tr ev h' w' where "transition n (Some repository_ops) None None now i t h w = Some (Inr (snap, tr, ev), h', w')"
proof -
  let ?t = "snd (frozen_terminal s t)" and ?h = "put_run i (fst (frozen_terminal s t)) h"
  let ?in = "terminal_input i (now + hb_ttl h) ?t"
  have f: "transition_freeze h i None t = (FreezeGo ?t True, ?h)"
    using assms(3-6) by (simp add: transition_freeze_def split_def Let_def)
  have v: "valid_input ?in"
    using frozen_status[OF assms(6), of s] assms(10,11) by (simp add: valid_input_def terminal_input_def)
  have id: "ti_run_id ?in = i" by (simp add: terminal_input_def)
  obtain r tr w' where p: "persistFrozenRunTerminal n store_step False True ?in w = Some (Inr (Some (r, tr)), w')"
    using chat_store.persist_returns[OF assms(8) v _ assms(9)] assms(7) unfolding id by blast
  have ok: "stored_ok (Some (r, tr))" using chat_store.persist_stored[OF p] by (simp add: stored_ok_def rr_running_def)
  have "cfg_ok (?h, P(i \<mapsto> ?t))" using freeze_step[OF assms(1,2) f] by simp
  then obtain snap tr' ev where "fst (transition_publish ?h now i ?t (Some (r, tr))) = Inr (snap, tr', ev)"
    using publish_step[OF _ _ ok] by (metis fun_upd_same)
  then show thesis
    using that f p by (simp add: transition_def repository_ops_def Let_def split_def)
qed

lemma demo_transition:
  obtains snap tr ev h' w' where
    "transition 2 (Some repository_ops) None None 3 ''r'' (bare_terminal RunStatusCompleted) demo_hub demo_world =
      Some (Inr (snap, tr, ev), h', w')"
proof (rule transition_returns[OF reachable_ok[OF demo_reach] _ demo_run(1,2,3)])
  show "store_lookup demo_world ''r'' \<noteq> None" using demo_lookup by simp
  show "3 + hb_ttl demo_hub \<noteq> 0" by (simp add: demo_hub_def put_run_def NewRunHub_def)
  show "terminal_status (rt_status (bare_terminal RunStatusCompleted))" by (rule bare_status)
qed (use demo_transient in simp_all)

theorem transition_publishes_stored_witness:
  "\<exists>snap tr ev h' w' r s'.
    transition 2 (Some repository_ops) None None 3 ''r'' (bare_terminal RunStatusCompleted) demo_hub demo_world =
      Some (Inr (snap, tr, ev), h', w') \<and> store_lookup w' ''r'' = Some r \<and> hub_run h' ''r'' = Some s' \<and> shows_record s' r"
proof -
  obtain snap tr ev h' w' where
    t: "transition 2 (Some repository_ops) None None 3 ''r'' (bare_terminal RunStatusCompleted) demo_hub demo_world =
      Some (Inr (snap, tr, ev), h', w')"
    by (rule demo_transition)
  from transition_publishes_stored[OF demo_reach _ demo_run(1,2,3) demo_lookup t] t show ?thesis by auto
qed

theorem cancel_beats_completion_witness:
  "\<exists>snap tr ev h' w'.
    transition 2 (Some repository_ops) None None 3 ''r'' (bare_terminal RunStatusCompleted) demo_stopped demo_world =
      Some (Inr (snap, tr, ev), h', w') \<and> rf_status snap = RunStatusCanceled \<and> rf_cancel_cause snap = RunCancelUserStop"
proof -
  let ?s = "request_cancel 2 RunCancelUserStop demo_durable"
  have run: "running ?s" using demo_run(2) by simp
  obtain snap tr ev h' w' where
    t: "transition 2 (Some repository_ops) None None 3 ''r'' (bare_terminal RunStatusCompleted) demo_stopped demo_world =
      Some (Inr (snap, tr, ev), h', w')"
  proof (rule transition_returns[OF reachable_ok[OF demo_stopped_reach] _ demo_stopped_run(1) run demo_stopped_run(4)])
    show "store_lookup demo_world ''r'' \<noteq> None" using demo_lookup by simp
    show "3 + hb_ttl demo_stopped \<noteq> 0" by (simp add: demo_stopped_run(2))
    show "terminal_status (rt_status (bare_terminal RunStatusCompleted))" by (rule bare_status)
qed (use demo_transient in simp_all)
  from cancel_beats_completion[OF demo_stopped_reach _ demo_stopped_run(1) run demo_stopped_run(4) demo_stopped_run(3)
      demo_lookup t] t show ?thesis by (auto simp: demo_stopped_run(5) Let_def bare_terminal_def)
qed

end
