(* ===== verification/ToolBudget.thy ===== *)
theory ToolBudget
  imports JsonDecode
begin

text \<open>
  The tool budget of one agent run (\<^verbatim>\<open>internal/agent/tool_budget.go\<close>,
  \<^verbatim>\<open>tool_budget_model.go\<close>): a run may make a bounded number of tool calls and put a bounded
  number of tokens of tool results into the model context.  A call gets a grant of tokens before
  it runs (\<open>prepareToolCall\<close>); its result is cut down to the grant (\<open>finishToolResult\<close>),
  or the grant is given back (\<open>cancelToolGrant\<close>).  Every operation holds the mutex of the
  budget, so an interleaving is a sequence of operations.  The log lines are left out.
\<close>

section \<open>Token estimates\<close>

definition estimateCharTokens :: "int \<Rightarrow> int" where
  "estimateCharTokens byteLen = (if byteLen \<le> 0 then 0 else (byteLen + 2) div 3)"

definition estimateTextTokens :: "string \<Rightarrow> int" where
  "estimateTextTokens s = estimateCharTokens (int (length s))"

definition minToolContextTokens :: int where "minToolContextTokens = 2048"
definition maxToolContextTokens :: int where "maxToolContextTokens = 32000"
definition minToolResultGrantTokens :: int where "minToolResultGrantTokens = 512"

section \<open>State\<close>

record tool_budget =
  tb_max_rounds :: int
  tb_max_calls :: int
  tb_max_result :: int
  tb_max_context :: int
  tb_max_skill :: int
  tb_initialized :: bool
  tb_baseline :: nat
  tb_note_added :: bool
  tb_force_final :: bool
  tb_actual_calls :: int
  tb_context_used :: int
  tb_context_reserved :: int
  tb_skill_used :: int
  tb_skill_reserved :: int
  tb_skill_blocked :: bool

record tool_grant =
  tg_tokens :: int
  tg_skill :: bool

definition no_grant :: tool_grant where
  "no_grant = \<lparr>tg_tokens = 0, tg_skill = False\<rparr>"

definition terminalToolReserveTokens :: "int \<Rightarrow> int" where
  "terminalToolReserveTokens maximum =
    (if maximum \<le> 0 then 0
     else if maximum - min 576 (maximum div 4) < minToolResultGrantTokens then maximum
     else min 576 (maximum div 4))"

text \<open>\<open>None\<close> is the nil request.\<close>

definition context_tokens :: "int \<Rightarrow> int" where
  "context_tokens window =
    (let minimum = min minToolContextTokens (window div 4);
         raised = (if window div 8 < minimum then minimum else window div 8)
     in if raised > maxToolContextTokens then maxToolContextTokens else raised)"

definition result_tokens :: "int \<Rightarrow> int" where
  "result_tokens contextTokens =
    (let usable = contextTokens - terminalToolReserveTokens contextTokens;
         raised = (if contextTokens div 4 < minToolResultGrantTokens \<and> usable \<ge> minToolResultGrantTokens
           then minToolResultGrantTokens else contextTokens div 4)
     in if raised > 8000 then 8000 else raised)"

definition newToolBudgetMiddleware :: "int option \<Rightarrow> tool_budget" where
  "newToolBudgetMiddleware contextWindow =
    (let window = (case contextWindow of Some w \<Rightarrow> if w > 0 then w else 128000 | None \<Rightarrow> 128000);
         contextTokens = context_tokens window
     in \<lparr>tb_max_rounds = 8, tb_max_calls = 24, tb_max_result = result_tokens contextTokens,
         tb_max_context = contextTokens,
         tb_max_skill = (if contextTokens div 2 > 12000 then 12000 else contextTokens div 2),
         tb_initialized = False, tb_baseline = 0, tb_note_added = False, tb_force_final = False, tb_actual_calls = 0,
         tb_context_used = 0, tb_context_reserved = 0, tb_skill_used = 0, tb_skill_reserved = 0, tb_skill_blocked = False\<rparr>)"

section \<open>Counting and the final notice\<close>

text \<open>What the counters read of a message: its role and its tool calls; \<open>None\<close> is nil.\<close>

record agent_message =
  am_role :: string
  am_tool_calls :: nat
  am_text :: string

text \<open>An agentic message: of each content block (nil is \<open>None\<close>) whether it is a function call.\<close>

record agentic_message =
  gm_role :: string
  gm_blocks :: "bool option list"
  gm_text :: string

definition generated_calls :: "agent_message option \<Rightarrow> nat" where
  "generated_calls m = (case m of None \<Rightarrow> 0 | Some msg \<Rightarrow> if am_role msg = ''assistant'' then am_tool_calls msg else 0)"

definition countGeneratedToolUse :: "agent_message option list \<Rightarrow> nat \<Rightarrow> int \<times> int" where
  "countGeneratedToolUse messages baseline =
    (let calls = filter (\<lambda>n. n > 0) (map generated_calls (drop baseline messages))
     in (int (length calls), int (sum_list calls)))"

definition agentic_calls :: "agentic_message option \<Rightarrow> nat" where
  "agentic_calls m = (case m of None \<Rightarrow> 0
     | Some msg \<Rightarrow> if gm_role msg = ''assistant'' then length (filter (\<lambda>b. b = Some True) (gm_blocks msg)) else 0)"

definition countAgenticGeneratedToolUse :: "agentic_message option list \<Rightarrow> nat \<Rightarrow> int \<times> int" where
  "countAgenticGeneratedToolUse messages baseline =
    (let calls = filter (\<lambda>n. n > 0) (map agentic_calls (drop baseline messages))
     in (int (length calls), int (sum_list calls)))"

definition toolBudgetFinalNotice :: "int \<Rightarrow> int \<Rightarrow> int \<Rightarrow> int \<Rightarrow> string" where
  "toolBudgetFinalNotice rounds calls maxRounds maxCalls =
    ''System notice: the tool-call budget for this turn is exhausted (used '' @ itoa rounds @ '' rounds / '' @ itoa calls @
    '' calls; limit '' @ itoa maxRounds @ '' rounds / '' @ itoa maxCalls @
    '' calls). Do not call more tools. Answer directly from the tool results and context already available. If evidence is still insufficient, state what is missing and what could be verified next.''"

text \<open>
  \<open>BeforeModelRewriteState\<close>, for classic and for agentic messages: the baseline is taken at
  the first call, the notice is appended once.
\<close>

definition set_baseline :: "nat \<Rightarrow> tool_budget \<Rightarrow> tool_budget" where
  "set_baseline n b = (if tb_initialized b then b else b\<lparr>tb_initialized := True, tb_baseline := n\<rparr>)"

definition exhausted :: "tool_budget \<Rightarrow> int \<Rightarrow> int \<Rightarrow> bool" where
  "exhausted b rounds calls \<longleftrightarrow> rounds \<ge> tb_max_rounds b \<or> calls \<ge> tb_max_calls b \<or> tb_actual_calls b \<ge> tb_max_calls b \<or> tb_force_final b"

definition BeforeModelRewriteState :: "agent_message option list \<Rightarrow> tool_budget \<Rightarrow> agent_message option list \<times> tool_budget" where
  "BeforeModelRewriteState messages b0 =
    (let b = set_baseline (length messages) b0;
         (rounds, calls) = countGeneratedToolUse messages (tb_baseline b)
     in if exhausted b rounds calls
        then ((if tb_note_added b then messages
               else messages @ [Some \<lparr>am_role = ''user'', am_tool_calls = 0,
                 am_text = toolBudgetFinalNotice rounds (max calls (tb_actual_calls b)) (tb_max_rounds b) (tb_max_calls b)\<rparr>]),
              b\<lparr>tb_force_final := True, tb_note_added := True\<rparr>)
        else (messages, b))"

definition BeforeAgenticRewriteState :: "agentic_message option list \<Rightarrow> tool_budget \<Rightarrow> agentic_message option list \<times> tool_budget" where
  "BeforeAgenticRewriteState messages b0 =
    (let b = set_baseline (length messages) b0;
         (rounds, calls) = countAgenticGeneratedToolUse messages (tb_baseline b)
     in if exhausted b rounds calls
        then ((if tb_note_added b then messages
               else messages @ [Some \<lparr>gm_role = ''user'', gm_blocks = [],
                 gm_text = toolBudgetFinalNotice rounds (max calls (tb_actual_calls b)) (tb_max_rounds b) (tb_max_calls b)\<rparr>]),
              b\<lparr>tb_force_final := True, tb_note_added := True\<rparr>)
        else (messages, b))"

text \<open>The options the model is called with: under a forced final answer tools are forbidden last.\<close>

definition WrapModel :: "'o \<Rightarrow> tool_budget \<Rightarrow> 'o list \<Rightarrow> 'o list" where
  "WrapModel forbidden b opts = (if tb_force_final b then opts @ [forbidden] else opts)"

section \<open>Results that fit\<close>

definition toolBudgetBlockedResult :: "string \<Rightarrow> string \<Rightarrow> string" where
  "toolBudgetBlockedResult toolName message = json_enc (JObj [(''tool'', JStr toolName), (''blocked'', JBool True),
     (''reason'', JStr ''tool_budget_exhausted''), (''message'', JStr message)])"

definition toolContextBudgetBlockedResult :: "string \<Rightarrow> string \<Rightarrow> string \<Rightarrow> string" where
  "toolContextBudgetBlockedResult toolName reason message = json_enc (JObj [(''ok'', JBool False), (''tool'', JStr toolName),
     (''blocked'', JBool True), (''reason'', JStr reason), (''message'', JStr message)])"

definition isSkillTool :: "string \<Rightarrow> bool" where
  "isSkillTool toolName = has_prefix (trim_space toolName) ''skill_''"

definition jsonNumberAsInt :: "jv option \<Rightarrow> int option" where
  "jsonNumberAsInt v = (case v of Some (JInt i) \<Rightarrow> Some i | Some (JNum lit) \<Rightarrow> Some (literal_trunc lit) | _ \<Rightarrow> None)"

definition boundPagedToolArguments :: "string \<Rightarrow> string \<Rightarrow> int \<Rightarrow> string" where
  "boundPagedToolArguments toolName arguments limit =
    (if toolName \<noteq> ''skill_read'' \<and> toolName \<noteq> ''file_read'' \<and> toolName \<noteq> ''skill_list'' then arguments
     else (case unmarshal_map arguments of
         None \<Rightarrow> arguments
       | Some input \<Rightarrow>
           (let lower = (\<lambda>key most m. (case jsonNumberAsInt (map_of m key) of
                  Some current \<Rightarrow> if current \<le> 0 \<or> current > most then AList.update key (JInt most) m else m
                | None \<Rightarrow> AList.update key (JInt most) m))
            in if toolName = ''skill_list''
               then json_enc (JObj (AList.update ''max_chars'' (JInt (max limit 256)) (lower ''max_items'' (max (limit div 300) 1) input)))
               else json_enc (JObj (lower ''max_chars'' (max (limit - 200) 64) input)))))"

text \<open>
  The two binary searches for the longest excerpt: \<open>fits mid\<close> is the candidate of \<open>mid\<close> runes if
  its encoding fits.
\<close>

function longest_fit :: "(int \<Rightarrow> string) \<Rightarrow> int \<Rightarrow> int \<Rightarrow> int \<Rightarrow> string \<Rightarrow> string" where
  "longest_fit candidate limit low high best =
    (if low \<le> high
     then (let mid = low + (high - low) div 2
           in if estimateTextTokens (candidate mid) \<le> limit
              then longest_fit candidate limit (mid + 1) high (candidate mid)
              else longest_fit candidate limit low (mid - 1) best)
     else best)"
  by pat_completeness auto
termination by (relation "measure (\<lambda>(c, l, low, high, best). nat (high + 1 - low))") auto

declare longest_fit.simps [simp del]

definition paged_excerpt :: "(string \<times> jv) list \<Rightarrow> string \<Rightarrow> int \<Rightarrow> int \<Rightarrow> string" where
  "paged_excerpt payload content start mid = json_enc (JObj
     (AList.update ''message'' (JStr ''The result was shortened to fit the current run context budget. Continue from next_offset if more text is necessary.'')
     (AList.update ''truncated'' (JBool True)
     (AList.update ''next_offset'' (JInt (start + mid))
     (AList.update ''content'' (JStr (str_of_runes (take (nat mid) (runes content)))) payload)))))"

definition truncatePagedToolResult :: "string \<Rightarrow> int \<Rightarrow> string option" where
  "truncatePagedToolResult result limit =
    (case unmarshal_map result of
       None \<Rightarrow> None
     | Some payload \<Rightarrow>
       (case str_at payload ''content'' of
          None \<Rightarrow> None
        | Some content \<Rightarrow>
            (let start = (case jsonNumberAsInt (map_of payload ''start_offset'') of Some i \<Rightarrow> i | None \<Rightarrow> 0);
                 best = longest_fit (paged_excerpt payload content start) limit 0 (int (rune_count content)) []
             in if best \<noteq> [] then Some best else None)))"

text \<open>The skill list loses skills from its end, then files, description and name of the last one.\<close>

definition item_size :: "jv \<Rightarrow> nat" where
  "item_size item = Suc (length (arr_at (obj_fields item) ''files'') +
     (if map_of (obj_fields item) ''description'' = None then 0 else 1) + (if map_of (obj_fields item) ''name'' = None then 0 else 1))"

definition list_size :: "(string \<times> jv) list \<Rightarrow> nat" where
  "list_size payload = sum_list (map item_size (arr_at payload ''skills''))"

definition drop_skill :: "int \<Rightarrow> (string \<times> jv) list \<Rightarrow> (string \<times> jv) list" where
  "drop_skill start payload =
    (let skills = arr_at payload ''skills'' in
     AList.update ''truncated'' (JBool True) (AList.update ''has_more'' (JBool True)
       (AList.update ''next_offset'' (JInt (start + int (length skills) - 1))
       (AList.update ''skills'' (JArr (butlast skills)) payload))))"

definition drop_file :: "string \<Rightarrow> int \<Rightarrow> (string \<times> jv) list \<Rightarrow> (string \<times> jv) list \<Rightarrow> (string \<times> jv) list" where
  "drop_file scope start item payload =
    (let files = arr_at item ''files'';
         fileStart = (if scope = ''files'' then start else 0);
         item' = AList.update ''next_file_offset'' (JInt (fileStart + int (length files) - 1))
           (AList.update ''files_truncated'' (JBool True) (AList.update ''files'' (JArr (butlast files)) item));
         payload' = AList.update ''truncated'' (JBool True) (AList.update ''has_more'' (JBool True)
           (AList.update ''skills'' (JArr [JObj item']) payload))
     in if scope = ''files'' then AList.update ''next_offset'' (JInt (start + int (length files) - 1)) payload' else payload')"

definition set_item :: "(string \<times> jv) list \<Rightarrow> (string \<times> jv) list \<Rightarrow> (string \<times> jv) list" where
  "set_item item payload = AList.update ''skills'' (JArr [JObj item]) payload"

lemma sum_list_butlast_less: "xs \<noteq> [] \<Longrightarrow> (\<And>x. (0::nat) < f x) \<Longrightarrow> sum_list (map f (butlast xs)) < sum_list (map f xs)"
  by (induction xs) (auto simp: add_less_mono1)

lemma item_size_pos: "0 < item_size v"
  by (simp add: item_size_def)

lemma drop_skill_size: "arr_at payload ''skills'' \<noteq> [] \<Longrightarrow> list_size (drop_skill start payload) < list_size payload"
  using sum_list_butlast_less[of "arr_at payload ''skills''" item_size] item_size_pos
  by (simp add: list_size_def drop_skill_def Let_def)

lemma list_size_single: "arr_at payload ''skills'' = [v] \<Longrightarrow> list_size payload = item_size v"
  by (simp add: list_size_def)

lemma drop_file_size:
  assumes "arr_at payload ''skills'' = [v]" "arr_at (obj_fields v) ''files'' \<noteq> []"
  shows "list_size (drop_file scope start (obj_fields v) payload) < list_size payload"
proof -
  obtain item' where d: "arr_at (drop_file scope start (obj_fields v) payload) ''skills'' = [JObj item']"
    and i: "item' = AList.update ''next_file_offset'' (JInt ((if scope = ''files'' then start else 0) + int (length (arr_at (obj_fields v) ''files'')) - 1))
           (AList.update ''files_truncated'' (JBool True) (AList.update ''files'' (JArr (butlast (arr_at (obj_fields v) ''files''))) (obj_fields v)))"
    by (simp add: drop_file_def Let_def)
  have "length (butlast (arr_at (obj_fields v) ''files'')) < length (arr_at (obj_fields v) ''files'')" using assms(2) by simp
  then show ?thesis unfolding list_size_single[OF d] list_size_single[OF assms(1)] item_size_def i by simp
qed

lemma set_item_size:
  assumes "arr_at payload ''skills'' = [v]" "map_of (obj_fields v) k \<noteq> None" "k = ''description'' \<or> k = ''name''"
  shows "list_size (set_item (AList.delete k (obj_fields v)) payload) < list_size payload"
proof -
  have d: "arr_at (set_item (AList.delete k (obj_fields v)) payload) ''skills'' = [JObj (AList.delete k (obj_fields v))]"
    by (simp add: set_item_def)
  show ?thesis unfolding list_size_single[OF d] list_size_single[OF assms(1)] item_size_def
    using assms(2,3) by (elim disjE) simp_all
qed

lemma single_hd: "length xs = 1 \<Longrightarrow> xs = [hd xs]"
  by (cases xs) auto

function shrink_skill_list :: "string \<Rightarrow> int \<Rightarrow> int \<Rightarrow> (string \<times> jv) list \<Rightarrow> string \<times> bool" where
  "shrink_skill_list scope start limit payload =
    (let encoded = json_enc (JObj payload); skills = arr_at payload ''skills'' in
     if estimateTextTokens encoded \<le> limit then (encoded, True)
     else if length skills > 1 then shrink_skill_list scope start limit (drop_skill start payload)
     else if length skills = 1 \<and> arr_at (obj_fields (hd skills)) ''files'' \<noteq> []
     then shrink_skill_list scope start limit (drop_file scope start (obj_fields (hd skills)) payload)
     else if length skills = 1 \<and> map_of (obj_fields (hd skills)) ''description'' \<noteq> None
     then shrink_skill_list scope start limit (set_item (AList.delete ''description'' (obj_fields (hd skills))) payload)
     else if length skills = 1 \<and> map_of (obj_fields (hd skills)) ''name'' \<noteq> None
     then shrink_skill_list scope start limit (set_item (AList.delete ''name'' (obj_fields (hd skills))) payload)
     else
       (let payload' = AList.update ''message'' (JStr ''Skill metadata exceeded the remaining context budget. Retry this page with the same offset.'')
              (AList.update ''truncated'' (JBool True) (AList.update ''has_more'' (JBool True)
              (AList.update ''next_offset'' (JInt start) (AList.update ''skills'' (JArr []) payload))));
            last = json_enc (JObj payload')
        in (last, estimateTextTokens last \<le> limit)))"
  by pat_completeness auto
termination
proof (relation "measure (\<lambda>(scope, start, limit, payload). list_size payload)", goal_cases)
  case (2 scope start limit payload encoded skills)
  then have "arr_at payload ''skills'' \<noteq> []" by auto
  then show ?case by (simp add: drop_skill_size)
qed (use drop_file_size[OF single_hd] set_item_size[OF single_hd] in simp_all)

declare shrink_skill_list.simps [simp del]

definition truncateSkillListToolResult :: "string \<Rightarrow> int \<Rightarrow> string option" where
  "truncateSkillListToolResult result limit =
    (case unmarshal_map result of
       None \<Rightarrow> None
     | Some payload \<Rightarrow>
         (let scope = (case str_at payload ''scope'' of Some s \<Rightarrow> s | None \<Rightarrow> []);
              start = (case jsonNumberAsInt (map_of payload ''start_offset'') of Some i \<Rightarrow> i | None \<Rightarrow> 0);
              r = shrink_skill_list scope start limit payload
          in if snd r then Some (fst r) else None))"

definition result_ok :: "string \<Rightarrow> bool" where
  "result_ok result = (case unmarshal_map result of
     None \<Rightarrow> True
   | Some original \<Rightarrow>
       (case bool_at original ''ok'' of
          Some v \<Rightarrow> v
        | None \<Rightarrow> (case str_at original ''error'' of Some e \<Rightarrow> trim_space e = [] | None \<Rightarrow> True)))"

definition excerpt_payload :: "string \<Rightarrow> bool \<Rightarrow> int \<Rightarrow> string \<Rightarrow> string" where
  "excerpt_payload toolName ok originalTokens content = json_enc (JObj [(''ok'', JBool ok), (''tool'', JStr toolName),
     (''truncated'', JBool True), (''original_context_tokens'', JInt originalTokens), (''content'', JStr content),
     (''message'', JStr ''The tool result exceeded the context budget. Only a bounded excerpt is available; do not claim omitted content was read.'')])"

definition truncateToolResultForContext :: "string \<Rightarrow> string \<Rightarrow> int \<Rightarrow> int \<Rightarrow> string" where
  "truncateToolResultForContext toolName result originalTokens limit =
    (if limit < minToolResultGrantTokens
     then toolContextBudgetBlockedResult toolName ''tool_context_budget_exhausted'' ''The remaining tool context budget is exhausted.''
     else
       (let rs = runes (trim_space result);
            build = (\<lambda>n. excerpt_payload toolName (result_ok result) originalTokens (str_of_runes (take (nat n) rs)))
        in if estimateTextTokens (build 0) > limit
           then toolContextBudgetBlockedResult toolName ''tool_result_too_large'' ''The tool result exceeded the remaining context budget.''
           else longest_fit build limit 0 (int (length rs)) (build 0)))"

definition boundToolResultToTokens :: "string \<Rightarrow> string \<Rightarrow> int \<Rightarrow> string" where
  "boundToolResultToTokens toolName result limit =
    (if estimateTextTokens result \<le> limit then result
     else
       (let cut = (if toolName = ''skill_read'' \<or> toolName = ''file_read'' then truncatePagedToolResult result limit
                   else if toolName = ''skill_list'' then truncateSkillListToolResult result limit else None)
        in case cut of
             Some bounded \<Rightarrow> bounded
           | None \<Rightarrow> truncateToolResultForContext toolName result (estimateTextTokens result) limit))"

definition terminal_payload :: "(string \<times> jv) list \<Rightarrow> (string \<times> jv) list" where
  "terminal_payload original = (''ok'', JBool False) #
     concat (map (\<lambda>k. case map_of original k of Some v \<Rightarrow> [(k, v)] | None \<Rightarrow> []) [''reason'', ''code'', ''tool''])"

definition boundTerminalToolResult :: "string \<Rightarrow> int \<Rightarrow> string" where
  "boundTerminalToolResult result limit =
    (if limit \<le> 0 then []
     else if estimateTextTokens result \<le> limit then result
     else
       (let data = json_enc (JObj (terminal_payload (case unmarshal_map result of Some m \<Rightarrow> m | None \<Rightarrow> [])));
            minimal = json_enc (JObj [(''ok'', JBool False)])
        in if estimateTextTokens data \<le> limit then data
           else if estimateTextTokens minimal \<le> limit then minimal
           else ''{}''))"

section \<open>The operations on the budget\<close>

definition skill_exhausted_text :: string where
  "skill_exhausted_text = ''The skill context budget is exhausted. Some instructions may remain unread; do not claim complete skill compliance.''"

definition usable_tokens :: "tool_budget \<Rightarrow> int" where
  "usable_tokens b = tb_max_context b - terminalToolReserveTokens (tb_max_context b)"

definition grant_limit :: "tool_budget \<Rightarrow> bool \<Rightarrow> int" where
  "grant_limit b skill =
    (let limit0 = tb_max_result b;
         remaining = usable_tokens b - tb_context_used b - tb_context_reserved b;
         limit1 = (if remaining < limit0 then remaining else limit0);
         skillRemaining = tb_max_skill b - tb_skill_used b - tb_skill_reserved b
     in if skill \<and> skillRemaining < limit1 then skillRemaining else limit1)"

text \<open>The arguments to run with, the grant, the refusal (empty when the call may run).\<close>

definition prepareToolCall :: "string \<Rightarrow> string \<Rightarrow> tool_budget \<Rightarrow> (string \<times> tool_grant \<times> string) \<times> tool_budget" where
  "prepareToolCall toolName arguments b =
    (let skill = isSkillTool toolName; limit = grant_limit b skill in
     if tb_force_final b
     then ((arguments, no_grant, toolBudgetBlockedResult toolName ''The tool-call budget is exhausted. Stop calling tools and produce the final answer from the evidence already available.''), b)
     else if skill \<and> tb_skill_blocked b
     then ((arguments, no_grant, toolContextBudgetBlockedResult toolName ''skill_context_budget_exhausted'' skill_exhausted_text), b)
     else if tb_actual_calls b \<ge> tb_max_calls b
     then ((arguments, no_grant, toolBudgetBlockedResult toolName ''The tool-call limit has been reached. Stop calling tools and summarize the available results.''),
           b\<lparr>tb_force_final := True\<rparr>)
     else if limit < minToolResultGrantTokens
     then
       (if skill \<and> tb_skill_reserved b = 0
        then ((arguments, no_grant, toolContextBudgetBlockedResult toolName ''skill_context_budget_exhausted'' skill_exhausted_text),
              b\<lparr>tb_skill_blocked := True\<rparr>)
        else if tb_context_reserved b = 0
        then ((arguments, no_grant, toolContextBudgetBlockedResult toolName ''tool_context_budget_exhausted''
                 ''The tool context budget is exhausted. Produce the final answer from the evidence already available.''),
              b\<lparr>tb_force_final := True\<rparr>)
        else ((arguments, no_grant, toolContextBudgetBlockedResult toolName ''tool_context_budget_pending''
                 ''Parallel tool calls are using the remaining context budget. Continue with results already available.''), b))
     else
       ((boundPagedToolArguments toolName arguments limit, \<lparr>tg_tokens = limit, tg_skill = skill\<rparr>, []),
        b\<lparr>tb_context_reserved := tb_context_reserved b + limit,
          tb_skill_reserved := (if skill then tb_skill_reserved b + limit else tb_skill_reserved b),
          tb_actual_calls := tb_actual_calls b + 1\<rparr>))"

definition release_grant :: "tool_grant \<Rightarrow> tool_budget \<Rightarrow> tool_budget" where
  "release_grant grant b = b\<lparr>tb_context_reserved := max (tb_context_reserved b - tg_tokens grant) 0,
     tb_skill_reserved := (if tg_skill grant then max (tb_skill_reserved b - tg_tokens grant) 0 else tb_skill_reserved b)\<rparr>"

definition cancelToolGrant :: "tool_grant \<Rightarrow> bool \<Rightarrow> tool_budget \<Rightarrow> tool_budget" where
  "cancelToolGrant grant releaseCall b =
    (if tg_tokens grant \<le> 0 then b
     else (release_grant grant b)\<lparr>tb_actual_calls := (if releaseCall then tb_actual_calls b - 1 else tb_actual_calls b)\<rparr>)"

definition force_final_when_full :: "tool_budget \<Rightarrow> tool_budget" where
  "force_final_when_full b =
    (if tb_max_context b - tb_context_used b < minToolResultGrantTokens \<and> tb_context_reserved b = 0
     then b\<lparr>tb_force_final := True\<rparr> else b)"

definition accountUnreservedResult :: "string \<Rightarrow> tool_budget \<Rightarrow> string \<times> tool_budget" where
  "accountUnreservedResult result b =
    (if trim_space result = [] then (result, b)
     else
       (let remaining = tb_max_context b - tb_context_used b - tb_context_reserved b in
        if remaining \<le> 0 then ([], b)
        else
          (let perNotice = max (terminalToolReserveTokens (tb_max_context b) div max (tb_max_calls b) 1) 8;
               bounded = boundTerminalToolResult result (min remaining perNotice)
           in (bounded, force_final_when_full (b\<lparr>tb_context_used := tb_context_used b + estimateTextTokens bounded\<rparr>)))))"

definition bounded_for_grant :: "string \<Rightarrow> string \<Rightarrow> tool_grant \<Rightarrow> string" where
  "bounded_for_grant toolName result grant =
    (let bounded = boundToolResultToTokens toolName result (tg_tokens grant)
     in if estimateTextTokens bounded > tg_tokens grant
        then toolContextBudgetBlockedResult toolName ''tool_result_too_large'' ''The tool result could not fit safely inside the remaining context budget.''
        else bounded)"

definition block_skills_when_full :: "tool_budget \<Rightarrow> tool_budget" where
  "block_skills_when_full b =
    (if tb_max_skill b - tb_skill_used b < minToolResultGrantTokens \<and> tb_skill_reserved b = 0
     then b\<lparr>tb_skill_blocked := True\<rparr> else b)"

definition finishToolResult :: "string \<Rightarrow> string \<Rightarrow> tool_grant \<Rightarrow> tool_budget \<Rightarrow> string \<times> tool_budget" where
  "finishToolResult toolName result grant b =
    (if tg_tokens grant \<le> 0 then (result, b)
     else
       (let bounded = bounded_for_grant toolName result grant;
            consumed = estimateTextTokens bounded;
            b1 = (release_grant grant b)\<lparr>tb_context_used := tb_context_used b + consumed\<rparr>;
            b2 = (if tg_skill grant then block_skills_when_full (b1\<lparr>tb_skill_used := tb_skill_used b + consumed\<rparr>) else b1)
        in (bounded, force_final_when_full b2)))"

end
