(* ===== verification/ToolLedger.thy ===== *)
theory ToolLedger
  imports ToolBudget "HOL-Library.Multiset"
begin

text \<open>
  What the tool budget promises.  A configuration is the budget with the grants that are out
  (ghost state: the grants the callers hold); a step is one operation of any caller, so a sequence
  of steps is an interleaving of parallel tool calls.
\<close>

section \<open>Lengths of encodings\<close>

lemma length_comma_sep: "length (comma_sep xs) = sum_list (map length xs) + (length xs - 1)"
  by (induction xs rule: comma_sep.induct) auto

lemma sum_list_sort_key: "sum_list (map f (sort_key k xs)) = (sum_list (map f xs) :: nat)"
  by (metis mset_map mset_sort sum_mset_sum_list)

lemma length_json_object: "length (json_object kvs) = sum_list (map (\<lambda>(k, v). length (json_str k) + length v + 1) kvs) + (length kvs - 1) + 2"
  by (simp add: json_object_def length_comma_sep json_field_def comp_def case_prod_unfold)

lemma length_json_obj:
  "length (json_enc (JObj kvs)) = sum_list (map (\<lambda>p. length (json_str (fst p)) + length (json_enc (snd p)) + 1) kvs) + (length kvs - 1) + 2"
  by (simp add: length_json_object sum_list_sort_key comp_def case_prod_unfold)

definition plain_char :: "char \<Rightarrow> bool" where
  "plain_char c \<longleftrightarrow> (let r = of_char c :: nat in 32 \<le> r \<and> r < 127 \<and> r \<notin> {34, 38, 60, 62, 92})"

lemma length_json_str_plain: "list_all plain_char s \<Longrightarrow> length (json_str s) = length s + 2"
proof -
  assume a: "list_all plain_char s"
  then have "is_ascii s" by (auto simp: is_ascii_def list_all_iff plain_char_def Let_def)
  then have "json_str s = [CHR 0x22] @ concat (map json_esc (map (\<lambda>c. (of_char c, [c])) s)) @ [CHR 0x22]"
    by (simp add: json_str_def segs_ascii)
  moreover have "concat (map json_esc (map (\<lambda>c. (of_char c, [c])) s)) = s"
    using a by (induction s) (auto simp: plain_char_def json_esc_def rune_error_def Let_def)
  ultimately show ?thesis by simp
qed

lemma estimate_mono: "length s \<le> length t \<Longrightarrow> estimateTextTokens s \<le> estimateTextTokens t"
  by (auto simp: estimateTextTokens_def estimateCharTokens_def intro: zdiv_mono1)

lemma estimate_nonneg [simp]: "0 \<le> estimateTextTokens s"
  by (simp add: estimateTextTokens_def estimateCharTokens_def div_int_pos_iff)

lemma estimate_le_512: "length s \<le> 1536 \<Longrightarrow> estimateTextTokens s \<le> 512"
  by (auto simp: estimateTextTokens_def estimateCharTokens_def)

text \<open>
  A tool name whose encoding leaves room for the refusal text in the smallest grant; the names of
  the program have at most 20 bytes.
\<close>

definition short_name :: "string \<Rightarrow> bool" where
  "short_name name \<longleftrightarrow> length (json_str name) \<le> 1200"

lemma blocked_result_fits:
  assumes "short_name name" "list_all plain_char reason" "list_all plain_char message" "length reason + length message \<le> 240"
  shows "estimateTextTokens (toolContextBudgetBlockedResult name reason message) \<le> 512"
proof (rule estimate_le_512)
  have "list_all plain_char ''ok''" "list_all plain_char ''tool''" "list_all plain_char ''blocked''"
    "list_all plain_char ''reason''" "list_all plain_char ''message''"
    by (simp_all add: plain_char_def)
  then show "length (toolContextBudgetBlockedResult name reason message) \<le> 1536"
    unfolding toolContextBudgetBlockedResult_def length_json_obj
    using assms by (simp add: length_json_str_plain short_name_def)
qed

section \<open>Results stay inside their grant\<close>

lemma longest_fit_fits:
  "estimateTextTokens best \<le> limit \<or> best = [] \<Longrightarrow> estimateTextTokens (longest_fit c limit low high best) \<le> limit \<or> longest_fit c limit low high best = []"
proof (induction c limit low high best rule: longest_fit.induct)
  case (1 c limit low high best)
  show ?case
    by (subst (1 2) longest_fit.simps) (use 1 in \<open>auto simp: Let_def\<close>)
qed

lemma paged_fits: "truncatePagedToolResult result limit = Some r \<Longrightarrow> estimateTextTokens r \<le> limit"
  using longest_fit_fits[of "[]" limit]
  by (auto simp: truncatePagedToolResult_def Let_def split: option.splits if_splits)

lemma shrink_fits: "shrink_skill_list scope start limit payload = (r, True) \<Longrightarrow> estimateTextTokens r \<le> limit"
proof (induction scope start limit payload rule: shrink_skill_list.induct)
  case (1 scope start limit payload)
  from "1.prems" show ?case
    by (subst (asm) shrink_skill_list.simps) (use "1.IH"[OF refl refl] in \<open>auto simp: Let_def split: if_splits\<close>)
qed

lemma skill_list_fits: "truncateSkillListToolResult result limit = Some r \<Longrightarrow> estimateTextTokens r \<le> limit"
  using shrink_fits by (fastforce simp: truncateSkillListToolResult_def Let_def prod_eq_iff split: option.splits if_splits)

lemma excerpt_fits:
  assumes "short_name name" "512 \<le> limit"
  shows "estimateTextTokens (truncateToolResultForContext name result n limit) \<le> limit"
proof -
  have b: "estimateTextTokens (toolContextBudgetBlockedResult name ''tool_result_too_large'' ''The tool result exceeded the remaining context budget.'') \<le> 512"
    by (rule blocked_result_fits[OF assms(1)]) (simp_all add: plain_char_def)
  have e: "estimateTextTokens [] \<le> limit" using assms(2) by (simp add: estimateTextTokens_def estimateCharTokens_def)
  define build where "build = (\<lambda>k. excerpt_payload name (result_ok result) n (str_of_runes (take (nat k) (runes (trim_space result)))))"
  have l: "estimateTextTokens (longest_fit build limit 0 h (build 0)) \<le> limit" if "estimateTextTokens (build 0) \<le> limit" for h
    using longest_fit_fits[of "build 0" limit build 0 h] that e by auto
  have t: "truncateToolResultForContext name result n limit =
    (if estimateTextTokens (build 0) > limit
     then toolContextBudgetBlockedResult name ''tool_result_too_large'' ''The tool result exceeded the remaining context budget.''
     else longest_fit build limit 0 (int (length (runes (trim_space result)))) (build 0))"
    unfolding truncateToolResultForContext_def Let_def build_def minToolResultGrantTokens_def using assms(2) by simp
  show ?thesis unfolding t using assms(2) b l by (cases "estimateTextTokens (build 0) > limit") auto
qed

lemma bounded_for_grant_fits:
  assumes "short_name name" "512 \<le> tg_tokens g"
  shows "estimateTextTokens (bounded_for_grant name result g) \<le> tg_tokens g"
proof -
  have "estimateTextTokens (toolContextBudgetBlockedResult name ''tool_result_too_large''
      ''The tool result could not fit safely inside the remaining context budget.'') \<le> 512"
    by (rule blocked_result_fits[OF assms(1)]) (simp_all add: plain_char_def)
  then show ?thesis using assms(2) by (simp add: bounded_for_grant_def Let_def)
qed

lemma terminal_result_fits: "1 \<le> limit \<Longrightarrow> estimateTextTokens (boundTerminalToolResult result limit) \<le> limit"
  by (simp add: boundTerminalToolResult_def Let_def) (simp add: estimateTextTokens_def estimateCharTokens_def)

section \<open>The ledger\<close>

type_synonym ledger = "tool_budget \<times> tool_grant list"

inductive ledger_step :: "ledger \<Rightarrow> ledger \<Rightarrow> bool" where
  granted: "prepareToolCall name args b = ((args', g, []), b') \<Longrightarrow> ledger_step (b, gs) (b', g # gs)"
| refused: "prepareToolCall name args b = ((args', g, refusal), b') \<Longrightarrow> refusal \<noteq> [] \<Longrightarrow> ledger_step (b, gs) (b', gs)"
| finished: "g \<in> set gs \<Longrightarrow> short_name name \<Longrightarrow> ledger_step (b, gs) (snd (finishToolResult name result g b), remove1 g gs)"
| canceled: "g \<in> set gs \<Longrightarrow> ledger_step (b, gs) (cancelToolGrant g releaseCall b, remove1 g gs)"
| noticed: "ledger_step (b, gs) (snd (accountUnreservedResult result b), gs)"
| uncounted: "ledger_step (b, gs) (b\<lparr>tb_actual_calls := tb_actual_calls b - 1\<rparr>, gs)"
| rewritten: "ledger_step (b, gs) (snd (BeforeModelRewriteState messages b), gs)"
| rewritten_agentic: "ledger_step (b, gs) (snd (BeforeAgenticRewriteState amessages b), gs)"

definition reserved_by :: "tool_grant list \<Rightarrow> int" where
  "reserved_by gs = sum_list (map tg_tokens gs)"

text \<open>
  The sums of the grants that are out are reserved, and what is used and reserved stays inside the
  limits.
\<close>

definition ledger_ok :: "ledger \<Rightarrow> bool" where
  "ledger_ok l = (let b = fst l; gs = snd l in
     (\<forall>g \<in> set gs. 512 \<le> tg_tokens g) \<and>
     tb_context_reserved b = reserved_by gs \<and> tb_skill_reserved b = reserved_by (filter tg_skill gs) \<and>
     0 \<le> tb_context_used b \<and> 0 \<le> tb_skill_used b \<and>
     tb_context_used b + tb_context_reserved b \<le> tb_max_context b \<and>
     tb_skill_used b + tb_skill_reserved b \<le> tb_max_skill b \<and> tb_actual_calls b \<le> tb_max_calls b)"

definition same_limits :: "tool_budget \<Rightarrow> tool_budget \<Rightarrow> bool" where
  "same_limits b b' \<longleftrightarrow> tb_max_rounds b' = tb_max_rounds b \<and> tb_max_calls b' = tb_max_calls b \<and> tb_max_result b' = tb_max_result b \<and>
     tb_max_context b' = tb_max_context b \<and> tb_max_skill b' = tb_max_skill b"

lemma reserved_by_simps [simp]: "reserved_by [] = 0" "reserved_by (g # gs) = tg_tokens g + reserved_by gs"
  by (simp_all add: reserved_by_def)

lemma reserved_by_nonneg: "\<forall>g \<in> set gs. 512 \<le> tg_tokens g \<Longrightarrow> 0 \<le> reserved_by gs"
  by (induction gs) auto

lemma reserved_by_remove1: "g \<in> set gs \<Longrightarrow> reserved_by (remove1 g gs) = reserved_by gs - tg_tokens g"
  by (induction gs) auto

lemma reserved_skill_remove1:
  "g \<in> set gs \<Longrightarrow> reserved_by (filter tg_skill (remove1 g gs)) =
    reserved_by (filter tg_skill gs) - (if tg_skill g then tg_tokens g else 0)"
  by (cases "tg_skill g") (simp_all add: filter_remove1 reserved_by_remove1 remove1_idem)

lemma set_remove1_mem: "x \<in> set (remove1 y xs) \<Longrightarrow> x \<in> set xs"
  by (rule subsetD[OF set_remove1_subset])

lemma reserve_le: "0 \<le> terminalToolReserveTokens m"
  by (simp add: terminalToolReserveTokens_def div_int_pos_iff)

lemma force_final_when_full_simps [simp]:
  "same_limits b (force_final_when_full c) = same_limits b c"
  "tb_context_used (force_final_when_full c) = tb_context_used c" "tb_context_reserved (force_final_when_full c) = tb_context_reserved c"
  "tb_skill_used (force_final_when_full c) = tb_skill_used c" "tb_skill_reserved (force_final_when_full c) = tb_skill_reserved c"
  "tb_actual_calls (force_final_when_full c) = tb_actual_calls c" "tb_max_context (force_final_when_full c) = tb_max_context c"
  "tb_max_skill (force_final_when_full c) = tb_max_skill c" "tb_max_calls (force_final_when_full c) = tb_max_calls c"
  by (simp_all add: force_final_when_full_def same_limits_def)

lemma block_skills_when_full_simps [simp]:
  "same_limits b (block_skills_when_full c) = same_limits b c"
  "tb_context_used (block_skills_when_full c) = tb_context_used c" "tb_context_reserved (block_skills_when_full c) = tb_context_reserved c"
  "tb_skill_used (block_skills_when_full c) = tb_skill_used c" "tb_skill_reserved (block_skills_when_full c) = tb_skill_reserved c"
  "tb_actual_calls (block_skills_when_full c) = tb_actual_calls c" "tb_max_context (block_skills_when_full c) = tb_max_context c"
  "tb_max_skill (block_skills_when_full c) = tb_max_skill c" "tb_max_calls (block_skills_when_full c) = tb_max_calls c"
  "tb_force_final (block_skills_when_full c) = tb_force_final c"
  by (simp_all add: block_skills_when_full_def same_limits_def)


lemma ledger_okI:
  assumes "\<forall>g \<in> set gs. 512 \<le> tg_tokens g" "tb_context_reserved b = reserved_by gs"
    "tb_skill_reserved b = reserved_by (filter tg_skill gs)" "0 \<le> tb_context_used b" "0 \<le> tb_skill_used b"
    "tb_context_used b + tb_context_reserved b \<le> tb_max_context b" "tb_skill_used b + tb_skill_reserved b \<le> tb_max_skill b"
    "tb_actual_calls b \<le> tb_max_calls b"
  shows "ledger_ok (b, gs)"
  using assms by (simp add: ledger_ok_def)

lemma ledger_okD:
  assumes "ledger_ok (b, gs)"
  shows "\<forall>g \<in> set gs. 512 \<le> tg_tokens g" "tb_context_reserved b = reserved_by gs"
    "tb_skill_reserved b = reserved_by (filter tg_skill gs)" "0 \<le> tb_context_used b" "0 \<le> tb_skill_used b"
    "tb_context_used b + tb_context_reserved b \<le> tb_max_context b" "tb_skill_used b + tb_skill_reserved b \<le> tb_max_skill b"
    "tb_actual_calls b \<le> tb_max_calls b"
  using assms by (simp_all add: ledger_ok_def Let_def)

text \<open>What a preparation does: it grants within every limit, or refuses and changes only flags.\<close>

lemma blocked_not_Nil [simp]: "toolBudgetBlockedResult n m \<noteq> []" "toolContextBudgetBlockedResult n r m \<noteq> []"
  by (simp_all add: toolBudgetBlockedResult_def toolContextBudgetBlockedResult_def del: json_enc.simps)

lemma prepare_cases:
  assumes "prepareToolCall name args b = ((args', g, refusal), b')"
  obtains (grant) "refusal = []" "\<not> tb_force_final b" "tb_actual_calls b < tb_max_calls b" "512 \<le> grant_limit b (isSkillTool name)"
      "g = \<lparr>tg_tokens = grant_limit b (isSkillTool name), tg_skill = isSkillTool name\<rparr>"
      "b' = b\<lparr>tb_context_reserved := tb_context_reserved b + tg_tokens g,
          tb_skill_reserved := (if isSkillTool name then tb_skill_reserved b + tg_tokens g else tb_skill_reserved b),
          tb_actual_calls := tb_actual_calls b + 1\<rparr>"
  | (refuse) f k where "refusal \<noteq> []" "g = no_grant" "b' = b\<lparr>tb_force_final := f, tb_skill_blocked := k\<rparr>"
      "tb_force_final b \<longrightarrow> f" "tb_skill_blocked b \<longrightarrow> k"
proof (cases "refusal = []")
  case True
  then show ?thesis using assms
    by (intro grant) (auto simp: prepareToolCall_def Let_def minToolResultGrantTokens_def split: if_splits)
next
  case False
  have "b' = b\<lparr>tb_force_final := tb_force_final b', tb_skill_blocked := tb_skill_blocked b'\<rparr> \<and> g = no_grant \<and>
      (tb_force_final b \<longrightarrow> tb_force_final b') \<and> (tb_skill_blocked b \<longrightarrow> tb_skill_blocked b')"
    using False assms by (auto simp: prepareToolCall_def Let_def split: if_splits)
  then show ?thesis using False by (intro refuse) auto
qed

lemma grant_limit_le:
  "grant_limit b skill \<le> tb_max_result b" "grant_limit b skill + tb_context_used b + tb_context_reserved b \<le> usable_tokens b"
  "skill \<Longrightarrow> grant_limit b skill + tb_skill_used b + tb_skill_reserved b \<le> tb_max_skill b"
  by (auto simp: grant_limit_def Let_def)

lemma granted_ok:
  assumes ok: "ledger_ok (b, gs)" and p: "prepareToolCall name args b = ((args', g, []), b')"
  shows "ledger_ok (b', g # gs)"
  using p
proof (cases rule: prepare_cases)
  case grant
  note D = ledger_okD[OF ok]
  have u: "usable_tokens b \<le> tb_max_context b" using reserve_le by (simp add: usable_tokens_def)
  have "grant_limit b (isSkillTool name) + tb_context_used b + tb_context_reserved b \<le> tb_max_context b"
    using grant_limit_le(2)[of b] u by (rule order_trans)
  then show ?thesis using grant D grant_limit_le(3)[of "isSkillTool name" b]
    by (intro ledger_okI) auto
qed simp

lemma refused_ok:
  assumes "ledger_ok (b, gs)" "prepareToolCall name args b = ((args', g, refusal), b')" "refusal \<noteq> []"
  shows "ledger_ok (b', gs)"
  using assms(2)
proof (cases rule: prepare_cases)
  case (refuse f k)
  then show ?thesis using assms(1) by (simp add: ledger_ok_def)
qed (use assms in simp)

lemma release_reserved:
  assumes ok: "ledger_ok (b, gs)" and g: "g \<in> set gs"
  shows "tb_context_reserved (release_grant g b) = reserved_by (remove1 g gs)"
    "tb_skill_reserved (release_grant g b) = reserved_by (filter tg_skill (remove1 g gs))"
proof -
  note D = ledger_okD[OF ok]
  have n: "0 \<le> reserved_by (remove1 g gs)" "0 \<le> reserved_by (filter tg_skill (remove1 g gs))"
    using D(1) by (intro reserved_by_nonneg, auto dest: set_remove1_mem)+
  show "tb_context_reserved (release_grant g b) = reserved_by (remove1 g gs)"
    using D(2) g n(1) by (simp add: release_grant_def reserved_by_remove1)
  show "tb_skill_reserved (release_grant g b) = reserved_by (filter tg_skill (remove1 g gs))"
    using D(3) g n(2) by (cases "tg_skill g") (simp_all add: release_grant_def reserved_skill_remove1)
qed

lemma canceled_ok:
  assumes ok: "ledger_ok (b, gs)" and g: "g \<in> set gs"
  shows "ledger_ok (cancelToolGrant g releaseCall b, remove1 g gs)"
proof -
  note D = ledger_okD[OF ok] and R = release_reserved[OF ok g]
  have t: "512 \<le> tg_tokens g" using D(1) g by blast
  have r: "tb_context_reserved (release_grant g b) \<le> tb_context_reserved b" "tb_skill_reserved (release_grant g b) \<le> tb_skill_reserved b"
    using R D(2,3) t g by (auto simp: reserved_by_remove1 reserved_skill_remove1)
  show ?thesis
    using D R r t by (intro ledger_okI) (auto simp: cancelToolGrant_def release_grant_def dest: set_remove1_mem)
qed

lemma finished_ok:
  assumes ok: "ledger_ok (b, gs)" and g: "g \<in> set gs" and n: "short_name name"
  shows "ledger_ok (snd (finishToolResult name result g b), remove1 g gs)"
proof -
  note D = ledger_okD[OF ok] and R = release_reserved[OF ok g]
  have t: "512 \<le> tg_tokens g" using D(1) g by blast
  have c: "estimateTextTokens (bounded_for_grant name result g) \<le> tg_tokens g" by (rule bounded_for_grant_fits[OF n t])
  have r: "tb_context_reserved (release_grant g b) = tb_context_reserved b - tg_tokens g"
    "tb_skill_reserved (release_grant g b) = (if tg_skill g then tb_skill_reserved b - tg_tokens g else tb_skill_reserved b)"
    using R D(2,3) g by (auto simp: reserved_by_remove1 reserved_skill_remove1)
  have s: "tb_max_context (release_grant g b) = tb_max_context b" "tb_max_skill (release_grant g b) = tb_max_skill b"
    "tb_max_calls (release_grant g b) = tb_max_calls b" "tb_actual_calls (release_grant g b) = tb_actual_calls b"
    "tb_skill_used (release_grant g b) = tb_skill_used b"
    by (simp_all add: release_grant_def)
  show ?thesis
    using D R r t c by (intro ledger_okI) (auto simp: finishToolResult_def Let_def s dest: set_remove1_mem)
qed


lemma noticed_ok:
  assumes ok: "ledger_ok (b, gs)"
  shows "ledger_ok (snd (accountUnreservedResult result b), gs)"
proof (cases "trim_space result = [] \<or> tb_max_context b - tb_context_used b - tb_context_reserved b \<le> 0")
  case True
  then show ?thesis using ok by (auto simp: accountUnreservedResult_def)
next
  case False
  note D = ledger_okD[OF ok]
  define limit where "limit = min (tb_max_context b - tb_context_used b - tb_context_reserved b)
    (max (terminalToolReserveTokens (tb_max_context b) div max (tb_max_calls b) 1) 8)"
  have "1 \<le> limit" using False by (auto simp: limit_def)
  then have t: "estimateTextTokens (boundTerminalToolResult result limit) \<le> limit" by (rule terminal_result_fits)
  have e: "snd (accountUnreservedResult result b) =
    force_final_when_full (b\<lparr>tb_context_used := tb_context_used b + estimateTextTokens (boundTerminalToolResult result limit)\<rparr>)"
    using False by (simp add: accountUnreservedResult_def Let_def limit_def)
  have "limit \<le> tb_max_context b - tb_context_used b - tb_context_reserved b" by (simp add: limit_def)
  with t have u: "tb_context_used b + estimateTextTokens (boundTerminalToolResult result limit) + tb_context_reserved b \<le> tb_max_context b"
    by linarith
  show ?thesis unfolding e using D u by (intro ledger_okI) auto
qed

lemma rewrite_fields:
  "ledger_ok (snd (BeforeModelRewriteState m b), gs) = ledger_ok (b, gs)"
  "ledger_ok (snd (BeforeAgenticRewriteState am b), gs) = ledger_ok (b, gs)"
  by (simp_all add: BeforeModelRewriteState_def BeforeAgenticRewriteState_def set_baseline_def ledger_ok_def Let_def split: prod.splits)

lemma ledger_step_ok: "ledger_step l l' \<Longrightarrow> ledger_ok l \<Longrightarrow> ledger_ok l'"
proof (induction rule: ledger_step.induct)
  case (uncounted b gs)
  then show ?case by (simp add: ledger_ok_def)
qed (simp_all add: granted_ok refused_ok finished_ok canceled_ok noticed_ok rewrite_fields)

lemma ledger_steps_ok: "ledger_step\<^sup>*\<^sup>* l l' \<Longrightarrow> ledger_ok l \<Longrightarrow> ledger_ok l'"
  by (induction rule: rtranclp_induct) (auto intro: ledger_step_ok)

lemma new_budget_ok: "ledger_ok (newToolBudgetMiddleware w, [])"
proof -
  have "0 \<le> context_tokens v" if "0 < v" for v
    using that by (simp add: context_tokens_def Let_def minToolContextTokens_def maxToolContextTokens_def div_int_pos_iff)
  then show ?thesis
    by (intro ledger_okI) (auto simp: newToolBudgetMiddleware_def Let_def div_int_pos_iff split: option.splits)
qed

lemma step_limits: "ledger_step l l' \<Longrightarrow> same_limits (fst l) (fst l')"
proof (induction rule: ledger_step.induct)
  case (granted name args b args' g b' gs)
  then show ?case by (cases rule: prepare_cases) (simp_all add: same_limits_def)
next
  case (refused name args b args' g refusal b' gs)
  from refused(1) show ?case by (cases rule: prepare_cases) (simp_all add: same_limits_def)
qed (simp_all add: finishToolResult_def cancelToolGrant_def release_grant_def accountUnreservedResult_def Let_def
    BeforeModelRewriteState_def BeforeAgenticRewriteState_def set_baseline_def same_limits_def
    force_final_when_full_def block_skills_when_full_def split: prod.splits)

lemma same_limits_trans: "same_limits a b \<Longrightarrow> same_limits b c \<Longrightarrow> same_limits a c"
  by (simp add: same_limits_def)

lemma steps_limits: "ledger_step\<^sup>*\<^sup>* l l' \<Longrightarrow> same_limits (fst l) (fst l')"
proof (induction rule: rtranclp_induct)
  case (step y z)
  show ?case by (rule same_limits_trans[OF step.IH step_limits[OF step.hyps(2)]])
qed (simp add: same_limits_def)

lemma new_budget_limits: "tb_max_context (newToolBudgetMiddleware w) \<le> 32000" "tb_max_skill (newToolBudgetMiddleware w) \<le> 12000"
  "tb_max_calls (newToolBudgetMiddleware w) = 24" "2 * tb_max_skill (newToolBudgetMiddleware w) \<le> tb_max_context (newToolBudgetMiddleware w)"
proof -
  have c: "context_tokens v \<le> 32000" for v by (simp add: context_tokens_def Let_def maxToolContextTokens_def)
  have d: "2 * (c div 2) \<le> c" "12000 < c div 2 \<Longrightarrow> 24000 \<le> c" for c :: int by simp_all
  show "tb_max_context (newToolBudgetMiddleware w) \<le> 32000" "tb_max_skill (newToolBudgetMiddleware w) \<le> 12000"
    "tb_max_calls (newToolBudgetMiddleware w) = 24" "2 * tb_max_skill (newToolBudgetMiddleware w) \<le> tb_max_context (newToolBudgetMiddleware w)"
    unfolding newToolBudgetMiddleware_def Let_def by (simp_all add: c d)
qed

text \<open>
  C16.
  However the parallel tool calls of a run interleave, the tool results and the open grants together
  never exceed the context share of the run (at most 32000 tokens), skills never exceed half of it
  (at most 12000), at most 24 calls are counted, and exactly the grants that are out are reserved.
\<close>

theorem tool_context_bounded:
  assumes "ledger_step\<^sup>*\<^sup>* (newToolBudgetMiddleware window, []) (b, gs)"
  shows "tb_context_used b + tb_context_reserved b \<le> tb_max_context b \<and> tb_max_context b \<le> 32000 \<and>
    tb_skill_used b + tb_skill_reserved b \<le> tb_max_skill b \<and> 2 * tb_max_skill b \<le> tb_max_context b \<and>
    tb_actual_calls b \<le> 24 \<and> tb_context_reserved b = sum_list (map tg_tokens gs)"
proof -
  have "ledger_ok (b, gs)" using ledger_steps_ok[OF assms new_budget_ok] .
  moreover have "same_limits (newToolBudgetMiddleware window) b" using steps_limits[OF assms] by simp
  ultimately show ?thesis
    using new_budget_limits[of window] by (auto simp: ledger_ok_def same_limits_def reserved_by_def Let_def)
qed


lemma demo_prepare:
  "prepareToolCall ''file_list'' [] (newToolBudgetMiddleware None) =
    ((([]), \<lparr>tg_tokens = 4000, tg_skill = False\<rparr>, []),
     (newToolBudgetMiddleware None)\<lparr>tb_context_reserved := 4000, tb_actual_calls := 1\<rparr>)"
  by (simp add: prepareToolCall_def newToolBudgetMiddleware_def isSkillTool_def trim_space_def trim_ends_def dec_more_def
      grant_limit_def usable_tokens_def context_tokens_def result_tokens_def terminalToolReserveTokens_def Let_def
      minToolContextTokens_def maxToolContextTokens_def minToolResultGrantTokens_def boundPagedToolArguments_def)

lemma tool_context_bounded_witness:
  "tb_context_used (snd (finishToolResult ''file_list'' ''ok'' \<lparr>tg_tokens = 4000, tg_skill = False\<rparr>
     ((newToolBudgetMiddleware None)\<lparr>tb_context_reserved := 4000, tb_actual_calls := 1\<rparr>))) \<le> 32000"
proof -
  let ?g = "\<lparr>tg_tokens = 4000, tg_skill = False\<rparr>"
  let ?b = "(newToolBudgetMiddleware None)\<lparr>tb_context_reserved := 4000, tb_actual_calls := 1\<rparr>"
  have n: "short_name ''file_list''"
    unfolding short_name_def by (subst length_json_str_plain) (simp_all add: plain_char_def)
  have "ledger_step (newToolBudgetMiddleware None, []) (?b, [?g])"
    by (rule ledger_step.granted[OF demo_prepare])
  moreover have "ledger_step (?b, [?g]) (snd (finishToolResult ''file_list'' ''ok'' ?g ?b), remove1 ?g [?g])"
    by (rule ledger_step.finished[OF _ n]) simp
  ultimately have s: "ledger_step\<^sup>*\<^sup>* (newToolBudgetMiddleware None, []) (snd (finishToolResult ''file_list'' ''ok'' ?g ?b), remove1 ?g [?g])"
    by (rule rtranclp.rtrancl_into_rtrancl[OF r_into_rtranclp])
  have "0 \<le> tb_context_reserved (snd (finishToolResult ''file_list'' ''ok'' ?g ?b))"
    by (simp add: finishToolResult_def release_grant_def Let_def)
  then show ?thesis using tool_context_bounded[OF s] by linarith
qed

section \<open>A forced final answer is final\<close>

lemma forced_step: "ledger_step l l' \<Longrightarrow> tb_force_final (fst l) \<Longrightarrow> tb_force_final (fst l') \<and> set (snd l') \<subseteq> set (snd l)"
proof (induction rule: ledger_step.induct)
  case (granted name args b args' g b' gs)
  then show ?case by (cases rule: prepare_cases) simp_all
next
  case (refused name args b args' g refusal b' gs)
  from refused(1) show ?case by (cases rule: prepare_cases) (use refused in auto)
qed (use set_remove1_mem in \<open>auto simp: finishToolResult_def cancelToolGrant_def release_grant_def accountUnreservedResult_def Let_def
    BeforeModelRewriteState_def BeforeAgenticRewriteState_def set_baseline_def
    force_final_when_full_def block_skills_when_full_def split: prod.splits if_splits\<close>)

text \<open>
  Once the final answer is forced it stays forced: whatever happens afterwards, no tool call gets a
  grant again (the refusal changes nothing), every model call is made with tools forbidden, and the
  open grants can only become fewer.
\<close>

theorem forced_final_is_final:
  assumes "tb_force_final b" "ledger_step\<^sup>*\<^sup>* (b, gs) (b', gs')"
  shows "set gs' \<subseteq> set gs \<and> WrapModel forbidden b' opts = opts @ [forbidden] \<and>
    (\<exists>refusal. prepareToolCall name args b' = ((args, no_grant, refusal), b') \<and> refusal \<noteq> [])"
proof -
  have "tb_force_final (fst (b', gs')) \<and> set (snd (b', gs')) \<subseteq> set (snd (b, gs))"
    using assms(2)
  proof (induction rule: rtranclp_induct)
    case base then show ?case using assms(1) by simp
  next
    case (step y z) then show ?case using forced_step[OF step(2)] by blast
  qed
  then show ?thesis by (simp add: WrapModel_def prepareToolCall_def Let_def)
qed

lemma forced_final_is_final_witness:
  "WrapModel (0::int) (snd (accountUnreservedResult ''x'' ((newToolBudgetMiddleware None)\<lparr>tb_force_final := True\<rparr>))) [1, 2] = [1, 2, 0]"
proof -
  have "ledger_step\<^sup>*\<^sup>* ((newToolBudgetMiddleware None)\<lparr>tb_force_final := True\<rparr>, [])
     (snd (accountUnreservedResult ''x'' ((newToolBudgetMiddleware None)\<lparr>tb_force_final := True\<rparr>)), [])"
    by (rule r_into_rtranclp) (rule ledger_step.noticed)
  from forced_final_is_final[OF _ this, of "0::int" "[1, 2]"] show ?thesis by simp
qed

section \<open>No call waits for nothing\<close>

text \<open>
  C17.
  A call is asked to wait for parallel calls only while one of them holds a grant.  With no grant
  out, every call either gets one or settles the budget for good: the run goes to its final answer
  or, for a skill, skills stay blocked.
\<close>

theorem no_call_waits_for_nothing:
  assumes "ledger_step\<^sup>*\<^sup>* (newToolBudgetMiddleware window, []) (b, [])" "prepareToolCall name args b = ((args', g, refusal), b')"
  shows "refusal = [] \<and> 512 \<le> tg_tokens g \<or> tb_force_final b' \<or> isSkillTool name \<and> tb_skill_blocked b'"
proof -
  have "ledger_ok (b, [])" using ledger_steps_ok[OF assms(1) new_budget_ok] .
  then have r: "tb_context_reserved b = 0" "tb_skill_reserved b = 0" by (simp_all add: ledger_ok_def Let_def)
  show ?thesis
    using assms(2) r by (auto simp: prepareToolCall_def Let_def minToolResultGrantTokens_def split: if_splits)
qed

lemma no_call_waits_for_nothing_witness:
  "512 \<le> (4000::int) \<or> tb_force_final ((newToolBudgetMiddleware None)\<lparr>tb_context_reserved := 4000, tb_actual_calls := 1\<rparr>) \<or>
    isSkillTool ''file_list''"
  using no_call_waits_for_nothing[OF rtranclp.rtrancl_refl demo_prepare] by auto


section \<open>The excerpt of an oversized result\<close>

lemma longest_fit_is_longest:
  assumes "\<And>i j. i \<le> j \<Longrightarrow> estimateTextTokens (c i) \<le> estimateTextTokens (c j)"
    and "low \<le> high + 1" "best = c (low - 1)" "estimateTextTokens best \<le> limit"
    and "estimateTextTokens (c (high + 1)) > limit \<or> high = last_n"
  shows "\<exists>n. longest_fit c limit low high best = c n \<and> low - 1 \<le> n \<and> n \<le> high \<and> estimateTextTokens (c n) \<le> limit \<and>
    (n = last_n \<or> (\<forall>k > n. estimateTextTokens (c k) > limit))"
  using assms
proof (induction c limit low high best rule: longest_fit.induct)
  case (1 c limit low high best)
  show ?case
  proof (cases "low \<le> high")
    case False
    then have h: "high = low - 1" using "1.prems"(2) by simp
    have "estimateTextTokens (c k) > limit" if "high \<noteq> last_n" "k > high" for k
      using "1.prems"(1)[of "high + 1" k] "1.prems"(5) that by linarith
    then show ?thesis using False "1.prems"(3,4) h by (subst longest_fit.simps) auto
  next
    case True
    define mid where "mid = low + (high - low) div 2"
    have m: "low \<le> mid" "mid \<le> high" using True by (auto simp: mid_def)
    show ?thesis
    proof (cases "estimateTextTokens (c mid) \<le> limit")
      case fits: True
      have "longest_fit c limit low high best = longest_fit c limit (mid + 1) high (c mid)"
        using True fits by (subst longest_fit.simps) (simp add: Let_def mid_def)
      moreover have "\<exists>n. longest_fit c limit (mid + 1) high (c mid) = c n \<and> mid + 1 - 1 \<le> n \<and> n \<le> high \<and>
          estimateTextTokens (c n) \<le> limit \<and> (n = last_n \<or> (\<forall>k > n. estimateTextTokens (c k) > limit))"
        by (rule "1.IH"(1)[OF True mid_def fits]) (use "1.prems" m fits in auto)
      ultimately show ?thesis using m by auto
    next
      case False
      have "longest_fit c limit low high best = longest_fit c limit low (mid - 1) best"
        using True False by (subst longest_fit.simps) (simp add: Let_def mid_def)
      moreover have "\<exists>n. longest_fit c limit low (mid - 1) best = c n \<and> low - 1 \<le> n \<and> n \<le> mid - 1 \<and>
          estimateTextTokens (c n) \<le> limit \<and> (n = last_n \<or> (\<forall>k > n. estimateTextTokens (c k) > limit))"
        by (rule "1.IH"(2)[OF True mid_def False]) (use "1.prems" m False in auto)
      ultimately show ?thesis using m by auto
    qed
  qed
qed

lemma json_str_runes_mono:
  assumes "list_all valid_rune rs" "m \<le> n"
  shows "length (json_str (str_of_runes (take m rs))) \<le> length (json_str (str_of_runes (take n rs)))"
proof -
  have v: "list_all valid_rune (take k rs)" for k using assms(1) by (auto simp: list_all_iff dest: in_set_takeD)
  have s: "segs (str_of_runes (take k rs)) = map (\<lambda>r. (r, map char_of (enc_rune r))) (take k rs)" for k
    using segs_str_of_runes[OF v, of k "[]"] by simp
  have "take n rs = take m rs @ take (n - m) (drop m rs)" using assms(2) by (metis le_add_diff_inverse take_add)
  then show ?thesis unfolding json_str_def s by simp
qed

lemma excerpt_length:
  "length (excerpt_payload name ok n content) = length (json_str content) + length (excerpt_payload name ok n []) - 2"
  by (simp only: excerpt_payload_def length_json_obj) (simp add: json_str_def)

lemma excerpt_mono:
  assumes "list_all valid_rune rs" "i \<le> j"
  shows "estimateTextTokens (excerpt_payload name ok n (str_of_runes (take (nat i) rs))) \<le>
    estimateTextTokens (excerpt_payload name ok n (str_of_runes (take (nat j) rs)))"
proof (rule estimate_mono)
  have "nat i \<le> nat j" using assms(2) by simp
  from json_str_runes_mono[OF assms(1) this] show "length (excerpt_payload name ok n (str_of_runes (take (nat i) rs))) \<le>
      length (excerpt_payload name ok n (str_of_runes (take (nat j) rs)))"
    unfolding excerpt_length[of name ok n "str_of_runes (take (nat i) rs)"] excerpt_length[of name ok n "str_of_runes (take (nat j) rs)"]
    by simp
qed

text \<open>
  C18.
  An oversized tool result is cut to the longest excerpt that fits: the text handed to the model is
  the envelope around the first \<open>n\<close> characters of the result, it fits the limit, and either nothing
  of the result is missing or no longer excerpt would fit.
\<close>

theorem excerpt_is_longest:
  assumes "512 \<le> limit"
    "estimateTextTokens (excerpt_payload name (result_ok result) tokens []) \<le> limit"
  shows "\<exists>n. let text = runes (trim_space result); excerpt = (\<lambda>k. excerpt_payload name (result_ok result) tokens (str_of_runes (take k text)))
    in truncateToolResultForContext name result tokens limit = excerpt n \<and> estimateTextTokens (excerpt n) \<le> limit \<and>
      (n = length text \<or> (\<forall>k > n. estimateTextTokens (excerpt k) > limit))"
proof -
  define text0 where "text0 = runes (trim_space result)"
  define c where "c = (\<lambda>k::int. excerpt_payload name (result_ok result) tokens (str_of_runes (take (nat k) text0)))"
  have v: "list_all valid_rune text0" unfolding text0_def by (rule runes_valid)
  have t: "truncateToolResultForContext name result tokens limit = longest_fit c limit 0 (int (length text0)) (c 0)"
    using assms by (simp add: truncateToolResultForContext_def Let_def minToolResultGrantTokens_def c_def text0_def)
  have "c (- 1) = c 0" by (simp add: c_def)
  then obtain n where n: "longest_fit c limit 0 (int (length text0)) (c 0) = c n" "n \<le> int (length text0)"
    "estimateTextTokens (c n) \<le> limit" "n = int (length text0) \<or> (\<forall>k > n. estimateTextTokens (c k) > limit)" "- 1 \<le> n"
    using longest_fit_is_longest[of c 0 "int (length text0)" "c 0" limit "int (length text0)"] assms(2)
    by (auto simp: c_def excerpt_mono[OF v])
  have "estimateTextTokens (excerpt_payload name (result_ok result) tokens (str_of_runes (take k text0))) > limit"
    if "n \<noteq> int (length text0)" "k > nat n" for k
  proof -
    have "int k > n" using that(2) by linarith
    then have "estimateTextTokens (c (int k)) > limit" using n(4) that(1) by blast
    then show ?thesis by (simp add: c_def)
  qed
  then show ?thesis
    unfolding text0_def[symmetric] Let_def t n(1)
    by (intro exI[of _ "nat n"]) (use n(2,3) in \<open>auto simp: c_def\<close>)
qed


lemma excerpt_is_longest_witness:
  "\<exists>n. truncateToolResultForContext ''t'' ''abc'' 1 512 =
    excerpt_payload ''t'' (result_ok ''abc'') 1 (str_of_runes (take n (runes (trim_space ''abc''))))"
proof -
  have j: "list_all plain_char ''ok''" "list_all plain_char ''tool''" "list_all plain_char ''truncated''" "list_all plain_char ''t''"
    "list_all plain_char ''original_context_tokens''" "list_all plain_char ''content''" "list_all plain_char ''message''"
    "list_all plain_char ''The tool result exceeded the context budget. Only a bounded excerpt is available; do not claim omitted content was read.''"
    "list_all plain_char []"
    by (simp_all add: plain_char_def)
  have "length (excerpt_payload ''t'' (result_ok ''abc'') 1 []) \<le> 1536"
    unfolding excerpt_payload_def length_json_obj
    by (simp add: length_json_str_plain[OF j(1)] length_json_str_plain[OF j(2)] length_json_str_plain[OF j(3)] length_json_str_plain[OF j(4)]
        length_json_str_plain[OF j(5)] length_json_str_plain[OF j(6)] length_json_str_plain[OF j(7)] length_json_str_plain[OF j(8)]
        length_json_str_plain[OF j(9), simplified] itoa_def nat_digits.simps)
  from estimate_le_512[OF this] show ?thesis using excerpt_is_longest[of 512 "''t''" "''abc''" 1] by (auto simp: Let_def)
qed

section \<open>A skill blocked by other tools\<close>

text \<open>
  A skill call made while other calls hold the whole context share is not asked to wait: with no
  skill grant out it blocks the skills for good, although nothing of the skill share is used.  Three
  parallel calls in a window of 16000 tokens are enough; once they are done and gave nothing back,
  both shares are untouched and skills still refused.
\<close>

definition small_budget :: "int \<Rightarrow> int \<Rightarrow> bool \<Rightarrow> tool_budget" where
  "small_budget reserved calls blocked =
    \<lparr>tb_max_rounds = 8, tb_max_calls = 24, tb_max_result = 512, tb_max_context = 2048, tb_max_skill = 1024,
     tb_initialized = False, tb_baseline = 0, tb_note_added = False, tb_force_final = False, tb_actual_calls = calls,
     tb_context_used = 0, tb_context_reserved = reserved, tb_skill_used = 0, tb_skill_reserved = 0, tb_skill_blocked = blocked\<rparr>"

lemma small_budget_new: "newToolBudgetMiddleware (Some 16000) = small_budget 0 0 False"
  by (simp add: newToolBudgetMiddleware_def small_budget_def context_tokens_def result_tokens_def terminalToolReserveTokens_def
      minToolContextTokens_def maxToolContextTokens_def minToolResultGrantTokens_def)

lemma small_budget_grant:
  "r \<le> 1024 \<Longrightarrow> n < 24 \<Longrightarrow> prepareToolCall ''file_list'' [] (small_budget r n False) =
    (([], \<lparr>tg_tokens = 512, tg_skill = False\<rparr>, []), small_budget (r + 512) (n + 1) False)"
  by (simp add: prepareToolCall_def small_budget_def isSkillTool_def trim_space_def trim_ends_def dec_more_def
      grant_limit_def usable_tokens_def terminalToolReserveTokens_def Let_def minToolResultGrantTokens_def boundPagedToolArguments_def)

lemma small_budget_skill:
  "\<exists>refusal. refusal \<noteq> [] \<and> prepareToolCall ''skill_read'' [] (small_budget 1536 3 False) = (([], no_grant, refusal), small_budget 1536 3 True)"
  by (simp add: prepareToolCall_def small_budget_def isSkillTool_def trim_space_def trim_ends_def dec_more_def
      grant_limit_def usable_tokens_def terminalToolReserveTokens_def Let_def minToolResultGrantTokens_def)

lemma small_budget_cancel:
  "512 \<le> r \<Longrightarrow> cancelToolGrant \<lparr>tg_tokens = 512, tg_skill = False\<rparr> False (small_budget r n k) = small_budget (r - 512) n k"
  by (simp add: cancelToolGrant_def release_grant_def small_budget_def)

lemma skill_blocked_by_other_tools:
  "\<exists>b. ledger_step\<^sup>*\<^sup>* (newToolBudgetMiddleware (Some 16000), []) (b, []) \<and>
    tb_context_used b = 0 \<and> tb_skill_used b = 0 \<and> tb_max_skill b = 1024 \<and> tb_skill_blocked b"
proof (intro exI conjI)
  let ?g = "\<lparr>tg_tokens = 512, tg_skill = False\<rparr>"
  let ?s = "\<lambda>r n k gs. (small_budget r n k, gs)"
  obtain refusal where r: "refusal \<noteq> []"
    "prepareToolCall ''skill_read'' [] (small_budget 1536 3 False) = (([], no_grant, refusal), small_budget 1536 3 True)"
    using small_budget_skill by blast
  have c: "ledger_step (small_budget r 3 True, ?g # gs) (small_budget (r - 512) 3 True, gs)" if "512 \<le> r" for r gs
    using ledger_step.canceled[of ?g "?g # gs" "small_budget r 3 True" False] small_budget_cancel[OF that] by simp
  have "ledger_step (?s 0 0 False []) (?s 512 1 False [?g])" "ledger_step (?s 512 1 False [?g]) (?s 1024 2 False [?g, ?g])"
    "ledger_step (?s 1024 2 False [?g, ?g]) (?s 1536 3 False [?g, ?g, ?g])"
    using ledger_step.granted[OF small_budget_grant[of 0 0], of "[]"] ledger_step.granted[OF small_budget_grant[of 512 1], of "[?g]"]
      ledger_step.granted[OF small_budget_grant[of 1024 2], of "[?g, ?g]"] by simp_all
  moreover have "ledger_step (?s 1536 3 False [?g, ?g, ?g]) (?s 1536 3 True [?g, ?g, ?g])"
    by (rule ledger_step.refused[OF r(2,1)])
  moreover have "ledger_step (?s 1536 3 True [?g, ?g, ?g]) (?s 1024 3 True [?g, ?g])"
    "ledger_step (?s 1024 3 True [?g, ?g]) (?s 512 3 True [?g])" "ledger_step (?s 512 3 True [?g]) (?s 0 3 True [])"
    using c[of 1536 "[?g, ?g]"] c[of 1024 "[?g]"] c[of 512 "[]"] by simp_all
  ultimately show "ledger_step\<^sup>*\<^sup>* (newToolBudgetMiddleware (Some 16000), []) (?s 0 3 True [])"
    unfolding small_budget_new by (meson rtranclp.intros)
qed (simp_all add: small_budget_def)

end
