(* ===== verification/FileStore.thy ===== *)
theory FileStore
  imports Errors JsonDecode
begin

text \<open>
  Attachments and their OCR work (\<^verbatim>\<open>internal/repository/file_repository.go\<close>): the rows of
  \<^verbatim>\<open>files\<close>, with what the operations read of \<^verbatim>\<open>sessions\<close> and
  \<^verbatim>\<open>messages\<close>.  A statement is a function on the tables; a transaction that fails gives the
  tables back unchanged.  Times are nanoseconds, \<^verbatim>\<open>NOW()\<close> is an argument; \<open>locked\<close> says
  which rows another transaction holds (\<^verbatim>\<open>SKIP LOCKED\<close>).  Failures of the driver are left
  out: they change nothing and are returned.
\<close>

section \<open>Tables\<close>

datatype file_status = FileStatusStaged | FileStatusFormal | FileStatusCleanupClaimed | FileStatusStorageRemoved

datatype extract_status = ExtractPending | ExtractReady | ExtractFailed | ExtractOcrPending | ExtractOcrRunning

record file_row =
  fl_id :: int
  fl_user :: int
  fl_session :: "int option"
  fl_name :: string
  fl_path :: string
  fl_type :: string
  fl_size :: int
  fl_hash :: string
  fl_status :: file_status
  fl_text_path :: "string option"
  fl_extract :: extract_status
  fl_extract_error :: "string option"
  fl_tokens :: int
  fl_provider :: "string option"
  fl_task :: "string option"
  fl_pages :: int
  fl_progress :: int
  fl_started :: "int option"
  fl_completed :: "int option"
  fl_error_type :: "string option"
  fl_source :: "string option"
  fl_lease :: "int option"
  fl_generation :: int
  fl_attempts :: int
  fl_next_retry :: "int option"
  fl_created :: int
  fl_deleted :: "int option"
  fl_cleanup_after :: "int option"
  fl_claim_token :: "string option"
  fl_cleanup_lease :: "int option"

text \<open>A message as the file operations see it: its attachments are file ids with the unavailable mark.\<close>

record file_message =
  fm_session :: int
  fm_deleted :: bool
  fm_attachments :: "(int \<times> bool) list"

record file_session =
  fs_user :: int
  fs_deleted :: "int option"

record file_db =
  fd_files :: "file_row list"
  fd_messages :: "file_message list"
  fd_sessions :: "(int \<times> file_session) list"
  fd_next_file :: int
  fd_claim_seq :: int

definition ocr_active :: "file_row \<Rightarrow> bool" where
  "ocr_active f \<longleftrightarrow> fl_extract f = ExtractOcrPending \<or> fl_extract f = ExtractOcrRunning"

definition update_files :: "(file_row \<Rightarrow> bool) \<Rightarrow> (file_row \<Rightarrow> file_row) \<Rightarrow> file_db \<Rightarrow> file_db" where
  "update_files P g db = db\<lparr>fd_files := map (\<lambda>f. if P f then g f else f) (fd_files db)\<rparr>"

definition find_file :: "file_db \<Rightarrow> int \<Rightarrow> file_row option" where
  "find_file db i = find (\<lambda>f. fl_id f = i) (fd_files db)"

text \<open>\<^verbatim>\<open>requireOCRLeaseMutation\<close>: an update that hits no row has lost the lease.\<close>

definition lease_mutation :: "(file_row \<Rightarrow> bool) \<Rightarrow> (file_row \<Rightarrow> file_row) \<Rightarrow> file_db \<Rightarrow> go_err option \<times> file_db" where
  "lease_mutation P g db = (if list_ex P (fd_files db) then (None, update_files P g db) else (Some ErrOCRLeaseLost, db))"

text \<open>The condition every mutation of a worker carries: its generation is the one of the row.\<close>

definition owned :: "int \<Rightarrow> int \<Rightarrow> int \<Rightarrow> file_row \<Rightarrow> bool" where
  "owned i userID generation f \<longleftrightarrow> fl_id f = i \<and> fl_user f = userID \<and> generation > 0 \<and> fl_generation f = generation \<and>
     fl_status f = FileStatusStaged \<and> ocr_active f"

definition nullif_blank :: "string \<Rightarrow> string option" where
  "nullif_blank s = (if s = [] then None else Some s)"

definition no_task :: "file_row \<Rightarrow> bool" where
  "no_task f \<longleftrightarrow> (case fl_task f of None \<Rightarrow> True | Some t \<Rightarrow> trim_ends (\<lambda>c. c = CHR '' '') t = [])"

section \<open>Creating and finding\<close>

text \<open>The columns \<^verbatim>\<open>Create\<close> does not set have their defaults; an empty extract status is pending.\<close>

definition CreateContext :: "int \<Rightarrow> extract_status option \<Rightarrow> file_row \<Rightarrow> file_db \<Rightarrow> file_row \<times> file_db" where
  "CreateContext now extract f db =
    (let row = f\<lparr>fl_id := fd_next_file db, fl_status := FileStatusStaged, fl_extract := coalesce extract ExtractPending,
           fl_lease := None, fl_generation := 0, fl_attempts := 0, fl_next_retry := None, fl_created := now, fl_deleted := None,
           fl_cleanup_after := None, fl_claim_token := None, fl_cleanup_lease := None\<rparr>
     in (row, db\<lparr>fd_files := fd_files db @ [row], fd_next_file := fd_next_file db + 1\<rparr>))"

definition live_status :: "file_row \<Rightarrow> bool" where
  "live_status f \<longleftrightarrow> fl_status f = FileStatusStaged \<or> fl_status f = FileStatusFormal"

definition GetByID :: "file_db \<Rightarrow> int \<Rightarrow> int \<Rightarrow> file_row option" where
  "GetByID db i userID = find (\<lambda>f. fl_id f = i \<and> fl_user f = userID \<and> live_status f) (fd_files db)"

definition newest_first :: "file_row list \<Rightarrow> file_row list" where
  "newest_first fs = rev (sort_key fl_created (sort_key fl_id fs))"

text \<open>\<^verbatim>\<open>LIMIT\<close> and \<^verbatim>\<open>OFFSET\<close>.\<close>

definition page :: "nat \<Rightarrow> nat \<Rightarrow> 'a list \<Rightarrow> 'a list" where
  "page limit offset xs = take limit (drop offset xs)"

definition in_session :: "int \<Rightarrow> int \<Rightarrow> file_row \<Rightarrow> bool" where
  "in_session userID sessionID f \<longleftrightarrow> fl_user f = userID \<and> fl_session f = Some sessionID"

definition ListFilesBySession :: "file_db \<Rightarrow> int \<Rightarrow> int \<Rightarrow> nat \<Rightarrow> nat \<Rightarrow> file_row list" where
  "ListFilesBySession db userID sessionID limit offset =
    page limit offset (newest_first (filter (\<lambda>f. in_session userID sessionID f \<and> live_status f) (fd_files db)))"

definition ListUnreferencedBySession :: "file_db \<Rightarrow> int \<Rightarrow> int \<Rightarrow> nat \<Rightarrow> nat \<Rightarrow> file_row list" where
  "ListUnreferencedBySession db userID sessionID limit offset =
    page limit offset (sort_key fl_created (sort_key fl_id (filter (\<lambda>f. in_session userID sessionID f \<and> fl_status f = FileStatusStaged) (fd_files db))))"

definition ListReferencedBySession :: "file_db \<Rightarrow> int \<Rightarrow> int \<Rightarrow> nat \<Rightarrow> nat \<Rightarrow> file_row list" where
  "ListReferencedBySession db userID sessionID limit offset =
    page limit offset (newest_first (filter (\<lambda>f. in_session userID sessionID f \<and> fl_status f = FileStatusFormal) (fd_files db)))"

definition IsReferencedByMessage :: "file_db \<Rightarrow> int \<Rightarrow> int \<Rightarrow> bool" where
  "IsReferencedByMessage db userID fileID =
    list_ex (\<lambda>f. fl_id f = fileID \<and> fl_user f = userID \<and> fl_status f = FileStatusFormal) (fd_files db)"

definition CountActiveBySession :: "file_db \<Rightarrow> int \<Rightarrow> int \<Rightarrow> nat" where
  "CountActiveBySession db userID sessionID = length (filter (\<lambda>f. in_session userID sessionID f \<and> live_status f) (fd_files db))"

definition CountActiveOCRTasks :: "file_db \<Rightarrow> string \<Rightarrow> nat" where
  "CountActiveOCRTasks db provider =
    length (filter (\<lambda>f. fl_status f = FileStatusStaged \<and> fl_provider f = Some provider \<and> ocr_active f) (fd_files db))"

definition FindActiveByHashInSession :: "file_db \<Rightarrow> int \<Rightarrow> int \<Rightarrow> string \<Rightarrow> int \<Rightarrow> go_err + file_row" where
  "FindActiveByHashInSession db userID sessionID hash bytes =
    (case newest_first (filter (\<lambda>f. in_session userID sessionID f \<and> fl_hash f = hash \<and> fl_size f = bytes \<and> fl_status f = FileStatusStaged) (fd_files db)) of
       [] \<Rightarrow> Inl (ErrWrap ''file not found'' ErrNotFound)
     | f # _ \<Rightarrow> Inr f)"

definition getFilesForSessionByStatuses :: "file_db \<Rightarrow> int \<Rightarrow> int \<Rightarrow> int list \<Rightarrow> file_status list \<Rightarrow> (int \<times> file_row) list" where
  "getFilesForSessionByStatuses db userID sessionID ids statuses =
    map (\<lambda>f. (fl_id f, f)) (filter (\<lambda>f. in_session userID sessionID f \<and> fl_status f \<in> set statuses \<and> fl_id f \<in> set ids) (fd_files db))"

definition GetReadableFileForAgent :: "file_db \<Rightarrow> int \<Rightarrow> int \<Rightarrow> int \<Rightarrow> go_err + file_row" where
  "GetReadableFileForAgent db userID sessionID fileID =
    (case find (\<lambda>f. fl_id f = fileID \<and> in_session userID sessionID f \<and> fl_status f = FileStatusFormal) (fd_files db) of
       None \<Rightarrow> Inl (ErrWrap ''file not readable'' ErrNotFound)
     | Some f \<Rightarrow> Inr f)"

definition ListReadableFilesForAgent :: "file_db \<Rightarrow> int \<Rightarrow> int \<Rightarrow> file_row list" where
  "ListReadableFilesForAgent db userID sessionID =
    newest_first (filter (\<lambda>f. in_session userID sessionID f \<and> fl_status f = FileStatusFormal) (fd_files db))"

section \<open>Attachments of messages\<close>

text \<open>\<^verbatim>\<open>strconv.ParseInt(s, 10, 64)\<close>.\<close>

definition parse_int64 :: "string \<Rightarrow> int option" where
  "parse_int64 s =
    (let neg = (case s of c # cs \<Rightarrow> c = CHR ''-'' | [] \<Rightarrow> False);
         ds = (case s of c # cs \<Rightarrow> if c = CHR ''-'' \<or> c = CHR ''+'' then cs else s | [] \<Rightarrow> []);
         v = (if neg then - digits_val ds else digits_val ds)
     in if ds = [] \<or> \<not> list_all is_digit ds then None
        else if - (2 ^ 63) \<le> v \<and> v < 2 ^ 63 then Some v else None)"

text \<open>A \<^verbatim>\<open>json.RawMessage\<close> is its value; a missing field is \<open>None\<close>.  \<^verbatim>\<open>null\<close> decodes to 0.\<close>

definition parseAttachmentFileID :: "jv option \<Rightarrow> int option" where
  "parseAttachmentFileID raw =
    (case raw of
       Some (JInt i) \<Rightarrow> if 0 < i \<and> i < 2 ^ 63 then Some i else None
     | Some (JStr s) \<Rightarrow> (case parse_int64 s of Some i \<Rightarrow> if i > 0 then Some i else None | None \<Rightarrow> None)
     | _ \<Rightarrow> None)"

fun collect_ids :: "int list \<Rightarrow> int option list \<Rightarrow> int list option" where
  "collect_ids acc [] = Some acc"
| "collect_ids acc (None # xs) = None"
| "collect_ids acc (Some i # xs) = collect_ids (if i \<in> set acc then acc else acc @ [i]) xs"

definition attachmentIDsFromMessageData :: "jv \<Rightarrow> go_err + int list" where
  "attachmentIDsFromMessageData data =
    (case data of
       JObj m \<Rightarrow>
         (case value_at m ''attachments'' of
            JNull \<Rightarrow> Inr []
          | JArr items \<Rightarrow>
              if list_ex (\<lambda>a. case a of JObj _ \<Rightarrow> False | JNull \<Rightarrow> False | _ \<Rightarrow> True) items then Inl (ErrText ''decode message attachments'')
              else (case collect_ids [] (map (\<lambda>a. parseAttachmentFileID (map_of (obj_fields a) ''file_id'')) items) of
                  None \<Rightarrow> Inl (ErrWrap ''invalid attachment file_id'' ErrAttachmentUnavailable)
                | Some ids \<Rightarrow> Inr ids)
          | _ \<Rightarrow> Inl (ErrText ''decode message attachments''))
     | JNull \<Rightarrow> Inr []
     | _ \<Rightarrow> Inl (ErrText ''decode message attachments''))"

definition isUserMessageData :: "jv \<Rightarrow> go_err + bool" where
  "isUserMessageData data =
    (case data of
       JObj m \<Rightarrow> (case value_at m ''role'' of JStr r \<Rightarrow> Inr (r = ''user'') | JNull \<Rightarrow> Inr False | _ \<Rightarrow> Inl (ErrText ''decode message role''))
     | JNull \<Rightarrow> Inr False
     | _ \<Rightarrow> Inl (ErrText ''decode message role''))"

fun gather_attachments :: "int list \<Rightarrow> jv list \<Rightarrow> go_err + int list" where
  "gather_attachments ids [] = Inr ids"
| "gather_attachments ids (m # ms) =
     (case isUserMessageData m of
        Inl e \<Rightarrow> Inl e
      | Inr False \<Rightarrow> gather_attachments ids ms
      | Inr True \<Rightarrow> (case attachmentIDsFromMessageData m of
          Inl e \<Rightarrow> Inl e
        | Inr found \<Rightarrow> gather_attachments (foldl (\<lambda>acc i. if i \<in> set acc then acc else acc @ [i]) ids found) ms))"

definition claimable :: "int \<Rightarrow> int \<Rightarrow> int list \<Rightarrow> file_row \<Rightarrow> bool" where
  "claimable userID sessionID ids f \<longleftrightarrow> in_session userID sessionID f \<and> fl_id f \<in> set ids \<and> fl_status f = FileStatusStaged \<and>
     (has_prefix (fl_type f) ''image/'' \<or> fl_extract f = ExtractReady)"

text \<open>Inside the transaction of the message: the caller rolls back on an error.\<close>

definition claimStagedAttachmentsForMessages :: "int \<Rightarrow> int \<Rightarrow> jv list \<Rightarrow> file_db \<Rightarrow> go_err option \<times> file_db" where
  "claimStagedAttachmentsForMessages sessionID userID messages db =
    (case gather_attachments [] messages of
       Inl e \<Rightarrow> (Some e, db)
     | Inr [] \<Rightarrow> (None, db)
     | Inr ids \<Rightarrow>
         (let P = claimable userID sessionID ids;
              claimed = remdups (map fl_id (filter P (fd_files db)));
              db' = update_files P (\<lambda>f. f\<lparr>fl_status := FileStatusFormal\<rparr>) db
          in if length claimed \<noteq> length ids then (Some (ErrWrap ''attachment is no longer available'' ErrAttachmentUnavailable), db')
             else (None, db')))"

definition ensureFormalMessageAttachmentsAvailableTx :: "int \<Rightarrow> int \<Rightarrow> jv \<Rightarrow> file_db \<Rightarrow> go_err option" where
  "ensureFormalMessageAttachmentsAvailableTx sessionID userID message db =
    (case attachmentIDsFromMessageData message of
       Inl e \<Rightarrow> Some e
     | Inr ids \<Rightarrow>
         (let available = remdups (map fl_id (filter (\<lambda>f. in_session userID sessionID f \<and> fl_id f \<in> set ids \<and> fl_status f = FileStatusFormal) (fd_files db)))
          in if length available \<noteq> length ids then Some (ErrWrap ''attachment required by this retry is unavailable'' ErrAttachmentUnavailable)
             else None))"

definition markMessageAttachmentsUnavailable :: "int \<Rightarrow> file_db \<Rightarrow> file_db" where
  "markMessageAttachmentsUnavailable fileID db = db\<lparr>fd_messages := map (\<lambda>m. m\<lparr>fm_attachments :=
     map (\<lambda>(i, u). (i, u \<or> i = fileID)) (fm_attachments m)\<rparr>) (fd_messages db)\<rparr>"

section \<open>Deletion\<close>

definition zh_attachment_deleted :: string where
  "zh_attachment_deleted = str_of_runes [0x9644, 0x4EF6, 0x5DF2, 0x5220, 0x9664, 0xFF0C, 0x89E3, 0x6790, 0x5DF2, 0x505C, 0x6B62]"

definition deleted_row :: "int \<Rightarrow> int \<Rightarrow> file_row \<Rightarrow> file_row" where
  "deleted_row now cleanupAfter f =
    f\<lparr>fl_status := FileStatusCleanupClaimed, fl_deleted := Some (coalesce (fl_deleted f) now), fl_cleanup_after := Some cleanupAfter,
      fl_claim_token := None, fl_cleanup_lease := None, fl_lease := None, fl_generation := fl_generation f + 1, fl_next_retry := None,
      fl_extract := (if ocr_active f then ExtractFailed else fl_extract f),
      fl_extract_error := (if ocr_active f then Some zh_attachment_deleted else fl_extract_error f),
      fl_error_type := (if ocr_active f then Some ''attachment_deleted'' else fl_error_type f)\<rparr>"

definition RequestDeletion :: "int \<Rightarrow> int \<Rightarrow> int \<Rightarrow> int \<Rightarrow> file_db \<Rightarrow> go_err option \<times> file_db" where
  "RequestDeletion i userID now cleanupAfter0 db =
    (let cleanupAfter = max cleanupAfter0 now in
     case find (\<lambda>f. fl_id f = i \<and> fl_user f = userID) (fd_files db) of
       None \<Rightarrow> (Some (ErrWrap ''file not found'' ErrNotFound), db)
     | Some f \<Rightarrow>
         if fl_status f = FileStatusCleanupClaimed \<or> fl_status f = FileStatusStorageRemoved then (None, db)
         else
           (let db' = update_files (\<lambda>f. fl_id f = i \<and> fl_user f = userID) (deleted_row now cleanupAfter) db
            in (None, if fl_status f = FileStatusFormal then markMessageAttachmentsUnavailable i db' else db')))"

section \<open>The OCR worker\<close>

definition UpdateOCRRunning :: "int \<Rightarrow> int \<Rightarrow> int \<Rightarrow> int \<Rightarrow> file_db \<Rightarrow> go_err option \<times> file_db" where
  "UpdateOCRRunning i userID generation progressPages =
    lease_mutation (owned i userID generation)
      (\<lambda>f. f\<lparr>fl_extract := ExtractOcrRunning, fl_progress := max (fl_progress f) (max progressPages 0)\<rparr>)"

definition StartOCRTask :: "int \<Rightarrow> int \<Rightarrow> int \<Rightarrow> int \<Rightarrow> string \<Rightarrow> int \<Rightarrow> file_db \<Rightarrow> go_err option \<times> file_db" where
  "StartOCRTask now i userID generation taskID pageCount =
    lease_mutation (owned i userID generation)
      (\<lambda>f. f\<lparr>fl_extract := ExtractOcrRunning, fl_task := nullif_blank taskID, fl_error_type := None,
         fl_pages := max (fl_pages f) (max pageCount 0), fl_started := Some (coalesce (fl_started f) now), fl_next_retry := Some now\<rparr>)"

definition MarkOCRSubmissionStarted :: "int \<Rightarrow> int \<Rightarrow> int \<Rightarrow> file_db \<Rightarrow> go_err option \<times> file_db" where
  "MarkOCRSubmissionStarted i userID generation =
    lease_mutation (\<lambda>f. owned i userID generation f \<and> no_task f \<and> fl_error_type f = None)
      (\<lambda>f. f\<lparr>fl_error_type := Some ''ocr_submission_started''\<rparr>)"

definition zh_submission_unknown :: string where
  "zh_submission_unknown = ''OCR '' @ str_of_runes [0x4EFB, 0x52A1, 0x63D0, 0x4EA4, 0x7ED3, 0x679C, 0x672A, 0x786E, 0x8BA4, 0xFF0C,
     0x8BF7, 0x5728, 0x670D, 0x52A1, 0x6062, 0x590D, 0x540E, 0x624B, 0x52A8, 0x91CD, 0x8BD5]"

definition FailStaleOCRSubmissions :: "int \<Rightarrow> file_db \<Rightarrow> nat \<times> file_db" where
  "FailStaleOCRSubmissions now db =
    (let P = (\<lambda>f. fl_status f = FileStatusStaged \<and> ocr_active f \<and> fl_error_type f = Some ''ocr_submission_started'' \<and>
                (case fl_lease f of None \<Rightarrow> False | Some t \<Rightarrow> t \<le> now))
     in (length (filter P (fd_files db)),
         update_files P (\<lambda>f. f\<lparr>fl_extract := ExtractFailed, fl_extract_error := Some zh_submission_unknown,
           fl_error_type := Some ''ocr_submission_unknown'', fl_completed := Some now, fl_lease := None,
           fl_generation := fl_generation f + 1, fl_next_retry := None\<rparr>) db))"

definition RecordOCRAttempt :: "int \<Rightarrow> int \<Rightarrow> int \<Rightarrow> file_db \<Rightarrow> (go_err + int) \<times> file_db" where
  "RecordOCRAttempt i userID generation db =
    (case find (owned i userID generation) (fd_files db) of
       None \<Rightarrow> (Inl ErrOCRLeaseLost, db)
     | Some f \<Rightarrow> (Inr (fl_attempts f + 1), update_files (owned i userID generation) (\<lambda>f. f\<lparr>fl_attempts := fl_attempts f + 1\<rparr>) db))"

text \<open>
  The promotion of the sidecar runs only while the row is owned: \<open>None\<close> is a missing callback,
  \<open>Some None\<close> one that succeeds, \<open>Some (Some e)\<close> one that fails.  The flag says whether it was called.
\<close>

definition completed_row :: "int \<Rightarrow> string \<Rightarrow> int \<Rightarrow> file_row \<Rightarrow> file_row" where
  "completed_row now extractedPath tokenEstimate f =
    f\<lparr>fl_extract := ExtractReady, fl_extract_error := None, fl_error_type := None, fl_text_path := Some extractedPath,
      fl_path := extractedPath, fl_tokens := tokenEstimate, fl_progress := max (fl_progress f) (fl_pages f),
      fl_completed := Some now, fl_lease := None, fl_next_retry := None\<rparr>"

definition CompleteOCRClaim ::
  "int \<Rightarrow> int \<Rightarrow> int \<Rightarrow> int \<Rightarrow> string \<Rightarrow> int \<Rightarrow> go_err option option \<Rightarrow> file_db \<Rightarrow> (go_err option \<times> bool) \<times> file_db" where
  "CompleteOCRClaim now i userID generation extractedPath tokenEstimate promote db =
    (if \<not> list_ex (owned i userID generation) (fd_files db) then ((Some ErrOCRLeaseLost, False), db)
     else (case promote of
         None \<Rightarrow> ((Some (ErrText ''OCR sidecar promotion is required''), False), db)
       | Some (Some e) \<Rightarrow> ((Some (ErrWrap ''promote OCR sidecar'' e), True), db)
       | Some None \<Rightarrow> (let (r, db') = lease_mutation (owned i userID generation) (completed_row now extractedPath (max tokenEstimate 0)) db
                  in ((r, True), db'))))"

definition failed_row :: "int \<Rightarrow> string \<Rightarrow> string \<Rightarrow> file_row \<Rightarrow> file_row" where
  "failed_row now errorType message f =
    f\<lparr>fl_extract := ExtractFailed, fl_extract_error := nullif_blank message, fl_error_type := nullif_blank errorType,
      fl_completed := Some now, fl_lease := None, fl_next_retry := None\<rparr>"

definition FailOCR :: "int \<Rightarrow> int \<Rightarrow> int \<Rightarrow> string \<Rightarrow> string \<Rightarrow> file_db \<Rightarrow> file_db" where
  "FailOCR now i userID errorType message =
    update_files (\<lambda>f. fl_id f = i \<and> fl_user f = userID \<and> fl_status f = FileStatusStaged \<and> ocr_active f)
      (\<lambda>f. (failed_row now errorType message f)\<lparr>fl_generation := fl_generation f + 1\<rparr>)"

definition FailOCRClaim :: "int \<Rightarrow> int \<Rightarrow> int \<Rightarrow> int \<Rightarrow> string \<Rightarrow> string \<Rightarrow> file_db \<Rightarrow> go_err option \<times> file_db" where
  "FailOCRClaim now i userID generation errorType message =
    lease_mutation (owned i userID generation) (failed_row now errorType message)"

definition ClearOCRSourcePath :: "int \<Rightarrow> int \<Rightarrow> string \<Rightarrow> file_db \<Rightarrow> file_db" where
  "ClearOCRSourcePath i userID sourcePath =
    update_files (\<lambda>f. fl_id f = i \<and> fl_user f = userID \<and> fl_status f = FileStatusStaged \<and>
        (fl_extract f = ExtractReady \<or> fl_extract f = ExtractFailed \<and> fl_error_type f = Some ''ocr_source_expired'') \<and>
        sourcePath \<noteq> [] \<and> fl_source f = Some sourcePath)
      (\<lambda>f. f\<lparr>fl_source := None\<rparr>)"

definition ClearOCRSourcePathClaim :: "int \<Rightarrow> int \<Rightarrow> int \<Rightarrow> string \<Rightarrow> file_db \<Rightarrow> go_err option \<times> file_db" where
  "ClearOCRSourcePathClaim i userID generation sourcePath =
    lease_mutation (\<lambda>f. fl_id f = i \<and> fl_user f = userID \<and> generation > 0 \<and> fl_generation f = generation \<and> fl_status f = FileStatusStaged \<and>
        fl_extract f = ExtractReady \<and> sourcePath \<noteq> [] \<and> fl_source f = Some sourcePath)
      (\<lambda>f. f\<lparr>fl_source := None\<rparr>)"

section \<open>Claims\<close>

definition retry_time :: "file_row \<Rightarrow> int" where
  "retry_time f = coalesce (fl_next_retry f) (fl_created f)"

definition lease_live :: "int \<Rightarrow> file_row \<Rightarrow> bool" where
  "lease_live now f \<longleftrightarrow> (case fl_lease f of None \<Rightarrow> False | Some t \<Rightarrow> t > now)"

definition active_leases :: "string \<Rightarrow> int \<Rightarrow> file_db \<Rightarrow> nat" where
  "active_leases provider now db =
    length (filter (\<lambda>f. fl_status f = FileStatusStaged \<and> fl_provider f = Some provider \<and> ocr_active f \<and> lease_live now f) (fd_files db))"

definition recoverable :: "string \<Rightarrow> int \<Rightarrow> file_row \<Rightarrow> bool" where
  "recoverable provider now f \<longleftrightarrow> fl_status f = FileStatusStaged \<and> fl_provider f = Some provider \<and> ocr_active f \<and>
     fl_error_type f \<noteq> Some ''ocr_submission_started'' \<and> retry_time f \<le> now \<and> \<not> lease_live now f"

text \<open>\<^verbatim>\<open>ORDER BY (ocr_task_id IS NULL), COALESCE(ocr_next_retry_at, created_at), id\<close>: stable sorts, last key first.\<close>

definition ocr_candidates :: "(int \<Rightarrow> bool) \<Rightarrow> string \<Rightarrow> int \<Rightarrow> nat \<Rightarrow> file_db \<Rightarrow> int list" where
  "ocr_candidates locked provider now limit db =
    map fl_id (take limit
      (sort_key (\<lambda>f. fl_task f = None) (sort_key retry_time (sort_key fl_id
        (filter (\<lambda>f. recoverable provider now f \<and> \<not> locked (fl_id f)) (fd_files db))))))"

definition claim_lease :: "int \<Rightarrow> file_row \<Rightarrow> file_row" where
  "claim_lease until f = f\<lparr>fl_lease := Some until, fl_generation := fl_generation f + 1\<rparr>"

definition ClaimRecoverableOCRTasks :: "(int \<Rightarrow> bool) \<Rightarrow> string \<Rightarrow> int \<Rightarrow> int \<Rightarrow> int \<Rightarrow> file_db \<Rightarrow> file_row list \<times> file_db" where
  "ClaimRecoverableOCRTasks locked provider0 now lease0 maxConcurrency db =
    (let lease = (if lease0 \<le> 0 then 120000000000 else lease0); provider = trim_space provider0;
         available = maxConcurrency - int (active_leases provider now db)
     in if maxConcurrency \<le> 0 \<or> available \<le> 0 then ([], db)
        else
          (let ids = ocr_candidates locked provider now (nat available) db;
               db' = update_files (\<lambda>f. fl_id f \<in> set ids) (claim_lease (now + lease)) db
           in (filter (\<lambda>f. fl_id f \<in> set ids) (fd_files db'), db')))"

definition ReleaseOCRLease :: "int \<Rightarrow> int \<Rightarrow> int \<Rightarrow> int \<Rightarrow> file_db \<Rightarrow> go_err option \<times> file_db" where
  "ReleaseOCRLease i userID generation retryAt =
    lease_mutation (owned i userID generation) (\<lambda>f. f\<lparr>fl_lease := None, fl_error_type := None, fl_next_retry := Some retryAt\<rparr>)"

definition restarted_row :: "int \<Rightarrow> file_row \<Rightarrow> file_row" where
  "restarted_row now f =
    f\<lparr>fl_extract := ExtractOcrPending, fl_extract_error := None, fl_error_type := None, fl_task := None, fl_pages := 0,
      fl_progress := 0, fl_attempts := 0, fl_completed := None, fl_lease := None, fl_generation := fl_generation f + 1,
      fl_next_retry := Some now\<rparr>"

definition RestartOCR :: "int \<Rightarrow> int \<Rightarrow> int \<Rightarrow> int \<Rightarrow> file_db \<Rightarrow> (go_err + file_row) \<times> file_db" where
  "RestartOCR i userID now sourceCutoff db =
    (case GetByID db i userID of
       None \<Rightarrow> (Inl (ErrWrap ''file not found'' ErrNotFound), db)
     | Some f \<Rightarrow>
         if ocr_active f then (Inr f, db)
         else if fl_extract f \<noteq> ExtractFailed \<or> trim_space (coalesce (fl_source f) []) = [] \<or> fl_created f < sourceCutoff
         then (Inl ErrOCRSourceUnavailable, db)
         else
           (let P = (\<lambda>f. fl_id f = i \<and> fl_user f = userID \<and> fl_status f = FileStatusStaged \<and> fl_extract f = ExtractFailed);
                db' = update_files P (restarted_row now) db
            in if \<not> list_ex P (fd_files db) then (Inl ErrOCRSourceUnavailable, db)
               else (case GetByID db' i userID of None \<Rightarrow> (Inl (ErrWrap ''file not found'' ErrNotFound), db') | Some f' \<Rightarrow> (Inr f', db'))))"

text \<open>The deletion time of the session a file belongs to; no session row is not deleted.\<close>

definition session_deleted :: "file_db \<Rightarrow> file_row \<Rightarrow> int option" where
  "session_deleted db f = (case fl_session f of None \<Rightarrow> None
     | Some s \<Rightarrow> (case map_of (fd_sessions db) s of None \<Rightarrow> None | Some r \<Rightarrow> fs_deleted r))"

definition visible_reference :: "file_db \<Rightarrow> file_row \<Rightarrow> bool" where
  "visible_reference db f = list_ex (\<lambda>m. \<not> fm_deleted m \<and> list_ex (\<lambda>a. fst a = fl_id f) (fm_attachments m) \<and>
     (case map_of (fd_sessions db) (fm_session m) of None \<Rightarrow> False | Some r \<Rightarrow> fs_user r = fl_user f \<and> fs_deleted r = None)) (fd_messages db)"

definition stale_original :: "int \<Rightarrow> int \<Rightarrow> file_db \<Rightarrow> file_row \<Rightarrow> bool" where
  "stale_original cutoff now db f \<longleftrightarrow> live_status f \<and> fl_source f \<noteq> None \<and> \<not> lease_live now f \<and>
     (case session_deleted db f of
        Some d \<Rightarrow> d < cutoff
      | None \<Rightarrow> fl_status f = FileStatusStaged \<and> fl_created f < cutoff \<and> \<not> visible_reference db f)"

definition zh_source_expired :: string where
  "zh_source_expired = ''OCR '' @ str_of_runes [0x539F, 0x6587, 0x4EF6, 0x5DF2, 0x8D85, 0x8FC7] @ '' 24 '' @
     str_of_runes [0x5C0F, 0x65F6, 0x6682, 0x5B58, 0x671F, 0xFF0C, 0x65E0, 0x6CD5, 0x7EE7, 0x7EED, 0x89E3, 0x6790]"

definition expired_row :: "int \<Rightarrow> file_row \<Rightarrow> file_row" where
  "expired_row now f =
    f\<lparr>fl_extract := (if ocr_active f then ExtractFailed else fl_extract f),
      fl_extract_error := (if ocr_active f then Some zh_source_expired else fl_extract_error f),
      fl_error_type := (if ocr_active f then Some ''ocr_source_expired'' else fl_error_type f),
      fl_task := (if ocr_active f then None else fl_task f), fl_lease := None, fl_generation := fl_generation f + 1,
      fl_next_retry := None, fl_completed := (if ocr_active f then Some now else fl_completed f)\<rparr>"

definition ExpireStaleOCROriginals :: "(int \<Rightarrow> bool) \<Rightarrow> int \<Rightarrow> int \<Rightarrow> int \<Rightarrow> file_db \<Rightarrow> file_row list \<times> file_db" where
  "ExpireStaleOCROriginals locked cutoff now limit db =
    (if limit \<le> 0 then ([], db)
     else
       (let files = take (nat limit) (sort_key fl_created (sort_key fl_id
              (filter (\<lambda>f. stale_original cutoff now db f \<and> \<not> locked (fl_id f)) (fd_files db))))
        in (files, update_files (\<lambda>f. fl_id f \<in> fl_id ` set files) (expired_row now) db)))"

section \<open>Storage cleanup\<close>

definition cleanup_token :: "int \<Rightarrow> int \<Rightarrow> string" where
  "cleanup_token now seq = ''cleanup-'' @ itoa now @ ''-'' @ itoa seq"

definition cleanup_lease_live :: "int \<Rightarrow> file_row \<Rightarrow> bool" where
  "cleanup_lease_live now f \<longleftrightarrow> (case fl_cleanup_lease f of None \<Rightarrow> False | Some t \<Rightarrow> t > now)"

definition cleanable :: "int \<Rightarrow> int \<Rightarrow> file_db \<Rightarrow> file_row \<Rightarrow> bool" where
  "cleanable cutoff now db f \<longleftrightarrow>
     fl_status f = FileStatusStaged \<and> fl_created f < cutoff \<and> \<not> lease_live now f \<and> \<not> ocr_active f \<or>
     fl_status f = FileStatusFormal \<and> (case session_deleted db f of None \<Rightarrow> False | Some d \<Rightarrow> d < cutoff) \<and> \<not> lease_live now f \<and> \<not> ocr_active f \<or>
     fl_status f = FileStatusCleanupClaimed \<and> coalesce (fl_cleanup_after f) (coalesce (fl_deleted f) (fl_created f)) \<le> now \<and>
       \<not> cleanup_lease_live now f"

definition claimed_row :: "int \<Rightarrow> string \<Rightarrow> int \<Rightarrow> file_row \<Rightarrow> file_row" where
  "claimed_row now token until f =
    f\<lparr>fl_status := FileStatusCleanupClaimed, fl_cleanup_after := Some (coalesce (fl_cleanup_after f) now), fl_claim_token := Some token,
      fl_cleanup_lease := Some until, fl_deleted := Some (coalesce (fl_deleted f) now)\<rparr>"

text \<open>The claimed rows, the token of the claim.\<close>

definition ClaimFilesForStorageCleanup ::
  "(int \<Rightarrow> bool) \<Rightarrow> int \<Rightarrow> int \<Rightarrow> int \<Rightarrow> int \<Rightarrow> file_db \<Rightarrow> (file_row list \<times> string) \<times> file_db" where
  "ClaimFilesForStorageCleanup locked cutoff now lease0 limit0 db =
    (let lease = (if lease0 \<le> 0 then 120000000000 else lease0); limit = (if limit0 \<le> 0 then 100 else limit0);
         seq = fd_claim_seq db + 1; token = cleanup_token now seq;
         ids = map fl_id (take (nat limit) (sort_key fl_created (sort_key fl_id
           (filter (\<lambda>f. cleanable cutoff now db f \<and> \<not> locked (fl_id f)) (fd_files db)))));
         db' = update_files (\<lambda>f. fl_id f \<in> set ids) (claimed_row now token (now + lease)) (db\<lparr>fd_claim_seq := seq\<rparr>)
     in ((filter (\<lambda>f. fl_id f \<in> set ids) (fd_files db'), token), db'))"

definition holds_claim :: "int \<Rightarrow> string \<Rightarrow> file_row \<Rightarrow> bool" where
  "holds_claim i token f \<longleftrightarrow> fl_id f = i \<and> fl_status f = FileStatusCleanupClaimed \<and> token \<noteq> [] \<and> fl_claim_token f = Some token"

definition FinalizeFileStorageRemoval :: "int \<Rightarrow> int \<Rightarrow> string \<Rightarrow> file_db \<Rightarrow> go_err option \<times> file_db" where
  "FinalizeFileStorageRemoval now i token db =
    (let db' = update_files (holds_claim i token)
           (\<lambda>f. f\<lparr>fl_status := FileStatusStorageRemoved, fl_claim_token := None, fl_cleanup_lease := None,
              fl_deleted := Some (coalesce (fl_deleted f) now)\<rparr>) db
     in if length (filter (holds_claim i token) (fd_files db)) \<noteq> 1
        then (Some (ErrWrap ''file cleanup claim is unavailable'' ErrAttachmentUnavailable), db')
        else (None, db'))"

definition ReleaseFileStorageCleanupClaim :: "int \<Rightarrow> string \<Rightarrow> file_db \<Rightarrow> file_db" where
  "ReleaseFileStorageCleanupClaim i token = update_files (holds_claim i token) (\<lambda>f. f\<lparr>fl_cleanup_lease := None\<rparr>)"

definition CountStaleReferencedFiles :: "int \<Rightarrow> file_db \<Rightarrow> nat" where
  "CountStaleReferencedFiles cutoff db =
    length (filter (\<lambda>f. fl_status f = FileStatusFormal \<and> fl_created f < cutoff \<and>
      (case fl_session f of None \<Rightarrow> False | Some s \<Rightarrow> (case map_of (fd_sessions db) s of None \<Rightarrow> False | Some r \<Rightarrow> fs_deleted r = None))) (fd_files db))"

end
