(* ===== verification/Quota.thy ===== *)
theory Quota
  imports RunStore FileStore
begin

text \<open>
  Quotas (\<^verbatim>\<open>internal/repository/quota_repository.go\<close>,
  \<^verbatim>\<open>internal/service/quota_service.go\<close>): the use of today, the reservation of a tool call and
  of an OCR submission, and the service that maps the refusals.  The transactions lock the user row
  first, so they run one after another for a user.  Times are nanoseconds; a day starts at UTC
  midnight.  The service is the one with a repository behind it.
\<close>

record tool_event =
  te_id :: int
  te_user :: int
  te_session :: "int option"
  te_run :: "string option"
  te_call :: "string option"
  te_tool :: string
  te_success :: bool
  te_tokens :: int
  te_truncated :: bool
  te_error :: string
  te_created :: int

record model_event =
  me_user :: int
  me_tokens :: int
  me_created :: int

record quota_db =
  qd_run :: run_db
  qd_files :: file_db
  qd_tools :: "tool_event list"
  qd_models :: "model_event list"
  qd_next_tool :: int

definition zero_limits :: quota_limits where
  "zero_limits = \<lparr>ql_daily_message = 0, ql_daily_token = 0, ql_concurrent_run = 0, ql_daily_tool_call = 0, ql_daily_web_search = 0,
     ql_daily_web_extract = 0, ql_daily_ocr_file = 0, ql_daily_ocr_page = 0\<rparr>"

section \<open>Use of today\<close>

definition limitsForUser :: "quota_db \<Rightarrow> int \<Rightarrow> go_err + quota_limits" where
  "limitsForUser db userID = (case map_of (db_users (qd_run db)) userID of None \<Rightarrow> Inl ErrNotFound | Some u \<Rightarrow> Inr (ur_limits u))"

definition tools_today :: "quota_db \<Rightarrow> int \<Rightarrow> int \<Rightarrow> tool_event list" where
  "tools_today db userID now = filter (\<lambda>e. te_user e = userID \<and> te_created e \<ge> day_start now) (qd_tools db)"

definition ocr_today :: "int \<Rightarrow> int \<Rightarrow> file_row \<Rightarrow> bool" where
  "ocr_today userID now f \<longleftrightarrow> fl_user f = userID \<and> (fl_provider f = Some ''mineru'' \<or> fl_provider f = Some ''mineru_light'') \<and>
     (case fl_started f of None \<Rightarrow> False | Some t \<Rightarrow> t \<ge> day_start now)"

definition usageForToday :: "quota_db \<Rightarrow> int \<Rightarrow> int \<Rightarrow> quota_usage" where
  "usageForToday db userID now =
    \<lparr>qu_daily_messages = daily_messages (qd_run db) userID now,
     qu_daily_tokens = sum_list (map me_tokens (filter (\<lambda>e. me_user e = userID \<and> me_created e \<ge> day_start now) (qd_models db))),
     qu_daily_tool_calls = int (length (tools_today db userID now)),
     qu_daily_web_searches = int (length (filter (\<lambda>e. te_tool e = ''web_search'') (tools_today db userID now))),
     qu_daily_web_extracts = int (length (filter (\<lambda>e. te_tool e = ''web_extract'') (tools_today db userID now))),
     qu_daily_ocr_files = int (length (filter (ocr_today userID now) (fd_files (qd_files db)))),
     qu_daily_ocr_pages = sum_list (map fl_pages (filter (ocr_today userID now) (fd_files (qd_files db)))),
     qu_reset_at = day_start now + 86400000000000\<rparr>"

section \<open>Reservations\<close>

record tool_call_input =
  tc_user :: int
  tc_session :: int
  tc_run :: string
  tc_call :: string
  tc_tool :: string

definition nullInt64 :: "int \<Rightarrow> int option" where
  "nullInt64 v = (if v \<le> 0 then None else Some v)"

definition nullString :: "string \<Rightarrow> string option" where
  "nullString v = (if v = [] then None else Some v)"

definition reserved_event :: "int \<Rightarrow> int \<Rightarrow> tool_call_input \<Rightarrow> tool_event" where
  "reserved_event i now input = \<lparr>te_id = i, te_user = tc_user input, te_session = nullInt64 (tc_session input), te_run = nullString (tc_run input),
     te_call = nullString (tc_call input), te_tool = tc_tool input, te_success = True, te_tokens = 0, te_truncated = False,
     te_error = [], te_created = now\<rparr>"

definition tool_call_body :: "int \<Rightarrow> tool_call_input \<Rightarrow> quota_db \<Rightarrow> (go_err + int) \<times> quota_db" where
  "tool_call_body now input db =
    (case limitsForUser db (tc_user input) of
       Inl e \<Rightarrow> (Inl e, db)
     | Inr limits \<Rightarrow>
       (case checkToolQuota limits (usageForToday db (tc_user input) now) (tc_tool input) of
          Some e \<Rightarrow> (Inl e, db)
        | None \<Rightarrow> (Inr (qd_next_tool db), db\<lparr>qd_tools := qd_tools db @ [reserved_event (qd_next_tool db) now input], qd_next_tool := qd_next_tool db + 1\<rparr>)))"

text \<open>The id of the reserved event; 0 for no user.\<close>

definition ReserveToolCall :: "db_fault \<Rightarrow> int \<Rightarrow> tool_call_input \<Rightarrow> quota_db \<Rightarrow> (go_err + int) \<times> quota_db" where
  "ReserveToolCall fault now input db =
    (if tc_user input \<le> 0 then (Inr 0, db) else run_tx fault (tool_call_body now input) db)"

definition submission_open :: "int \<Rightarrow> int \<Rightarrow> int \<Rightarrow> file_row \<Rightarrow> bool" where
  "submission_open fileID userID generation f \<longleftrightarrow> fl_id f = fileID \<and> fl_user f = userID \<and> fl_generation f = generation \<and>
     fl_status f = FileStatusStaged \<and> ocr_active f \<and> no_task f \<and> fl_error_type f = None"

definition submitted_row :: "int \<Rightarrow> file_row \<Rightarrow> file_row" where
  "submitted_row pageCount f = f\<lparr>fl_error_type := Some ''ocr_submission_started'', fl_pages := max (fl_pages f) pageCount\<rparr>"

text \<open>A reservation that hits no row rolls back: \<open>Inr False\<close> with the tables as they were.\<close>

definition submit_if :: "(file_row \<Rightarrow> bool) \<Rightarrow> (file_row \<Rightarrow> file_row) \<Rightarrow> quota_db \<Rightarrow> (go_err + bool) \<times> quota_db" where
  "submit_if P g db =
    (if list_ex P (fd_files (qd_files db)) then (Inr True, db\<lparr>qd_files := update_files P g (qd_files db)\<rparr>) else (Inr False, db))"

definition ocr_submission_body :: "int \<Rightarrow> int \<Rightarrow> int \<Rightarrow> int \<Rightarrow> int \<Rightarrow> quota_db \<Rightarrow> (go_err + bool) \<times> quota_db" where
  "ocr_submission_body now fileID userID generation pageCount db =
    (case limitsForUser db userID of
       Inl e \<Rightarrow> (Inl e, db)
     | Inr limits \<Rightarrow>
       (case find (\<lambda>f. fl_id f = fileID \<and> fl_user f = userID) (fd_files (qd_files db)) of
          None \<Rightarrow> (Inl ErrNotFound, db)
        | Some f \<Rightarrow>
            if \<not> owned fileID userID generation f then (Inl ErrOCRLeaseLost, db)
            else if fl_started f \<noteq> None
            then submit_if (submission_open fileID userID generation) (submitted_row pageCount) db
            else (case checkOCRQuota limits (usageForToday db userID now) pageCount of
                Some e \<Rightarrow> (Inl e, db)
              | None \<Rightarrow> submit_if (\<lambda>f. submission_open fileID userID generation f \<and> fl_started f = None)
                  (\<lambda>f. (submitted_row pageCount f)\<lparr>fl_started := Some now\<rparr>) db)))"

definition ReserveOCRSubmission :: "db_fault \<Rightarrow> int \<Rightarrow> int \<Rightarrow> int \<Rightarrow> int \<Rightarrow> int \<Rightarrow> quota_db \<Rightarrow> (go_err + bool) \<times> quota_db" where
  "ReserveOCRSubmission fault now fileID userID generation pageCount db =
    run_tx fault (ocr_submission_body now fileID userID generation (max pageCount 0)) db"

section \<open>The service\<close>

definition limit_text :: "nat list \<Rightarrow> int \<Rightarrow> string" where
  "limit_text rs limit = str_of_runes rs @ str_of_runes [0xFF08] @ itoa limit @ str_of_runes [0xFF09]"

definition quotaMessage :: "string \<Rightarrow> int \<Rightarrow> string" where
  "quotaMessage code limit =
    (if code = ''daily_tool_call_limit_exceeded''
     then limit_text [0x4ECA, 0x65E5, 0x5DE5, 0x5177, 0x8C03, 0x7528, 0x6B21, 0x6570, 0x5DF2, 0x8FBE, 0x4E0A, 0x9650] limit
     else if code = ''daily_web_search_limit_exceeded''
     then limit_text [0x4ECA, 0x65E5, 0x8054, 0x7F51, 0x641C, 0x7D22, 0x6B21, 0x6570, 0x5DF2, 0x8FBE, 0x4E0A, 0x9650] limit
     else if code = ''daily_web_extract_limit_exceeded''
     then limit_text [0x4ECA, 0x65E5, 0x7F51, 0x9875, 0x63D0, 0x53D6, 0x6B21, 0x6570, 0x5DF2, 0x8FBE, 0x4E0A, 0x9650] limit
     else if code = ''concurrent_run_limit_exceeded''
     then limit_text [0x5E76, 0x53D1, 0x8FD0, 0x884C, 0x6570, 0x5DF2, 0x8FBE, 0x4E0A, 0x9650] limit
     else if code = ''daily_message_limit_exceeded''
     then limit_text [0x4ECA, 0x65E5, 0x6D88, 0x606F, 0x6570, 0x5DF2, 0x8FBE, 0x4E0A, 0x9650] limit
     else if code = ''daily_ocr_file_limit_exceeded''
     then str_of_runes [0x4ECA, 0x65E5] @ '' OCR '' @ limit_text [0x6587, 0x4EF6, 0x6570, 0x5DF2, 0x8FBE, 0x4E0A, 0x9650] limit
     else if code = ''daily_ocr_page_limit_exceeded''
     then str_of_runes [0x4ECA, 0x65E5] @ '' OCR '' @ limit_text [0x9875, 0x6570, 0x5C06, 0x8D85, 0x8FC7, 0x4E0A, 0x9650] limit
     else str_of_runes [0x4ECA, 0x65E5, 0x5DE5, 0x5177, 0x8C03, 0x7528, 0x6B21, 0x6570, 0x5DF2, 0x8FBE, 0x4E0A, 0x9650])"

fun quota_error_in :: "go_err list \<Rightarrow> go_err option" where
  "quota_error_in [] = None"
| "quota_error_in (ErrQuota code limit used resetAt # es) = Some (ErrServiceQuota code (quotaMessage code limit) limit used resetAt)"
| "quota_error_in (e # es) = quota_error_in es"

definition mapRepositoryQuotaError :: "go_err \<Rightarrow> go_err" where
  "mapRepositoryQuotaError err =
    (case quota_error_in (err_chain err) of
       Some e \<Rightarrow> e
     | None \<Rightarrow>
         if err_is err ErrAccountStateChanged then ErrAuthenticationUnavailable
         else if err_is err ErrChatRunIntentConflict then ErrRunIDConflict
         else if err_is err ErrChatRunTerminal then ErrRunTerminal
         else err)"

definition map_quota :: "(go_err + 'a) \<times> 'd \<Rightarrow> (go_err + 'a) \<times> 'd" where
  "map_quota r = (case fst r of Inl e \<Rightarrow> Inl (mapRepositoryQuotaError e) | Inr v \<Rightarrow> Inr v, snd r)"

text \<open>
  The service operations: each calls the repository under its own deadline, a passed deadline being
  a fault of the call.
\<close>

definition service_ReserveToolCall :: "db_fault \<Rightarrow> int \<Rightarrow> tool_call_input \<Rightarrow> quota_db \<Rightarrow> (go_err + int) \<times> quota_db" where
  "service_ReserveToolCall fault now input db = (if tc_user input \<le> 0 then (Inr 0, db) else map_quota (ReserveToolCall fault now input db))"

definition service_ReserveOCRSubmission :: "db_fault \<Rightarrow> int \<Rightarrow> int \<Rightarrow> int \<Rightarrow> int \<Rightarrow> int \<Rightarrow> quota_db \<Rightarrow> (go_err + bool) \<times> quota_db" where
  "service_ReserveOCRSubmission fault now fileID userID generation pageCount db =
    map_quota (ReserveOCRSubmission fault now fileID userID generation pageCount db)"

definition CheckBeforeRun :: "quota_db \<Rightarrow> int \<Rightarrow> int \<Rightarrow> go_err option" where
  "CheckBeforeRun db userID now =
    (case limitsForUser db userID of
       Inl e \<Rightarrow> Some e
     | Inr limits \<Rightarrow>
         (let usage = usageForToday db userID now in
          if ql_daily_token limits > 0 \<and> qu_daily_tokens usage \<ge> ql_daily_token limits
          then Some (ErrServiceQuota ''daily_token_limit_exceeded''
            (str_of_runes [0x4ECA, 0x65E5] @ '' token '' @ limit_text [0x7528, 0x91CF, 0x5DF2, 0x8FBE, 0x8FD1, 0x4F3C, 0x4E0A, 0x9650] (ql_daily_token limits))
            (ql_daily_token limits) (qu_daily_tokens usage) (Some (qu_reset_at usage)))
          else None))"

definition service_checkOCRQuota :: "quota_db \<Rightarrow> int \<Rightarrow> int \<Rightarrow> int \<Rightarrow> bool \<Rightarrow> go_err option" where
  "service_checkOCRQuota db userID now pages0 checkFileLimit =
    (let pages = max pages0 0 in
     case limitsForUser db userID of
       Inl e \<Rightarrow> Some e
     | Inr limits \<Rightarrow>
         (let usage = usageForToday db userID now in
          if checkFileLimit \<and> ql_daily_ocr_file limits > 0 \<and> qu_daily_ocr_files usage \<ge> ql_daily_ocr_file limits
          then Some (ErrServiceQuota ''daily_ocr_file_limit_exceeded'' (quotaMessage ''daily_ocr_file_limit_exceeded'' (ql_daily_ocr_file limits))
            (ql_daily_ocr_file limits) (qu_daily_ocr_files usage) (Some (qu_reset_at usage)))
          else if ql_daily_ocr_page limits > 0 \<and> qu_daily_ocr_pages usage + pages > ql_daily_ocr_page limits
          then Some (ErrServiceQuota ''daily_ocr_page_limit_exceeded'' (quotaMessage ''daily_ocr_page_limit_exceeded'' (ql_daily_ocr_page limits))
            (ql_daily_ocr_page limits) (qu_daily_ocr_pages usage) (Some (qu_reset_at usage)))
          else None))"

text \<open>\<^verbatim>\<open>MatchChatRun\<close>: the stored run if the request is the one that made it.\<close>

definition MatchChatRun :: "run_db \<Rightarrow> string \<Rightarrow> int \<Rightarrow> int \<Rightarrow> string \<Rightarrow> run_intent \<Rightarrow> go_err + chat_run_record" where
  "MatchChatRun db runID userID sessionID kind intent =
    (if runID = [] then Inl ErrNotFound
     else (case GetChatRun db runID of
         Inl e \<Rightarrow> Inl e
       | Inr r \<Rightarrow>
           if rr_user_id r \<noteq> userID \<or> rr_session_id r \<noteq> sessionID \<or> rr_kind r \<noteq> kind then Inl ErrRunIDConflict
           else if rr_intent_version r = 0 \<and> rr_operation r \<noteq> ri_operation intent then Inl ErrRunIDConflict
           else if rr_intent_version r > 0 \<and> (rr_operation r \<noteq> ri_operation intent \<or> rr_intent_version r \<noteq> ri_version intent \<or>
             rr_intent_hash r \<noteq> ri_hash intent \<or> rr_retry_target r \<noteq> ri_retry_target intent) then Inl ErrRunIDConflict
           else Inr r))"

definition GetChatRunForSession :: "run_db \<Rightarrow> int \<Rightarrow> int \<Rightarrow> string \<Rightarrow> go_err + chat_run_record" where
  "GetChatRunForSession db userID sessionID runID =
    (if runID = [] then Inl ErrNotFound
     else (case GetChatRun db runID of
         Inl e \<Rightarrow> Inl e
       | Inr r \<Rightarrow> if rr_user_id r \<noteq> userID \<or> rr_session_id r \<noteq> sessionID then Inl ErrNotFound else Inr r))"

section \<open>Tool calls stay inside their quotas\<close>

lemma usage_reserved:
  "qu_daily_tool_calls (usageForToday (db\<lparr>qd_tools := qd_tools db @ [e], qd_next_tool := n\<rparr>) u now) =
     qu_daily_tool_calls (usageForToday db u now) + (if te_user e = u \<and> te_created e \<ge> day_start now then 1 else 0)"
  "qu_daily_web_searches (usageForToday (db\<lparr>qd_tools := qd_tools db @ [e], qd_next_tool := n\<rparr>) u now) =
     qu_daily_web_searches (usageForToday db u now) + (if te_user e = u \<and> te_created e \<ge> day_start now \<and> te_tool e = ''web_search'' then 1 else 0)"
  "qu_daily_web_extracts (usageForToday (db\<lparr>qd_tools := qd_tools db @ [e], qd_next_tool := n\<rparr>) u now) =
     qu_daily_web_extracts (usageForToday db u now) + (if te_user e = u \<and> te_created e \<ge> day_start now \<and> te_tool e = ''web_extract'' then 1 else 0)"
  by (simp_all add: usageForToday_def tools_today_def)

definition within :: "int \<Rightarrow> int \<Rightarrow> bool" where
  "within limit used \<longleftrightarrow> limit > 0 \<longrightarrow> used \<le> limit"


text \<open>The limits that apply to a call of a tool: the code of the refusal, the limit, what is used of it.\<close>

definition tool_limits :: "quota_limits \<Rightarrow> quota_usage \<Rightarrow> string \<Rightarrow> (string \<times> int \<times> int) list" where
  "tool_limits limits used tool =
    [(''daily_tool_call_limit_exceeded'', ql_daily_tool_call limits, qu_daily_tool_calls used)] @
    (if tool = ''web_search'' then [(''daily_web_search_limit_exceeded'', ql_daily_web_search limits, qu_daily_web_searches used)] else []) @
    (if tool = ''web_extract'' then [(''daily_web_extract_limit_exceeded'', ql_daily_web_extract limits, qu_daily_web_extracts used)] else [])"

definition used_up :: "string \<times> int \<times> int \<Rightarrow> bool" where
  "used_up = (\<lambda>(code, limit, n). 0 < limit \<and> limit \<le> n)"

text \<open>
  C22.
  A tool call of a user gets its reservation when none of the limits that apply to it is used up; it
  is then counted once in each of them and leaves the user inside all of them.  Otherwise it is
  refused, nothing is counted, and the refusal names a limit of the user that is used up, with the
  limit, what the user has used of it and the time it is reset.
\<close>

theorem tool_calls_within_quota:
  assumes "limitsForUser db (tc_user input) = Inr limits" "tc_user input > 0" "ReserveToolCall FaultNone now input db = (r, db')"
  shows "let used = usageForToday db (tc_user input) now; used' = usageForToday db' (tc_user input) now; tool = tc_tool input in
    case r of
      Inr i \<Rightarrow> \<not> list_ex used_up (tool_limits limits used tool) \<and>
        tool_limits limits used' tool = map (\<lambda>(code, limit, n). (code, limit, n + 1)) (tool_limits limits used tool) \<and>
        qu_daily_tool_calls used' = qu_daily_tool_calls used + 1 \<and> within (ql_daily_tool_call limits) (qu_daily_tool_calls used') \<and>
        (tool = ''web_search'' \<longrightarrow> within (ql_daily_web_search limits) (qu_daily_web_searches used')) \<and>
        (tool = ''web_extract'' \<longrightarrow> within (ql_daily_web_extract limits) (qu_daily_web_extracts used'))
    | Inl e \<Rightarrow> db' = db \<and> (\<exists>code limit n. (code, limit, n) \<in> set (tool_limits limits used tool) \<and> used_up (code, limit, n) \<and>
        e = ErrQuota code limit n (Some (qu_reset_at used)))"
proof -
  have d: "day_start now \<le> now" by (simp add: day_start_def)
  have nw: "''web_search'' \<noteq> ''web_extract''" by simp
  show ?thesis
  proof (cases "checkToolQuota limits (usageForToday db (tc_user input) now) (tc_tool input)")
    case None
    have r: "r = Inr (qd_next_tool db)"
      "db' = db\<lparr>qd_tools := qd_tools db @ [reserved_event (qd_next_tool db) now input], qd_next_tool := qd_next_tool db + 1\<rparr>"
      using assms None by (simp_all add: ReserveToolCall_def run_tx_def tool_call_body_def)
    show ?thesis
      using None d nw unfolding r Let_def tool_limits_def usage_reserved
      by (auto simp: checkToolQuota_def within_def reserved_event_def used_up_def split: if_splits)
  next
    case (Some e)
    have r: "r = Inl e" "db' = db"
      using assms Some by (simp_all add: ReserveToolCall_def run_tx_def tool_call_body_def)
    show ?thesis using Some unfolding r Let_def
      by (auto simp: checkToolQuota_def tool_limits_def used_up_def split: if_splits)
  qed
qed

section \<open>Runs stay inside their quotas\<close>

lemma normalize_some:
  "normalizeChatRunReservation now input = Inr v \<longleftrightarrow> check_reservation input = None \<and>
     v = input\<lparr>rv_run_id := trim_space (rv_run_id input), rv_kind := normalized_kind input,
       rv_operation := normalized_operation input, rv_runtime_snapshot := normalized_snapshot input,
       rv_accepted_at := (case rv_accepted_at input of None \<Rightarrow> Some now | Some t \<Rightarrow> Some t)\<rparr>"
  by (cases "check_reservation input") (auto simp: normalizeChatRunReservation_def)

lemma normalize_shape:
  assumes "normalizeChatRunReservation now input = Inr v"
  shows "rv_run_id v = trim_space (rv_run_id input)" "rv_user_id v = rv_user_id input" "rv_session_id v = rv_session_id input"
    "rv_reserve_message v = rv_reserve_message input" "rv_auth_version v = rv_auth_version input"
  unfolding normalize_some[THEN iffD1, OF assms, THEN conjunct2] by simp_all

text \<open>The same request later differs in the time of acceptance only.\<close>

lemma normalize_later:
  assumes "normalizeChatRunReservation now input = Inr v"
  obtains w where "normalizeChatRunReservation later input = Inr w" "w = v\<lparr>rv_accepted_at := rv_accepted_at w\<rparr>"
proof -
  define a where "a = (case rv_accepted_at input of None \<Rightarrow> Some later | Some t \<Rightarrow> Some t)"
  note v = normalize_some[THEN iffD1, OF assms]
  have "normalizeChatRunReservation later input = Inr (v\<lparr>rv_accepted_at := a\<rparr>)"
    unfolding normalize_some a_def using v[THEN conjunct1] by (subst v[THEN conjunct2]) simp
  then show ?thesis by (rule that) simp
qed

lemma new_row_record: "scanChatRun (new_run_row now v) = \<lparr>rr_run_id = rv_run_id v, rr_user_id = rv_user_id v, rr_session_id = rv_session_id v,
    rr_kind = rv_kind v, rr_operation = rv_operation v, rr_intent_version = rv_intent_version v, rr_intent_hash = rv_intent_hash v,
    rr_retry_target = rv_retry_target v, rr_runtime_snapshot = rv_runtime_snapshot v, rr_status = RunStatusRunning,
    rr_cancel_cause = CauseNone, rr_public_error_code = [], rr_public_error_message = [], rr_user_message_id = 0,
    rr_terminal_message_id = 0, rr_terminal_event = None, rr_accepted_at = coalesce0 (rv_accepted_at v), rr_terminal_at = None,
    rr_expires_at = coalesce0 (rv_expires_at v)\<rparr>"
  by (simp add: scanChatRun_def new_run_row_def coalesce0_def)

lemma find_snoc: "find P (xs @ [x]) = (case find P xs of Some y \<Rightarrow> Some y | None \<Rightarrow> if P x then Some x else None)"
  by (induction xs) auto

lemma matches_new_row: "chatRunReservationMatches (scanChatRun (new_run_row now v)) (v\<lparr>rv_accepted_at := a\<rparr>)"
  by (simp add: chatRunReservationMatches_def new_row_record)

lemma matches_accepted: "chatRunReservationMatches r (v\<lparr>rv_accepted_at := a\<rparr>) = chatRunReservationMatches r v"
  by (simp add: chatRunReservationMatches_def)

text \<open>What an accepted reservation did: found the run it made before, or inserted it within the limits.\<close>

lemma reserve_cases:
  assumes "reserveChatRunInTx now input db = (Inr (existing, record), db')"
  obtains (found) v r where "normalizeChatRunReservation now input = Inr v" "lockChatRunUser db (rv_user_id v) (rv_auth_version v) = None"
      "lockActiveSession db (rv_session_id v) (rv_user_id v) = None" "find_run db (rv_run_id v) = Some r" "existing"
      "chatRunReservationMatches (scanChatRun r) v" "record = scanChatRun r" "db' = db"
  | (inserted) v where "normalizeChatRunReservation now input = Inr v" "lockChatRunUser db (rv_user_id v) (rv_auth_version v) = None"
      "lockActiveSession db (rv_session_id v) (rv_user_id v) = None" "find_run db (rv_run_id v) = None" "\<not> existing"
      "quota_refusal db now v = None" "record = scanChatRun (new_run_row now v)" "db' = db\<lparr>db_runs := db_runs db @ [new_run_row now v]\<rparr>"
proof -
  note d = assms[unfolded reserveChatRunInTx_def]
  obtain v where v: "normalizeChatRunReservation now input = Inr v"
    using d by (cases "normalizeChatRunReservation now input") simp_all
  note d = d[unfolded v sum.case]
  have u: "lockChatRunUser db (rv_user_id v) (rv_auth_version v) = None"
    using d by (cases "lockChatRunUser db (rv_user_id v) (rv_auth_version v)") simp_all
  note d = d[unfolded u option.case]
  have s: "lockActiveSession db (rv_session_id v) (rv_user_id v) = None"
    using d by (cases "lockActiveSession db (rv_session_id v) (rv_user_id v)") simp_all
  note d = d[unfolded s option.case]
  show ?thesis
  proof (cases "find_run db (rv_run_id v)")
    case (Some r)
    then have "chatRunReservationMatches (scanChatRun r) v" "existing" "record = scanChatRun r" "db' = db"
      using d by (simp_all split: if_split_asm)
    then show ?thesis using found[OF v u s Some] by blast
  next
    case None
    then show ?thesis
      using d inserted[OF v u s None] by (cases "quota_refusal db now v") simp_all
  qed
qed

text \<open>
  C21.
  A run that is admitted leaves its user inside the limit of parallel runs and, when it reserves a
  message, inside the daily message limit with every open reservation counted; an admission that is
  repeated changes nothing.
\<close>

theorem runs_within_quota:
  assumes "reserveChatRunInTx now input db = (Inr (existing, record), db')" "map_of (db_users db) (rv_user_id input) = Some u"
  shows "if existing then db' = db
    else active_runs db' (rv_user_id input) = active_runs db (rv_user_id input) + 1 \<and>
      within (ql_concurrent_run (ur_limits u)) (active_runs db' (rv_user_id input)) \<and>
      (rv_reserve_message input \<longrightarrow> within (ql_daily_message (ur_limits u))
        (daily_messages db' (rv_user_id input) now + pending_messages db' (rv_user_id input)))"
  using assms(1)
proof (cases rule: reserve_cases)
  case (inserted v)
  note N = normalize_shape[OF inserted(1)]
  have a: "active_of (rv_user_id input) (new_run_row now v)" "cr_message_reserved (new_run_row now v) = rv_reserve_message input"
    using N by (simp_all add: active_of_def new_run_row_def row_running_def)
  have r: "active_runs db' (rv_user_id input) = active_runs db (rv_user_id input) + 1"
    "pending_messages db' (rv_user_id input) = pending_messages db (rv_user_id input) + (if rv_reserve_message input then 1 else 0)"
    "daily_messages db' (rv_user_id input) now = daily_messages db (rv_user_id input) now"
    using a by (simp_all add: inserted(8) active_runs_def pending_messages_def daily_messages_def)
  show ?thesis
    using inserted(5,6) assms(2) N r by (auto simp: quota_refusal_def within_def Let_def split: if_splits)
qed simp

lemma reservation_idempotent_core:
  assumes "reserveChatRunInTx now input db = (Inr (existing, record), db')"
  shows "ReserveChatRun FaultNone later input db' = (Inr (True, record), db')"
  using assms
proof (cases rule: reserve_cases)
  case (found v r)
  obtain w where w: "normalizeChatRunReservation later input = Inr w" "w = v\<lparr>rv_accepted_at := rv_accepted_at w\<rparr>"
    using normalize_later[OF found(1)] by blast
  have "rv_run_id w = rv_run_id v" "rv_user_id w = rv_user_id v" "rv_auth_version w = rv_auth_version v" "rv_session_id w = rv_session_id v"
    by (subst w(2), simp)+
  moreover have "chatRunReservationMatches (scanChatRun r) w" by (subst w(2)) (simp add: matches_accepted found)
  ultimately show ?thesis using found w(1) by (simp add: ReserveChatRun_def run_tx_def reserveChatRunInTx_def)
next
  case (inserted v)
  obtain w where w: "normalizeChatRunReservation later input = Inr w" "w = v\<lparr>rv_accepted_at := rv_accepted_at w\<rparr>"
    using normalize_later[OF inserted(1)] by blast
  have e: "rv_run_id w = rv_run_id v" "rv_user_id w = rv_user_id v" "rv_auth_version w = rv_auth_version v" "rv_session_id w = rv_session_id v"
    by (subst w(2), simp)+
  have "find_run db' (rv_run_id v) = Some (new_run_row now v)"
    using inserted(4) by (simp add: inserted(8) find_run_def find_snoc new_run_row_def)
  moreover have "lockChatRunUser db' (rv_user_id v) (rv_auth_version v) = None" "lockActiveSession db' (rv_session_id v) (rv_user_id v) = None"
    using inserted(2,3) by (simp_all add: inserted(8) lockChatRunUser_def lockActiveSession_def)
  moreover have "chatRunReservationMatches (scanChatRun (new_run_row now v)) w" by (subst w(2)) (rule matches_new_row)
  ultimately show ?thesis using w(1) inserted(7) e by (simp add: ReserveChatRun_def run_tx_def reserveChatRunInTx_def)
qed

text \<open>
  Asking again is safe: after an accepted reservation, whether its reply arrived or was lost, the
  same request gives the same run back as already existing and changes nothing.
\<close>

theorem reservation_idempotent:
  assumes "reserveChatRunInTx now input db = (Inr (existing, record), db')"
  shows "ReserveChatRun FaultNone later input db' = (Inr (True, record), db')"
  using assms by (rule reservation_idempotent_core)

section \<open>A run\<close>

definition quota_demo :: run_db where
  "quota_demo = \<lparr>db_runs = [], db_attempts = [], db_messages = [],
     db_sessions = [(3, \<lparr>sr_user_id = 7, sr_deleted = False, sr_selection_revision = 0, sr_updated_at = 0\<rparr>)],
     db_users = [(7, \<lparr>ur_auth_version = 1, ur_active = True, ur_limits = zero_limits\<lparr>ql_concurrent_run := 2, ql_daily_message := 5, ql_daily_tool_call := 4\<rparr>\<rparr>)],
     db_next_attempt = 1\<rparr>"

definition quota_demo_request :: reservation_input where
  "quota_demo_request = \<lparr>rv_user_id = 7, rv_auth_version = 1, rv_session_id = 3, rv_run_id = ''r'', rv_kind = [], rv_operation = [],
     rv_intent_version = 0, rv_intent_hash = [], rv_retry_target = 0, rv_runtime_snapshot = [], rv_reserve_message = True,
     rv_accepted_at = None, rv_expires_at = Some 90\<rparr>"

definition quota_demo_all :: quota_db where
  "quota_demo_all = \<lparr>qd_run = quota_demo, qd_files = \<lparr>fd_files = [], fd_messages = [], fd_sessions = [], fd_next_file = 1, fd_claim_seq = 0\<rparr>, qd_tools = [], qd_models = [], qd_next_tool = 1\<rparr>"

definition quota_demo_call :: tool_call_input where
  "quota_demo_call = \<lparr>tc_user = 7, tc_session = 3, tc_run = ''r'', tc_call = ''c'', tc_tool = ''web_search''\<rparr>"

lemma quota_demo_limits:
  "map_of (db_users quota_demo) 7 = Some \<lparr>ur_auth_version = 1, ur_active = True,
     ur_limits = zero_limits\<lparr>ql_concurrent_run := 2, ql_daily_message := 5, ql_daily_tool_call := 4\<rparr>\<rparr>"
  "limitsForUser quota_demo_all 7 = Inr (zero_limits\<lparr>ql_concurrent_run := 2, ql_daily_message := 5, ql_daily_tool_call := 4\<rparr>)"
  by (simp_all add: quota_demo_def quota_demo_all_def limitsForUser_def)

lemma quota_demo_open:
  "lockChatRunUser quota_demo 7 1 = None" "lockActiveSession quota_demo 3 7 = None" "find_run quota_demo ''r'' = None"
  by (simp_all add: quota_demo_def lockChatRunUser_def lockActiveSession_def find_run_def)

lemma quota_demo_text: "trim_space ''r'' = ''r''" "json_valid ''{}''"
  by (simp add: trim_space_def trim_ends_def dec_more_def is_space_def) (simp add: json_valid_def numeral_eq_Suc)

lemma quota_demo_normal:
  "normalizeChatRunReservation 50 quota_demo_request = Inr (quota_demo_request\<lparr>rv_kind := ''chat'', rv_operation := ''send'',
     rv_runtime_snapshot := ''{}'', rv_accepted_at := Some 50\<rparr>)"
  unfolding normalize_some
  by (simp add: quota_demo_request_def check_reservation_def normalized_kind_def normalized_operation_def normalized_snapshot_def
    default_operation_def valid_operation_def quota_demo_text)

lemma quota_demo_reserved:
  obtains rec db' where "reserveChatRunInTx 50 quota_demo_request quota_demo = (Inr (False, rec), db')"
proof -
  have "quota_refusal quota_demo 50 (quota_demo_request\<lparr>rv_kind := ''chat'', rv_operation := ''send'',
     rv_runtime_snapshot := ''{}'', rv_accepted_at := Some 50\<rparr>) = None"
    by (simp add: quota_refusal_def quota_demo_request_def quota_demo_limits active_runs_def pending_messages_def daily_messages_def)
      (simp add: quota_demo_def)
  then show ?thesis
    by (intro that) (simp add: reserveChatRunInTx_def quota_demo_normal quota_demo_open, simp add: quota_demo_request_def quota_demo_open)
qed

text \<open>The same day after four calls, which is the limit.\<close>

definition quota_demo_full :: quota_db where
  "quota_demo_full = quota_demo_all\<lparr>qd_tools := map (\<lambda>i. reserved_event i 40 quota_demo_call) [1, 2, 3, 4]\<rparr>"

lemma tool_calls_within_quota_witness:
  "(\<exists>i db'. ReserveToolCall FaultNone 50 quota_demo_call quota_demo_all = (Inr i, db') \<and> qu_daily_tool_calls (usageForToday db' 7 50) = 1) \<and>
   ReserveToolCall FaultNone 50 quota_demo_call quota_demo_full =
     (Inl (ErrQuota ''daily_tool_call_limit_exceeded'' 4 4 (Some 86400000000000)), quota_demo_full)"
proof (rule conjI)
  have t: "tc_user quota_demo_call = 7" "tc_tool quota_demo_call = ''web_search''" by (simp_all add: quota_demo_call_def)
  let ?limits = "zero_limits\<lparr>ql_concurrent_run := 2, ql_daily_message := 5, ql_daily_tool_call := 4\<rparr>"
  have "checkToolQuota ?limits
      (usageForToday quota_demo_all 7 50) ''web_search'' = None" "qu_daily_tool_calls (usageForToday quota_demo_all 7 50) = 0"
    by (simp_all add: checkToolQuota_def zero_limits_def usageForToday_def tools_today_def quota_demo_all_def)
  moreover from this obtain i db' where r: "ReserveToolCall FaultNone 50 quota_demo_call quota_demo_all = (Inr i, db')"
    by (simp add: ReserveToolCall_def run_tx_def tool_call_body_def quota_demo_limits t)
  ultimately show "\<exists>i db'. ReserveToolCall FaultNone 50 quota_demo_call quota_demo_all = (Inr i, db') \<and> qu_daily_tool_calls (usageForToday db' 7 50) = 1"
    using tool_calls_within_quota[of quota_demo_all quota_demo_call _ 50 "Inr i" db', unfolded t, OF quota_demo_limits(2) _ r]
    by (simp add: Let_def)
  have l: "limitsForUser quota_demo_full 7 = Inr ?limits" using quota_demo_limits(2) by (simp add: quota_demo_full_def limitsForUser_def)
  have u: "qu_daily_tool_calls (usageForToday quota_demo_full 7 50) = 4" "qu_reset_at (usageForToday quota_demo_full 7 50) = 86400000000000"
    by (simp_all add: usageForToday_def tools_today_def quota_demo_full_def quota_demo_all_def reserved_event_def t(1) day_start_def)
  have tl: "tool_limits ?limits (usageForToday quota_demo_full 7 50) ''web_search'' =
      [(''daily_tool_call_limit_exceeded'', 4, 4), (''daily_web_search_limit_exceeded'', 0, qu_daily_web_searches (usageForToday quota_demo_full 7 50))]"
    by (simp add: tool_limits_def u zero_limits_def)
  obtain r db' where r: "ReserveToolCall FaultNone 50 quota_demo_call quota_demo_full = (r, db')" by fastforce
  from tool_calls_within_quota[of quota_demo_full quota_demo_call, unfolded t, OF l _ r]
  show "ReserveToolCall FaultNone 50 quota_demo_call quota_demo_full =
     (Inl (ErrQuota ''daily_tool_call_limit_exceeded'' 4 4 (Some 86400000000000)), quota_demo_full)"
    unfolding r Let_def tl u by (auto simp: used_up_def split: sum.splits)
qed

lemma runs_within_quota_witness: "\<exists>rec db'. reserveChatRunInTx 50 quota_demo_request quota_demo = (Inr (False, rec), db') \<and> active_runs db' 7 \<le> 2"
proof -
  obtain rec db' where r: "reserveChatRunInTx 50 quota_demo_request quota_demo = (Inr (False, rec), db')" by (rule quota_demo_reserved)
  have "rv_user_id quota_demo_request = 7" by (simp add: quota_demo_request_def)
  with runs_within_quota[OF r] quota_demo_limits(1) r show ?thesis by (auto simp: within_def)
qed

lemma reservation_idempotent_witness: "\<exists>rec db'. reserveChatRunInTx 50 quota_demo_request quota_demo = (Inr (False, rec), db') \<and>
    ReserveChatRun FaultNone 60 quota_demo_request db' = (Inr (True, rec), db')"
proof -
  obtain rec db' where r: "reserveChatRunInTx 50 quota_demo_request quota_demo = (Inr (False, rec), db')" by (rule quota_demo_reserved)
  with reservation_idempotent[OF r, of 60] show ?thesis by blast
qed

end
