(* ===== verification/FileLifecycle.thy ===== *)
theory FileLifecycle
  imports Quota
begin

text \<open>
  The life of an attachment under every interleaving of the operations of FileStore and of the OCR
  reservation of Quota, which writes the same table: the states it goes through, the fencing of OCR workers by their generation, the bound on parallel OCR work.
\<close>

section \<open>Steps\<close>

text \<open>
  One step is one operation of any caller.  \<open>purge\<close> stands for the operations of other
  repositories that delete or change messages and sessions; they leave the files alone.
\<close>

inductive file_step :: "file_db \<Rightarrow> file_db \<Rightarrow> bool" where
  create: "file_step db (snd (CreateContext now extract f db))"
| claim_attachments: "claimStagedAttachmentsForMessages s u ms db = (None, db') \<Longrightarrow> file_step db db'"
| request_deletion: "file_step db (snd (RequestDeletion i u now after db))"
| running: "file_step db (snd (UpdateOCRRunning i u g p db))"
| start_task: "file_step db (snd (StartOCRTask now i u g task p db))"
| reserve_submission: "qd_files q = db \<Longrightarrow> file_step db (qd_files (snd (ReserveOCRSubmission fault now i u g pages q)))"
| submission: "file_step db (snd (MarkOCRSubmissionStarted i u g db))"
| fail_stale: "file_step db (snd (FailStaleOCRSubmissions now db))"
| attempt: "file_step db (snd (RecordOCRAttempt i u g db))"
| complete: "file_step db (snd (CompleteOCRClaim now i u g path tokens promote db))"
| fail: "file_step db (FailOCR now i u ty msg db)"
| fail_claim: "file_step db (snd (FailOCRClaim now i u g ty msg db))"
| clear_source: "file_step db (ClearOCRSourcePath i u path db)"
| clear_source_claim: "file_step db (snd (ClearOCRSourcePathClaim i u g path db))"
| claim_ocr: "file_step db (snd (ClaimRecoverableOCRTasks locked p now lease m db))"
| release: "file_step db (snd (ReleaseOCRLease i u g retry db))"
| restart: "file_step db (snd (RestartOCR i u now cutoff db))"
| expire: "file_step db (snd (ExpireStaleOCROriginals locked cutoff now limit db))"
| claim_cleanup: "file_step db (snd (ClaimFilesForStorageCleanup locked cutoff now lease limit db))"
| finalize: "FinalizeFileStorageRemoval now i token db = (None, db') \<Longrightarrow> file_step db db'"
| release_cleanup: "file_step db (ReleaseFileStorageCleanupClaim i token db)"
| purge: "file_step db (db\<lparr>fd_messages := ms, fd_sessions := ss\<rparr>)"

section \<open>What a step does to a row\<close>

fun rank :: "file_status \<Rightarrow> nat" where
  "rank FileStatusStaged = 0"
| "rank FileStatusFormal = 1"
| "rank FileStatusCleanupClaimed = 2"
| "rank FileStatusStorageRemoved = 3"

text \<open>A formal attachment is an image or its text has been extracted.\<close>

definition formal_ok :: "file_row \<Rightarrow> bool" where
  "formal_ok f \<longleftrightarrow> (fl_status f = FileStatusFormal \<longrightarrow> has_prefix (fl_type f) ''image/'' \<or> fl_extract f = ExtractReady)"

definition row_on :: "file_row \<Rightarrow> file_row \<Rightarrow> bool" where
  "row_on f f' \<longleftrightarrow> fl_id f' = fl_id f \<and> fl_user f' = fl_user f \<and> fl_session f' = fl_session f \<and> fl_type f' = fl_type f \<and>
     fl_generation f \<le> fl_generation f' \<and> rank (fl_status f) \<le> rank (fl_status f') \<and> (formal_ok f \<longrightarrow> formal_ok f')"

definition files_ok :: "file_db \<Rightarrow> bool" where
  "files_ok db \<longleftrightarrow> distinct (map fl_id (fd_files db)) \<and> list_all (\<lambda>f. fl_id f < fd_next_file db) (fd_files db)"

text \<open>A step rewrites every row forwards and may append rows.\<close>

definition file_on :: "file_db \<Rightarrow> file_db \<Rightarrow> bool" where
  "file_on db db' \<longleftrightarrow> (files_ok db \<longrightarrow> files_ok db' \<and>
     (\<exists>g added. fd_files db' = map g (fd_files db) @ added \<and> (\<forall>f \<in> set (fd_files db). row_on f (g f)) \<and> list_all formal_ok added))"

lemma row_on_refl [simp]: "row_on f f"
  by (simp add: row_on_def)

lemma row_on_trans: "row_on f g \<Longrightarrow> row_on g h \<Longrightarrow> row_on f h"
  unfolding row_on_def by (auto intro: order_trans)

lemma row_on_id: "row_on f g \<Longrightarrow> fl_id g = fl_id f"
  by (simp add: row_on_def)

lemma file_onI:
  assumes "fd_files db' = map g (fd_files db)" "\<And>f. files_ok db \<Longrightarrow> f \<in> set (fd_files db) \<Longrightarrow> row_on f (g f)" "fd_next_file db' = fd_next_file db"
  shows "file_on db db'"
  unfolding file_on_def
proof (intro impI conjI exI[of _ g] exI[of _ "[]"])
  assume ok: "files_ok db"
  have i: "fl_id (g f) = fl_id f" if "f \<in> set (fd_files db)" for f using assms(2)[OF ok that] by (rule row_on_id)
  have "map fl_id (map g (fd_files db)) = map fl_id (fd_files db)" using i by simp
  then have "distinct (map fl_id (fd_files db'))" using ok by (simp only: assms(1) files_ok_def)
  then show "files_ok db'" using ok i by (auto simp: files_ok_def assms(1,3) list_all_iff)
qed (use assms in auto)

lemma file_on_refl [simp]: "file_on db db"
  by (rule file_onI[where g = "\<lambda>f. f"]) simp_all

lemma update_files_on:
  "(\<And>f. files_ok db \<Longrightarrow> f \<in> set (fd_files db) \<Longrightarrow> P f \<Longrightarrow> row_on f (g f)) \<Longrightarrow> file_on db (update_files P g db)"
  by (rule file_onI[where g = "\<lambda>f. if P f then g f else f"]) (simp_all add: update_files_def)

lemma lease_mutation_on: "(\<And>f. P f \<Longrightarrow> row_on f (g f)) \<Longrightarrow> file_on db (snd (lease_mutation P g db))"
  by (simp add: lease_mutation_def update_files_on)

lemma file_on_same_files:
  "file_on db db' \<Longrightarrow> fd_files db'' = fd_files db' \<Longrightarrow> fd_next_file db'' = fd_next_file db' \<Longrightarrow> file_on db db''"
  by (simp add: file_on_def files_ok_def)

lemma file_on_trans:
  assumes "file_on a b" "file_on b c" shows "file_on a c"
  unfolding file_on_def
proof
  assume ok: "files_ok a"
  with assms(1) have okb: "files_ok b" unfolding file_on_def by blast
  with assms(2) have okc: "files_ok c" unfolding file_on_def by blast
  obtain g n where g: "fd_files b = map g (fd_files a) @ n" "\<forall>f \<in> set (fd_files a). row_on f (g f)" "list_all formal_ok n"
    using assms(1) ok unfolding file_on_def by blast
  obtain h m where h: "fd_files c = map h (fd_files b) @ m" "\<forall>f \<in> set (fd_files b). row_on f (h f)" "list_all formal_ok m"
    using assms(2) okb unfolding file_on_def by blast
  have "list_all formal_ok (map h n)" using g(1,3) h(2) by (auto simp: list_all_iff row_on_def)
  moreover have "row_on f (h (g f))" if "f \<in> set (fd_files a)" for f
  proof -
    have "g f \<in> set (fd_files b)" using g(1) that by simp
    then have "row_on (g f) (h (g f))" using h(2) by blast
    moreover have "row_on f (g f)" using g(2) that by blast
    ultimately show ?thesis by (rule row_on_trans[rotated])
  qed
  ultimately show "files_ok c \<and> (\<exists>g added. fd_files c = map g (fd_files a) @ added \<and> (\<forall>f \<in> set (fd_files a). row_on f (g f)) \<and> list_all formal_ok added)"
    using okc by (intro conjI exI[of _ "h \<circ> g"] exI[of _ "map h n @ m"]) (simp_all add: g(1) h(1,3))
qed

lemma owned_row_on:
  "owned i u g f \<Longrightarrow> fl_id f' = fl_id f \<Longrightarrow> fl_user f' = fl_user f \<Longrightarrow> fl_session f' = fl_session f \<Longrightarrow>
    fl_type f' = fl_type f \<Longrightarrow> fl_generation f \<le> fl_generation f' \<Longrightarrow> fl_status f' = fl_status f \<Longrightarrow> row_on f f'"
  by (simp add: row_on_def formal_ok_def owned_def)

lemma staged_row_on:
  "fl_status f = FileStatusStaged \<Longrightarrow> fl_id f' = fl_id f \<Longrightarrow> fl_user f' = fl_user f \<Longrightarrow> fl_session f' = fl_session f \<Longrightarrow>
    fl_type f' = fl_type f \<Longrightarrow> fl_generation f \<le> fl_generation f' \<Longrightarrow> fl_status f' = fl_status f \<Longrightarrow> row_on f f'"
  by (simp add: row_on_def formal_ok_def)

text \<open>Rows that leave the live states need no extraction result.\<close>

lemma gone_row_on:
  "fl_id f' = fl_id f \<Longrightarrow> fl_user f' = fl_user f \<Longrightarrow> fl_session f' = fl_session f \<Longrightarrow> fl_type f' = fl_type f \<Longrightarrow>
    fl_generation f \<le> fl_generation f' \<Longrightarrow> rank (fl_status f) \<le> rank (fl_status f') \<Longrightarrow> 2 \<le> rank (fl_status f') \<Longrightarrow> row_on f f'"
  by (auto simp: row_on_def formal_ok_def)

lemma create_on: "file_on db (snd (CreateContext now extract f db))"
proof -
  obtain row where r: "fd_files (snd (CreateContext now extract f db)) = fd_files db @ [row]"
    "fd_next_file (snd (CreateContext now extract f db)) = fd_next_file db + 1" "fl_id row = fd_next_file db" "formal_ok row"
    by (simp add: CreateContext_def Let_def formal_ok_def)
  show ?thesis unfolding file_on_def
    by (intro impI conjI exI[of _ "\<lambda>f. f"] exI[of _ "[row]"]) (use r in \<open>force simp: files_ok_def list_all_iff\<close>)+
qed

lemma claim_attachments_on:
  assumes "claimStagedAttachmentsForMessages s u ms db = (None, db')" shows "file_on db db'"
proof -
  consider "db' = db" | ids where "db' = update_files (claimable u s ids) (\<lambda>f. f\<lparr>fl_status := FileStatusFormal\<rparr>) db"
    using assms by (auto simp: claimStagedAttachmentsForMessages_def Let_def split: sum.splits list.splits if_splits)
  then show ?thesis
    by cases (auto intro!: update_files_on simp: claimable_def row_on_def formal_ok_def)
qed

lemma files_ok_inj:
  assumes "files_ok db" "f \<in> set (fd_files db)" "h \<in> set (fd_files db)" "fl_id f = fl_id h" shows "f = h"
proof -
  have "inj_on fl_id (set (fd_files db))" using assms(1) by (simp add: files_ok_def distinct_map)
  then show ?thesis using assms(2-4) by (meson inj_onD)
qed

lemma deletion_on: "file_on db (snd (RequestDeletion i u now after db))"
proof (cases "find (\<lambda>f. fl_id f = i \<and> fl_user f = u) (fd_files db)")
  case (Some f)
  then have f: "f \<in> set (fd_files db)" "fl_id f = i" by (auto simp: find_Some_iff)
  show ?thesis
  proof (cases "rank (fl_status f) < 2")
    case True
    have "file_on db (update_files (\<lambda>f. fl_id f = i \<and> fl_user f = u) (deleted_row now (max after now)) db)"
    proof (rule update_files_on)
      fix h assume "files_ok db" "h \<in> set (fd_files db)" "fl_id h = i \<and> fl_user h = u"
      then have "h = f" using files_ok_inj f by blast
      then show "row_on h (deleted_row now (max after now) h)" using True by (intro gone_row_on) (simp_all add: deleted_row_def)
    qed
    then show ?thesis using Some True
      by (auto simp: RequestDeletion_def Let_def markMessageAttachmentsUnavailable_def elim!: file_on_same_files)
  next
    case False
    then show ?thesis using Some by (cases "fl_status f") (simp_all add: RequestDeletion_def)
  qed
qed (simp add: RequestDeletion_def)

lemma restart_on: "file_on db (snd (RestartOCR i u now cutoff db))"
proof -
  have "file_on db (update_files (\<lambda>f. fl_id f = i \<and> fl_user f = u \<and> fl_status f = FileStatusStaged \<and> fl_extract f = ExtractFailed) (restarted_row now) db)"
    by (rule update_files_on) (auto intro!: staged_row_on simp: restarted_row_def)
  then show ?thesis by (auto simp: RestartOCR_def Let_def split: option.splits)
qed

lemma claim_ocr_on: "file_on db (snd (ClaimRecoverableOCRTasks locked p now lease m db))"
proof -
  have "file_on db (update_files (\<lambda>f. fl_id f \<in> S) (claim_lease t) db)" for S t
    by (rule update_files_on) (simp add: row_on_def claim_lease_def formal_ok_def)
  then show ?thesis by (simp add: ClaimRecoverableOCRTasks_def Let_def)
qed

lemma expire_on: "file_on db (snd (ExpireStaleOCROriginals locked cutoff now limit db))"
proof -
  have "row_on f (expired_row now f)" for f
    by (auto simp: row_on_def formal_ok_def expired_row_def ocr_active_def)
  then have "file_on db (update_files (\<lambda>f. fl_id f \<in> S) (expired_row now) db)" for S by (intro update_files_on)
  then show ?thesis by (simp add: ExpireStaleOCROriginals_def Let_def)
qed


lemma cleanup_on: "file_on db (snd (ClaimFilesForStorageCleanup locked cutoff now lease limit db))"
proof -
  let ?xs = "sort_key fl_created (sort_key fl_id (filter (\<lambda>f. cleanable cutoff now db f \<and> \<not> locked (fl_id f)) (fd_files db)))"
  have base: "file_on db (update_files (\<lambda>f. fl_id f \<in> set (map fl_id (take n ?xs))) (claimed_row now token t) db)" for n token t
  proof (rule update_files_on)
    fix f assume ok: "files_ok db" "f \<in> set (fd_files db)" "fl_id f \<in> set (map fl_id (take n ?xs))"
    then obtain h where h: "h \<in> set (take n ?xs)" "fl_id f = fl_id h" by auto
    have "h \<in> set (fd_files db)" "cleanable cutoff now db h" using in_set_takeD[OF h(1)] by auto
    moreover from this(1) have "f = h" using files_ok_inj[OF ok(1,2) _ h(2)] by blast
    ultimately have "rank (fl_status f) \<le> 2" by (auto simp: cleanable_def)
    then show "row_on f (claimed_row now token t f)" by (intro gone_row_on) (simp_all add: claimed_row_def)
  qed
  have "file_on db (update_files (\<lambda>f. fl_id f \<in> set (map fl_id (take n ?xs))) (claimed_row now token t) (db\<lparr>fd_claim_seq := k\<rparr>))"
    for n token t k by (rule file_on_same_files[OF base[of n token t]]) (simp_all add: update_files_def)
  then show ?thesis by (simp add: ClaimFilesForStorageCleanup_def Let_def)
qed

lemma finalize_on: "file_on db (snd (FinalizeFileStorageRemoval now i token db))"
proof -
  have "file_on db (update_files (holds_claim i token) (\<lambda>f. f\<lparr>fl_status := FileStatusStorageRemoved, fl_claim_token := None,
      fl_cleanup_lease := None, fl_deleted := Some (coalesce (fl_deleted f) now)\<rparr>) db)"
    by (rule update_files_on) (auto simp: holds_claim_def intro!: gone_row_on)
  then show ?thesis by (simp add: FinalizeFileStorageRemoval_def Let_def)
qed

lemma staged_update_on:
  "file_on db (snd (FailStaleOCRSubmissions now db))" "file_on db (FailOCR now i u ty msg db)" "file_on db (ClearOCRSourcePath i u path db)"
  "file_on db (snd (ClearOCRSourcePathClaim i u g path db))" "file_on db (ReleaseFileStorageCleanupClaim i token db)"
  unfolding FailStaleOCRSubmissions_def FailOCR_def ClearOCRSourcePath_def ClearOCRSourcePathClaim_def ReleaseFileStorageCleanupClaim_def
    Let_def snd_conv
  by (rule update_files_on lease_mutation_on; auto simp: failed_row_def row_on_def formal_ok_def)+

lemma owned_update_on:
  "file_on db (snd (UpdateOCRRunning i u g p db))" "file_on db (snd (StartOCRTask now i u g task p db))"
  "file_on db (snd (MarkOCRSubmissionStarted i u g db))" "file_on db (snd (FailOCRClaim now i u g ty msg db))"
  "file_on db (snd (ReleaseOCRLease i u g retry db))"
  unfolding UpdateOCRRunning_def StartOCRTask_def MarkOCRSubmissionStarted_def FailOCRClaim_def ReleaseOCRLease_def
  by (rule lease_mutation_on, rule owned_row_on[of i u g]; simp add: failed_row_def)+

lemma attempt_on: "file_on db (snd (RecordOCRAttempt i u g db))"
  by (auto simp: RecordOCRAttempt_def intro!: update_files_on owned_row_on split: option.splits)

lemma complete_on: "file_on db (snd (CompleteOCRClaim now i u g path tokens promote db))"
proof -
  have "file_on db (snd (lease_mutation (owned i u g) (completed_row now path (max tokens 0)) db))"
    by (rule lease_mutation_on, rule owned_row_on[of i u g]) (simp_all add: completed_row_def)
  then show ?thesis by (auto simp: CompleteOCRClaim_def split: option.splits prod.splits)
qed

lemma submit_if_on:
  assumes "\<And>f. P f \<Longrightarrow> row_on f (h f)" shows "file_on (qd_files q) (qd_files (snd (submit_if P h q)))"
  using update_files_on[of "qd_files q" P h] assms by (simp add: submit_if_def)

lemma submitted_row_on: "submission_open i u g f \<Longrightarrow> row_on f (submitted_row n f)"
  "submission_open i u g f \<Longrightarrow> row_on f ((submitted_row n f)\<lparr>fl_started := t\<rparr>)"
  by (simp_all add: submission_open_def submitted_row_def row_on_def formal_ok_def)

lemma submission_body_on: "file_on (qd_files q) (qd_files (snd (ocr_submission_body now i u g n q)))"
proof -
  have "file_on (qd_files q) (qd_files (snd (submit_if (submission_open i u g) (submitted_row n) q)))"
    by (rule submit_if_on) (rule submitted_row_on)
  moreover have "file_on (qd_files q) (qd_files (snd (submit_if (\<lambda>f. submission_open i u g f \<and> fl_started f = None)
      (\<lambda>f. (submitted_row n f)\<lparr>fl_started := Some now\<rparr>) q)))"
    by (rule submit_if_on) (rule submitted_row_on(2), elim conjE)
  ultimately show ?thesis by (simp add: ocr_submission_body_def split: sum.split option.split)
qed

lemma reserve_submission_on: "file_on (qd_files q) (qd_files (snd (ReserveOCRSubmission fault now i u g n q)))"
  using run_tx_cases[of fault "ocr_submission_body now i u g (max n 0)" q] submission_body_on[of q now i u g "max n 0"]
  by (auto simp: ReserveOCRSubmission_def)

lemma file_step_on: "file_step db db' \<Longrightarrow> file_on db db'"
proof (induction rule: file_step.induct)
  case (finalize now i token db db')
  then show ?case using finalize_on[of db now i token] by simp
next
  case (reserve_submission q db fault now i u g pages)
  then show ?case using reserve_submission_on[of q fault now i u g pages] by simp
next
  case (purge db ms ss)
  show ?case by (rule file_on_same_files[OF file_on_refl]) simp_all
qed (simp_all add: create_on claim_attachments_on deletion_on restart_on claim_ocr_on expire_on cleanup_on staged_update_on owned_update_on
    attempt_on complete_on)

lemma file_steps_on: "file_step\<^sup>*\<^sup>* db db' \<Longrightarrow> file_on db db'"
proof (induction rule: rtranclp_induct)
  case (step y z)
  show ?case by (rule file_on_trans[OF step.IH file_step_on[OF step.hyps(2)]])
qed simp

lemma file_on_row:
  assumes "file_on db db'" "files_ok db" "f \<in> set (fd_files db)"
  shows "\<exists>f' \<in> set (fd_files db'). row_on f f'"
  using assms unfolding file_on_def by fastforce

lemma file_on_ok: "file_on db db' \<Longrightarrow> files_ok db \<Longrightarrow> files_ok db'"
  unfolding file_on_def by blast

text \<open>
  C19.
  An attachment only moves forward, whoever works on it: staged, then possibly part of a message,
  then claimed for cleanup, then removed; its owner, session and type stay, its lease generation
  never falls, and an attachment in a message is an image or has its text extracted.
\<close>

theorem attachment_moves_forward:
  assumes "files_ok db" "file_step\<^sup>*\<^sup>* db db'" "f \<in> set (fd_files db)" "formal_ok f"
  shows "\<exists>f' \<in> set (fd_files db'). fl_id f' = fl_id f \<and> fl_user f' = fl_user f \<and> fl_session f' = fl_session f \<and> fl_type f' = fl_type f \<and>
    rank (fl_status f) \<le> rank (fl_status f') \<and> fl_generation f \<le> fl_generation f' \<and>
    (fl_status f' = FileStatusFormal \<longrightarrow> has_prefix (fl_type f') ''image/'' \<or> fl_extract f' = ExtractReady)"
  using file_on_row[OF file_steps_on[OF assms(2)] assms(1,3)] assms(4) unfolding row_on_def formal_ok_def by blast

section \<open>Fencing\<close>

lemma owned_none:
  assumes "files_ok db" "f \<in> set (fd_files db)" "fl_id f = i" "fl_generation f > g"
  shows "\<not> list_ex (owned i u g) (fd_files db)" "find (owned i u g) (fd_files db) = None"
    "list_ex (\<lambda>h. owned i u g h \<and> Q h) (fd_files db) = False"
    "\<not> list_ex (\<lambda>h. fl_id h = i \<and> fl_user h = u \<and> g > 0 \<and> fl_generation h = g \<and> R h) (fd_files db)"
proof -
  have n: "h = f" if "h \<in> set (fd_files db)" "fl_id h = i" for h using files_ok_inj[OF assms(1) that(1) assms(2)] that(2) assms(3) by simp
  have o: "\<not> owned i u g h" if "h \<in> set (fd_files db)" for h using n[OF that] assms(4) by (auto simp: owned_def)
  show "\<not> list_ex (owned i u g) (fd_files db)" "find (owned i u g) (fd_files db) = None"
    "list_ex (\<lambda>h. owned i u g h \<and> Q h) (fd_files db) = False"
    using o by (auto simp: list_ex_iff find_None_iff)
  show "\<not> list_ex (\<lambda>h. fl_id h = i \<and> fl_user h = u \<and> g > 0 \<and> fl_generation h = g \<and> R h) (fd_files db)"
    using n assms(4) by (auto simp: list_ex_iff)
qed

text \<open>Without the lease the reservation of a submission fails, whatever the fault of its transaction.\<close>

lemma stale_submission:
  assumes "\<not> list_ex (owned i u g) (fd_files (qd_files q))"
  shows "\<exists>e. ocr_submission_body now i u g n q = (Inl e, q) \<and> (e = ErrNotFound \<or> e = ErrOCRLeaseLost)"
proof (cases "limitsForUser q u")
  case (Inl e)
  then show ?thesis by (simp add: ocr_submission_body_def limitsForUser_def split: option.splits)
next
  case (Inr limits)
  show ?thesis
  proof (cases "find (\<lambda>f. fl_id f = i \<and> fl_user f = u) (fd_files (qd_files q))")
    case (Some f)
    then have "f \<in> set (fd_files (qd_files q))" by (auto simp: find_Some_iff)
    then have "\<not> owned i u g f" using assms by (auto simp: list_ex_iff)
    then show ?thesis using Inr Some by (simp add: ocr_submission_body_def)
  qed (simp add: ocr_submission_body_def Inr)
qed

text \<open>
  C20.
  A worker whose lease was taken over can change nothing in the database any more: once the generation
  of a file has passed the one the worker claimed, every mutation it has, now and after any further
  steps of anybody, is refused and leaves the tables as they are.  This includes the reservation of a
  submission against the quota, in the repository and in the service, whatever happens to its
  transaction; a completion is refused before the text is put in place.
\<close>

theorem stale_worker_fenced:
  assumes "files_ok db" "f \<in> set (fd_files db)" "fl_id f = i" "fl_generation f > g" "file_step\<^sup>*\<^sup>* db (qd_files q)"
  shows "UpdateOCRRunning i u g pages (qd_files q) = (Some ErrOCRLeaseLost, qd_files q) \<and>
    StartOCRTask now i u g task pages (qd_files q) = (Some ErrOCRLeaseLost, qd_files q) \<and>
    MarkOCRSubmissionStarted i u g (qd_files q) = (Some ErrOCRLeaseLost, qd_files q) \<and>
    RecordOCRAttempt i u g (qd_files q) = (Inl ErrOCRLeaseLost, qd_files q) \<and>
    CompleteOCRClaim now i u g path tokens promote (qd_files q) = ((Some ErrOCRLeaseLost, False), qd_files q) \<and>
    FailOCRClaim now i u g ty msg (qd_files q) = (Some ErrOCRLeaseLost, qd_files q) \<and>
    ReleaseOCRLease i u g retry (qd_files q) = (Some ErrOCRLeaseLost, qd_files q) \<and>
    ClearOCRSourcePathClaim i u g path (qd_files q) = (Some ErrOCRLeaseLost, qd_files q) \<and>
    (\<exists>e. ReserveOCRSubmission fault now i u g pages q = (Inl e, q)) \<and>
    (\<exists>e. service_ReserveOCRSubmission fault now i u g pages q = (Inl e, q)) \<and>
    (u = fl_user f \<and> limitsForUser q u \<noteq> Inl ErrNotFound \<longrightarrow>
      ReserveOCRSubmission FaultNone now i u g pages q = (Inl ErrOCRLeaseLost, q))"
proof -
  have on: "file_on db (qd_files q)" by (rule file_steps_on[OF assms(5)])
  obtain f' where f': "f' \<in> set (fd_files (qd_files q))" "row_on f f'" using file_on_row[OF on assms(1,2)] by blast
  have i': "fl_id f' = i" "fl_generation f' > g" using f'(2) assms(3,4) by (auto simp: row_on_def)
  note none = owned_none[OF file_on_ok[OF on assms(1)] f'(1) i']
  obtain e where e: "ocr_submission_body now i u g (max pages 0) q = (Inl e, q)" "e = ErrNotFound \<or> e = ErrOCRLeaseLost"
    using stale_submission[OF none(1)] by blast
  have r: "\<exists>e. ReserveOCRSubmission fault now i u g pages q = (Inl e, q)"
    by (simp add: ReserveOCRSubmission_def run_tx_def e(1) split: db_fault.split)
  have lost: "ReserveOCRSubmission FaultNone now i u g pages q = (Inl ErrOCRLeaseLost, q)"
    if user: "u = fl_user f" and known: "limitsForUser q u \<noteq> Inl ErrNotFound"
  proof -
    obtain limits where l: "limitsForUser q u = Inr limits"
      using known by (auto simp: limitsForUser_def split: option.splits)
    have "fl_user f' = u" using f'(2) user by (simp add: row_on_def)
    then obtain h where h: "find (\<lambda>f. fl_id f = i \<and> fl_user f = u) (fd_files (qd_files q)) = Some h"
      using f'(1) i'(1) by (cases "find (\<lambda>f. fl_id f = i \<and> fl_user f = u) (fd_files (qd_files q))") (auto simp: find_None_iff)
    then have "h \<in> set (fd_files (qd_files q))" by (auto simp: find_Some_iff)
    then have "\<not> owned i u g h" using none(1) by (auto simp: list_ex_iff)
    then show ?thesis by (simp add: ReserveOCRSubmission_def run_tx_def ocr_submission_body_def l h)
  qed
  show ?thesis
    using r lost
    by (auto simp: UpdateOCRRunning_def StartOCRTask_def MarkOCRSubmissionStarted_def RecordOCRAttempt_def CompleteOCRClaim_def
        FailOCRClaim_def ReleaseOCRLease_def ClearOCRSourcePathClaim_def lease_mutation_def none
        service_ReserveOCRSubmission_def map_quota_def)
qed


section \<open>Parallel OCR work\<close>

lemma length_filter_or: "length (filter (\<lambda>x. P x \<or> Q x) xs) \<le> length (filter P xs) + length (filter Q xs)"
  by (induction xs) auto

lemma length_filter_le: "(\<And>x. x \<in> set xs \<Longrightarrow> P x \<Longrightarrow> Q x) \<Longrightarrow> length (filter P xs) \<le> length (filter Q xs)"
  by (induction xs) auto

lemma length_filter_ids:
  assumes "distinct (map k xs)" shows "length (filter (\<lambda>x. k x \<in> set ids) xs) \<le> length ids"
proof -
  have "distinct (map k (filter (\<lambda>x. k x \<in> set ids) xs))" using assms by (simp add: distinct_map inj_on_def)
  then have "length (filter (\<lambda>x. k x \<in> set ids) xs) = card (set (map k (filter (\<lambda>x. k x \<in> set ids) xs)))"
    by (metis distinct_card length_map)
  also have "\<dots> \<le> card (set ids)" by (rule card_mono) auto
  also have "\<dots> \<le> length ids" by (rule card_length)
  finally show ?thesis .
qed

lemma candidates_facts:
  "length (ocr_candidates locked p now n db) \<le> n"
  "i \<in> set (ocr_candidates locked p now n db) \<Longrightarrow> \<exists>f \<in> set (fd_files db). fl_id f = i \<and> recoverable p now f \<and> \<not> locked i"
proof -
  show "length (ocr_candidates locked p now n db) \<le> n" by (simp add: ocr_candidates_def)
  assume "i \<in> set (ocr_candidates locked p now n db)"
  then show "\<exists>f \<in> set (fd_files db). fl_id f = i \<and> recoverable p now f \<and> \<not> locked i"
    unfolding ocr_candidates_def by (auto dest!: in_set_takeD)
qed

text \<open>
  A claim of OCR work never takes the provider above its limit of parallel leases, takes no file
  twice, only files whose lease has run out, and gives every claimed file a generation of its own.
\<close>

theorem ocr_claims_bounded:
  assumes "files_ok db" "ClaimRecoverableOCRTasks locked p now lease m db = (files, db')"
  shows "int (active_leases (trim_space p) now db') \<le> max m (int (active_leases (trim_space p) now db)) \<and> distinct (map fl_id files) \<and>
    (\<forall>f \<in> set files. lease_live now f \<and>
      (\<exists>f0 \<in> set (fd_files db). fl_id f0 = fl_id f \<and> \<not> lease_live now f0 \<and> \<not> locked (fl_id f) \<and> fl_generation f = fl_generation f0 + 1))"
proof (cases "m \<le> 0 \<or> m - int (active_leases (trim_space p) now db) \<le> 0")
  case True
  then have "files = [] \<and> db' = db" using assms(2) by (auto simp: ClaimRecoverableOCRTasks_def Let_def)
  then show ?thesis by simp
next
  case False
  define q where "q = trim_space p"
  define n where "n = nat (m - int (active_leases q now db))"
  define ids where "ids = ocr_candidates locked q now n db"
  define t where "t = now + (if lease \<le> 0 then 120000000000 else lease)"
  let ?g = "\<lambda>f. if fl_id f \<in> set ids then claim_lease t f else f"
  let ?A = "\<lambda>f. fl_status f = FileStatusStaged \<and> fl_provider f = Some q \<and> ocr_active f \<and> lease_live now f"
  have tn: "now < t" by (simp add: t_def)
  have d: "fd_files db' = map ?g (fd_files db)" and fs: "files = filter (\<lambda>f. fl_id f \<in> set ids) (fd_files db')"
    using assms(2) False by (auto simp: ClaimRecoverableOCRTasks_def Let_def q_def n_def ids_def t_def update_files_def)
  have gi: "fl_id (?g f) = fl_id f" for f by (simp add: claim_lease_def)
  have dist: "distinct (map fl_id (fd_files db))" using assms(1) by (simp add: files_ok_def)
  have dist': "distinct (map fl_id (fd_files db'))" unfolding d using dist by (simp add: comp_def gi)
  have "active_leases q now db' = length (filter (?A \<circ> ?g) (fd_files db))" by (simp add: active_leases_def d filter_map)
  also have "\<dots> \<le> length (filter (\<lambda>f. ?A f \<or> fl_id f \<in> set ids) (fd_files db))" by (rule length_filter_le) (auto split: if_splits)
  also have "\<dots> \<le> length (filter ?A (fd_files db)) + length (filter (\<lambda>f. fl_id f \<in> set ids) (fd_files db))" by (rule length_filter_or)
  also have "\<dots> \<le> active_leases q now db + n"
    using length_filter_ids[OF dist, of ids] candidates_facts(1)[of locked q now n db] by (simp add: active_leases_def ids_def)
  finally have "active_leases q now db' \<le> active_leases q now db + n" .
  moreover have "int n = m - int (active_leases q now db)" using False by (simp add: n_def q_def)
  ultimately have "int (active_leases q now db') \<le> m" by linarith
  moreover have "distinct (map fl_id files)" unfolding fs using dist' by (simp add: distinct_map inj_on_def)
  moreover have "lease_live now f \<and> (\<exists>f0 \<in> set (fd_files db). fl_id f0 = fl_id f \<and> \<not> lease_live now f0 \<and> \<not> locked (fl_id f) \<and>
      fl_generation f = fl_generation f0 + 1)" if "f \<in> set files" for f
  proof -
    obtain f0 where f0: "f0 \<in> set (fd_files db)" "f = ?g f0" "fl_id f \<in> set ids" using \<open>f \<in> set files\<close> unfolding fs d by auto
    have i: "fl_id f = fl_id f0" using f0(2) gi by simp
    obtain h where h: "h \<in> set (fd_files db)" "fl_id h = fl_id f" "recoverable q now h" "\<not> locked (fl_id f)"
      using candidates_facts(2) f0(3) unfolding ids_def by blast
    have "h = f0" using files_ok_inj[OF assms(1) h(1) f0(1)] h(2) i by simp
    moreover have "f = claim_lease t f0" using f0(2,3) i by simp
    ultimately show ?thesis using h f0(1) tn
      by (intro conjI bexI[of _ f0]) (simp_all add: claim_lease_def lease_live_def recoverable_def)
  qed
  ultimately show ?thesis unfolding q_def by auto
qed

section \<open>Deleting an attachment\<close>

lemma deleted_row_facts:
  "fl_id (deleted_row now after f) = fl_id f" "fl_status (deleted_row now after f) = FileStatusCleanupClaimed"
  "fl_generation (deleted_row now after f) = fl_generation f + 1" "\<not> ocr_active (deleted_row now after f)"
  by (simp_all add: deleted_row_def ocr_active_def)

text \<open>
  Deleting an attachment of a message takes effect at once everywhere: the file goes to cleanup with
  no OCR work left on it, the agent can no longer read it, every message that carries it shows it as
  unavailable, and the worker that was on it is fenced off.
\<close>

theorem deletion_takes_effect:
  assumes "files_ok db" "f \<in> set (fd_files db)" "fl_status f = FileStatusFormal"
    "RequestDeletion (fl_id f) (fl_user f) now after db = (r, db')"
  shows "r = None \<and> (\<exists>f' \<in> set (fd_files db'). fl_id f' = fl_id f \<and> fl_status f' = FileStatusCleanupClaimed \<and> \<not> ocr_active f' \<and>
      fl_generation f' = fl_generation f + 1) \<and>
    GetReadableFileForAgent db' u s (fl_id f) = Inl (ErrWrap ''file not readable'' ErrNotFound) \<and>
    (\<forall>m \<in> set (fd_messages db'). \<forall>a \<in> set (fm_attachments m). fst a = fl_id f \<longrightarrow> snd a)"
proof -
  let ?P = "\<lambda>h. fl_id h = fl_id f \<and> fl_user h = fl_user f"
  have u: "h = f" if "h \<in> set (fd_files db)" "fl_id h = fl_id f" for h using files_ok_inj[OF assms(1) that(1) assms(2) that(2)] .
  obtain h where "find ?P (fd_files db) = Some h" using assms(2) by (cases "find ?P (fd_files db)") (auto simp: find_None_iff)
  moreover from this have "h = f" by (auto simp: find_Some_iff intro: u)
  ultimately have r: "r = None" "db' = markMessageAttachmentsUnavailable (fl_id f) (update_files ?P (deleted_row now (max after now)) db)"
    using assms(3,4) by (auto simp: RequestDeletion_def Let_def)
  have files: "fd_files db' = map (\<lambda>h. if ?P h then deleted_row now (max after now) h else h) (fd_files db)"
    by (simp add: r markMessageAttachmentsUnavailable_def update_files_def)
  have "deleted_row now (max after now) f \<in> set (fd_files db')"
    unfolding files set_map using assms(2) by (intro image_eqI[of _ _ f]) simp_all
  moreover have "\<not> (fl_id g = fl_id f \<and> fl_status g = FileStatusFormal)" if "g \<in> set (fd_files db')" for g
  proof -
    obtain h where "h \<in> set (fd_files db)" "g = (if ?P h then deleted_row now (max after now) h else h)" using \<open>g \<in> _\<close> unfolding files by auto
    then show ?thesis using u[of h] by (cases "fl_id h = fl_id f") (auto simp: deleted_row_def)
  qed
  then have "find (\<lambda>g. fl_id g = fl_id f \<and> in_session u s g \<and> fl_status g = FileStatusFormal) (fd_files db') = None"
    by (auto simp: find_None_iff)
  moreover have "\<forall>m \<in> set (fd_messages db'). \<forall>a \<in> set (fm_attachments m). fst a = fl_id f \<longrightarrow> snd a"
    by (auto simp: r markMessageAttachmentsUnavailable_def)
  ultimately show ?thesis using r(1)
    by (intro conjI bexI[of _ "deleted_row now (max after now) f"]) (simp_all add: GetReadableFileForAgent_def deleted_row_facts)
qed


section \<open>Examples\<close>

definition demo_pdf :: file_row where
  "demo_pdf = \<lparr>fl_id = 1, fl_user = 5, fl_session = Some 1, fl_name = ''a.pdf'', fl_path = ''p'', fl_type = ''application/pdf'', fl_size = 10,
     fl_hash = ''h'', fl_status = FileStatusStaged, fl_text_path = None, fl_extract = ExtractOcrPending, fl_extract_error = None,
     fl_tokens = 0, fl_provider = Some ''mineru'', fl_task = None, fl_pages = 0, fl_progress = 0, fl_started = None, fl_completed = None,
     fl_error_type = None, fl_source = Some ''src'', fl_lease = Some 100, fl_generation = 1, fl_attempts = 0, fl_next_retry = None,
     fl_created = 0, fl_deleted = None, fl_cleanup_after = None, fl_claim_token = None, fl_cleanup_lease = None\<rparr>"

definition demo_files :: file_db where
  "demo_files = \<lparr>fd_files = [demo_pdf], fd_messages = [\<lparr>fm_session = 1, fm_deleted = False, fm_attachments = [(1, False)]\<rparr>],
     fd_sessions = [(1, \<lparr>fs_user = 5, fs_deleted = None\<rparr>)], fd_next_file = 2, fd_claim_seq = 0\<rparr>"

lemma demo_files_ok: "files_ok demo_files" "demo_pdf \<in> set (fd_files demo_files)" "formal_ok demo_pdf"
  by (simp_all add: files_ok_def demo_files_def demo_pdf_def formal_ok_def)

lemma attachment_moves_forward_witness:
  "\<exists>f' \<in> set (fd_files (snd (RequestDeletion 1 5 7 9 demo_files))). fl_id f' = 1 \<and> rank FileStatusStaged \<le> rank (fl_status f')"
proof -
  have s: "file_step\<^sup>*\<^sup>* demo_files (snd (RequestDeletion 1 5 7 9 demo_files))"
    by (rule r_into_rtranclp) (rule file_step.request_deletion)
  show ?thesis using attachment_moves_forward[OF demo_files_ok(1) s demo_files_ok(2,3)] by (auto simp: demo_pdf_def)
qed

lemma demo_claim:
  "ClaimRecoverableOCRTasks (\<lambda>_. False) ''mineru'' 200 50 1 demo_files =
    ([demo_pdf\<lparr>fl_lease := Some 250, fl_generation := 2\<rparr>], demo_files\<lparr>fd_files := [demo_pdf\<lparr>fl_lease := Some 250, fl_generation := 2\<rparr>]\<rparr>)"
  by (simp add: ClaimRecoverableOCRTasks_def demo_files_def demo_pdf_def active_leases_def ocr_candidates_def recoverable_def ocr_active_def
      lease_live_def retry_time_def coalesce_def trim_space_def trim_ends_def dec_more_def update_files_def claim_lease_def Let_def)

lemma ocr_claims_bounded_witness:
  "int (active_leases ''mineru'' 200 (snd (ClaimRecoverableOCRTasks (\<lambda>_. False) ''mineru'' 200 50 1 demo_files))) \<le> 1"
proof -
  have t: "trim_space ''mineru'' = ''mineru''" by (simp add: trim_space_def trim_ends_def dec_more_def)
  have "active_leases ''mineru'' 200 demo_files = 0"
    by (simp add: active_leases_def demo_files_def demo_pdf_def lease_live_def)
  then show ?thesis using ocr_claims_bounded[OF demo_files_ok(1) demo_claim] unfolding t demo_claim by simp
qed

text \<open>Worker A claimed generation 1, its lease ran out at 100, worker B claimed the file at 200.\<close>

definition taken_over :: quota_db where
  "taken_over = quota_demo_all\<lparr>qd_files := demo_files\<lparr>fd_files := [demo_pdf\<lparr>fl_lease := Some 250, fl_generation := 2\<rparr>]\<rparr>\<rparr>"

lemma stale_worker_fenced_witness:
  "qd_files taken_over = snd (ClaimRecoverableOCRTasks (\<lambda>_. False) ''mineru'' 200 50 1 demo_files) \<and>
    CompleteOCRClaim 300 1 5 1 ''text'' 10 (Some None) (qd_files taken_over) = ((Some ErrOCRLeaseLost, False), qd_files taken_over) \<and>
    (\<exists>e. ReserveOCRSubmission FaultNone 300 1 5 1 3 taken_over = (Inl e, taken_over))"
proof -
  let ?f = "demo_pdf\<lparr>fl_lease := Some 250, fl_generation := 2\<rparr>"
  have q: "qd_files taken_over = demo_files\<lparr>fd_files := [?f]\<rparr>" by (simp add: taken_over_def)
  have ok: "files_ok (qd_files taken_over)" "?f \<in> set (fd_files (qd_files taken_over))"
    unfolding q by (simp_all add: files_ok_def demo_files_def demo_pdf_def)
  have g: "fl_id ?f = 1" "1 < fl_generation ?f" by (simp_all add: demo_pdf_def)
  show ?thesis
    using stale_worker_fenced[OF ok g rtranclp.rtrancl_refl, of 5] demo_claim q by auto
qed

lemma deletion_takes_effect_witness:
  "GetReadableFileForAgent (snd (RequestDeletion 1 5 7 9 (demo_files\<lparr>fd_files := [demo_pdf\<lparr>fl_status := FileStatusFormal\<rparr>]\<rparr>))) 5 1 1 =
    Inl (ErrWrap ''file not readable'' ErrNotFound)"
proof -
  let ?f = "demo_pdf\<lparr>fl_status := FileStatusFormal\<rparr>"
  let ?db = "demo_files\<lparr>fd_files := [?f]\<rparr>"
  obtain r db' where e: "RequestDeletion (fl_id ?f) (fl_user ?f) 7 9 ?db = (r, db')" by fastforce
  have "files_ok ?db" by (simp add: files_ok_def demo_files_def demo_pdf_def)
  moreover have i: "fl_id ?f = 1" "fl_user ?f = 5" by (simp_all add: demo_pdf_def)
  ultimately show ?thesis using deletion_takes_effect[OF _ _ _ e] e unfolding i by simp
qed

end
