(* ===== verification/AnswerAttempts.thy ===== *)
theory AnswerAttempts
  imports RunStore
begin

text \<open>
  The attempts at one answer (\<^verbatim>\<open>internal/repository/answer_attempt_repository.go\<close>):
  every user message has numbered attempts, at most one of them selected.  The unique indexes of
  \<^verbatim>\<open>answer_attempts\<close> (run, message and number, selected per message) are part of the
  insertion: a row that breaks one is refused with SQLSTATE 23505.
\<close>

definition unique_violation :: go_err where
  "unique_violation = SqlError ''23505'' ''duplicate key''"

definition insert_attempt :: "answer_attempt \<Rightarrow> run_db \<Rightarrow> (go_err + answer_attempt) \<times> run_db" where
  "insert_attempt a db =
    (if list_ex (\<lambda>b. aa_run_id b = aa_run_id a \<and> aa_run_id b \<noteq> None \<or>
          aa_user_message_id b = aa_user_message_id a \<and> (aa_number b = aa_number a \<or> aa_selected b \<and> aa_selected a)) (db_attempts db)
     then (Inl (ErrWrap ''create answer attempt'' unique_violation), db)
     else (Inr (a\<lparr>aa_id := db_next_attempt db\<rparr>),
       db\<lparr>db_attempts := db_attempts db @ [a\<lparr>aa_id := db_next_attempt db\<rparr>], db_next_attempt := db_next_attempt db + 1\<rparr>))"

definition next_attempt_number :: "run_db \<Rightarrow> int \<Rightarrow> int" where
  "next_attempt_number db userMessageID =
    foldl max 0 (map aa_number (filter (\<lambda>a. aa_user_message_id a = userMessageID) (db_attempts db))) + 1"

definition createAnswerAttemptForRunTx ::
  "int \<Rightarrow> int \<Rightarrow> string \<Rightarrow> bool \<Rightarrow> run_db \<Rightarrow> (go_err + answer_attempt) \<times> run_db" where
  "createAnswerAttemptForRunTx sessionID userMessageID runID0 selected db =
    (let runID = trim_space runID0
     in if sessionID \<le> 0 \<or> userMessageID \<le> 0 \<or> runID = [] then (Inl (ErrText ''invalid answer attempt input''), db)
        else if \<not> list_ex (\<lambda>m. mr_id m = userMessageID \<and> mr_session_id m = sessionID \<and> mr_role m = ''user'' \<and> \<not> mr_deleted m)
                  (db_messages db)
        then (Inl ErrRetryTargetStale, db)
        else insert_attempt \<lparr>aa_id = 0, aa_session_id = sessionID, aa_user_message_id = userMessageID, aa_run_id = Some runID,
               aa_number = next_attempt_number db userMessageID, aa_status = AnswerAttemptStatusRunning,
               aa_selected = selected, aa_completed_at = None\<rparr> db)"

definition answerAttemptForRunTx :: "string \<Rightarrow> run_db \<Rightarrow> answer_attempt option" where
  "answerAttemptForRunTx runID db =
    (if trim_space runID = [] then None else find (\<lambda>a. aa_run_id a = Some (trim_space runID)) (db_attempts db))"

section \<open>Selectable output\<close>

definition messageHasSelectableAnswerOutput :: "message_row \<Rightarrow> bool" where
  "messageHasSelectableAnswerOutput m \<longleftrightarrow> mr_role m = ''assistant'' \<and>
     (case ParseMessageData (mr_data m) of
        None \<Rightarrow> False
      | Some data \<Rightarrow> \<not> go_flag data ''ephemeral_error'' \<and>
          (trim_space (go_content data) \<noteq> [] \<or> mr_has_tool_calls m \<or> mr_has_reasoning m))"

definition messagesHaveSelectableAnswerOutput :: "message_row list \<Rightarrow> bool" where
  "messagesHaveSelectableAnswerOutput ms = list_ex messageHasSelectableAnswerOutput ms"

definition answerAttemptTerminalStatus :: "run_status \<Rightarrow> message_row list \<Rightarrow> attempt_status" where
  "answerAttemptTerminalStatus runStatus ms =
    (if \<not> messagesHaveSelectableAnswerOutput ms then AnswerAttemptStatusFailed
     else if runStatus = RunStatusCompleted then AnswerAttemptStatusCompleted
     else AnswerAttemptStatusIncomplete)"

text \<open>The EXISTS of the selection queries; \<^verbatim>\<open>btrim\<close> strips spaces only.\<close>

definition btrim :: "string \<Rightarrow> string" where
  "btrim s = trim_ends (\<lambda>c. c = CHR '' '') s"

definition selectable_message :: "int \<Rightarrow> message_row \<Rightarrow> bool" where
  "selectable_message attemptID m \<longleftrightarrow> mr_answer_attempt m = Some attemptID \<and> \<not> mr_deleted m \<and> \<not> mr_compressed m \<and>
     mr_role m = ''assistant'' \<and> \<not> mr_ephemeral_error m \<and>
     (btrim (mr_content m) \<noteq> [] \<or> mr_has_tool_calls m \<or> mr_has_reasoning m)"

definition finished_status :: "attempt_status \<Rightarrow> bool" where
  "finished_status st \<longleftrightarrow> st = AnswerAttemptStatusCompleted \<or> st = AnswerAttemptStatusIncomplete"

definition has_output :: "run_db \<Rightarrow> int \<Rightarrow> bool" where
  "has_output db attemptID = list_ex (selectable_message attemptID) (db_messages db)"

definition selectable_attempts :: "run_db \<Rightarrow> int \<Rightarrow> answer_attempt list" where
  "selectable_attempts db userMessageID = sort_key aa_number
    (filter (\<lambda>a. aa_user_message_id a = userMessageID \<and> finished_status (aa_status a) \<and> has_output db (aa_id a)) (db_attempts db))"

section \<open>Finishing, selecting, deleting\<close>

definition clear_selection :: "int \<Rightarrow> run_db \<Rightarrow> run_db" where
  "clear_selection userMessageID = update_attempts (\<lambda>a. aa_user_message_id a = userMessageID \<and> aa_selected a) (\<lambda>a. a\<lparr>aa_selected := False\<rparr>)"

definition advance_revision :: "int \<Rightarrow> int \<Rightarrow> run_db \<Rightarrow> run_db" where
  "advance_revision now sessionID db = db\<lparr>db_sessions := map (\<lambda>(k, s). (k, if k = sessionID
     then s\<lparr>sr_selection_revision := sr_selection_revision s + 1, sr_updated_at := now\<rparr> else s)) (db_sessions db)\<rparr>"

definition session_revision :: "run_db \<Rightarrow> int \<Rightarrow> int" where
  "session_revision db sessionID = (case map_of (db_sessions db) sessionID of None \<Rightarrow> 0 | Some s \<Rightarrow> sr_selection_revision s)"

definition finishAnswerAttemptTx :: "int \<Rightarrow> answer_attempt option \<Rightarrow> run_status \<Rightarrow> message_row list \<Rightarrow> run_db \<Rightarrow> run_db" where
  "finishAnswerAttemptTx now attempt runStatus ms db =
    (case attempt of
       None \<Rightarrow> db
     | Some a \<Rightarrow>
         (let status = answerAttemptTerminalStatus runStatus ms
          in if status = AnswerAttemptStatusCompleted \<and> \<not> aa_selected a
             then advance_revision now (aa_session_id a)
                    (update_attempts (\<lambda>b. aa_id b = aa_id a) (\<lambda>b. b\<lparr>aa_status := status, aa_selected := True, aa_completed_at := Some now\<rparr>)
                      (clear_selection (aa_user_message_id a) db))
             else update_attempts (\<lambda>b. aa_id b = aa_id a) (\<lambda>b. b\<lparr>aa_status := status, aa_completed_at := Some now\<rparr>) db))"

text \<open>The attempt with its selection flag, whether the selection changed, the revision.\<close>

definition select_body :: "int \<Rightarrow> int \<Rightarrow> int \<Rightarrow> int \<Rightarrow> run_db \<Rightarrow> (go_err + answer_attempt \<times> bool \<times> int) \<times> run_db" where
  "select_body now sessionID userID attemptID db =
    (case lockActiveSession db sessionID userID of
       Some e \<Rightarrow> (Inl e, db)
     | None \<Rightarrow>
       (case find (\<lambda>a. aa_id a = attemptID \<and> aa_session_id a = sessionID) (db_attempts db) of
          None \<Rightarrow> (Inl ErrAnswerAttemptNotFound, db)
        | Some a \<Rightarrow>
            if \<not> finished_status (aa_status a) \<or> \<not> has_output db (aa_id a) then (Inl ErrAnswerAttemptNotSelectable, db)
            else if aa_selected a then (Inr (a, False, session_revision db sessionID), db)
            else
              (let db' = advance_revision now sessionID
                     (update_attempts (\<lambda>b. aa_id b = aa_id a) (\<lambda>b. b\<lparr>aa_selected := True\<rparr>) (clear_selection (aa_user_message_id a) db))
               in (Inr (a\<lparr>aa_selected := True\<rparr>, True, session_revision db' sessionID), db'))))"

definition SelectForActiveSession :: "db_fault \<Rightarrow> int \<Rightarrow> int \<Rightarrow> int \<Rightarrow> int \<Rightarrow> run_db \<Rightarrow> (go_err + answer_attempt \<times> bool \<times> int) \<times> run_db" where
  "SelectForActiveSession fault now sessionID userID attemptID db =
    (if attemptID \<le> 0 then (Inl ErrAnswerAttemptNotFound, db)
     else run_tx fault (select_body now sessionID userID attemptID) db)"

text \<open>The neighbour that takes over the selection: the one before, else the one after.\<close>

fun index_where :: "('a \<Rightarrow> bool) \<Rightarrow> 'a list \<Rightarrow> nat option" where
  "index_where P [] = None"
| "index_where P (x # xs) = (if P x then Some 0 else map_option Suc (index_where P xs))"

definition replacement_of :: "answer_attempt \<Rightarrow> nat \<Rightarrow> answer_attempt list \<Rightarrow> answer_attempt option" where
  "replacement_of target i selectable =
    (if aa_selected target then Some (if i > 0 then selectable ! (i - 1) else selectable ! (i + 1)) else None)"

definition delete_rows :: "int \<Rightarrow> run_db \<Rightarrow> run_db" where
  "delete_rows attemptID db = db\<lparr>db_messages := filter (\<lambda>m. mr_answer_attempt m \<noteq> Some attemptID) (db_messages db),
     db_attempts := filter (\<lambda>a. aa_id a \<noteq> attemptID) (db_attempts db)\<rparr>"

text \<open>The deleted id, the attempt now selected (if the selection moved), the revision.\<close>

definition delete_body :: "int \<Rightarrow> int \<Rightarrow> int \<Rightarrow> int \<Rightarrow> run_db \<Rightarrow> (go_err + int \<times> answer_attempt option \<times> int) \<times> run_db" where
  "delete_body now sessionID userID attemptID db =
    (case lockActiveSession db sessionID userID of
       Some e \<Rightarrow> (Inl e, db)
     | None \<Rightarrow>
       (case find (\<lambda>a. aa_id a = attemptID \<and> aa_session_id a = sessionID) (db_attempts db) of
          None \<Rightarrow> (Inl ErrAnswerAttemptNotFound, db)
        | Some target \<Rightarrow>
          (let selectable = selectable_attempts db (aa_user_message_id target)
           in case index_where (\<lambda>a. aa_id a = aa_id target) selectable of
                None \<Rightarrow> (Inl ErrAnswerAttemptNotSelectable, db)
              | Some i \<Rightarrow>
                  if length selectable \<le> 1 then (Inl ErrAnswerAttemptLastRemaining, db)
                  else
                    (let db1 = delete_rows (aa_id target) db
                     in case replacement_of target i selectable of
                          None \<Rightarrow> (Inr (aa_id target, None, session_revision db1 sessionID), db1)
                        | Some r \<Rightarrow>
                            (let db2 = advance_revision now sessionID
                                   (update_attempts (\<lambda>b. aa_id b = aa_id r) (\<lambda>b. b\<lparr>aa_selected := True\<rparr>) db1)
                             in (Inr (aa_id target, Some (r\<lparr>aa_selected := True\<rparr>), session_revision db2 sessionID), db2))))))"

definition DeleteForActiveSession ::
  "db_fault \<Rightarrow> int \<Rightarrow> int \<Rightarrow> int \<Rightarrow> int \<Rightarrow> run_db \<Rightarrow> (go_err + int \<times> answer_attempt option \<times> int) \<times> run_db" where
  "DeleteForActiveSession fault now sessionID userID attemptID db =
    (if attemptID \<le> 0 then (Inl ErrAnswerAttemptNotFound, db)
     else run_tx fault (delete_body now sessionID userID attemptID) db)"

section \<open>Navigation\<close>

record attempt_navigation =
  an_attempt :: answer_attempt
  an_position :: nat
  an_count :: nat
  an_previous :: "int option"
  an_next :: "int option"

definition attempt_navigation_of :: "run_db \<Rightarrow> answer_attempt \<Rightarrow> attempt_navigation" where
  "attempt_navigation_of db a =
    (let cs = selectable_attempts db (aa_user_message_id a);
         before = filter (\<lambda>c. aa_number c < aa_number a) cs;
         after = filter (\<lambda>c. aa_number c > aa_number a) cs
     in \<lparr>an_attempt = a, an_position = length (filter (\<lambda>c. aa_number c \<le> aa_number a) cs), an_count = length cs,
         an_previous = (if before = [] then None else Some (aa_id (last before))),
         an_next = (if after = [] then None else Some (aa_id (hd after)))\<rparr>)"

definition NavigationForAttemptIDs :: "run_db \<Rightarrow> int list \<Rightarrow> (int \<times> attempt_navigation) list" where
  "NavigationForAttemptIDs db ids =
    map (\<lambda>a. (aa_id a, attempt_navigation_of db a)) (filter (\<lambda>a. aa_id a \<in> set ids) (db_attempts db))"

section \<open>The table invariant\<close>

text \<open>
  \<open>attempts_ok\<close>: ids and, per user message, numbers are unique, and each user message has at most
  one selected attempt.
\<close>

definition attempt_rows_ok :: "answer_attempt list \<Rightarrow> int \<Rightarrow> bool" where
  "attempt_rows_ok rows next_id \<longleftrightarrow> distinct (map aa_id rows) \<and> (\<forall>a \<in> set rows. aa_id a < next_id) \<and>
     (\<forall>a \<in> set rows. \<forall>b \<in> set rows.
        aa_user_message_id a = aa_user_message_id b \<and> (aa_number a = aa_number b \<or> aa_selected a \<and> aa_selected b) \<longrightarrow> aa_id a = aa_id b)"

definition attempts_ok :: "run_db \<Rightarrow> bool" where
  "attempts_ok db \<longleftrightarrow> attempt_rows_ok (db_attempts db) (db_next_attempt db)"

lemma attempts_okI:
  assumes "distinct (map aa_id (db_attempts db))" "\<And>a. a \<in> set (db_attempts db) \<Longrightarrow> aa_id a < db_next_attempt db"
    "\<And>a b. a \<in> set (db_attempts db) \<Longrightarrow> b \<in> set (db_attempts db) \<Longrightarrow> aa_user_message_id a = aa_user_message_id b \<Longrightarrow>
       aa_number a = aa_number b \<Longrightarrow> aa_id a = aa_id b"
    "\<And>a b. a \<in> set (db_attempts db) \<Longrightarrow> b \<in> set (db_attempts db) \<Longrightarrow> aa_user_message_id a = aa_user_message_id b \<Longrightarrow>
       aa_selected a \<Longrightarrow> aa_selected b \<Longrightarrow> aa_id a = aa_id b"
  shows "attempts_ok db"
  using assms unfolding attempts_ok_def attempt_rows_ok_def by blast

lemma attempts_okD:
  assumes "attempts_ok db"
  shows "distinct (map aa_id (db_attempts db))" "a \<in> set (db_attempts db) \<Longrightarrow> aa_id a < db_next_attempt db"
    "a \<in> set (db_attempts db) \<Longrightarrow> b \<in> set (db_attempts db) \<Longrightarrow> aa_user_message_id a = aa_user_message_id b \<Longrightarrow>
       aa_number a = aa_number b \<Longrightarrow> aa_id a = aa_id b"
    "a \<in> set (db_attempts db) \<Longrightarrow> b \<in> set (db_attempts db) \<Longrightarrow> aa_user_message_id a = aa_user_message_id b \<Longrightarrow>
       aa_selected a \<Longrightarrow> aa_selected b \<Longrightarrow> aa_id a = aa_id b"
  using assms unfolding attempts_ok_def attempt_rows_ok_def by blast+

lemma attempts_inj:
  assumes "attempts_ok db" "a \<in> set (db_attempts db)" "b \<in> set (db_attempts db)" "aa_id a = aa_id b"
  shows "a = b"
proof -
  have "inj_on aa_id (set (db_attempts db))" using attempts_okD(1)[OF assms(1)] by (simp add: distinct_map)
  then show ?thesis using assms(2-4) by (meson inj_onD)
qed

text \<open>A map over the rows that keeps ids, messages and numbers, and selects at most one row per message.\<close>

lemma attempts_ok_map:
  assumes ok: "attempts_ok db" and m: "db_attempts db' = map f (db_attempts db)" "db_next_attempt db' = db_next_attempt db"
    and k: "\<And>a. aa_id (f a) = aa_id a" "\<And>a. aa_user_message_id (f a) = aa_user_message_id a" "\<And>a. aa_number (f a) = aa_number a"
    and s: "\<And>a b. a \<in> set (db_attempts db) \<Longrightarrow> b \<in> set (db_attempts db) \<Longrightarrow> aa_user_message_id a = aa_user_message_id b \<Longrightarrow>
       aa_selected (f a) \<Longrightarrow> aa_selected (f b) \<Longrightarrow> aa_id a = aa_id b"
  shows "attempts_ok db'"
proof (rule attempts_okI)
  show "distinct (map aa_id (db_attempts db'))" using attempts_okD(1)[OF ok] by (simp add: m k comp_def)
next
  fix a assume "a \<in> set (db_attempts db')"
  then show "aa_id a < db_next_attempt db'" using attempts_okD(2)[OF ok] by (auto simp: m k)
next
  fix a b assume "a \<in> set (db_attempts db')" "b \<in> set (db_attempts db')" and e: "aa_user_message_id a = aa_user_message_id b" "aa_number a = aa_number b"
  then obtain a0 b0 where "a0 \<in> set (db_attempts db)" "b0 \<in> set (db_attempts db)" "a = f a0" "b = f b0" by (auto simp: m)
  then show "aa_id a = aa_id b" using attempts_okD(3)[OF ok, of a0 b0] e by (simp add: k)
next
  fix a b assume "a \<in> set (db_attempts db')" "b \<in> set (db_attempts db')" and e: "aa_user_message_id a = aa_user_message_id b" "aa_selected a" "aa_selected b"
  then obtain a0 b0 where "a0 \<in> set (db_attempts db)" "b0 \<in> set (db_attempts db)" "a = f a0" "b = f b0" by (auto simp: m)
  then show "aa_id a = aa_id b" using s[of a0 b0] e by (simp add: k)
qed

lemma attempts_ok_same:
  "attempts_ok db \<Longrightarrow> db_attempts db' = db_attempts db \<Longrightarrow> db_next_attempt db' = db_next_attempt db \<Longrightarrow> attempts_ok db'"
  by (simp add: attempts_ok_def)

lemma attempts_ok_update:
  assumes ok: "attempts_ok db" and k: "\<And>a. aa_id (f a) = aa_id a" "\<And>a. aa_user_message_id (f a) = aa_user_message_id a"
    "\<And>a. aa_number (f a) = aa_number a" "\<And>a. aa_selected (f a) \<Longrightarrow> aa_selected a"
  shows "attempts_ok (update_attempts P f db)"
proof (rule attempts_ok_map[OF ok, where f = "\<lambda>a. if P a then f a else a"])
  fix a b
  assume m: "a \<in> set (db_attempts db)" "b \<in> set (db_attempts db)" "aa_user_message_id a = aa_user_message_id b"
    "aa_selected (if P a then f a else a)" "aa_selected (if P b then f b else b)"
  have "aa_selected a" "aa_selected b" using m(4,5) k(4)[of a] k(4)[of b] by (simp_all split: if_splits)
  with m(1-3) show "aa_id a = aa_id b" by (rule attempts_okD(4)[OF ok])
qed (simp_all add: update_attempts_def k)

text \<open>Selecting one row after the others of its message were cleared.\<close>

lemma attempts_ok_select:
  assumes ok: "attempts_ok db" and a: "a \<in> set (db_attempts db)"
    and k: "\<And>b. aa_id (f b) = aa_id b" "\<And>b. aa_user_message_id (f b) = aa_user_message_id b" "\<And>b. aa_number (f b) = aa_number b"
    and others: "\<And>b. b \<in> set (db_attempts db) \<Longrightarrow> aa_user_message_id b = aa_user_message_id a \<Longrightarrow> aa_id b \<noteq> aa_id a \<Longrightarrow> \<not> aa_selected b"
  shows "attempts_ok (update_attempts (\<lambda>b. aa_id b = aa_id a) f db)"
proof (rule attempts_ok_map[OF ok, where f = "\<lambda>b. if aa_id b = aa_id a then f b else b"])
  fix b c
  assume m: "b \<in> set (db_attempts db)" "c \<in> set (db_attempts db)" "aa_user_message_id b = aa_user_message_id c"
    "aa_selected (if aa_id b = aa_id a then f b else b)" "aa_selected (if aa_id c = aa_id a then f c else c)"
  consider "aa_id b = aa_id a" "aa_id c = aa_id a" | "aa_id b = aa_id a" "aa_id c \<noteq> aa_id a"
    | "aa_id b \<noteq> aa_id a" "aa_id c = aa_id a" | "aa_id b \<noteq> aa_id a" "aa_id c \<noteq> aa_id a" by blast
  then show "aa_id b = aa_id c"
  proof cases
    case 2
    then have "b = a" by (intro attempts_inj[OF ok m(1) a])
    then show ?thesis using others[OF m(2)] m(3,5) 2 by simp
  next
    case 3
    then have "c = a" by (intro attempts_inj[OF ok m(2) a])
    then show ?thesis using others[OF m(1)] m(3,4) 3 by simp
  next
    case 4
    then show ?thesis using attempts_okD(4)[OF ok m(1,2,3)] m(4,5) by simp
  qed simp
qed (simp_all add: update_attempts_def k)

lemma clear_selection_ok: "attempts_ok db \<Longrightarrow> attempts_ok (clear_selection m db)"
  unfolding clear_selection_def by (rule attempts_ok_update) simp_all

lemma clear_selection_attempts:
  "db_attempts (clear_selection m db) =
    map (\<lambda>a. if aa_user_message_id a = m \<and> aa_selected a then a\<lparr>aa_selected := False\<rparr> else a) (db_attempts db)"
  by (simp add: clear_selection_def update_attempts_def)

lemma clear_selection_clears:
  assumes "b \<in> set (db_attempts (clear_selection m db))" "aa_user_message_id b = m"
  shows "\<not> aa_selected b"
proof -
  obtain a where "b = (if aa_user_message_id a = m \<and> aa_selected a then a\<lparr>aa_selected := False\<rparr> else a)"
    using assms(1) by (auto simp: clear_selection_attempts simp del: if_image_distrib)
  then show ?thesis using assms(2) by (cases "aa_user_message_id a = m \<and> aa_selected a") auto
qed

lemma clear_selection_mem:
  assumes "a \<in> set (db_attempts db)"
  shows "\<exists>a'. a' \<in> set (db_attempts (clear_selection m db)) \<and> aa_id a' = aa_id a \<and> aa_user_message_id a' = aa_user_message_id a"
proof (intro exI conjI)
  show "(if aa_user_message_id a = m \<and> aa_selected a then a\<lparr>aa_selected := False\<rparr> else a) \<in> set (db_attempts (clear_selection m db))"
    unfolding clear_selection_attempts set_map using assms by (rule imageI)
qed simp_all

lemma advance_revision_ok [simp]: "attempts_ok (advance_revision now s db) = attempts_ok db"
  by (simp add: attempts_ok_def advance_revision_def)

lemma select_cleared_ok:
  assumes "attempts_ok db" "a \<in> set (db_attempts db)"
    "\<And>b. aa_id (f b) = aa_id b" "\<And>b. aa_user_message_id (f b) = aa_user_message_id b" "\<And>b. aa_number (f b) = aa_number b"
  shows "attempts_ok (update_attempts (\<lambda>b. aa_id b = aa_id a) f (clear_selection (aa_user_message_id a) db))"
proof -
  obtain a' where a': "a' \<in> set (db_attempts (clear_selection (aa_user_message_id a) db))" "aa_id a' = aa_id a"
    "aa_user_message_id a' = aa_user_message_id a"
    using clear_selection_mem[OF assms(2)] by blast
  have "attempts_ok (update_attempts (\<lambda>b. aa_id b = aa_id a') f (clear_selection (aa_user_message_id a) db))"
    by (rule attempts_ok_select[OF clear_selection_ok[OF assms(1)] a'(1) assms(3-5)]) (simp add: a' clear_selection_clears)
  then show ?thesis by (simp add: a')
qed


section \<open>Every operation keeps the invariant\<close>

lemma foldl_max_ge: "(x::int) \<le> foldl max x ys \<and> (\<forall>y \<in> set ys. y \<le> foldl max x ys)"
proof (induction ys arbitrary: x)
  case (Cons y ys)
  show ?case using Cons.IH[of "max x y"] by auto
qed simp

lemma next_attempt_number_gt:
  "a \<in> set (db_attempts db) \<Longrightarrow> aa_user_message_id a = m \<Longrightarrow> aa_number a < next_attempt_number db m"
  using foldl_max_ge[of 0 "map aa_number (filter (\<lambda>a. aa_user_message_id a = m) (db_attempts db))"]
  unfolding next_attempt_number_def by fastforce

lemma attempts_ok_append:
  assumes ok: "attempts_ok db" and i: "aa_id a = db_next_attempt db"
    and o: "\<And>b. b \<in> set (db_attempts db) \<Longrightarrow> aa_user_message_id b = aa_user_message_id a \<Longrightarrow>
        aa_number b \<noteq> aa_number a \<and> \<not> (aa_selected b \<and> aa_selected a)"
    and d: "db_attempts db' = db_attempts db @ [a]" "db_next_attempt db' = db_next_attempt db + 1"
  shows "attempts_ok db'"
proof (rule attempts_okI)
  have lt: "\<And>b. b \<in> set (db_attempts db) \<Longrightarrow> aa_id b < aa_id a" using attempts_okD(2)[OF ok] i by simp
  show "distinct (map aa_id (db_attempts db'))" using attempts_okD(1)[OF ok] lt by (force simp: d)
  show "aa_id b < db_next_attempt db'" if "b \<in> set (db_attempts db')" for b
    using that lt[of b] i by (auto simp: d)
  have in_db: "b \<in> set (db_attempts db) \<or> b = a" if "b \<in> set (db_attempts db')" for b using that by (auto simp: d)
  show "aa_id b = aa_id c" if m: "b \<in> set (db_attempts db')" "c \<in> set (db_attempts db')" "aa_user_message_id b = aa_user_message_id c"
    "aa_number b = aa_number c" for b c
    using in_db[OF m(1)] in_db[OF m(2)] attempts_okD(3)[OF ok _ _ m(3,4)] o[of b] o[of c] m(3,4) by metis
  show "aa_id b = aa_id c" if m: "b \<in> set (db_attempts db')" "c \<in> set (db_attempts db')" "aa_user_message_id b = aa_user_message_id c"
    "aa_selected b" "aa_selected c" for b c
    using in_db[OF m(1)] in_db[OF m(2)] attempts_okD(4)[OF ok _ _ m(3-5)] o[of b] o[of c] m(3-5) by metis
qed

lemma insert_attempt_ok:
  assumes "attempts_ok db"
  shows "attempts_ok (snd (insert_attempt a db))"
proof (cases "list_ex (\<lambda>b. aa_run_id b = aa_run_id a \<and> aa_run_id b \<noteq> None \<or>
    aa_user_message_id b = aa_user_message_id a \<and> (aa_number b = aa_number a \<or> aa_selected b \<and> aa_selected a)) (db_attempts db)")
  case False
  have o: "aa_number b \<noteq> aa_number a \<and> \<not> (aa_selected b \<and> aa_selected a)"
    if "b \<in> set (db_attempts db)" "aa_user_message_id b = aa_user_message_id a" for b
    using False that unfolding list_ex_iff by blast
  have e: "snd (insert_attempt a db) = db\<lparr>db_attempts := db_attempts db @ [a\<lparr>aa_id := db_next_attempt db\<rparr>],
      db_next_attempt := db_next_attempt db + 1\<rparr>"
    unfolding insert_attempt_def using False by (simp only: if_False snd_conv)
  show ?thesis unfolding e
    by (rule attempts_ok_append[OF assms, where a = "a\<lparr>aa_id := db_next_attempt db\<rparr>"]) (simp_all add: o)
qed (simp add: insert_attempt_def assms)

lemma createAnswerAttempt_ok: "attempts_ok db \<Longrightarrow> attempts_ok (snd (createAnswerAttemptForRunTx s m r sel db))"
  by (auto simp: createAnswerAttemptForRunTx_def Let_def insert_attempt_ok)

lemma find_attempt_mem: "find P (db_attempts db) = Some a \<Longrightarrow> a \<in> set (db_attempts db)"
  by (auto simp: find_Some_iff)

lemma finishAnswerAttempt_ok:
  assumes "attempts_ok db" "attempt = answerAttemptForRunTx runID db"
  shows "attempts_ok (finishAnswerAttemptTx now attempt st ms db)"
proof (cases attempt)
  case (Some a)
  then have "a \<in> set (db_attempts db)" using assms(2) find_attempt_mem by (auto simp: answerAttemptForRunTx_def split: if_splits)
  then have "attempts_ok (update_attempts (\<lambda>b. aa_id b = aa_id a) (\<lambda>b. b\<lparr>aa_status := v, aa_selected := True, aa_completed_at := w\<rparr>)
      (clear_selection (aa_user_message_id a) db))" for v w
    by (intro select_cleared_ok assms(1)) simp_all
  moreover have "attempts_ok (update_attempts (\<lambda>b. aa_id b = aa_id a) (\<lambda>b. b\<lparr>aa_status := v, aa_completed_at := w\<rparr>) db)" for v w
    by (rule attempts_ok_update[OF assms(1)]) simp_all
  ultimately show ?thesis using Some by (simp add: finishAnswerAttemptTx_def Let_def)
qed (simp add: finishAnswerAttemptTx_def assms)

lemma select_body_ok: "attempts_ok db \<Longrightarrow> attempts_ok (snd (select_body now s u i db))"
  by (auto simp: select_body_def Let_def split: option.splits intro!: select_cleared_ok find_attempt_mem)

lemma SelectForActiveSession_ok: "attempts_ok db \<Longrightarrow> attempts_ok (snd (SelectForActiveSession fault now s u i db))"
  using run_tx_cases[of fault "select_body now s u i" db] select_body_ok by (auto simp: SelectForActiveSession_def)

lemma delete_rows_ok:
  assumes ok: "attempts_ok db" shows "attempts_ok (delete_rows i db)"
proof (rule attempts_okI)
  have sub: "b \<in> set (db_attempts db)" if "b \<in> set (db_attempts (delete_rows i db))" for b using that by (simp add: delete_rows_def)
  show "distinct (map aa_id (db_attempts (delete_rows i db)))"
    using attempts_okD(1)[OF ok] by (simp add: delete_rows_def distinct_map inj_on_def)
  show "aa_id a < db_next_attempt (delete_rows i db)" if "a \<in> set (db_attempts (delete_rows i db))" for a
    using attempts_okD(2)[OF ok sub[OF that]] by (simp add: delete_rows_def)
  show "aa_id a = aa_id b" if "a \<in> set (db_attempts (delete_rows i db))" "b \<in> set (db_attempts (delete_rows i db))"
    "aa_user_message_id a = aa_user_message_id b" "aa_number a = aa_number b" for a b
    using attempts_okD(3)[OF ok sub[OF that(1)] sub[OF that(2)] that(3,4)] .
  show "aa_id a = aa_id b" if "a \<in> set (db_attempts (delete_rows i db))" "b \<in> set (db_attempts (delete_rows i db))"
    "aa_user_message_id a = aa_user_message_id b" "aa_selected a" "aa_selected b" for a b
    using attempts_okD(4)[OF ok sub[OF that(1)] sub[OF that(2)] that(3-5)] .
qed

lemma selectable_mem:
  "a \<in> set (selectable_attempts db m) \<longleftrightarrow>
    a \<in> set (db_attempts db) \<and> aa_user_message_id a = m \<and> finished_status (aa_status a) \<and> has_output db (aa_id a)"
  by (auto simp: selectable_attempts_def)

lemma distinct_map_sort_key [simp]: "distinct (map f (sort_key k xs)) = distinct (map f xs)"
  by (simp add: distinct_map)

lemma selectable_distinct: "attempts_ok db \<Longrightarrow> distinct (map aa_id (selectable_attempts db m))"
  using attempts_okD(1)[of db] by (simp add: selectable_attempts_def distinct_map inj_on_def)

lemma index_where_Some: "index_where P xs = Some i \<Longrightarrow> i < length xs \<and> P (xs ! i)"
  by (induction xs arbitrary: i) (auto split: if_splits)

lemma replacement_cases:
  assumes "replacement_of t i sel = Some r" "i < length sel" "1 < length sel" "distinct (map aa_id sel)" "aa_id (sel ! i) = aa_id t"
  shows "r \<in> set sel" "aa_selected t" "aa_id r \<noteq> aa_id t"
proof -
  obtain k where k: "r = sel ! k" "k < length sel" "k \<noteq> i"
    using assms(1-3) by (cases "i > 0") (auto simp: replacement_of_def split: if_splits)
  then show "r \<in> set sel" by simp
  show "aa_selected t" using assms(1) by (simp add: replacement_of_def split: if_splits)
  show "aa_id r \<noteq> aa_id t" using k assms(2,4,5) by (metis distinct_conv_nth length_map nth_map)
qed

text \<open>What a successful deletion did.\<close>

lemma delete_body_cases:
  assumes "attempts_ok db" "delete_body now s u i db = (Inr (d, rep, rv), db')"
  obtains (kept) t where "t \<in> set (selectable_attempts db (aa_user_message_id t))" "aa_id t = i" "d = i" "\<not> aa_selected t" "rep = None"
      "1 < length (selectable_attempts db (aa_user_message_id t))" "db' = delete_rows i db" "rv = session_revision db' s"
  | (moved) t r where "t \<in> set (selectable_attempts db (aa_user_message_id t))" "aa_id t = i" "d = i" "aa_selected t"
      "r \<in> set (selectable_attempts db (aa_user_message_id t))" "aa_id r \<noteq> i" "rep = Some (r\<lparr>aa_selected := True\<rparr>)"
      "1 < length (selectable_attempts db (aa_user_message_id t))"
      "db' = advance_revision now s (update_attempts (\<lambda>b. aa_id b = aa_id r) (\<lambda>b. b\<lparr>aa_selected := True\<rparr>) (delete_rows i db))"
      "rv = session_revision db' s"
proof -
  obtain t where f: "find (\<lambda>a. aa_id a = i \<and> aa_session_id a = s) (db_attempts db) = Some t"
    using assms(2) by (auto simp: delete_body_def split: option.splits)
  then have t: "t \<in> set (db_attempts db)" "aa_id t = i" using find_attempt_mem[OF f] by (auto simp: find_Some_iff)
  let ?sel = "selectable_attempts db (aa_user_message_id t)"
  obtain k where k: "index_where (\<lambda>a. aa_id a = aa_id t) ?sel = Some k"
    using assms(2) f by (auto simp: delete_body_def Let_def split: option.splits)
  have kk: "k < length ?sel" "aa_id (?sel ! k) = aa_id t" using index_where_Some[OF k] by auto
  have len: "1 < length ?sel" using assms(2) f k by (auto simp: delete_body_def Let_def split: option.splits if_splits)
  have "?sel ! k \<in> set ?sel" using kk by simp
  moreover from this have "?sel ! k = t" using attempts_inj[OF assms(1) _ t(1) kk(2)] by (simp add: selectable_mem)
  ultimately have ts: "t \<in> set ?sel" by simp
  show ?thesis
  proof (cases "replacement_of t k ?sel")
    case None
    then have "\<not> aa_selected t" by (simp add: replacement_of_def split: if_splits)
    then show ?thesis using assms(2) f k len None ts t
      by (intro kept[of t]) (auto simp: delete_body_def Let_def split: option.splits)
  next
    case (Some r)
    note R = replacement_cases[OF Some kk(1) len selectable_distinct[OF assms(1)] kk(2)]
    show ?thesis using assms(2) f k len Some ts t R
      by (intro moved[of t r]) (auto simp: delete_body_def Let_def split: option.splits)
  qed
qed

lemma delete_moved_ok:
  assumes ok: "attempts_ok db" and t: "t \<in> set (db_attempts db)" "aa_id t = i" "aa_selected t"
    and r: "r \<in> set (db_attempts db)" "aa_user_message_id r = aa_user_message_id t" "aa_id r \<noteq> i"
  shows "attempts_ok (update_attempts (\<lambda>b. aa_id b = aa_id r) (\<lambda>b. b\<lparr>aa_selected := True\<rparr>) (delete_rows i db))"
proof (rule attempts_ok_select[OF delete_rows_ok[OF ok]])
  fix b assume b: "b \<in> set (db_attempts (delete_rows i db))" "aa_user_message_id b = aa_user_message_id r" "aa_id b \<noteq> aa_id r"
  then have "b \<in> set (db_attempts db)" "aa_id b \<noteq> aa_id t" by (auto simp: delete_rows_def t)
  then show "\<not> aa_selected b" using attempts_okD(4)[OF ok _ t(1), of b] b(2) r(2) t(3) by auto
qed (use r in \<open>simp_all add: delete_rows_def\<close>)

lemma delete_body_ok:
  assumes ok: "attempts_ok db" and d: "delete_body now s u i db = (Inr r, db')"
  shows "attempts_ok db'"
proof -
  obtain d rep rv where "r = (d, rep, rv)" by (rule prod_cases3)
  with d have "delete_body now s u i db = (Inr (d, rep, rv), db')" by simp
  from ok this show ?thesis
  proof (cases rule: delete_body_cases)
    case (kept t) then show ?thesis by (simp add: delete_rows_ok ok)
  next
    case (moved t r)
    then show ?thesis using delete_moved_ok[OF ok, of t i r] by (simp add: selectable_mem)
  qed
qed

lemma DeleteForActiveSession_ok:
  assumes "attempts_ok db" shows "attempts_ok (snd (DeleteForActiveSession fault now s u i db))"
  using run_tx_cases[of fault "delete_body now s u i" db] delete_body_ok[OF assms] assms
  by (fastforce simp: DeleteForActiveSession_def prod_eq_iff)


text \<open>The writers of the table, in any order and number; every run terminal fails what is still running.\<close>

inductive attempt_write :: "run_db \<Rightarrow> run_db \<Rightarrow> bool" where
  create: "attempt_write db (snd (createAnswerAttemptForRunTx s m runID selected db))"
| finish: "attempt_write db (finishAnswerAttemptTx now (answerAttemptForRunTx runID db) st ms db)"
| select: "attempt_write db (snd (SelectForActiveSession fault now s u i db))"
| delete: "attempt_write db (snd (DeleteForActiveSession fault now s u i db))"
| terminal: "attempt_write db (snd (TransitionChatRun fault now input db))"
| reconcile: "attempt_write db (snd (ReconcileRunningChatRuns now db))"
| cancel_all: "attempt_write db (cancelRunningChatRuns now u sess cause code msg retryable db)"

lemma fail_attempts_ok: "attempts_ok db \<Longrightarrow> attempts_ok (update_attempts P (fail_attempt now) db)"
  by (rule attempts_ok_update) (simp_all add: fail_attempt_def)

lemma update_runs_attempts_ok [simp]: "attempts_ok (update_runs P f db) = attempts_ok db"
  by (simp add: attempts_ok_def update_runs_def)

lemma TransitionChatRun_attempts_ok:
  assumes "attempts_ok db" shows "attempts_ok (snd (TransitionChatRun fault now input db))"
proof -
  have "attempts_ok (snd (transitionChatRun now input db))"
    using assms by (auto simp: transitionChatRun_def split: option.splits)
  then show ?thesis using assms
    by (auto simp: TransitionChatRun_def run_tx_def markAnswerAttemptTerminalForRun_def fail_attempts_ok
        split: db_fault.splits prod.splits sum.splits)
qed

lemma attempt_write_ok: "attempt_write db db' \<Longrightarrow> attempts_ok db \<Longrightarrow> attempts_ok db'"
  by (induction rule: attempt_write.induct)
     (simp_all add: createAnswerAttempt_ok finishAnswerAttempt_ok SelectForActiveSession_ok DeleteForActiveSession_ok
       TransitionChatRun_attempts_ok ReconcileRunningChatRuns_def cancelRunningChatRuns_def fail_attempts_ok Let_def)

lemma attempt_writes_ok: "attempt_write\<^sup>*\<^sup>* db db' \<Longrightarrow> attempts_ok db \<Longrightarrow> attempts_ok db'"
  by (induction rule: rtranclp_induct) (auto intro: attempt_write_ok)

definition selected_ids :: "run_db \<Rightarrow> int \<Rightarrow> int list" where
  "selected_ids db m = map aa_id (filter (\<lambda>a. aa_user_message_id a = m \<and> aa_selected a) (db_attempts db))"

lemma length_le_1I: "distinct xs \<Longrightarrow> (\<And>x y. x \<in> set xs \<Longrightarrow> y \<in> set xs \<Longrightarrow> x = y) \<Longrightarrow> length xs \<le> 1"
  by (metis One_nat_def List.finite_set card_le_Suc0_iff_eq distinct_card)

lemma selected_ids_le_1:
  assumes ok: "attempts_ok db" shows "length (selected_ids db m) \<le> 1"
proof (rule length_le_1I)
  show "distinct (selected_ids db m)" using attempts_okD(1)[OF ok] by (simp add: selected_ids_def distinct_map inj_on_def)
  fix x y assume "x \<in> set (selected_ids db m)" "y \<in> set (selected_ids db m)"
  then obtain a b where "a \<in> set (db_attempts db)" "b \<in> set (db_attempts db)" "aa_user_message_id a = aa_user_message_id b"
    "aa_selected a" "aa_selected b" "x = aa_id a" "y = aa_id b"
    by (auto simp: selected_ids_def)
  then show "x = y" using attempts_okD(4)[OF ok] by blast
qed

definition empty_run_db :: run_db where
  "empty_run_db = \<lparr>db_runs = [], db_attempts = [], db_messages = [], db_sessions = [], db_users = [], db_next_attempt = 1\<rparr>"

definition row_of_attempt :: "int \<Rightarrow> int \<Rightarrow> attempt_status \<Rightarrow> bool \<Rightarrow> answer_attempt" where
  "row_of_attempt i n st selected = \<lparr>aa_id = i, aa_session_id = 1, aa_user_message_id = 10, aa_run_id = None, aa_number = n,
     aa_status = st, aa_selected = selected, aa_completed_at = None\<rparr>"

definition answer_row :: "int \<Rightarrow> int \<Rightarrow> message_row" where
  "answer_row i attempt = \<lparr>mr_id = i, mr_session_id = 1, mr_schema = ''v1'',
     mr_data = JObj [(''role'', JStr ''assistant''), (''content'', JStr ''x'')],
     mr_answer_attempt = Some attempt, mr_compressed = False, mr_summary_id = None, mr_created_at = 0, mr_updated_at = 0,
     mr_deleted = False\<rparr>"

text \<open>Three answers to one message, the first one selected.\<close>

definition demo_attempts :: run_db where
  "demo_attempts = empty_run_db\<lparr>
     db_attempts := [row_of_attempt 1 1 AnswerAttemptStatusCompleted True, row_of_attempt 2 2 AnswerAttemptStatusCompleted False,
       row_of_attempt 3 3 AnswerAttemptStatusIncomplete False],
     db_messages := [answer_row 21 1, answer_row 22 2, answer_row 23 3],
     db_sessions := [(1, \<lparr>sr_user_id = 5, sr_deleted = False, sr_selection_revision = 0, sr_updated_at = 0\<rparr>)],
     db_next_attempt := 4\<rparr>"

lemma demo_attempts_ok: "attempts_ok demo_attempts"
  by (simp add: attempts_ok_def attempt_rows_ok_def demo_attempts_def row_of_attempt_def)

text \<open>
  C14.
  Whatever the retries, completions, selections, deletions and cancellations do and in whatever
  order, a user message never has more than one selected answer, and no two of its attempts share a
  number.
\<close>

theorem one_selected_answer:
  assumes "attempts_ok db" "attempt_write\<^sup>*\<^sup>* db db'"
  shows "length (selected_ids db' m) \<le> 1 \<and>
    distinct (map aa_number (filter (\<lambda>a. aa_user_message_id a = m) (db_attempts db')))"
proof
  have ok: "attempts_ok db'" using assms attempt_writes_ok by blast
  then show "length (selected_ids db' m) \<le> 1" by (rule selected_ids_le_1)
  have "inj_on aa_number (set (filter (\<lambda>a. aa_user_message_id a = m) (db_attempts db')))"
  proof (rule inj_onI)
    fix a b assume "a \<in> set (filter (\<lambda>a. aa_user_message_id a = m) (db_attempts db'))"
      "b \<in> set (filter (\<lambda>a. aa_user_message_id a = m) (db_attempts db'))" "aa_number a = aa_number b"
    then show "a = b" using attempts_okD(3)[OF ok, of a b] attempts_inj[OF ok, of a b] by simp
  qed
  then show "distinct (map aa_number (filter (\<lambda>a. aa_user_message_id a = m) (db_attempts db')))"
    using attempts_okD(1)[OF ok] by (simp add: distinct_map)
qed

lemma one_selected_answer_witness:
  "length (selected_ids (snd (DeleteForActiveSession FaultNone 9 1 5 1
     (snd (SelectForActiveSession FaultNone 8 1 5 3 demo_attempts)))) 10) \<le> 1"
proof -
  have w: "attempt_write\<^sup>*\<^sup>* db (snd (DeleteForActiveSession FaultNone 9 1 5 1 (snd (SelectForActiveSession FaultNone 8 1 5 3 db))))" for db
    by (meson attempt_write.select attempt_write.delete rtranclp.intros)
  show ?thesis using one_selected_answer[OF demo_attempts_ok w] by blast
qed


section \<open>Deleting\<close>

lemma insort_key_map_same: "(\<And>x. k (f x) = k x) \<Longrightarrow> insort_key k (f x) (map f xs) = map f (insort_key k x xs)"
  by (induction xs) simp_all

lemma sort_key_map: "(\<And>x. k (f x) = k x) \<Longrightarrow> sort_key k (map f xs) = map f (sort_key k xs)"
  by (induction xs) (simp_all add: insort_key_map_same)


lemma has_output_delete_rows: "a \<noteq> i \<Longrightarrow> has_output (delete_rows i db) a = has_output db a"
  by (auto simp: has_output_def delete_rows_def list_ex_iff selectable_message_def)

lemma has_output_deleted: "\<not> has_output (delete_rows i db) i"
  by (auto simp: has_output_def delete_rows_def list_ex_iff selectable_message_def)

lemma selectable_delete_rows:
  "selectable_attempts (delete_rows i db) m = filter (\<lambda>a. aa_id a \<noteq> i) (selectable_attempts db m)"
proof -
  have "filter (\<lambda>a. aa_user_message_id a = m \<and> finished_status (aa_status a) \<and> has_output (delete_rows i db) (aa_id a))
      (filter (\<lambda>a. aa_id a \<noteq> i) (db_attempts db)) =
    filter (\<lambda>a. aa_id a \<noteq> i) (filter (\<lambda>a. aa_user_message_id a = m \<and> finished_status (aa_status a) \<and> has_output db (aa_id a)) (db_attempts db))"
    by (auto simp: has_output_delete_rows intro!: filter_cong)
  then show ?thesis by (simp add: selectable_attempts_def filter_sort delete_rows_def)
qed

lemma selectable_select:
  "selectable_attempts (update_attempts P (\<lambda>b. b\<lparr>aa_selected := v\<rparr>) db) m =
    map (\<lambda>b. if P b then b\<lparr>aa_selected := v\<rparr> else b) (selectable_attempts db m)"
proof -
  let ?f = "\<lambda>b. if P b then b\<lparr>aa_selected := v\<rparr> else b"
  let ?Q = "\<lambda>a. aa_user_message_id a = m \<and> finished_status (aa_status a) \<and> has_output db (aa_id a)"
  have "?Q \<circ> ?f = ?Q" by (auto simp: comp_def fun_eq_iff)
  then have "filter ?Q (map ?f (db_attempts db)) = map ?f (filter ?Q (db_attempts db))" by (simp add: filter_map)
  then have "sort_key aa_number (filter ?Q (map ?f (db_attempts db))) = map ?f (sort_key aa_number (filter ?Q (db_attempts db)))"
    by (simp add: sort_key_map)
  then show ?thesis by (simp add: selectable_attempts_def update_attempts_def has_output_def)
qed

lemma selectable_advance [simp]: "selectable_attempts (advance_revision now s db) m = selectable_attempts db m"
  by (simp add: selectable_attempts_def advance_revision_def has_output_def)

lemma map_id_select: "map aa_id (map (\<lambda>b. if P b then b\<lparr>aa_selected := v\<rparr> else b) xs) = map aa_id xs"
  by (simp add: comp_def if_distrib cong: if_cong)

lemma filter_length_one:
  "distinct (map f xs) \<Longrightarrow> x \<in> set xs \<Longrightarrow> Suc (length (filter (\<lambda>a. f a \<noteq> f x) xs)) = length xs"
  by (induction xs) (auto simp: filter_id_conv image_iff intro!: arg_cong[where f = length] filter_True)

text \<open>
  C15.
  Deleting an answer keeps the conversation readable: the other selectable answers of the message
  stay, in their order, at least one is left, and when the deleted answer was the selected one the
  selection moves to an answer that is still there and selectable.
\<close>

theorem delete_keeps_an_answer:
  assumes "attempts_ok db" "DeleteForActiveSession fault now s u i db = (Inr (d, rep, rv), db')"
  shows "\<exists>t \<in> set (db_attempts db). aa_id t = i \<and> d = i \<and>
    (let m = aa_user_message_id t; left = selectable_attempts db' m in
       map aa_id left = filter (\<lambda>x. x \<noteq> i) (map aa_id (selectable_attempts db m)) \<and> left \<noteq> [] \<and>
       (if aa_selected t then (\<exists>r \<in> set left. rep = Some r \<and> aa_selected r) else rep = None \<and> left = filter (\<lambda>a. aa_id a \<noteq> i) (selectable_attempts db m)))"
proof -
  have "delete_body now s u i db = (Inr (d, rep, rv), db')"
    using assms(2) run_tx_Inr by (auto simp: DeleteForActiveSession_def split: if_splits)
  from assms(1) this show ?thesis
  proof (cases rule: delete_body_cases)
    case (kept t)
    let ?sel = "selectable_attempts db (aa_user_message_id t)"
    have "Suc (length (filter (\<lambda>a. aa_id a \<noteq> i) ?sel)) = length ?sel"
      using filter_length_one[OF selectable_distinct[OF assms(1)] kept(1)] kept(2) by simp
    then have "filter (\<lambda>a. aa_id a \<noteq> i) ?sel \<noteq> []" using kept(6) by auto
    then show ?thesis using kept
      by (intro bexI[of _ t]) (auto simp: selectable_delete_rows filter_map comp_def selectable_mem)
  next
    case (moved t r)
    let ?left = "filter (\<lambda>a. aa_id a \<noteq> i) (selectable_attempts db (aa_user_message_id t))"
    have r: "r \<in> set ?left" using moved by simp
    have left: "selectable_attempts db' (aa_user_message_id t) = map (\<lambda>b. if aa_id b = aa_id r then b\<lparr>aa_selected := True\<rparr> else b) ?left"
      using moved(9) by (simp add: selectable_select selectable_delete_rows)
    have "r\<lparr>aa_selected := True\<rparr> \<in> set (selectable_attempts db' (aa_user_message_id t))"
      unfolding left set_map using r by (intro image_eqI[of _ _ r]) simp_all
    moreover have "map aa_id (selectable_attempts db' (aa_user_message_id t)) = filter (\<lambda>x. x \<noteq> i) (map aa_id (selectable_attempts db (aa_user_message_id t)))"
      unfolding left map_id_select by (simp add: filter_map comp_def)
    moreover have "t \<in> set (db_attempts db)" using moved(1) by (simp add: selectable_mem)
    ultimately show ?thesis using moved(2-4,7) by (intro bexI[of _ t]) (auto simp: Let_def)
  qed
qed


lemma answer_row_selectable [simp]: "selectable_message a (answer_row i b) \<longleftrightarrow> a = b"
proof -
  have "mr_role (answer_row i b) = ''assistant''" "mr_content (answer_row i b) = ''x''" "\<not> mr_ephemeral_error (answer_row i b)"
    by (simp_all add: answer_row_def mr_role_def data_role_def mr_content_def mr_ephemeral_error_def meta_text_def text_at_def
      coalesce_def)
  then show ?thesis by (auto simp: selectable_message_def btrim_def trim_ends_def) (simp_all add: answer_row_def)
qed

lemma demo_selectable:
  "selectable_attempts demo_attempts 10 = db_attempts demo_attempts"
  by (simp add: demo_attempts_def empty_run_db_def row_of_attempt_def selectable_attempts_def finished_status_def has_output_def)

lemma demo_attempt_facts:
  "lockActiveSession demo_attempts 1 5 = None"
  "find (\<lambda>a. aa_id a = 1 \<and> aa_session_id a = 1) (db_attempts demo_attempts) = Some (row_of_attempt 1 1 AnswerAttemptStatusCompleted True)"
  "aa_user_message_id (row_of_attempt i n st v) = 10" "aa_id (row_of_attempt i n st v) = i" "aa_selected (row_of_attempt i n st v) = v" "aa_session_id (row_of_attempt i n st v) = 1"
  by (simp_all add: lockActiveSession_def demo_attempts_def row_of_attempt_def)

lemma demo_rows:
  "db_attempts demo_attempts = [row_of_attempt 1 1 AnswerAttemptStatusCompleted True,
    row_of_attempt 2 2 AnswerAttemptStatusCompleted False, row_of_attempt 3 3 AnswerAttemptStatusIncomplete False]"
  by (simp add: demo_attempts_def)

lemma delete_keeps_an_answer_witness:
  "\<exists>t \<in> set (db_attempts demo_attempts). aa_id t = 1 \<and>
    (let m = aa_user_message_id t;
         left = selectable_attempts (snd (DeleteForActiveSession FaultNone 9 1 5 1 demo_attempts)) m
     in map aa_id left = filter (\<lambda>x. x \<noteq> 1) (map aa_id (selectable_attempts demo_attempts m)) \<and> left \<noteq> [])"
proof -
  obtain d rep rv db' where r: "DeleteForActiveSession FaultNone 9 1 5 1 demo_attempts = (Inr (d, rep, rv), db')"
    by (simp add: DeleteForActiveSession_def run_tx_def delete_body_def replacement_of_def demo_attempt_facts demo_selectable demo_rows Let_def)
  show ?thesis using delete_keeps_an_answer[OF demo_attempts_ok r] unfolding r Let_def by auto
qed

section \<open>Navigating\<close>

lemma filter_around:
  fixes k :: "'a \<Rightarrow> int"
  assumes "\<forall>c \<in> set ys. k c < k x" "\<forall>c \<in> set zs. k x < k c"
  shows "filter (\<lambda>c. k c < k x) (ys @ x # zs) = ys" "filter (\<lambda>c. k c > k x) (ys @ x # zs) = zs"
    "filter (\<lambda>c. k c \<le> k x) (ys @ x # zs) = ys @ [x]"
proof -
  have "filter (\<lambda>c. k c < k x) ys = ys" "filter (\<lambda>c. k c \<le> k x) ys = ys" "filter (\<lambda>c. k c > k x) ys = []"
    using assms(1) by (auto simp: filter_empty_conv filter_id_conv not_less dest!: bspec)
  moreover have "filter (\<lambda>c. k c > k x) zs = zs" "filter (\<lambda>c. k c < k x) zs = []" "filter (\<lambda>c. k c \<le> k x) zs = []"
    using assms(2) by (auto simp: filter_empty_conv filter_id_conv not_less not_le dest!: bspec)
  ultimately show "filter (\<lambda>c. k c < k x) (ys @ x # zs) = ys" "filter (\<lambda>c. k c > k x) (ys @ x # zs) = zs"
    "filter (\<lambda>c. k c \<le> k x) (ys @ x # zs) = ys @ [x]" by simp_all
qed

lemma filter_lt_nth:
  fixes xs :: "'a list" and k :: "'a \<Rightarrow> int"
  assumes "sorted (map k xs)" "distinct (map k xs)" "i < length xs"
  shows "filter (\<lambda>c. k c < k (xs ! i)) xs = take i xs" "filter (\<lambda>c. k c > k (xs ! i)) xs = drop (Suc i) xs"
    "filter (\<lambda>c. k c \<le> k (xs ! i)) xs = take (Suc i) xs"
proof -
  have "sorted_wrt (<) (map k xs)" using assms(1,2) by (simp add: strict_sorted_iff)
  then have lt: "k (xs ! a) < k (xs ! b)" if "a < b" "b < length xs" for a b
    using that by (simp add: sorted_wrt_iff_nth_less)
  have split: "xs = take i xs @ xs ! i # drop (Suc i) xs" using assms(3) by (rule id_take_nth_drop)
  have before: "\<forall>c \<in> set (take i xs). k c < k (xs ! i)" using lt[of _ i] assms(3) by (auto simp: in_set_conv_nth)
  have after: "\<forall>c \<in> set (drop (Suc i) xs). k (xs ! i) < k c" using lt[of i] by (auto simp: in_set_conv_nth)
  note f = filter_around[OF before after, folded split]
  show "filter (\<lambda>c. k c < k (xs ! i)) xs = take i xs" by (rule f(1))
  show "filter (\<lambda>c. k c > k (xs ! i)) xs = drop (Suc i) xs" by (rule f(2))
  show "filter (\<lambda>c. k c \<le> k (xs ! i)) xs = take (Suc i) xs" using f(3) assms(3) by (simp add: take_Suc_conv_app_nth)
qed

lemma selectable_sorted:
  assumes ok: "attempts_ok db"
  shows "sorted (map aa_number (selectable_attempts db m))" "distinct (map aa_number (selectable_attempts db m))"
proof -
  show "sorted (map aa_number (selectable_attempts db m))" by (simp add: selectable_attempts_def)
  have "inj_on aa_number (set (selectable_attempts db m))"
  proof (rule inj_onI)
    fix a b assume "a \<in> set (selectable_attempts db m)" "b \<in> set (selectable_attempts db m)" "aa_number a = aa_number b"
    then show "a = b" using attempts_okD(3)[OF ok, of a b] attempts_inj[OF ok, of a b] by (simp add: selectable_mem)
  qed
  then show "distinct (map aa_number (selectable_attempts db m))"
    using selectable_distinct[OF ok, of m] by (simp add: distinct_map)
qed

text \<open>
  The arrows of an answer lead where they should: the n-th selectable answer of a message is shown as
  number n of their count, its previous arrow leads to the one before, its next arrow to the one
  after, and the ends have none.
\<close>

theorem navigation_walks_the_answers:
  assumes "attempts_ok db" "n < length (selectable_attempts db m)"
  shows "let cs = selectable_attempts db m; nav = attempt_navigation_of db (cs ! n) in
    an_position nav = n + 1 \<and> an_count nav = length cs \<and>
    an_previous nav = (if n = 0 then None else Some (aa_id (cs ! (n - 1)))) \<and>
    an_next nav = (if n + 1 = length cs then None else Some (aa_id (cs ! (n + 1))))"
proof -
  let ?cs = "selectable_attempts db m"
  note s = filter_lt_nth[OF selectable_sorted[OF assms(1), of m] assms(2)]
  have "?cs ! n \<in> set ?cs" using assms(2) by simp
  then have m: "aa_user_message_id (?cs ! n) = m" by (simp add: selectable_mem)
  show ?thesis using assms(2)
    by (auto simp: attempt_navigation_of_def Let_def m s last_conv_nth hd_drop_conv_nth)
qed

lemma navigation_walks_the_answers_witness:
  "an_next (attempt_navigation_of demo_attempts (row_of_attempt 2 2 AnswerAttemptStatusCompleted False)) = Some 3"
  using navigation_walks_the_answers[OF demo_attempts_ok, of 1 10]
  unfolding demo_selectable by (simp add: demo_attempts_def Let_def) (simp add: row_of_attempt_def)

end
