(* ===== verification/MessageStore.thy ===== *)
theory MessageStore
  imports AnswerAttempts FileStore "HOL-Library.Product_Lexorder"
begin

text \<open>
  The messages of a session (\<^verbatim>\<open>internal/repository/message_repository.go\<close>): writing
  them with the attachments they claim and the run they end, the history and the agent's context
  read from them, and the compaction checkpoints that replace a part of the context by a summary.

  \<open>chat_db\<close> joins the run tables and the files.  A session's transactions lock its row
  first, so they run one after another.  A transaction that fails leaves the tables as they were;
  the ids it drew may be drawn again here, which nothing observes.  \<open>now\<close> is the time of
  the statement.
\<close>

record chat_db =
  cd_run :: run_db
  cd_files :: file_db
  cd_next_message :: int

text \<open>A message to store: its role is empty until it is stored.\<close>

record new_message =
  nm_session_id :: int
  nm_role :: string
  nm_schema :: string
  nm_data :: jv
  nm_answer_attempt :: "int option"

section \<open>Writing\<close>

definition produced_role :: "string \<Rightarrow> bool" where
  "produced_role r \<longleftrightarrow> r = ''assistant'' \<or> r = ''tool''"

text \<open>The two unique indexes on the run of a message: one user message, one message per sequence number.\<close>

definition same_run_slot :: "message_row \<Rightarrow> message_row \<Rightarrow> bool" where
  "same_run_slot r m \<longleftrightarrow> \<not> mr_deleted r \<and> mr_session_id r = mr_session_id m \<and> mr_run_id r = mr_run_id m \<and>
     coalesce (mr_run_id m) [] \<noteq> [] \<and>
     (mr_role r = ''user'' \<and> mr_role m = ''user'' \<or>
      produced_role (mr_role r) \<and> produced_role (mr_role m) \<and>
      coalesce (meta_text (mr_data m) ''run_sequence'') [] \<noteq> [] \<and>
      meta_text (mr_data r) ''run_sequence'' = meta_text (mr_data m) ''run_sequence'')"

definition insert_error :: "run_db \<Rightarrow> message_row \<Rightarrow> go_err option" where
  "insert_error db m =
    (if mr_schema m \<noteq> ''v1'' \<and> mr_schema m \<noteq> ''v2'' then Some (SqlError ''23514'' ''messages_schema_version_check'')
     else if map_of (db_sessions db) (mr_session_id m) = None then Some (SqlError ''23503'' ''messages_session_id_fkey'')
     else if list_ex (\<lambda>r. same_run_slot r m) (db_messages db) then Some (SqlError ''23505'' ''idx_messages_run_unique'')
     else None)"

definition add_message :: "message_row \<Rightarrow> chat_db \<Rightarrow> chat_db" where
  "add_message m db = db\<lparr>cd_run := (cd_run db)\<lparr>db_messages := db_messages (cd_run db) @ [m]\<rparr>, cd_next_message := cd_next_message db + 1\<rparr>"

definition new_row :: "int \<Rightarrow> int \<Rightarrow> new_message \<Rightarrow> message_row" where
  "new_row now i m = \<lparr>mr_id = i, mr_session_id = nm_session_id m, mr_schema = nm_schema m, mr_data = nm_data m,
     mr_answer_attempt = nm_answer_attempt m, mr_compressed = False, mr_summary_id = None, mr_created_at = now, mr_updated_at = now,
     mr_deleted = False\<rparr>"

text \<open>
  The stored row.  A document without a role is stored, and reading the row back fails: outside a
  transaction the row stays.
\<close>

definition createMessage :: "int \<Rightarrow> new_message \<Rightarrow> chat_db \<Rightarrow> (go_err + message_row) \<times> chat_db" where
  "createMessage now m db =
    (let row = new_row now (cd_next_message db) m
     in case insert_error (cd_run db) row of
          Some e \<Rightarrow> (Inl (ErrWrap ''failed to create message'' e), db)
        | None \<Rightarrow>
            if data_role (nm_data m) = None
            then (Inl (ErrWrap ''failed to create message'' (ErrText ''converting NULL to string is unsupported'')), add_message row db)
            else (Inr row, add_message row db))"

fun create_each :: "int \<Rightarrow> int \<Rightarrow> new_message list \<Rightarrow> chat_db \<Rightarrow> (go_err + message_row list) \<times> chat_db" where
  "create_each now i [] db = (Inr [], db)"
| "create_each now i (m # ms) db =
     (case createMessage now m db of
        (Inl e, db') \<Rightarrow> (Inl (ErrWrap (''failed to persist message '' @ itoa i) e), db')
      | (Inr row, db') \<Rightarrow>
          (case create_each now (i + 1) ms db' of
             (Inl e, db'') \<Rightarrow> (Inl e, db'')
           | (Inr rows, db'') \<Rightarrow> (Inr (row # rows), db'')))"

definition CreateBatch :: "db_fault \<Rightarrow> int \<Rightarrow> new_message list \<Rightarrow> chat_db \<Rightarrow> (go_err + message_row list) \<times> chat_db" where
  "CreateBatch fault now ms db = (if ms = [] then (Inr [], db) else run_tx fault (create_each now 0 ms) db)"

text \<open>\<^verbatim>\<open>createMessages\<close>: the rows, the id of the last assistant message (0 for none).\<close>

definition terminal_id :: "message_row list \<Rightarrow> int" where
  "terminal_id rows = foldl (\<lambda>acc r. if mr_role r = ''assistant'' then mr_id r else acc) 0 rows"

fun create_in_session :: "int \<Rightarrow> int \<Rightarrow> int \<Rightarrow> new_message list \<Rightarrow> chat_db \<Rightarrow> (go_err + message_row list) \<times> chat_db" where
  "create_in_session now sessionID i [] db = (Inr [], db)"
| "create_in_session now sessionID i (m # ms) db =
     (if nm_session_id m \<noteq> sessionID then (Inl (ErrText (''message '' @ itoa i @ '' belongs to another session'')), db)
      else (case createMessage now m db of
        (Inl e, db') \<Rightarrow> (Inl (ErrWrap (''failed to persist message '' @ itoa i) e), db')
      | (Inr row, db') \<Rightarrow>
          (case create_in_session now sessionID (i + 1) ms db' of
             (Inl e, db'') \<Rightarrow> (Inl e, db'')
           | (Inr rows, db'') \<Rightarrow> (Inr (row # rows), db''))))"

definition createMessages :: "int \<Rightarrow> int \<Rightarrow> new_message list \<Rightarrow> chat_db \<Rightarrow> (go_err + int \<times> message_row list) \<times> chat_db" where
  "createMessages now sessionID ms db =
    (case create_in_session now sessionID 0 ms db of
       (Inl e, db') \<Rightarrow> (Inl e, db')
     | (Inr rows, db') \<Rightarrow> (Inr (terminal_id rows, rows), db'))"

definition draft_role :: "new_message \<Rightarrow> string" where
  "draft_role m =
    (if nm_role m \<noteq> [] then nm_role m
     else (case ParseMessageData (nm_data m) of None \<Rightarrow> [] | Some data \<Rightarrow> coalesce (str_at data ''role'') []))"

definition bindMessagesToAnswerAttempt :: "int \<Rightarrow> new_message list \<Rightarrow> new_message list" where
  "bindMessagesToAnswerAttempt attemptID ms =
    (if attemptID \<le> 0 then ms
     else map (\<lambda>m. if produced_role (draft_role m) then m\<lparr>nm_answer_attempt := Some attemptID\<rparr> else m) ms)"

definition bind_to_run :: "string \<Rightarrow> chat_db \<Rightarrow> new_message list \<Rightarrow> new_message list" where
  "bind_to_run runID db ms =
    (case answerAttemptForRunTx runID (cd_run db) of None \<Rightarrow> ms | Some a \<Rightarrow> bindMessagesToAnswerAttempt (aa_id a) ms)"

definition touch_session :: "int \<Rightarrow> int \<Rightarrow> run_db \<Rightarrow> run_db" where
  "touch_session now sessionID db = db\<lparr>db_sessions := map (\<lambda>(k, s). (k, if k = sessionID then s\<lparr>sr_updated_at := now\<rparr> else s)) (db_sessions db)\<rparr>"

text \<open>Claim the attachments and store the messages, in one transaction.\<close>

definition claim_and_create :: "int \<Rightarrow> int \<Rightarrow> int \<Rightarrow> new_message list \<Rightarrow> chat_db \<Rightarrow> (go_err + int \<times> message_row list) \<times> chat_db" where
  "claim_and_create now sessionID userID ms db =
    (case claimStagedAttachmentsForMessages sessionID userID (map nm_data ms) (cd_files db) of
       (Some e, files) \<Rightarrow> (Inl e, db)
     | (None, files) \<Rightarrow> createMessages now sessionID ms (db\<lparr>cd_files := files\<rparr>))"

definition attach_to_run :: "int \<Rightarrow> string \<Rightarrow> int \<Rightarrow> run_db \<Rightarrow> run_db" where
  "attach_to_run now runID messageID = update_runs (\<lambda>r. cr_run_id r = runID \<and> row_running r)
    (\<lambda>r. r\<lparr>cr_terminal_message_id := (if messageID \<noteq> 0 then Some messageID else cr_terminal_message_id r), cr_updated_at := now\<rparr>)"

definition batch_body :: "int \<Rightarrow> int \<Rightarrow> int \<Rightarrow> string \<Rightarrow> new_message list \<Rightarrow> chat_db \<Rightarrow> (go_err + message_row list) \<times> chat_db" where
  "batch_body now sessionID userID runID ms db =
    (case lockActiveSession (cd_run db) sessionID userID of
       Some e \<Rightarrow> (Inl e, db)
     | None \<Rightarrow>
       (case (if runID = [] then None else lockActiveChatRun (cd_run db) runID sessionID userID) of
          Some e \<Rightarrow> (Inl e, db)
        | None \<Rightarrow>
          (case claim_and_create now sessionID userID (if runID = [] then ms else bind_to_run runID db ms) db of
             (Inl e, db') \<Rightarrow> (Inl e, db')
           | (Inr (terminal, rows), db') \<Rightarrow>
               if runID \<noteq> [] \<and> length (filter (\<lambda>r. cr_run_id r = runID \<and> row_running r) (db_runs (cd_run db'))) \<noteq> 1
               then (Inl ErrChatRunTerminal, db')
               else (Inr rows, db'\<lparr>cd_run := touch_session now sessionID
                      (if runID = [] then cd_run db' else attach_to_run now runID terminal (cd_run db'))\<rparr>))))"

definition createBatchForActiveSession ::
  "db_fault \<Rightarrow> int \<Rightarrow> int \<Rightarrow> int \<Rightarrow> string \<Rightarrow> new_message list \<Rightarrow> chat_db \<Rightarrow> (go_err + message_row list) \<times> chat_db" where
  "createBatchForActiveSession fault now sessionID userID runID ms db =
    (if ms = [] then (Inr [], db) else run_tx fault (batch_body now sessionID userID runID ms) db)"

definition CreateForActiveSession :: "db_fault \<Rightarrow> int \<Rightarrow> int \<Rightarrow> int \<Rightarrow> new_message \<Rightarrow> chat_db \<Rightarrow> (go_err + message_row list) \<times> chat_db" where
  "CreateForActiveSession fault now sessionID userID m = createBatchForActiveSession fault now sessionID userID [] [m]"

definition CreateBatchForActiveRun ::
  "db_fault \<Rightarrow> int \<Rightarrow> int \<Rightarrow> int \<Rightarrow> string \<Rightarrow> new_message list \<Rightarrow> chat_db \<Rightarrow> (go_err + message_row list) \<times> chat_db" where
  "CreateBatchForActiveRun fault now sessionID userID runID = createBatchForActiveSession fault now sessionID userID (trim_space runID)"

text \<open>The terminal event with the id of the answer; no caller passes a \<^verbatim>\<open>null\<close> event.\<close>

definition terminalEventWithMessageID :: "jv option \<Rightarrow> int \<Rightarrow> jv option" where
  "terminalEventWithMessageID raw messageID =
    (case raw of
       Some (JObj payload) \<Rightarrow>
         if messageID \<le> 0 then raw
         else Some (JObj (AList.update ''data''
                (JObj (AList.update ''message_id'' (JInt messageID) (obj_fields (value_at payload ''data'')))) payload))
     | _ \<Rightarrow> raw)"

text \<open>
  \<^verbatim>\<open>CreateBatchAndTransitionActiveRun\<close>: the record and whether this call made it
  terminal, with the rows it stored.  A record that was terminal before is handed back without a commit.
\<close>

definition terminal_batch_body ::
  "int \<Rightarrow> int \<Rightarrow> int \<Rightarrow> string \<Rightarrow> new_message list \<Rightarrow> transition_input \<Rightarrow> chat_db
     \<Rightarrow> (go_err + (chat_run_record \<times> bool) \<times> message_row list) \<times> chat_db" where
  "terminal_batch_body now sessionID userID runID ms input0 db =
    (case lockActiveSession (cd_run db) sessionID userID of
       Some e \<Rightarrow> (Inl e, db)
     | None \<Rightarrow>
       (case lockActiveChatRun (cd_run db) runID sessionID userID of
          Some e \<Rightarrow>
            (case loadTerminalChatRunForScope (cd_run db) runID sessionID userID of
               (Some record, True) \<Rightarrow> (Inr ((record, False), []), db)
             | _ \<Rightarrow> (Inl e, db))
        | None \<Rightarrow>
          (case claim_and_create now sessionID userID (bind_to_run runID db ms) db of
             (Inl e, db') \<Rightarrow> (Inl e, db')
           | (Inr (terminal, rows), db') \<Rightarrow>
               (let messageID = (if ti_terminal_message_id input0 = 0 then terminal else ti_terminal_message_id input0);
                    input = input0\<lparr>ti_terminal_message_id := messageID,
                      ti_terminal_event := terminalEventWithMessageID (ti_terminal_event input0) messageID\<rparr>
                in case transitionChatRun now input (cd_run db') of
                     (Inl e, _) \<Rightarrow> (Inl e, db')
                   | (Inr (record, transitioned), run') \<Rightarrow>
                       if \<not> transitioned then (Inl ErrChatRunTerminal, db')
                       else (Inr ((record, True), rows), db'\<lparr>cd_run := touch_session now sessionID
                              (finishAnswerAttemptTx now (answerAttemptForRunTx runID (cd_run db)) (ti_status input) rows run')\<rparr>)))))"

definition CreateBatchAndTransitionActiveRun ::
  "db_fault \<Rightarrow> int \<Rightarrow> int \<Rightarrow> int \<Rightarrow> string \<Rightarrow> new_message list \<Rightarrow> transition_input \<Rightarrow> chat_db
     \<Rightarrow> (go_err + (chat_run_record \<times> bool) \<times> message_row list) \<times> chat_db" where
  "CreateBatchAndTransitionActiveRun fault now sessionID userID runID0 ms input db =
    (let runID = trim_space runID0
     in if runID = [] \<or> ti_run_id input \<noteq> runID then (Inl (ErrText ''run transition does not match message batch''), db)
        else (case fault of
            FaultBefore e \<Rightarrow> (Inl e, db)
          | _ \<Rightarrow>
              (case terminal_batch_body now sessionID userID runID ms input db of
                 (Inr ((record, False), rows), _) \<Rightarrow> (Inr ((record, False), rows), db)
               | _ \<Rightarrow> run_tx fault (terminal_batch_body now sessionID userID runID ms input) db)))"

end
