(* ===== verification/MessageHistory.thy ===== *)
theory MessageHistory
  imports MessageStore
begin

text \<open>
  Reading a conversation (\<^verbatim>\<open>internal/repository/message_repository.go\<close>): the agent's
  context, the whole history, its pages and windows, and the checks before a retry.  A result set in
  the order of a query is the list sorted by that order.
\<close>

section \<open>Positions\<close>

text \<open>
  \<^verbatim>\<open>messageLogicalIDSQL\<close>, \<^verbatim>\<open>messageLogicalRankSQL\<close>: a summary stands
  before the first message it leaves in place.
\<close>

definition summary_boundary :: "message_row \<Rightarrow> int option" where
  "summary_boundary m = (if mr_compaction_summary m then mr_boundary m else None)"

definition position :: "message_row \<Rightarrow> int \<times> int \<times> int" where
  "position m = (case summary_boundary m of Some b \<Rightarrow> (b, 0, mr_id m) | None \<Rightarrow> (mr_id m, 1, mr_id m))"

text \<open>A message of an answer is shown while the answer is the selected one.\<close>

definition shown :: "run_db \<Rightarrow> message_row \<Rightarrow> bool" where
  "shown db m \<longleftrightarrow> (case mr_answer_attempt m of None \<Rightarrow> True | Some i \<Rightarrow> list_ex (\<lambda>a. aa_id a = i \<and> aa_selected a) (db_attempts db))"

definition in_history :: "run_db \<Rightarrow> int \<Rightarrow> message_row \<Rightarrow> bool" where
  "in_history db sessionID m \<longleftrightarrow> mr_session_id m = sessionID \<and> \<not> mr_deleted m \<and> shown db m"

definition in_context :: "run_db \<Rightarrow> int \<Rightarrow> message_row \<Rightarrow> bool" where
  "in_context db sessionID m \<longleftrightarrow> in_history db sessionID m \<and> (\<not> mr_compressed m \<or> mr_summary_id m = Some (mr_id m))"

section \<open>Listing\<close>

text \<open>
  The scan of a row without a role, which would make a list fail, is not modelled: every message the
  program writes has one.
\<close>

definition ListBySession :: "run_db \<Rightarrow> int \<Rightarrow> message_row list" where
  "ListBySession db sessionID = sort_key position (filter (in_context db sessionID) (db_messages db))"

definition ListAllBySession :: "run_db \<Rightarrow> int \<Rightarrow> message_row list" where
  "ListAllBySession db sessionID = sort_key position (filter (in_history db sessionID) (db_messages db))"

definition GetMessageByID :: "run_db \<Rightarrow> int \<Rightarrow> go_err + message_row" where
  "GetMessageByID db i =
    (case find (\<lambda>m. mr_id m = i \<and> \<not> mr_deleted m) (db_messages db) of
       None \<Rightarrow> Inl (ErrWrap ''message not found'' ErrNotFound)
     | Some m \<Rightarrow> Inr m)"

definition FindByRunID :: "run_db \<Rightarrow> int \<Rightarrow> string \<Rightarrow> string list \<Rightarrow> message_row list" where
  "FindByRunID db sessionID runID roles =
    (if runID = [] then []
     else sort_key mr_id (filter (\<lambda>m. mr_session_id m = sessionID \<and> mr_run_id m = Some runID \<and> \<not> mr_deleted m \<and>
       (roles = [] \<or> mr_role m \<in> set roles)) (db_messages db)))"

definition GetSessionMessageCursor :: "run_db \<Rightarrow> int \<Rightarrow> go_err + int \<times> int" where
  "GetSessionMessageCursor db sessionID =
    (case map_of (db_sessions db) sessionID of
       None \<Rightarrow> Inl ErrNotFound
     | Some s \<Rightarrow>
         if sr_deleted s then Inl ErrNotFound
         else (case map mr_id (filter (\<lambda>m. mr_session_id m = sessionID \<and> \<not> mr_deleted m) (db_messages db)) of
             [] \<Rightarrow> Inr (0, sr_updated_at s)
           | i # is \<Rightarrow> Inr (foldl max i is, sr_updated_at s)))"

text \<open>The counts of the sessions that have messages.\<close>

definition session_count :: "run_db \<Rightarrow> int \<Rightarrow> nat" where
  "session_count db sessionID = length (filter (in_history db sessionID) (db_messages db))"

definition CountBySessions :: "run_db \<Rightarrow> int list \<Rightarrow> (int \<times> nat) list" where
  "CountBySessions db sessionIDs =
    map (\<lambda>i. (i, session_count db i)) (filter (\<lambda>i. session_count db i > 0) (remdups sessionIDs))"

text \<open>A page of the history before a message: the page, oldest first, and whether more is left.\<close>

definition page_rows :: "run_db \<Rightarrow> int \<Rightarrow> int \<Rightarrow> message_row list" where
  "page_rows db sessionID beforeID = filter (\<lambda>m. beforeID \<le> 0 \<or>
     (case find (\<lambda>c. mr_id c = beforeID \<and> mr_session_id c = sessionID \<and> \<not> mr_deleted c) (db_messages db) of
        None \<Rightarrow> False
      | Some c \<Rightarrow> position m < position c)) (ListAllBySession db sessionID)"

definition ListBySessionPaged :: "run_db \<Rightarrow> int \<Rightarrow> int \<Rightarrow> int \<Rightarrow> message_row list \<times> bool" where
  "ListBySessionPaged db sessionID limit0 beforeID =
    (let limit = nat (if limit0 \<le> 0 then 30 else limit0);
         found = take (limit + 1) (rev (page_rows db sessionID beforeID))
     in (rev (take limit found), length found > limit))"

section \<open>Turns and windows\<close>

definition is_turn :: "int \<Rightarrow> message_row \<Rightarrow> bool" where
  "is_turn sessionID m \<longleftrightarrow> mr_session_id m = sessionID \<and> \<not> mr_deleted m \<and> mr_role m = ''user'' \<and> \<not> mr_compaction_summary m"

definition turns :: "run_db \<Rightarrow> int \<Rightarrow> message_row list" where
  "turns db sessionID = sort_key mr_id (filter (is_turn sessionID) (db_messages db))"

definition turn_ids :: "run_db \<Rightarrow> int \<Rightarrow> int list" where
  "turn_ids db sessionID = map mr_id (turns db sessionID)"

text \<open>The turns with their numbers, the number of all turns, whether older ones are left.\<close>

definition ListConversationTurns :: "run_db \<Rightarrow> int \<Rightarrow> int \<Rightarrow> int \<Rightarrow> (message_row \<times> nat) list \<times> nat \<times> bool" where
  "ListConversationTurns db sessionID limit0 beforeTurnID =
    (let limit = nat (if limit0 \<le> 0 then 500 else if limit0 > 500 then 500 else limit0);
         numbered = zip (turns db sessionID) [1..<Suc (length (turns db sessionID))];
         found = take (limit + 1) (rev (filter (\<lambda>(m, n). beforeTurnID \<le> 0 \<or> mr_id m < beforeTurnID) numbered))
     in (rev (take limit found), length (turns db sessionID), length found > limit))"

datatype message_window_mode =
  MessageWindowLatest | MessageWindowBefore | MessageWindowAfter | MessageWindowAround | MessageWindowOther string

definition window_mode :: "message_window_mode \<Rightarrow> message_window_mode" where
  "window_mode mode = (if mode = MessageWindowOther [] then MessageWindowLatest else mode)"

definition last_n :: "nat \<Rightarrow> 'a list \<Rightarrow> 'a list" where
  "last_n n xs = rev (take n (rev xs))"

text \<open>The start of the window around position \<open>p\<close> of \<open>t\<close> turns, counted from 1.\<close>

definition around_start :: "int \<Rightarrow> int \<Rightarrow> int \<Rightarrow> int" where
  "around_start p t n = max 1 (min (p - (n - 1) div 2) (max (t - n + 1) 1))"

definition messageWindowTurnIDs :: "run_db \<Rightarrow> int \<Rightarrow> message_window_mode \<Rightarrow> int \<Rightarrow> int \<Rightarrow> go_err + int list" where
  "messageWindowTurnIDs db sessionID mode0 target limit =
    (let mode = window_mode mode0; ids = turn_ids db sessionID; n = nat limit in
     if mode \<noteq> MessageWindowLatest \<and> target \<le> 0 then Inl ErrNotFound
     else case mode of
         MessageWindowLatest \<Rightarrow> Inr (last_n n ids)
       | MessageWindowBefore \<Rightarrow> Inr (last_n n (filter (\<lambda>i. i < target) ids))
       | MessageWindowAfter \<Rightarrow> Inr (take n (filter (\<lambda>i. i > target) ids))
       | MessageWindowAround \<Rightarrow>
           (case index_where (\<lambda>i. i = target) ids of
              None \<Rightarrow> Inl ErrNotFound
            | Some k \<Rightarrow>
                (let start = around_start (int k + 1) (int (length ids)) limit;
                     found = take n (drop (nat (start - 1)) ids)
                 in if found = [] then Inl ErrNotFound else Inr found))
       | MessageWindowOther _ \<Rightarrow> Inl (ErrText ''invalid message window mode''))"

record message_window =
  mw_messages :: "message_row list"
  mw_first :: int
  mw_last :: int
  mw_has_older :: bool
  mw_has_newer :: bool

definition active_summary :: "int \<Rightarrow> message_row \<Rightarrow> bool" where
  "active_summary sessionID m \<longleftrightarrow> mr_session_id m = sessionID \<and> \<not> mr_deleted m \<and> \<not> mr_compressed m \<and> mr_compaction_summary m"

text \<open>A boundary that starts with a digit other than 0.\<close>

definition strict_boundary :: "message_row \<Rightarrow> int option" where
  "strict_boundary m =
    (case meta_text (mr_data m) ''compaction_before_message_id'' of
       Some (c # cs) \<Rightarrow> if c \<noteq> CHR ''0'' then mr_boundary m else None
     | _ \<Rightarrow> None)"

definition max_id :: "int list \<Rightarrow> int option" where
  "max_id xs = (case xs of [] \<Rightarrow> None | i # is \<Rightarrow> Some (foldl max i is))"

text \<open>The turn the active checkpoint is shown with.\<close>

definition checkpoint_anchor :: "run_db \<Rightarrow> int \<Rightarrow> int option" where
  "checkpoint_anchor db sessionID =
    (case max_id (map mr_id (filter (active_summary sessionID) (db_messages db))) of
       None \<Rightarrow> None
     | Some i \<Rightarrow>
         (case Option.bind (find (\<lambda>m. mr_id m = i) (db_messages db)) strict_boundary of
            Some b \<Rightarrow> max_id (filter (\<lambda>t. t < b) (turn_ids db sessionID))
          | None \<Rightarrow> max_id (map mr_id (filter (\<lambda>h. mr_summary_id h = Some i \<and> mr_id h \<noteq> i \<and> \<not> mr_deleted h \<and>
              mr_role h = ''user'' \<and> \<not> mr_compaction_summary h) (db_messages db)))))"

definition turn_of :: "run_db \<Rightarrow> message_row \<Rightarrow> int option" where
  "turn_of db m =
    (if mr_role m = ''user'' \<and> \<not> mr_compaction_summary m then Some (mr_id m)
     else (case mr_answer_attempt m of
         None \<Rightarrow> None
       | Some i \<Rightarrow> map_option aa_user_message_id (find (\<lambda>a. aa_id a = i) (db_attempts db))))"

definition window_messages :: "run_db \<Rightarrow> int \<Rightarrow> int list \<Rightarrow> bool \<Rightarrow> message_row list" where
  "window_messages db sessionID ids checkpoint = filter (\<lambda>m. (case turn_of db m of None \<Rightarrow> False | Some t \<Rightarrow> t \<in> set ids) \<or>
     checkpoint \<and> \<not> mr_compressed m \<and> mr_compaction_summary m) (ListAllBySession db sessionID)"

definition ListMessageWindow :: "run_db \<Rightarrow> int \<Rightarrow> message_window_mode \<Rightarrow> int \<Rightarrow> int \<Rightarrow> go_err + message_window" where
  "ListMessageWindow db sessionID mode target turnLimit0 =
    (let turnLimit = (if turnLimit0 \<le> 0 then 16 else if turnLimit0 > 16 then 16 else turnLimit0) in
     case messageWindowTurnIDs db sessionID mode target turnLimit of
       Inl e \<Rightarrow> Inl e
     | Inr [] \<Rightarrow> Inr \<lparr>mw_messages = window_messages db sessionID [] False, mw_first = 0, mw_last = 0, mw_has_older = False, mw_has_newer = False\<rparr>
     | Inr ids \<Rightarrow>
         (let anchor = checkpoint_anchor db sessionID;
              include = (case anchor of None \<Rightarrow> False | Some a \<Rightarrow> a \<in> set ids)
          in Inr \<lparr>mw_messages = window_messages db sessionID ids include, mw_first = hd ids, mw_last = last ids,
               mw_has_older = list_ex (\<lambda>i. i < hd ids) (turn_ids db sessionID),
               mw_has_newer = list_ex (\<lambda>i. i > last ids) (turn_ids db sessionID)\<rparr>))"

section \<open>Retries\<close>

definition listRetryMessages :: "run_db \<Rightarrow> int \<Rightarrow> message_row list" where
  "listRetryMessages db sessionID = sort_key mr_id (filter (in_context db sessionID) (db_messages db))"

definition last_where :: "('a \<Rightarrow> bool) \<Rightarrow> 'a list \<Rightarrow> nat option" where
  "last_where P xs = map_option (\<lambda>k. length xs - 1 - k) (index_where P (rev xs))"

definition conversational :: "message_row \<Rightarrow> bool" where
  "conversational m \<longleftrightarrow> \<not> isCompactionSummaryMessageData (mr_data m)"

text \<open>The user message a retry answers again; the conversation must end with the target.\<close>

definition retry_user :: "message_row list \<Rightarrow> int \<Rightarrow> message_row option" where
  "retry_user ms target =
    (let ti = last_where (\<lambda>m. conversational m \<and> mr_id m = target) ms;
         lastRetryable = last_where (\<lambda>m. conversational m \<and> (mr_role m = ''user'' \<or> mr_role m = ''assistant'')) ms
     in case ti of
          None \<Rightarrow> None
        | Some i \<Rightarrow>
            if lastRetryable \<noteq> Some i then None
            else if mr_role (ms ! i) = ''assistant''
            then map_option (\<lambda>k. ms ! k) (last_where (\<lambda>m. mr_role m = ''user'') (take i ms))
            else if mr_role (ms ! i) = ''user'' then Some (ms ! i) else None)"

definition prepareRetryForActiveSessionTx :: "int \<Rightarrow> int \<Rightarrow> int \<Rightarrow> chat_db \<Rightarrow> go_err + message_row" where
  "prepareRetryForActiveSessionTx sessionID userID target db =
    (case retry_user (listRetryMessages (cd_run db) sessionID) target of
       None \<Rightarrow> Inl ErrRetryTargetStale
     | Some m \<Rightarrow>
         (case ensureFormalMessageAttachmentsAvailableTx sessionID userID (mr_data m) (cd_files db) of
            Some e \<Rightarrow> Inl e
          | None \<Rightarrow> Inr m))"

definition PrepareRetryForActiveSession :: "int \<Rightarrow> int \<Rightarrow> int \<Rightarrow> chat_db \<Rightarrow> go_err + message_row" where
  "PrepareRetryForActiveSession sessionID userID target db =
    (case lockActiveSession (cd_run db) sessionID userID of
       Some e \<Rightarrow> Inl e
     | None \<Rightarrow> prepareRetryForActiveSessionTx sessionID userID target db)"

definition editRetryMessageHasOutput :: "message_row \<Rightarrow> bool" where
  "editRetryMessageHasOutput m =
    (if mr_role m = ''tool'' then True
     else if mr_role m \<noteq> ''assistant'' then False
     else (case ParseMessageData (mr_data m) of
         None \<Rightarrow> True
       | Some data \<Rightarrow> \<not> go_flag data ''ephemeral_error'' \<and>
           (trim_space (go_content data) \<noteq> [] \<or> mr_has_tool_calls m \<or> mr_has_reasoning m \<or> mr_has_multimodal m)))"

definition attempt_output :: "run_db \<Rightarrow> int \<Rightarrow> message_row \<Rightarrow> bool" where
  "attempt_output db target m \<longleftrightarrow>
     (case mr_answer_attempt m of
        None \<Rightarrow> False
      | Some i \<Rightarrow> list_ex (\<lambda>a. aa_id a = i \<and> aa_user_message_id a = target) (db_attempts db)) \<and> \<not> mr_deleted m \<and>
     (mr_role m = ''tool'' \<or> mr_role m = ''assistant'' \<and> \<not> mr_ephemeral_error m \<and>
       (btrim (mr_content m) \<noteq> [] \<or> mr_has_tool_calls m \<or> mr_has_reasoning m \<or> mr_has_multimodal m))"

definition prepareEditRetryForActiveSessionTx :: "int \<Rightarrow> int \<Rightarrow> int \<Rightarrow> chat_db \<Rightarrow> go_err + message_row" where
  "prepareEditRetryForActiveSessionTx sessionID userID target db =
    (let ms = listRetryMessages (cd_run db) sessionID;
         ti = last_where (\<lambda>m. conversational m \<and> mr_id m = target) ms;
         lastUser = last_where (\<lambda>m. conversational m \<and> mr_role m = ''user'') ms
     in case ti of
          None \<Rightarrow> Inl ErrRetryTargetStale
        | Some i \<Rightarrow>
            if lastUser \<noteq> Some i \<or> mr_role (ms ! i) \<noteq> ''user'' then Inl ErrRetryTargetStale
            else if list_ex editRetryMessageHasOutput (drop (i + 1) ms) then Inl ErrMessageAlreadyAnswered
            else if list_ex (attempt_output (cd_run db) target) (db_messages (cd_run db)) then Inl ErrMessageAlreadyAnswered
            else (case ensureFormalMessageAttachmentsAvailableTx sessionID userID (mr_data (ms ! i)) (cd_files db) of
                Some e \<Rightarrow> Inl e
              | None \<Rightarrow> Inr (ms ! i)))"

definition PrepareEditRetryForActiveSession :: "int \<Rightarrow> int \<Rightarrow> int \<Rightarrow> chat_db \<Rightarrow> go_err + message_row" where
  "PrepareEditRetryForActiveSession sessionID userID target db =
    (case lockActiveSession (cd_run db) sessionID userID of
       Some e \<Rightarrow> Inl e
     | None \<Rightarrow> prepareEditRetryForActiveSessionTx sessionID userID target db)"

section \<open>The pages of the history\<close>

definition messages_ok :: "run_db \<Rightarrow> bool" where
  "messages_ok db \<longleftrightarrow> distinct (map mr_id (db_messages db)) \<and> (\<forall>m\<in>set (db_messages db). mr_id m > 0)"

lemma messages_okD:
  assumes "messages_ok db" "m \<in> set (db_messages db)"
  shows "mr_id m > 0" "\<And>m'. m' \<in> set (db_messages db) \<Longrightarrow> mr_id m' = mr_id m \<Longrightarrow> m' = m"
  using assms by (auto simp: messages_ok_def distinct_map inj_on_def)

lemma position_id: "position m = position m' \<Longrightarrow> mr_id m = mr_id m'"
  by (auto simp: position_def split: option.splits)

lemma history_sorted:
  assumes "messages_ok db"
  shows "sorted_wrt (<) (map position (ListAllBySession db sessionID))"
proof -
  let ?ms = "filter (in_history db sessionID) (db_messages db)"
  have inj: "inj_on position (set ?ms)"
  proof (rule inj_onI)
    fix a b assume "a \<in> set ?ms" "b \<in> set ?ms" "position a = position b"
    then show "a = b" using messages_okD(2)[OF assms, of b a] position_id[of a b] by simp
  qed
  have "distinct ?ms" using assms by (simp add: messages_ok_def distinct_map)
  with inj have "distinct (map position (ListAllBySession db sessionID))"
    by (simp add: ListAllBySession_def distinct_map)
  then show ?thesis by (simp add: ListAllBySession_def strict_sorted_iff)
qed

lemma filter_below_nth:
  fixes f :: "'a \<Rightarrow> 'b::linorder"
  assumes "sorted_wrt (<) (map f xs)" "i < length xs"
  shows "filter (\<lambda>x. f x < f (xs ! i)) xs = take i xs"
proof -
  have lt: "f (xs ! a) < f (xs ! b)" if "a < b" "b < length xs" for a b
    using sorted_wrt_nth_less[OF assms(1), of a b] that by simp
  have "filter (\<lambda>x. f x < f (xs ! i)) (take i xs) = take i xs"
    using lt assms(2) by (auto simp: filter_id_conv in_set_conv_nth)
  moreover have "filter (\<lambda>x. f x < f (xs ! i)) (drop i xs) = []"
  proof -
    have "\<not> f x < f (xs ! i)" if x: "x \<in> set (drop i xs)" for x
    proof -
      from x obtain k where k: "k < length xs - i" "x = xs ! (i + k)" by (auto simp: in_set_conv_nth)
      then show ?thesis using lt[of i "i + k"] by (cases k) (auto simp: not_less less_imp_le)
    qed
    then show ?thesis by (simp add: filter_empty_conv)
  qed
  ultimately show ?thesis by (metis append_Nil2 append_take_drop_id filter_append)
qed

lemma history_member: "m \<in> set (ListAllBySession db s) \<longleftrightarrow> m \<in> set (db_messages db) \<and> in_history db s m"
  by (auto simp: ListAllBySession_def)

lemma find_message:
  assumes "messages_ok db" "m \<in> set (db_messages db)" "mr_session_id m = s" "\<not> mr_deleted m"
  shows "find (\<lambda>c. mr_id c = mr_id m \<and> mr_session_id c = s \<and> \<not> mr_deleted c) (db_messages db) = Some m"
proof (cases "find (\<lambda>c. mr_id c = mr_id m \<and> mr_session_id c = s \<and> \<not> mr_deleted c) (db_messages db)")
  case None then show ?thesis using assms by (auto simp: find_None_iff)
next
  case (Some c)
  then have "c \<in> set (db_messages db)" "mr_id c = mr_id m" by (auto simp: find_Some_iff)
  then show ?thesis using Some messages_okD(2)[OF assms(1,2)] by simp
qed

lemma page_rows_before:
  assumes ok: "messages_ok db" and i: "i < length (ListAllBySession db s)"
  shows "page_rows db s (mr_id (ListAllBySession db s ! i)) = take i (ListAllBySession db s)"
proof -
  let ?m = "ListAllBySession db s ! i"
  have m: "?m \<in> set (db_messages db)" "in_history db s ?m" using nth_mem[OF i] history_member by blast+
  then have f: "find (\<lambda>c. mr_id c = mr_id ?m \<and> mr_session_id c = s \<and> \<not> mr_deleted c) (db_messages db) = Some ?m"
    by (intro find_message[OF ok]) (auto simp: in_history_def)
  have "mr_id ?m > 0" using messages_okD(1)[OF ok m(1)] .
  then have "page_rows db s (mr_id ?m) = filter (\<lambda>x. position x < position ?m) (ListAllBySession db s)"
    unfolding page_rows_def f by simp
  then show ?thesis using filter_below_nth[OF history_sorted[OF ok] i] by simp
qed

lemma paged_slice:
  assumes "page_rows db s before = R" "limit = nat (if limit0 \<le> 0 then 30 else limit0)"
  shows "ListBySessionPaged db s limit0 before = (drop (length R - limit) R, length R > limit)"
proof -
  have "rev (take limit (take (limit + 1) (rev R))) = drop (length R - limit) R"
    by (simp add: min_absorb1) (simp add: rev_take)
  then show ?thesis using assms by (auto simp: ListBySessionPaged_def Let_def)
qed

text \<open>A client that asks for the page before the first message it has until there is no more.\<close>

fun walk_pages :: "nat \<Rightarrow> run_db \<Rightarrow> int \<Rightarrow> int \<Rightarrow> int \<Rightarrow> message_row list" where
  "walk_pages n db s limit before =
    (let (p, more) = ListBySessionPaged db s limit before
     in if more then (case n of 0 \<Rightarrow> p | Suc k \<Rightarrow> walk_pages k db s limit (mr_id (hd p)) @ p) else p)"

declare walk_pages.simps [simp del]

lemma walk_pages_prefix:
  assumes ok: "messages_ok db"
  shows "page_rows db s before = take j (ListAllBySession db s) \<Longrightarrow> j \<le> length (ListAllBySession db s) \<Longrightarrow> j \<le> n \<Longrightarrow>
    walk_pages n db s limit before = take j (ListAllBySession db s)"
proof (induction n arbitrary: j before)
  case 0
  then show ?case by (subst walk_pages.simps) (simp add: paged_slice)
next
  case (Suc n)
  let ?L = "ListAllBySession db s" and ?l = "nat (if limit \<le> 0 then 30 else limit)"
  have p: "ListBySessionPaged db s limit before = (drop (j - ?l) (take j ?L), ?l < j)"
    using paged_slice[OF Suc.prems(1) refl, of limit] Suc.prems(2) by (simp add: min_absorb2)
  show ?case
  proof (cases "?l < j")
    case False
    then show ?thesis unfolding walk_pages.simps[of "Suc n"] p by simp
  next
    case True
    have l: "0 < ?l" by simp
    have hd: "hd (drop (j - ?l) (take j ?L)) = ?L ! (j - ?l)"
      using True l Suc.prems(2) by (subst hd_drop_conv_nth) auto
    have "walk_pages n db s limit (mr_id (?L ! (j - ?l))) = take (j - ?l) ?L"
      by (rule Suc.IH, rule page_rows_before[OF ok]) (use True l Suc.prems in auto)
    then have "walk_pages (Suc n) db s limit before = take (j - ?l) ?L @ drop (j - ?l) (take j ?L)"
      using True unfolding walk_pages.simps[of "Suc n"] p by (simp add: hd)
    also have "take (j - ?l) ?L = take (j - ?l) (take j ?L)" by (simp add: min_def)
    finally show ?thesis by (simp only: append_take_drop_id)
  qed
qed

text \<open>
  C23.
  Paging loses nothing and shows nothing twice: a client that walks back page by page, whatever its
  page size, ends with exactly the whole visible history in display order, protected summaries at
  their logical place included.
\<close>

theorem pages_cover_the_history:
  assumes "messages_ok db" "length (db_messages db) \<le> n"
  shows "walk_pages n db s limit 0 = ListAllBySession db s"
proof -
  have "length (ListAllBySession db s) \<le> length (db_messages db)"
    by (simp add: ListAllBySession_def)
  moreover have "page_rows db s 0 = take (length (ListAllBySession db s)) (ListAllBySession db s)"
    by (simp add: page_rows_def)
  ultimately show ?thesis
    using walk_pages_prefix[OF assms(1), of s 0 "length (ListAllBySession db s)" n limit] assms(2) by simp
qed

section \<open>Windows\<close>

lemma index_where_None: "index_where P xs = None \<longleftrightarrow> (\<forall>x\<in>set xs. \<not> P x)"
  by (induction xs) auto

lemma around_start_bounds:
  assumes "0 \<le> k" "k < t" "1 \<le> n"
  defines "d \<equiv> around_start (k + 1) t n - 1"
  shows "0 \<le> d" "d \<le> k" "k < d + n" "n \<le> t \<Longrightarrow> d \<le> t - n" "t < n \<Longrightarrow> d = 0"
proof -
  have h: "0 \<le> (n - 1) div 2" "(n - 1) div 2 \<le> n - 1" using assms(3) by linarith+
  show "0 \<le> d" "d \<le> k" "n \<le> t \<Longrightarrow> d \<le> t - n" "t < n \<Longrightarrow> d = 0"
    using assms(1-3) h by (auto simp: d_def around_start_def max_def min_def)
  show "k < d + n" using assms(1-3) h by (auto simp: d_def around_start_def max_def min_def)
qed

text \<open>
  A window around a turn always contains the turn, is as large as the limit and the conversation
  allow, and is a part of the conversation without a gap.
\<close>

theorem window_around_the_turn:
  assumes "target \<in> set (turn_ids db s)" "target > 0" "1 \<le> limit"
  shows "\<exists>ids k. messageWindowTurnIDs db s MessageWindowAround target limit = Inr ids \<and> target \<in> set ids \<and>
    length ids = min (nat limit) (length (turn_ids db s)) \<and> ids = take (length ids) (drop k (turn_ids db s))"
proof -
  let ?xs = "turn_ids db s"
  obtain k where k: "index_where (\<lambda>i. i = target) ?xs = Some k"
    using assms(1) index_where_None[of "\<lambda>i. i = target" ?xs] by (cases "index_where (\<lambda>i. i = target) ?xs") auto
  have K: "k < length ?xs" "?xs ! k = target" using index_where_Some[OF k] by auto
  define d where "d = nat (around_start (int k + 1) (int (length ?xs)) limit - 1)"
  have ik: "0 \<le> int k" "int k < int (length ?xs)" using K(1) by simp_all
  note B = around_start_bounds[OF ik assms(3)]
  have d: "d \<le> k" "k < d + nat limit" "nat limit \<le> length ?xs \<Longrightarrow> d \<le> length ?xs - nat limit" "length ?xs < nat limit \<Longrightarrow> d = 0"
    using B(1-3) assms(3) by (simp_all add: d_def) (use B(4,5) assms(3) in linarith)+
  let ?ids = "take (nat limit) (drop d ?xs)"
  have len: "length ?ids = min (nat limit) (length ?xs)" using d(3,4) by (cases "nat limit \<le> length ?xs") auto
  have "?ids ! (k - d) = target" "k - d < length ?ids" using d K by auto
  then have mem: "target \<in> set ?ids" using nth_mem by metis
  have r: "messageWindowTurnIDs db s MessageWindowAround target limit = Inr ?ids"
    using mem assms(2) by (auto simp: messageWindowTurnIDs_def window_mode_def k d_def Let_def)
  have "?ids = take (length ?ids) (drop d ?xs)" by (simp add: len min_def)
  then show ?thesis using r mem len by blast
qed

section \<open>A conversation\<close>

definition text_message :: "int \<Rightarrow> string \<Rightarrow> string \<Rightarrow> (string \<times> jv) list \<Rightarrow> message_row" where
  "text_message i role content meta = \<lparr>mr_id = i, mr_session_id = 1, mr_schema = ''v1'',
     mr_data = JObj [(''role'', JStr role), (''content'', JStr content), (''metadata'', JObj meta)],
     mr_answer_attempt = None, mr_compressed = False, mr_summary_id = None, mr_created_at = i, mr_updated_at = i, mr_deleted = False\<rparr>"

text \<open>The columns of such a message.\<close>

lemma text_message_cols [simp]:
  "mr_id (text_message i r c m) = i" "mr_session_id (text_message i r c m) = 1" "\<not> mr_deleted (text_message i r c m)"
  "\<not> mr_compressed (text_message i r c m)" "mr_answer_attempt (text_message i r c m) = None" "mr_role (text_message i r c m) = r"
  "mr_summary_id (text_message i r c m) = None"
  "mr_compaction_summary (text_message i r c m) \<longleftrightarrow> Option.bind (map_of m ''compaction_summary'') json_text = Some ''true''"
  "meta_text (mr_data (text_message i r c m)) k = Option.bind (map_of m k) json_text"
  "isCompactionSummaryMessageData (mr_data (text_message i r c m)) \<longleftrightarrow> bool_at m ''compaction_summary'' = Some True"
  by (simp_all add: text_message_def mr_role_def data_role_def text_at_def coalesce_def mr_compaction_summary_def meta_text_def
    isCompactionSummaryMessageData_def ParseMessageData_def go_flag_def metadata_map_def value_at_def)

definition chat_demo :: run_db where
  "chat_demo = empty_run_db\<lparr>db_messages := [text_message 1 ''user'' ''a'' [], text_message 2 ''assistant'' ''b'' [],
     text_message 3 ''user'' ''c'' [], text_message 4 ''assistant'' ''d'' []],
     db_sessions := [(1, \<lparr>sr_user_id = 5, sr_deleted = False, sr_selection_revision = 0, sr_updated_at = 0\<rparr>)]\<rparr>"

lemma chat_demo_ok: "messages_ok chat_demo"
  by (simp add: messages_ok_def chat_demo_def)

lemma pages_cover_the_history_witness: "walk_pages 4 chat_demo 1 2 0 = ListAllBySession chat_demo 1"
  using pages_cover_the_history[OF chat_demo_ok, of 4 1 2] by (simp add: chat_demo_def)

lemma window_around_the_turn_witness:
  "\<exists>ids k. messageWindowTurnIDs chat_demo 1 MessageWindowAround 3 1 = Inr ids \<and> 3 \<in> set ids \<and>
    length ids = min 1 (length (turn_ids chat_demo 1)) \<and> ids = take (length ids) (drop k (turn_ids chat_demo 1))"
proof -
  have "3 \<in> set (turn_ids chat_demo 1)" by (simp add: turn_ids_def turns_def chat_demo_def is_turn_def)
  then show ?thesis using window_around_the_turn[of 3 chat_demo 1 1] by simp
qed

section \<open>Retrying after a checkpoint\<close>

text \<open>
  The search for the user message does not pass over summaries, which have the role of the user: when
  a checkpoint was stored between a question and its answer, a retry of the answer takes the summary
  for the question.
\<close>

lemma retry_takes_the_summary:
  "retry_user [text_message 5 ''user'' ''question'' [],
     text_message 7 ''user'' ''summary'' [(''compaction_summary'', JBool True), (''compaction_before_message_id'', JInt 5)],
     text_message 8 ''assistant'' ''answer'' []] 8 =
   Some (text_message 7 ''user'' ''summary'' [(''compaction_summary'', JBool True), (''compaction_before_message_id'', JInt 5)])"
  by (simp add: retry_user_def last_where_def conversational_def bool_at_def Let_def)

end
