(* ===== verification/Checkpoints.thy ===== *)
theory Checkpoints
  imports MessageHistory
begin

text \<open>
  Compaction checkpoints (\<^verbatim>\<open>internal/repository/message_repository.go\<close>,
  \<^verbatim>\<open>answer_selection_revision.go\<close>, \<^verbatim>\<open>markCompactionSummary\<close> of
  \<^verbatim>\<open>internal/service/message_service.go\<close>): a summary takes the place of the messages
  before a boundary in the agent's context; the latest manual one can be undone.
\<close>

text \<open>
  A summary that is no object is handed back as it is.  (The code would write into a nil map and panic
  on a literal \<^verbatim>\<open>null\<close>, which no caller passes: they build the summary as an object.)
\<close>

definition markCompactionSummary :: "jv \<Rightarrow> string \<Rightarrow> int \<Rightarrow> jv" where
  "markCompactionSummary summaryData kind beforeMessageID =
    (case summaryData of
       JObj data \<Rightarrow>
         (let meta0 = AList.update ''compaction_summary'' (JBool True) (metadata_map data);
              meta1 = (if kind \<noteq> [] then AList.update ''compaction_kind'' (JStr kind) meta0 else meta0);
              meta2 = (if beforeMessageID > 0 then AList.update ''compaction_before_message_id'' (JInt beforeMessageID) meta1 else meta1)
          in JObj (AList.update ''metadata'' (JObj meta2) data))
     | _ \<Rightarrow> summaryData)"

definition compressible :: "int \<Rightarrow> int \<Rightarrow> message_row \<Rightarrow> bool" where
  "compressible sessionID beforeMessageID m \<longleftrightarrow> mr_session_id m = sessionID \<and> \<not> mr_deleted m \<and>
     (\<not> mr_compressed m \<or> mr_summary_id m = Some (mr_id m)) \<and>
     (mr_id m < beforeMessageID \<or>
      \<not> mr_compressed m \<and> mr_compaction_summary m \<and>
      (case strict_boundary m of None \<Rightarrow> False | Some b \<Rightarrow> b < beforeMessageID))"

definition update_messages :: "(message_row \<Rightarrow> bool) \<Rightarrow> (message_row \<Rightarrow> message_row) \<Rightarrow> run_db \<Rightarrow> run_db" where
  "update_messages P f db = db\<lparr>db_messages := map (\<lambda>m. if P m then f m else m) (db_messages db)\<rparr>"

definition markAsCompressed :: "int \<Rightarrow> int \<Rightarrow> int \<Rightarrow> run_db \<Rightarrow> run_db" where
  "markAsCompressed sessionID beforeMessageID summaryID =
    update_messages (compressible sessionID beforeMessageID) (\<lambda>m. m\<lparr>mr_compressed := True, mr_summary_id := Some summaryID\<rparr>)"

definition checkpoint_rows :: "int \<Rightarrow> int \<Rightarrow> new_message \<Rightarrow> int \<Rightarrow> chat_db \<Rightarrow> (go_err + message_row) \<times> chat_db" where
  "checkpoint_rows now sessionID summary beforeMessageID db =
    (case createMessage now summary db of
       (Inl e, db') \<Rightarrow> (Inl (ErrWrap ''failed to persist compression summary'' e), db')
     | (Inr row, db') \<Rightarrow> (Inr row, db'\<lparr>cd_run := markAsCompressed sessionID beforeMessageID (mr_id row) (cd_run db')\<rparr>))"

definition PersistCheckpoint :: "db_fault \<Rightarrow> int \<Rightarrow> new_message \<Rightarrow> int \<Rightarrow> chat_db \<Rightarrow> (go_err + message_row) \<times> chat_db" where
  "PersistCheckpoint fault now summary beforeMessageID db =
    run_tx fault (checkpoint_rows now (nm_session_id summary) summary beforeMessageID) db"

definition active_checkpoint_body :: "int \<Rightarrow> int \<Rightarrow> int \<Rightarrow> new_message \<Rightarrow> int \<Rightarrow> chat_db \<Rightarrow> (go_err + message_row) \<times> chat_db" where
  "active_checkpoint_body now sessionID userID summary beforeMessageID db =
    (case lockActiveSession (cd_run db) sessionID userID of
       Some e \<Rightarrow> (Inl e, db)
     | None \<Rightarrow>
         if nm_session_id summary \<noteq> sessionID then (Inl (ErrText ''summary belongs to another session''), db)
         else checkpoint_rows now sessionID summary beforeMessageID db)"

definition PersistCheckpointForActiveSession ::
  "db_fault \<Rightarrow> int \<Rightarrow> int \<Rightarrow> int \<Rightarrow> new_message \<Rightarrow> int \<Rightarrow> chat_db \<Rightarrow> (go_err + message_row) \<times> chat_db" where
  "PersistCheckpointForActiveSession fault now sessionID userID summary beforeMessageID db =
    run_tx fault (active_checkpoint_body now sessionID userID summary beforeMessageID) db"

section \<open>A checkpoint that ends its run\<close>

definition lockActiveSessionAnswerSelectionRevision :: "run_db \<Rightarrow> int \<Rightarrow> int \<Rightarrow> go_err + int" where
  "lockActiveSessionAnswerSelectionRevision db sessionID userID =
    (case lockActiveSession db sessionID userID of Some e \<Rightarrow> Inl e | None \<Rightarrow> Inr (session_revision db sessionID))"

definition ensureAnswerSelectionRevision :: "int \<Rightarrow> int option \<Rightarrow> go_err option" where
  "ensureAnswerSelectionRevision actual expected =
    (case expected of None \<Rightarrow> None | Some e \<Rightarrow> if actual \<noteq> e then Some ErrAnswerSelectionRevisionConflict else None)"

definition checkpoint_revision_error :: "int \<Rightarrow> int \<Rightarrow> run_status \<Rightarrow> int option \<Rightarrow> run_db \<Rightarrow> go_err option" where
  "checkpoint_revision_error sessionID userID status expected db =
    (if status \<noteq> RunStatusCompleted then None
     else (case lockActiveSessionAnswerSelectionRevision db sessionID userID of
         Inl e \<Rightarrow> Some e
       | Inr revision \<Rightarrow> ensureAnswerSelectionRevision revision expected))"

text \<open>The stored record when the run was terminal before, else the error.\<close>

definition stored_or :: "go_err \<Rightarrow> string \<Rightarrow> int \<Rightarrow> int \<Rightarrow> run_db \<Rightarrow> go_err + chat_run_record \<times> bool" where
  "stored_or e runID sessionID userID db =
    (case loadTerminalChatRunForScope db runID sessionID userID of (Some record, True) \<Rightarrow> Inr (record, False) | _ \<Rightarrow> Inl e)"

definition terminal_checkpoint_body ::
  "int \<Rightarrow> int \<Rightarrow> int \<Rightarrow> string \<Rightarrow> new_message option \<Rightarrow> int \<Rightarrow> transition_input \<Rightarrow> int option \<Rightarrow> chat_db
     \<Rightarrow> (go_err + chat_run_record \<times> bool) \<times> chat_db" where
  "terminal_checkpoint_body now sessionID userID runID summary beforeMessageID input expected db =
    (case checkpoint_revision_error sessionID userID (ti_status input) expected (cd_run db) of
       Some e \<Rightarrow> (if e = ErrAnswerSelectionRevisionConflict then stored_or e runID sessionID userID (cd_run db) else Inl e, db)
     | None \<Rightarrow>
       (case lockActiveChatRun (cd_run db) runID sessionID userID of
          Some e \<Rightarrow> (stored_or e runID sessionID userID (cd_run db), db)
        | None \<Rightarrow>
          (case (if ti_status input \<noteq> RunStatusCompleted then (None, db)
                 else (case summary of
                     None \<Rightarrow> (Some (ErrText ''summary belongs to another session''), db)
                   | Some m \<Rightarrow>
                       if nm_session_id m \<noteq> sessionID then (Some (ErrText ''summary belongs to another session''), db)
                       else (case checkpoint_rows now sessionID m beforeMessageID db of
                           (Inl e, db') \<Rightarrow> (Some e, db')
                         | (Inr row, db') \<Rightarrow> (None, db')))) of
             (Some e, db') \<Rightarrow> (Inl e, db')
           | (None, db') \<Rightarrow>
               (case transitionChatRun now input (cd_run db') of
                  (Inl e, _) \<Rightarrow> (Inl e, db')
                | (Inr (record, transitioned), run') \<Rightarrow>
                    if \<not> transitioned then (Inl ErrChatRunTerminal, db') else (Inr (record, True), db'\<lparr>cd_run := run'\<rparr>)))))"

definition PersistCheckpointAndTransitionActiveRun ::
  "db_fault \<Rightarrow> int \<Rightarrow> int \<Rightarrow> int \<Rightarrow> string \<Rightarrow> new_message option \<Rightarrow> int \<Rightarrow> transition_input \<Rightarrow> int option \<Rightarrow> chat_db
     \<Rightarrow> (go_err + chat_run_record \<times> bool) \<times> chat_db" where
  "PersistCheckpointAndTransitionActiveRun fault now sessionID userID runID0 summary beforeMessageID input expected db =
    (let runID = trim_space runID0; body = terminal_checkpoint_body now sessionID userID runID summary beforeMessageID input expected
     in if runID = [] \<or> ti_run_id input \<noteq> runID then (Inl (ErrText ''run transition does not match compression checkpoint''), db)
        else (case fault of
            FaultBefore e \<Rightarrow> (Inl e, db)
          | _ \<Rightarrow> (case body db of (Inr (record, False), _) \<Rightarrow> (Inr (record, False), db) | _ \<Rightarrow> run_tx fault body db)))"

section \<open>Undoing\<close>

definition compressed_by :: "int \<Rightarrow> int \<Rightarrow> message_row \<Rightarrow> bool" where
  "compressed_by sessionID summaryID m \<longleftrightarrow> mr_session_id m = sessionID \<and> mr_summary_id m = Some summaryID \<and> \<not> mr_deleted m"

definition restore_rows :: "int \<Rightarrow> int \<Rightarrow> run_db \<Rightarrow> nat \<times> run_db" where
  "restore_rows sessionID summaryID db =
    (length (filter (compressed_by sessionID summaryID) (db_messages db)),
     update_messages (\<lambda>m. mr_id m = summaryID \<and> mr_session_id m = sessionID \<and> \<not> mr_deleted m) (\<lambda>m. m\<lparr>mr_deleted := True\<rparr>)
       (update_messages (compressed_by sessionID summaryID) (\<lambda>m. m\<lparr>mr_compressed := False, mr_summary_id := None\<rparr>) db))"

definition UndoCompressionCheckpoint :: "db_fault \<Rightarrow> int \<Rightarrow> int \<Rightarrow> run_db \<Rightarrow> (go_err + nat) \<times> run_db" where
  "UndoCompressionCheckpoint fault sessionID summaryID db =
    run_tx fault (\<lambda>db. (Inr (fst (restore_rows sessionID summaryID db)), snd (restore_rows sessionID summaryID db))) db"

definition latest_summary :: "int \<Rightarrow> run_db \<Rightarrow> int option" where
  "latest_summary sessionID db =
    max_id (map mr_id (filter (\<lambda>m. mr_session_id m = sessionID \<and> \<not> mr_deleted m \<and> mr_compaction_summary m) (db_messages db)))"

definition summary_kind :: "int \<Rightarrow> run_db \<Rightarrow> string" where
  "summary_kind summaryID db =
    (case find (\<lambda>m. mr_id m = summaryID) (db_messages db) of
       None \<Rightarrow> []
     | Some m \<Rightarrow> coalesce (meta_text (mr_data m) ''compaction_kind'') [])"

definition undo_body :: "int \<Rightarrow> int \<Rightarrow> run_db \<Rightarrow> (go_err + nat) \<times> run_db" where
  "undo_body sessionID userID db =
    (case lockActiveSession db sessionID userID of
       Some e \<Rightarrow> (Inl e, db)
     | None \<Rightarrow>
       (case latest_summary sessionID db of
          None \<Rightarrow> (Inl ErrCompactionNotFound, db)
        | Some i \<Rightarrow>
            if summary_kind i db \<noteq> ''manual'' then (Inl ErrCompactionUndoDenied, db)
            else if list_ex (\<lambda>m. mr_session_id m = sessionID \<and> mr_id m > i \<and> \<not> mr_deleted m \<and> \<not> mr_ephemeral_error m) (db_messages db)
            then (Inl ErrCompactionUndoStale, db)
            else (Inr (fst (restore_rows sessionID i db)), snd (restore_rows sessionID i db))))"

definition UndoLatestManualCheckpointForActiveSession :: "db_fault \<Rightarrow> int \<Rightarrow> int \<Rightarrow> run_db \<Rightarrow> (go_err + nat) \<times> run_db" where
  "UndoLatestManualCheckpointForActiveSession fault sessionID userID db = run_tx fault (undo_body sessionID userID) db"

section \<open>What a checkpoint does to the context\<close>

text \<open>
  The tables as the code leaves them: ids are drawn upwards, a summary is another row than the one it
  compresses (rows that point at themselves come from older versions).
\<close>

definition chat_ok :: "chat_db \<Rightarrow> bool" where
  "chat_ok db \<longleftrightarrow> messages_ok (cd_run db) \<and>
     (\<forall>m\<in>set (db_messages (cd_run db)). mr_id m < cd_next_message db \<and> mr_summary_id m \<noteq> Some (mr_id m) \<and>
       (\<not> mr_compressed m \<longrightarrow> mr_summary_id m = None) \<and> (\<forall>i. mr_summary_id m = Some i \<longrightarrow> i < cd_next_message db))"

lemma chat_okD:
  assumes "chat_ok db" "m \<in> set (db_messages (cd_run db))"
  shows "mr_id m < cd_next_message db" "mr_summary_id m \<noteq> Some (mr_id m)" "\<not> mr_compressed m \<Longrightarrow> mr_summary_id m = None"
    "mr_summary_id m = Some i \<Longrightarrow> i < cd_next_message db"
  using assms by (auto simp: chat_ok_def)

definition summary_message :: "int \<Rightarrow> (string \<times> jv) list \<Rightarrow> string \<Rightarrow> int \<Rightarrow> new_message" where
  "summary_message sessionID data kind beforeMessageID = \<lparr>nm_session_id = sessionID, nm_role = [], nm_schema = ''v1'',
     nm_data = markCompactionSummary (JObj data) kind beforeMessageID, nm_answer_attempt = None\<rparr>"

lemma summary_row:
  assumes "0 < before" "r = new_row now i (summary_message s data kind before)"
  shows "mr_id r = i" "mr_session_id r = s" "\<not> mr_deleted r" "\<not> mr_compressed r" "mr_summary_id r = None" "mr_answer_attempt r = None"
    "mr_compaction_summary r" "mr_boundary r = Some before" "strict_boundary r = Some before" "position r = (before, 0, i)"
    "kind \<noteq> [] \<Longrightarrow> meta_text (mr_data r) ''compaction_kind'' = Some kind"
proof -
  have d: "mr_data r = markCompactionSummary (JObj data) kind before" by (simp add: assms(2) new_row_def summary_message_def)
  have m: "meta_text (mr_data r) ''compaction_summary'' = Some ''true''"
    "meta_text (mr_data r) ''compaction_before_message_id'' = Some (itoa before)"
    "kind \<noteq> [] \<Longrightarrow> meta_text (mr_data r) ''compaction_kind'' = Some kind"
    using assms(1) by (auto simp: d markCompactionSummary_def meta_text_def text_at_def Let_def)
  have it: "itoa before = nat_digits (nat before)" "0 < nat before" using assms(1) by (simp_all add: itoa_def)
  have b: "mr_boundary r = Some before" using nat_digits_val[of "nat before"] assms(1) by (simp add: mr_boundary_def m it(1))
  have sb: "strict_boundary r = Some before"
    using b nat_digits_hd[OF it(2)] by (cases "itoa before") (auto simp: strict_boundary_def m it(1))
  show "mr_id r = i" "mr_session_id r = s" "\<not> mr_deleted r" "\<not> mr_compressed r" "mr_summary_id r = None" "mr_answer_attempt r = None"
    by (simp_all add: assms(2) new_row_def summary_message_def)
  show "mr_compaction_summary r" by (simp add: mr_compaction_summary_def m)
  then show "position r = (before, 0, i)" using b \<open>mr_id r = i\<close> by (simp add: position_def summary_boundary_def)
  show "kind \<noteq> [] \<Longrightarrow> meta_text (mr_data r) ''compaction_kind'' = Some kind" by (rule m)
  show "mr_boundary r = Some before" "strict_boundary r = Some before" by (rule b, rule sb)
qed

lemma lockActiveSession_messages [simp]: "lockActiveSession (db\<lparr>db_messages := ms\<rparr>) s u = lockActiveSession db s u"
  by (simp add: lockActiveSession_def)

lemma db_messages_update [simp]: "db_messages (update_messages P f db) = map (\<lambda>m. if P m then f m else m) (db_messages db)"
  by (simp add: update_messages_def)

lemma run_tx_FaultNone: "run_tx FaultNone body db = (case body db of (Inl e, _) \<Rightarrow> (Inl e, db) | (Inr r, db') \<Rightarrow> (Inr r, db'))"
  by (auto simp: run_tx_def split: prod.splits sum.splits)

text \<open>The tables after a checkpoint.\<close>

lemma checkpoint_result:
  assumes "checkpoint_rows now s (summary_message s data kind before) before db = (Inr row, db1)"
  shows "row = new_row now (cd_next_message db) (summary_message s data kind before)"
    "cd_run db1 = (cd_run db)\<lparr>db_messages := map (\<lambda>m. if compressible s before m then m\<lparr>mr_compressed := True, mr_summary_id := Some (mr_id row)\<rparr> else m)
       (db_messages (cd_run db) @ [row])\<rparr>"
  using assms
  by (auto simp: checkpoint_rows_def createMessage_def markAsCompressed_def update_messages_def add_message_def Let_def
    split: option.splits sum.splits prod.splits if_splits)

lemma checkpoint_opens:
  assumes "PersistCheckpointForActiveSession FaultNone now s u (summary_message s data kind before) before db = (Inr row, db1)"
  shows "checkpoint_rows now s (summary_message s data kind before) before db = (Inr row, db1)" "lockActiveSession (cd_run db) s u = None"
  using assms by (auto simp: PersistCheckpointForActiveSession_def active_checkpoint_body_def run_tx_FaultNone summary_message_def
      split: option.splits prod.splits sum.splits if_splits)

lemma summary_not_compressible:
  assumes "0 < before" "before \<le> i"
  shows "\<not> compressible s before (new_row now i (summary_message s data kind before))"
  using summary_row[OF assms(1) refl] assms(2) by (simp add: compressible_def)

lemma shown_messages [simp]: "shown (db\<lparr>db_messages := ms\<rparr>) m = shown db m"
  by (cases "mr_answer_attempt m") (simp_all add: shown_def)

lemma shown_attempts: "db_attempts db = db_attempts db' \<Longrightarrow> shown db m = shown db' m"
  by (cases "mr_answer_attempt m") (simp_all add: shown_def)

lemma sort_key_snoc_least:
  fixes f :: "'a \<Rightarrow> 'b::linorder"
  assumes "\<And>x. x \<in> set xs \<Longrightarrow> f r < f x"
  shows "sort_key f (xs @ [r]) = r # sort_key f xs"
  using assms
proof (induction xs)
  case (Cons a xs)
  then have "\<not> f a \<le> f r" by (simp add: not_le)
  with Cons show ?case by simp
qed simp

text \<open>
  C25.
  A checkpoint replaces the past, and only the past: the agent's context is then the summary followed
  by the messages at or after its boundary as they were, no older message and no older summary.
\<close>

theorem checkpoint_replaces_the_past:
  assumes ok: "chat_ok db" and before: "0 < before" "before \<le> cd_next_message db"
    and older: "\<And>m. m \<in> set (ListBySession (cd_run db) s) \<Longrightarrow> mr_compaction_summary m \<Longrightarrow>
      (case strict_boundary m of None \<Rightarrow> mr_id m < before | Some b \<Rightarrow> b < before)"
    and stored: "PersistCheckpointForActiveSession FaultNone now s u (summary_message s data kind before) before db = (Inr row, db1)"
  shows "ListBySession (cd_run db1) s =
    row # filter (\<lambda>m. before \<le> mr_id m \<and> \<not> mr_compaction_summary m) (ListBySession (cd_run db) s)"
proof -
  let ?ms = "db_messages (cd_run db)" and ?i = "cd_next_message db"
  note R = checkpoint_result[OF checkpoint_opens(1)[OF stored]]
  note row = summary_row[OF before(1) R(1)]
  let ?h = "\<lambda>m. if compressible s before m then m\<lparr>mr_compressed := True, mr_summary_id := Some ?i\<rparr> else m"
  let ?K = "\<lambda>m. in_context (cd_run db) s m \<and> \<not> compressible s before m"
  have hrow: "\<not> compressible s before row" using summary_not_compressible[OF before] R(1) by simp
  have in_context_db1: "in_context (cd_run db1) t m \<longleftrightarrow> in_context (cd_run db) t m" for t m
    by (simp add: R(2) in_context_def in_history_def)
  have H: "in_context (cd_run db) s (?h m) \<longleftrightarrow> ?K m" if "m \<in> set ?ms" for m
  proof (cases "compressible s before m")
    case True
    have "mr_id m \<noteq> ?i" using chat_okD(1)[OF ok that] by simp
    then show ?thesis using True by (simp add: in_context_def)
  qed simp
  have h: "in_context (cd_run db1) s (?h m) \<longleftrightarrow> ?K m" "?K m \<Longrightarrow> ?h m = m" if "m \<in> set ?ms" for m
    using H[OF that] chat_okD(1)[OF ok that] by (auto simp: in_context_db1)
  have row_in: "in_context (cd_run db1) s row" using row by (simp add: in_context_def in_history_def shown_def)
  have "filter (in_context (cd_run db1) s) (map ?h ?ms) = filter ?K ?ms"
  proof -
    have "filter (in_context (cd_run db1) s) (map ?h ?ms) = map ?h (filter ?K ?ms)"
      unfolding filter_map by (rule arg_cong[where f = "map ?h"], rule filter_cong) (use h(1) in \<open>simp_all add: comp_def\<close>)
    also have "\<dots> = filter ?K ?ms" by (rule map_idI) (use h(2) in auto)
    finally show ?thesis .
  qed
  moreover have "db_messages (cd_run db1) = map ?h ?ms @ [row]" using hrow row(1) by (simp add: R(2))
  ultimately have "ListBySession (cd_run db1) s = sort_key position (filter ?K ?ms @ [row])"
    using row_in by (simp add: ListBySession_def)
  moreover have K: "?K m \<longleftrightarrow> in_context (cd_run db) s m \<and> before \<le> mr_id m \<and> \<not> mr_compaction_summary m" if m: "m \<in> set ?ms" for m
  proof (cases "in_context (cd_run db) s m")
    case True
    then have "m \<in> set (ListBySession (cd_run db) s)" using m by (simp add: ListBySession_def)
    note older[OF this]
    moreover have "\<not> mr_compressed m" using True chat_okD(2)[OF ok m] by (simp add: in_context_def)
    ultimately show ?thesis using True
      by (auto simp: compressible_def in_context_def in_history_def split: option.splits)
  qed simp
  then have "filter ?K ?ms = filter (\<lambda>m. before \<le> mr_id m \<and> \<not> mr_compaction_summary m) (filter (in_context (cd_run db) s) ?ms)"
    by (auto intro: filter_cong)
  moreover have "position row < position m" if "m \<in> set (filter ?K ?ms)" for m
    using that K[of m] row(10) by (auto simp: position_def summary_boundary_def)
  ultimately show ?thesis using sort_key_snoc_least[of "filter ?K ?ms" position row]
    by (simp add: ListBySession_def filter_sort)
qed

section \<open>Undoing gives the conversation back\<close>

lemma max_id_snoc: "(\<And>x. x \<in> set xs \<Longrightarrow> x \<le> i) \<Longrightarrow> max_id (xs @ [i]) = Some i"
proof -
  assume le: "\<And>x. x \<in> set xs \<Longrightarrow> x \<le> i"
  have "foldl max a ys \<le> i" if "a \<le> i" "\<And>y. y \<in> set ys \<Longrightarrow> y \<le> i" for a and ys :: "int list"
    using that by (induction ys arbitrary: a) auto
  then show ?thesis using le by (cases xs) (auto simp: max_id_def max_def)
qed

lemma ids_below: "(\<And>m. m \<in> set xs \<Longrightarrow> mr_id m < i) \<Longrightarrow> x \<in> set (map mr_id (filter P xs)) \<Longrightarrow> x \<le> i"
  by (auto simp: less_imp_le)

lemma find_snoc_new: "(\<And>x. x \<in> set xs \<Longrightarrow> \<not> P x) \<Longrightarrow> P y \<Longrightarrow> find P (xs @ [y]) = Some y"
  by (induction xs) auto

text \<open>
  C24.
  A manual compaction can be taken back without a trace: undoing it restores every row of the
  conversation to what it was before, leaves the summary deleted, and so gives the agent's context and
  the visible history back exactly.
\<close>

theorem undo_restores_the_conversation:
  assumes ok: "chat_ok db" and before: "0 < before" "before \<le> cd_next_message db"
    and stored: "PersistCheckpointForActiveSession FaultNone now s u (summary_message s data ''manual'' before) before db = (Inr row, db1)"
  shows "\<exists>n db2. UndoLatestManualCheckpointForActiveSession FaultNone s u (cd_run db1) = (Inr n, db2) \<and>
    db_messages db2 = db_messages (cd_run db) @ [row\<lparr>mr_deleted := True\<rparr>] \<and>
    ListBySession db2 t = ListBySession (cd_run db) t \<and> ListAllBySession db2 t = ListAllBySession (cd_run db) t"
proof -
  let ?ms = "db_messages (cd_run db)" and ?i = "cd_next_message db"
  note R = checkpoint_result[OF checkpoint_opens(1)[OF stored]]
  note row = summary_row[OF before(1) R(1)]
  let ?h = "\<lambda>m. if compressible s before m then m\<lparr>mr_compressed := True, mr_summary_id := Some ?i\<rparr> else m"
  have nc: "\<not> compressible s before row" using summary_not_compressible[OF before] R(1) by simp
  have ms1: "db_messages (cd_run db1) = map ?h ?ms @ [row]" using nc row(1) by (simp add: R(2))
  have ids: "mr_id (?h m) = mr_id m" for m by simp
  have lt: "mr_id m < ?i" if "m \<in> set (map ?h ?ms)" for m using that chat_okD(1)[OF ok] by auto
  have latest: "latest_summary s (cd_run db1) = Some ?i"
    using max_id_snoc[OF ids_below[OF lt]] row(1,2,3,7)
    by (simp only: latest_summary_def ms1 filter_append map_append filter.simps list.map if_True simp_thms)
  have "find (\<lambda>m. mr_id m = ?i) (db_messages (cd_run db1)) = Some row"
    unfolding ms1 using find_snoc_new[of "map ?h ?ms" "\<lambda>m. mr_id m = ?i" row, OF less_imp_neq[OF lt]] row(1) by blast
  then have kind: "summary_kind ?i (cd_run db1) = ''manual''" using row(11) by (simp add: summary_kind_def coalesce_def)
  have none: "\<not> list_ex (\<lambda>m. mr_session_id m = s \<and> mr_id m > ?i \<and> \<not> mr_deleted m \<and> \<not> mr_ephemeral_error m) (db_messages (cd_run db1))"
  proof -
    have "mr_id m \<le> ?i" if "m \<in> set (db_messages (cd_run db1))" for m
      using that less_imp_le[OF lt, of m] row(1) unfolding ms1 set_append by auto
    then show ?thesis by (fastforce simp: list_ex_iff)
  qed
  have open1: "lockActiveSession (cd_run db1) s u = None" using checkpoint_opens(2)[OF stored] by (simp add: R(2))
  define db2 where "db2 = snd (restore_rows s ?i (cd_run db1))"
  have undone: "(if compressed_by s ?i (?h m) then (?h m)\<lparr>mr_compressed := False, mr_summary_id := None\<rparr> else ?h m) = m" if m: "m \<in> set ?ms" for m
  proof (cases "compressible s before m")
    case True
    then have "\<not> mr_compressed m" "mr_session_id m = s" "\<not> mr_deleted m" using chat_okD(2)[OF ok m] by (simp_all add: compressible_def)
    then show ?thesis using True chat_okD(3)[OF ok m] by (simp add: compressed_by_def)
  next
    case False
    then show ?thesis using chat_okD(4)[OF ok m, of ?i] by (auto simp: compressed_by_def)
  qed
  have "db_messages db2 = map (\<lambda>m. if mr_id m = ?i \<and> mr_session_id m = s \<and> \<not> mr_deleted m then m\<lparr>mr_deleted := True\<rparr> else m) (?ms @ [row])"
  proof -
    have "map (\<lambda>m. if compressed_by s ?i m then m\<lparr>mr_compressed := False, mr_summary_id := None\<rparr> else m) (map ?h ?ms @ [row]) = ?ms @ [row]"
      using undone row(5) by (simp add: compressed_by_def cong: map_cong)
    then show ?thesis by (simp only: db2_def restore_rows_def snd_conv db_messages_update ms1)
  qed
  then have ms2: "db_messages db2 = ?ms @ [row\<lparr>mr_deleted := True\<rparr>]"
    using row(1-3) by (simp add: map_idI[of ?ms] less_imp_neq[OF chat_okD(1)[OF ok]])
  have att: "db_attempts db2 = db_attempts (cd_run db)" by (simp add: db2_def restore_rows_def update_messages_def R(2))
  have same: "in_history db2 t m \<longleftrightarrow> in_history (cd_run db) t m" "in_context db2 t m \<longleftrightarrow> in_context (cd_run db) t m" for m
    by (simp_all add: in_context_def in_history_def shown_attempts[OF att])
  have "\<not> in_history db2 t (row\<lparr>mr_deleted := True\<rparr>)" by (simp add: in_history_def)
  then have "ListBySession db2 t = ListBySession (cd_run db) t" "ListAllBySession db2 t = ListAllBySession (cd_run db) t"
    by (simp_all add: ListBySession_def ListAllBySession_def ms2 same in_context_def cong: filter_cong)
  moreover have "UndoLatestManualCheckpointForActiveSession FaultNone s u (cd_run db1) = (Inr (fst (restore_rows s ?i (cd_run db1))), db2)"
    using latest kind none open1
    by (simp add: UndoLatestManualCheckpointForActiveSession_def run_tx_FaultNone undo_body_def db2_def)
  ultimately show ?thesis using ms2 by blast
qed

section \<open>A compacted conversation\<close>

definition chat_demo_db :: chat_db where
  "chat_demo_db = \<lparr>cd_run = chat_demo, cd_files = \<lparr>fd_files = [], fd_messages = [], fd_sessions = [], fd_next_file = 1, fd_claim_seq = 0\<rparr>,
     cd_next_message = 5\<rparr>"

lemma chat_demo_db_ok: "chat_ok chat_demo_db"
  using chat_demo_ok by (simp add: chat_ok_def chat_demo_db_def) (simp add: chat_demo_def)

lemma chat_demo_compacted:
  obtains row db1 where
    "PersistCheckpointForActiveSession FaultNone 9 1 5 (summary_message 1 [(''role'', JStr ''user'')] ''manual'' 3) 3 chat_demo_db = (Inr row, db1)"
proof -
  have l: "lockActiveSession chat_demo 1 5 = None" by (simp add: lockActiveSession_def chat_demo_def)
  let ?row = "new_row 9 5 (summary_message 1 [(''role'', JStr ''user'')] ''manual'' 3)"
  have d: "mr_session_id ?row = 1" "mr_schema ?row = ''v1''" "mr_run_id ?row = None"
    "data_role (nm_data (summary_message 1 [(''role'', JStr ''user'')] ''manual'' 3)) \<noteq> None"
    by (simp_all add: new_row_def summary_message_def mr_run_id_def meta_text_def text_at_def data_role_def markCompactionSummary_def
      metadata_map_def value_at_def obj_fields_def Let_def)
  have s: "map_of (db_sessions chat_demo) 1 \<noteq> None" by (simp add: chat_demo_def)
  have "insert_error chat_demo ?row = None"
    unfolding insert_error_def d same_run_slot_def coalesce_def using s by (simp add: list_ex_iff)
  then show ?thesis using l d(4)
    by (intro that) (simp add: PersistCheckpointForActiveSession_def run_tx_FaultNone active_checkpoint_body_def checkpoint_rows_def
      createMessage_def chat_demo_db_def Let_def, simp add: summary_message_def)
qed

lemma undo_restores_the_conversation_witness:
  "\<exists>row db1 n db2. PersistCheckpointForActiveSession FaultNone 9 1 5 (summary_message 1 [(''role'', JStr ''user'')] ''manual'' 3) 3 chat_demo_db = (Inr row, db1) \<and>
    UndoLatestManualCheckpointForActiveSession FaultNone 1 5 (cd_run db1) = (Inr n, db2) \<and> ListBySession db2 1 = ListBySession chat_demo 1"
proof -
  obtain row db1 where r: "PersistCheckpointForActiveSession FaultNone 9 1 5 (summary_message 1 [(''role'', JStr ''user'')] ''manual'' 3) 3 chat_demo_db = (Inr row, db1)"
    by (rule chat_demo_compacted)
  have "(0::int) < 3" "3 \<le> cd_next_message chat_demo_db" "cd_run chat_demo_db = chat_demo" by (simp_all add: chat_demo_db_def)
  with undo_restores_the_conversation[OF chat_demo_db_ok _ _ r, of 1] r show ?thesis by auto
qed

lemma checkpoint_replaces_the_past_witness:
  "\<exists>row db1. PersistCheckpointForActiveSession FaultNone 9 1 5 (summary_message 1 [(''role'', JStr ''user'')] ''manual'' 3) 3 chat_demo_db = (Inr row, db1) \<and>
    ListBySession (cd_run db1) 1 = row # filter (\<lambda>m. 3 \<le> mr_id m \<and> \<not> mr_compaction_summary m) (ListBySession chat_demo 1)"
proof -
  obtain row db1 where r: "PersistCheckpointForActiveSession FaultNone 9 1 5 (summary_message 1 [(''role'', JStr ''user'')] ''manual'' 3) 3 chat_demo_db = (Inr row, db1)"
    by (rule chat_demo_compacted)
  have d: "(0::int) < 3" "3 \<le> cd_next_message chat_demo_db" "cd_run chat_demo_db = chat_demo" by (simp_all add: chat_demo_db_def)
  have "\<not> mr_compaction_summary m" if "m \<in> set (ListBySession chat_demo 1)" for m
  proof -
    have "m \<in> set (db_messages chat_demo)" using that by (simp add: ListBySession_def)
    then show ?thesis by (auto simp: chat_demo_def)
  qed
  with checkpoint_replaces_the_past[OF chat_demo_db_ok d(1,2) _ r] r show ?thesis unfolding d(3) by blast
qed

end
