(* ===== verification/Admission.thy ===== *)
theory Admission
  imports Checkpoints Quota
begin

text \<open>
  Admitting a chat run (\<^verbatim>\<open>internal/repository/chat_run_admission_repository.go\<close>): a
  message, a retry or an edited retry reserves the run, stores or finds its user message and opens an
  answer attempt in one transaction.  The service (\<^verbatim>\<open>internal/service/quota_service.go\<close>)
  only maps the errors.
\<close>

record admission =
  ad_record :: chat_run_record
  ad_message :: message_row
  ad_existing :: bool

definition loadAdmissionMessage :: "int \<Rightarrow> run_db \<Rightarrow> go_err + message_row" where
  "loadAdmissionMessage messageID db =
    (if messageID \<le> 0 then Inl (ErrText ''existing chat run has no user message'')
     else (case find (\<lambda>m. mr_id m = messageID) (db_messages db) of None \<Rightarrow> Inl ErrNotFound | Some m \<Rightarrow> Inr m))"

text \<open>The admission a run that exists already was given.\<close>

definition existing_admission :: "chat_run_record \<Rightarrow> chat_db \<Rightarrow> (go_err + admission) \<times> chat_db" where
  "existing_admission record db =
    (case loadAdmissionMessage (rr_user_message_id record) (cd_run db) of
       Inl e \<Rightarrow> (Inl e, db)
     | Inr m \<Rightarrow> (Inr \<lparr>ad_record = record, ad_message = m, ad_existing = True\<rparr>, db))"

text \<open>Bind the run to its user message and open the answer attempt.\<close>

definition bind_and_open :: "int \<Rightarrow> reservation_input \<Rightarrow> chat_run_record \<Rightarrow> message_row \<Rightarrow> bool \<Rightarrow> chat_db \<Rightarrow> (go_err + chat_run_record) \<times> chat_db" where
  "bind_and_open now input record row selected db =
    (case bindAdmissionMessage now (rr_run_id record) (mr_id row) (cd_run db) of
       (Inl e, _) \<Rightarrow> (Inl e, db)
     | (Inr bound, rd) \<Rightarrow>
         (case createAnswerAttemptForRunTx (rv_session_id input) (mr_id row) (rv_run_id input) selected rd of
            (Inl e, _) \<Rightarrow> (Inl e, db)
          | (Inr a, rd') \<Rightarrow> (Inr bound, db\<lparr>cd_run := rd'\<rparr>)))"

definition on_run :: "(run_db \<Rightarrow> run_db) \<Rightarrow> chat_db \<Rightarrow> chat_db" where
  "on_run f db = db\<lparr>cd_run := f (cd_run db)\<rparr>"

section \<open>A message\<close>

definition admit_message_body :: "int \<Rightarrow> reservation_input \<Rightarrow> new_message \<Rightarrow> chat_db \<Rightarrow> (go_err + admission) \<times> chat_db" where
  "admit_message_body now input m db =
    (case reserveChatRunInTx now input (cd_run db) of
       (Inl e, _) \<Rightarrow> (Inl e, db)
     | (Inr (True, record), _) \<Rightarrow> existing_admission record db
     | (Inr (False, record), rd) \<Rightarrow>
         (case claimStagedAttachmentsForMessages (rv_session_id input) (rv_user_id input) [nm_data m] (cd_files db) of
            (Some e, _) \<Rightarrow> (Inl e, db)
          | (None, files) \<Rightarrow>
              (case createMessage now m (db\<lparr>cd_run := rd, cd_files := files\<rparr>) of
                 (Inl e, _) \<Rightarrow> (Inl e, db)
               | (Inr row, db1) \<Rightarrow>
                   if mr_role row \<noteq> ''user'' then (Inl (ErrText ''admitted chat message must be a user message''), db)
                   else (case bind_and_open now input record row True db1 of
                       (Inl e, _) \<Rightarrow> (Inl e, db)
                     | (Inr bound, db2) \<Rightarrow>
                         (Inr \<lparr>ad_record = bound, ad_message = row, ad_existing = False\<rparr>,
                          on_run (touch_session now (rv_session_id input)) db2)))))"

definition AdmitChatMessage :: "db_fault \<Rightarrow> int \<Rightarrow> reservation_input \<Rightarrow> new_message \<Rightarrow> chat_db \<Rightarrow> (go_err + admission) \<times> chat_db" where
  "AdmitChatMessage fault now input m db =
    (if nm_session_id m \<noteq> rv_session_id input then (Inl (ErrText ''message does not match chat run''), db)
     else run_tx fault (admit_message_body now input m) db)"

section \<open>A retry\<close>

definition admit_retry_body :: "int \<Rightarrow> reservation_input \<Rightarrow> int \<Rightarrow> chat_db \<Rightarrow> (go_err + admission) \<times> chat_db" where
  "admit_retry_body now input target db =
    (case reserveChatRunInTx now input (cd_run db) of
       (Inl e, _) \<Rightarrow> (Inl e, db)
     | (Inr (True, record), _) \<Rightarrow> existing_admission record db
     | (Inr (False, record), rd) \<Rightarrow>
         (case prepareRetryForActiveSessionTx (rv_session_id input) (rv_user_id input) target (db\<lparr>cd_run := rd\<rparr>) of
            Inl e \<Rightarrow> (Inl e, db)
          | Inr row \<Rightarrow>
              (case bind_and_open now input record row False (db\<lparr>cd_run := rd\<rparr>) of
                 (Inl e, _) \<Rightarrow> (Inl e, db)
               | (Inr bound, db1) \<Rightarrow> (Inr \<lparr>ad_record = bound, ad_message = row, ad_existing = False\<rparr>, db1))))"

definition AdmitRetryChatRun :: "db_fault \<Rightarrow> int \<Rightarrow> reservation_input \<Rightarrow> int \<Rightarrow> chat_db \<Rightarrow> (go_err + admission) \<times> chat_db" where
  "AdmitRetryChatRun fault now input target db =
    (if target \<le> 0 \<or> rv_retry_target input \<noteq> target then (Inl (ErrText ''retry target does not match chat run''), db)
     else run_tx fault (admit_retry_body now input target) db)"

section \<open>An edited retry\<close>

definition another_run_active :: "reservation_input \<Rightarrow> run_db \<Rightarrow> bool" where
  "another_run_active input db = list_ex (\<lambda>r. cr_session_id r = rv_session_id input \<and> cr_run_id r \<noteq> rv_run_id input \<and>
     row_running r \<and> cr_released_at r = None) (db_runs db)"

text \<open>The checks of the replacement against the message it replaces.\<close>

definition replacement_error :: "reservation_input \<Rightarrow> message_row \<Rightarrow> new_message \<Rightarrow> go_err option" where
  "replacement_error input source replacement =
    (case ParseMessageData (mr_data source) of
       None \<Rightarrow> Some (ErrText ''failed to parse message data'')
     | Some sourceData \<Rightarrow>
       (case ParseMessageData (nm_data replacement) of
          None \<Rightarrow> Some (ErrText ''failed to parse message data'')
        | Some replacementData \<Rightarrow>
            if go_content sourceData = go_content replacementData then Some ErrMessageUnchanged
            else if coalesce (str_at replacementData ''role'') [] \<noteq> ''user'' \<or> nm_schema replacement \<noteq> mr_schema source
            then Some (ErrText ''edited retry message does not preserve source format'')
            else (case attachmentIDsFromMessageData (mr_data source) of
                Inl e \<Rightarrow> Some e
              | Inr sourceAttachments \<Rightarrow>
                (case attachmentIDsFromMessageData (nm_data replacement) of
                   Inl e \<Rightarrow> Some e
                 | Inr attachments \<Rightarrow>
                     if sourceAttachments \<noteq> attachments then Some (ErrText ''edited retry message does not preserve attachments'')
                     else if trim_space (go_content replacementData) = [] \<and> attachments = []
                     then Some (ErrText ''edited retry message has no content'')
                     else if trim_space (coalesce (str_at (metadata_map replacementData) ''run_id'') []) \<noteq> rv_run_id input
                     then Some (ErrText ''edited retry message run id does not match'')
                     else None))))"

definition hide_tail :: "int \<Rightarrow> int \<Rightarrow> int \<Rightarrow> run_db \<Rightarrow> run_db" where
  "hide_tail now sessionID sourceID db =
    update_attempts (\<lambda>a. aa_user_message_id a = sourceID \<and> aa_selected a) (\<lambda>a. a\<lparr>aa_selected := False\<rparr>)
      (update_messages (\<lambda>m. mr_session_id m = sessionID \<and> mr_id m \<ge> sourceID \<and> \<not> mr_deleted m)
        (\<lambda>m. m\<lparr>mr_updated_at := now, mr_deleted := True\<rparr>) db)"

definition admit_edited_body :: "int \<Rightarrow> reservation_input \<Rightarrow> int \<Rightarrow> new_message \<Rightarrow> chat_db \<Rightarrow> (go_err + admission) \<times> chat_db" where
  "admit_edited_body now input target replacement db =
    (case reserveChatRunInTx now input (cd_run db) of
       (Inl e, _) \<Rightarrow> (Inl e, db)
     | (Inr (True, record), _) \<Rightarrow> existing_admission record db
     | (Inr (False, record), rd) \<Rightarrow>
         if another_run_active input rd then (Inl ErrChatRunActive, db)
         else
           (case prepareEditRetryForActiveSessionTx (rv_session_id input) (rv_user_id input) target (db\<lparr>cd_run := rd\<rparr>) of
              Inl e \<Rightarrow> (Inl e, db)
            | Inr source \<Rightarrow>
                (case replacement_error input source replacement of
                   Some e \<Rightarrow> (Inl e, db)
                 | None \<Rightarrow>
                     (case createMessage now (replacement\<lparr>nm_role := [], nm_answer_attempt := None\<rparr>)
                         (db\<lparr>cd_run := hide_tail now (rv_session_id input) (mr_id source) rd\<rparr>) of
                        (Inl e, _) \<Rightarrow> (Inl e, db)
                      | (Inr row, db1) \<Rightarrow>
                          (case bind_and_open now input record row True db1 of
                             (Inl e, _) \<Rightarrow> (Inl e, db)
                           | (Inr bound, db2) \<Rightarrow>
                               (Inr \<lparr>ad_record = bound, ad_message = row, ad_existing = False\<rparr>,
                                on_run (advance_revision now (rv_session_id input)) db2))))))"

definition AdmitEditedRetryChatRun ::
  "db_fault \<Rightarrow> int \<Rightarrow> reservation_input \<Rightarrow> int \<Rightarrow> new_message option \<Rightarrow> chat_db \<Rightarrow> (go_err + admission) \<times> chat_db" where
  "AdmitEditedRetryChatRun fault now input target replacement db =
    (if target \<le> 0 \<or> rv_retry_target input \<noteq> target then (Inl (ErrText ''edit retry target does not match chat run''), db)
     else (case replacement of
         None \<Rightarrow> (Inl (ErrText ''invalid edited retry message''), db)
       | Some m \<Rightarrow>
           if \<not> rv_reserve_message input \<or> nm_session_id m \<noteq> rv_session_id input then (Inl (ErrText ''invalid edited retry message''), db)
           else run_tx fault (admit_edited_body now input target m) db))"

section \<open>The service\<close>

definition service_AdmitChatMessage :: "db_fault \<Rightarrow> int \<Rightarrow> reservation_input \<Rightarrow> new_message \<Rightarrow> chat_db \<Rightarrow> (go_err + admission) \<times> chat_db" where
  "service_AdmitChatMessage fault now input m db = map_quota (AdmitChatMessage fault now input m db)"

definition service_AdmitRetryChatRun :: "db_fault \<Rightarrow> int \<Rightarrow> reservation_input \<Rightarrow> int \<Rightarrow> chat_db \<Rightarrow> (go_err + admission) \<times> chat_db" where
  "service_AdmitRetryChatRun fault now input target db = map_quota (AdmitRetryChatRun fault now input target db)"

definition service_AdmitEditedRetryChatRun ::
  "db_fault \<Rightarrow> int \<Rightarrow> reservation_input \<Rightarrow> int \<Rightarrow> new_message option \<Rightarrow> chat_db \<Rightarrow> (go_err + admission) \<times> chat_db" where
  "service_AdmitEditedRetryChatRun fault now input target replacement db = map_quota (AdmitEditedRetryChatRun fault now input target replacement db)"

section \<open>What an admission leaves\<close>

lemma lock_touched [simp]: "lockActiveSession (touch_session now s db) t u = lockActiveSession db t u"
proof -
  have "map_of (map (\<lambda>(k, x). (k, if k = s then x\<lparr>sr_updated_at := now\<rparr> else x)) l) t =
      map_option (\<lambda>x. if t = s then x\<lparr>sr_updated_at := now\<rparr> else x) (map_of l t)" for l :: "(int \<times> session_row) list"
    by (induction l) auto
  then show ?thesis by (cases "map_of (db_sessions db) t") (simp_all add: lockActiveSession_def touch_session_def)
qed

lemma touch_fields [simp]:
  "db_users (touch_session now s db) = db_users db" "db_runs (touch_session now s db) = db_runs db"
  "db_messages (touch_session now s db) = db_messages db" "db_attempts (touch_session now s db) = db_attempts db"
  by (simp_all add: touch_session_def)

lemma bind_and_open_result:
  assumes "bind_and_open now input record row selected db = (Inr bound, db2)"
  obtains r a where
    "find (\<lambda>r. cr_run_id r = rr_run_id record \<and> row_running r \<and> cr_user_message_id r = None) (db_runs (cd_run db)) = Some r"
    "bound = scanChatRun (r\<lparr>cr_user_message_id := Some (mr_id row), cr_message_reserved := False, cr_updated_at := now\<rparr>)"
    "aa_run_id a = Some (trim_space (rv_run_id input))" "aa_user_message_id a = mr_id row" "aa_selected a = selected"
    "aa_status a = AnswerAttemptStatusRunning" "aa_session_id a = rv_session_id input"
    "\<And>b. b \<in> set (db_attempts (cd_run db)) \<Longrightarrow> aa_run_id b \<noteq> aa_run_id a"
    "cd_run db2 = (update_runs (\<lambda>r. cr_run_id r = rr_run_id record \<and> row_running r \<and> cr_user_message_id r = None)
       (\<lambda>r. r\<lparr>cr_user_message_id := Some (mr_id row), cr_message_reserved := False, cr_updated_at := now\<rparr>) (cd_run db))
       \<lparr>db_attempts := db_attempts (cd_run db) @ [a], db_next_attempt := db_next_attempt (cd_run db) + 1\<rparr>"
    "db2 = db\<lparr>cd_run := cd_run db2\<rparr>"
proof -
  let ?P = "\<lambda>r. cr_run_id r = rr_run_id record \<and> row_running r \<and> cr_user_message_id r = None"
  let ?f = "\<lambda>r. r\<lparr>cr_user_message_id := Some (mr_id row), cr_message_reserved := False, cr_updated_at := now\<rparr>"
  note d = assms[unfolded bind_and_open_def bindAdmissionMessage_def Let_def]
  obtain r where r: "find ?P (db_runs (cd_run db)) = Some r" using d by (cases "find ?P (db_runs (cd_run db))") simp_all
  let ?rd = "update_runs ?P ?f (cd_run db)"
  obtain a0 rd' where c: "createAnswerAttemptForRunTx (rv_session_id input) (mr_id row) (rv_run_id input) selected ?rd = (Inr a0, rd')"
    using d r by (auto split: prod.splits sum.splits)
  have b: "bound = scanChatRun (?f r)" "db2 = db\<lparr>cd_run := rd'\<rparr>" using d r c by simp_all
  let ?a = "\<lparr>aa_id = db_next_attempt (cd_run db), aa_session_id = rv_session_id input, aa_user_message_id = mr_id row,
    aa_run_id = Some (trim_space (rv_run_id input)), aa_number = next_attempt_number ?rd (mr_id row),
    aa_status = AnswerAttemptStatusRunning, aa_selected = selected, aa_completed_at = None\<rparr>"
  have "rd' = ?rd\<lparr>db_attempts := db_attempts (cd_run db) @ [?a], db_next_attempt := db_next_attempt (cd_run db) + 1\<rparr> \<and>
    (\<forall>b\<in>set (db_attempts (cd_run db)). aa_run_id b \<noteq> aa_run_id ?a)"
    using c by (auto simp: createAnswerAttemptForRunTx_def insert_attempt_def update_runs_def Let_def list_ex_iff split: if_splits)
  then show ?thesis using that[OF r b(1), of ?a] b(2) by simp
qed

text \<open>A stored message is the new row, at the end of the table.\<close>

lemma createMessage_Inr:
  assumes "createMessage now m db = (Inr row, db1)"
  shows "row = new_row now (cd_next_message db) m" "cd_run db1 = (cd_run db)\<lparr>db_messages := db_messages (cd_run db) @ [row]\<rparr>"
    "cd_files db1 = cd_files db" "cd_next_message db1 = cd_next_message db + 1" "insert_error (cd_run db) row = None"
  using assms by (auto simp: createMessage_def add_message_def Let_def split: option.splits if_splits)

text \<open>The row of the admitted run.\<close>

definition admitted_run :: "int \<Rightarrow> reservation_input \<Rightarrow> int \<Rightarrow> chat_run_row" where
  "admitted_run now v messageID = (new_run_row now v)\<lparr>cr_user_message_id := Some messageID, cr_message_reserved := False, cr_updated_at := now\<rparr>"

lemma bind_new_run:
  assumes "find_run db (rv_run_id v) = None"
  shows "find (\<lambda>r. cr_run_id r = rr_run_id (scanChatRun (new_run_row now v)) \<and> row_running r \<and> cr_user_message_id r = None) (db_runs db @ [new_run_row now v]) =
      Some (new_run_row now v)"
    "db_runs (update_runs (\<lambda>r. cr_run_id r = rr_run_id (scanChatRun (new_run_row now v)) \<and> row_running r \<and> cr_user_message_id r = None)
      (\<lambda>r. r\<lparr>cr_user_message_id := Some i, cr_message_reserved := False, cr_updated_at := now\<rparr>) (db\<lparr>db_runs := db_runs db @ [new_run_row now v]\<rparr>)) =
      db_runs db @ [admitted_run now v i]"
proof -
  have old: "cr_run_id r \<noteq> rv_run_id v" if "r \<in> set (db_runs db)" for r
    using assms that by (auto simp: find_run_def find_None_iff)
  have new: "cr_run_id (new_run_row now v) = rv_run_id v" "row_running (new_run_row now v)" "cr_user_message_id (new_run_row now v) = None"
    "rr_run_id (scanChatRun (new_run_row now v)) = rv_run_id v"
    by (simp_all add: new_run_row_def row_running_def scanChatRun_def)
  show "find (\<lambda>r. cr_run_id r = rr_run_id (scanChatRun (new_run_row now v)) \<and> row_running r \<and> cr_user_message_id r = None) (db_runs db @ [new_run_row now v]) =
      Some (new_run_row now v)"
    unfolding new(4) by (rule find_snoc_new) (use old new in auto)
  show "db_runs (update_runs (\<lambda>r. cr_run_id r = rr_run_id (scanChatRun (new_run_row now v)) \<and> row_running r \<and> cr_user_message_id r = None)
      (\<lambda>r. r\<lparr>cr_user_message_id := Some i, cr_message_reserved := False, cr_updated_at := now\<rparr>) (db\<lparr>db_runs := db_runs db @ [new_run_row now v]\<rparr>)) =
      db_runs db @ [admitted_run now v i]"
    unfolding new(4) using old new by (simp add: update_runs_def admitted_run_def map_idI)
qed

lemma admitted_message:
  assumes "admit_message_body now input m db = (Inr a, db1)" "\<not> ad_existing a"
  obtains v t files where
    "normalizeChatRunReservation now input = Inr v" "lockChatRunUser (cd_run db) (rv_user_id v) (rv_auth_version v) = None"
    "lockActiveSession (cd_run db) (rv_session_id v) (rv_user_id v) = None" "find_run (cd_run db) (rv_run_id v) = None"
    "ad_message a = new_row now (cd_next_message db) m" "mr_role (ad_message a) = ''user''"
    "ad_record a = scanChatRun (admitted_run now v (mr_id (ad_message a)))"
    "claimStagedAttachmentsForMessages (rv_session_id input) (rv_user_id input) [nm_data m] (cd_files db) = (None, files)"
    "db_runs (cd_run db1) = db_runs (cd_run db) @ [admitted_run now v (mr_id (ad_message a))]"
    "db_messages (cd_run db1) = db_messages (cd_run db) @ [ad_message a]" "db_attempts (cd_run db1) = db_attempts (cd_run db) @ [t]"
    "aa_run_id t = Some (rv_run_id v)" "aa_user_message_id t = mr_id (ad_message a)" "aa_selected t" "aa_status t = AnswerAttemptStatusRunning"
    "\<And>b. b \<in> set (db_attempts (cd_run db)) \<Longrightarrow> aa_run_id b \<noteq> Some (rv_run_id v)"
    "db_users (cd_run db1) = db_users (cd_run db)" "\<And>s u. lockActiveSession (cd_run db1) s u = lockActiveSession (cd_run db) s u"
    "cd_files db1 = files" "cd_next_message db1 = cd_next_message db + 1"
proof -
  note d = assms(1)[unfolded admit_message_body_def]
  obtain existing rc0 rd where res: "reserveChatRunInTx now input (cd_run db) = (Inr (existing, rc0), rd)"
    using d by (auto split: prod.splits sum.splits)
  have "\<not> existing" using d assms(2) res by (auto simp: existing_admission_def split: sum.splits if_splits)
  with res have res: "reserveChatRunInTx now input (cd_run db) = (Inr (False, rc0), rd)" by simp
  note d = d[unfolded res prod.case sum.case bool.case]
  obtain files where cl: "claimStagedAttachmentsForMessages (rv_session_id input) (rv_user_id input) [nm_data m] (cd_files db) = (None, files)"
    using d by (auto split: prod.splits option.splits)
  note d = d[unfolded cl prod.case option.case]
  obtain row db0 where cm: "createMessage now m (db\<lparr>cd_run := rd, cd_files := files\<rparr>) = (Inr row, db0)"
    using d by (auto split: prod.splits sum.splits)
  note d = d[unfolded cm prod.case sum.case]
  have role: "mr_role row = ''user''" using d by (simp split: if_splits)
  obtain bound db2 where bo: "bind_and_open now input rc0 row True db0 = (Inr bound, db2)"
    using d role by (auto split: prod.splits sum.splits)
  have a: "a = \<lparr>ad_record = bound, ad_message = row, ad_existing = False\<rparr>" "db1 = on_run (touch_session now (rv_session_id input)) db2"
    using d role bo by simp_all
  from res show ?thesis
  proof (cases rule: reserve_cases)
    case (inserted v)
    note M = createMessage_Inr[OF cm, simplified]
    note B = bind_and_open_result[OF bo]
    have runs0: "cd_run db0 = (cd_run db)\<lparr>db_runs := db_runs (cd_run db) @ [new_run_row now v], db_messages := db_messages (cd_run db) @ [row]\<rparr>"
      using M(2) inserted(8) by simp
    have v: "rv_run_id v = trim_space (rv_run_id input)" using normalize_shape(1)[OF inserted(1)] .
    show ?thesis
    proof (rule B)
      fix r t
      assume B: "find (\<lambda>r. cr_run_id r = rr_run_id rc0 \<and> row_running r \<and> cr_user_message_id r = None) (db_runs (cd_run db0)) = Some r"
        "bound = scanChatRun (r\<lparr>cr_user_message_id := Some (mr_id row), cr_message_reserved := False, cr_updated_at := now\<rparr>)"
        "aa_run_id t = Some (trim_space (rv_run_id input))" "aa_user_message_id t = mr_id row" "aa_selected t = True"
        "aa_status t = AnswerAttemptStatusRunning" "aa_session_id t = rv_session_id input"
        "\<And>b. b \<in> set (db_attempts (cd_run db0)) \<Longrightarrow> aa_run_id b \<noteq> aa_run_id t"
        "cd_run db2 = (update_runs (\<lambda>r. cr_run_id r = rr_run_id rc0 \<and> row_running r \<and> cr_user_message_id r = None)
           (\<lambda>r. r\<lparr>cr_user_message_id := Some (mr_id row), cr_message_reserved := False, cr_updated_at := now\<rparr>) (cd_run db0))
           \<lparr>db_attempts := db_attempts (cd_run db0) @ [t], db_next_attempt := db_next_attempt (cd_run db0) + 1\<rparr>"
        "db2 = db0\<lparr>cd_run := cd_run db2\<rparr>"
      have r: "r = new_run_row now v" using B(1) bind_new_run(1)[OF inserted(4), of now] by (simp add: runs0 inserted(7))
      have e: "cd_files db2 = files" "cd_next_message db2 = cd_next_message db + 1" by (subst B(10), simp add: M)+
      have runs2: "db_runs (cd_run db2) = db_runs (cd_run db) @ [admitted_run now v (mr_id row)]"
        using bind_new_run(2)[OF inserted(4), of now "mr_id row"] by (simp add: B(9) runs0 inserted(7) update_runs_def)
      have same: "db_messages (cd_run db2) = db_messages (cd_run db) @ [row]" "db_attempts (cd_run db2) = db_attempts (cd_run db) @ [t]"
        "db_users (cd_run db2) = db_users (cd_run db)" "db_sessions (cd_run db2) = db_sessions (cd_run db)"
        by (simp_all add: B(9) runs0 update_runs_def)
      show ?thesis
        by (rule that[OF inserted(1,2,3,4), of files t])
          (use B(2-8) M(1) role cl e runs2 same v in \<open>simp_all add: a on_run_def r admitted_run_def runs0 lockActiveSession_def[of "cd_run db2"] lockActiveSession_def[of "cd_run db"]\<close>)
    qed
  qed simp
qed

text \<open>The admission of a run that existed is read off the stored rows.\<close>

lemma existing_after_body:
  assumes "admit_message_body now input m db = (Inr a, db1)" "ad_existing a"
  obtains rc0 where "reserveChatRunInTx now input (cd_run db) = (Inr (True, rc0), cd_run db)" "ad_record a = rc0" "db1 = db"
    "loadAdmissionMessage (rr_user_message_id rc0) (cd_run db) = Inr (ad_message a)"
proof -
  obtain existing rc0 rd where res: "reserveChatRunInTx now input (cd_run db) = (Inr (existing, rc0), rd)"
    using assms by (auto simp: admit_message_body_def split: prod.splits sum.splits)
  have ex: existing using assms res
    by (cases existing) (auto simp: admit_message_body_def bind_and_open_def split: prod.splits sum.splits option.splits if_splits)
  then have l: "loadAdmissionMessage (rr_user_message_id rc0) (cd_run db) = Inr (ad_message a)" "db1 = db" "ad_record a = rc0"
    using assms(1) res by (auto simp: admit_message_body_def existing_admission_def split: sum.splits)
  have "rd = cd_run db" using res ex by (auto elim: reserve_cases)
  with that[of rc0] res ex l show ?thesis by simp
qed

text \<open>
  C26.
  Sending is idempotent: once an admission is stored, whether its reply arrived or was lost, sending
  the same message again under the same run id gives the same run and the same stored message and
  changes nothing - no second message, no second run.
\<close>

theorem admission_idempotent:
  assumes ok: "chat_ok db" "0 < cd_next_message db" and stored: "admit_message_body now input m db = (Inr a, db1)"
    and m: "nm_session_id m = rv_session_id input"
  shows "AdmitChatMessage FaultNone later input m db1 = (Inr (a\<lparr>ad_existing := True\<rparr>), db1)"
proof (cases "ad_existing a")
  case False
  from stored False show ?thesis
  proof (rule admitted_message)
    fix v t files
    assume A: "normalizeChatRunReservation now input = Inr v" "lockChatRunUser (cd_run db) (rv_user_id v) (rv_auth_version v) = None"
      "lockActiveSession (cd_run db) (rv_session_id v) (rv_user_id v) = None" "find_run (cd_run db) (rv_run_id v) = None"
      "ad_message a = new_row now (cd_next_message db) m" "ad_record a = scanChatRun (admitted_run now v (mr_id (ad_message a)))"
      "db_runs (cd_run db1) = db_runs (cd_run db) @ [admitted_run now v (mr_id (ad_message a))]"
      "db_messages (cd_run db1) = db_messages (cd_run db) @ [ad_message a]"
      "db_users (cd_run db1) = db_users (cd_run db)" "\<And>s u. lockActiveSession (cd_run db1) s u = lockActiveSession (cd_run db) s u"
    obtain w where w: "normalizeChatRunReservation later input = Inr w" "w = v\<lparr>rv_accepted_at := rv_accepted_at w\<rparr>"
      using normalize_later[OF A(1)] by blast
    have e: "rv_run_id w = rv_run_id v" "rv_user_id w = rv_user_id v" "rv_auth_version w = rv_auth_version v" "rv_session_id w = rv_session_id v"
      by (subst w(2), simp)+
    have "find_run (cd_run db1) (rv_run_id v) = Some (admitted_run now v (mr_id (ad_message a)))"
      using A(4) by (simp add: A(7) find_run_def find_snoc admitted_run_def new_run_row_def)
    moreover have "lockChatRunUser (cd_run db1) (rv_user_id v) (rv_auth_version v) = None" using A(2) by (simp add: lockChatRunUser_def A(9))
    moreover have "chatRunReservationMatches (scanChatRun (admitted_run now v (mr_id (ad_message a)))) w"
      by (subst w(2)) (simp add: chatRunReservationMatches_def scanChatRun_def admitted_run_def new_run_row_def coalesce0_def)
    ultimately have res: "reserveChatRunInTx later input (cd_run db1) = (Inr (True, ad_record a), cd_run db1)"
      using w(1) A(3) by (simp add: reserveChatRunInTx_def e A(6,10))
    have id: "mr_id (ad_message a) = cd_next_message db" by (simp add: A(5) new_row_def)
    have "rr_user_message_id (ad_record a) = cd_next_message db" by (simp add: A(6) scanChatRun_def admitted_run_def coalesce0_def id)
    moreover have "find (\<lambda>x. mr_id x = cd_next_message db) (db_messages (cd_run db1)) = Some (ad_message a)"
      unfolding A(8) by (rule find_snoc_new[OF less_imp_neq[OF chat_okD(1)[OF ok(1)]]]) (simp_all add: id)
    ultimately have "loadAdmissionMessage (rr_user_message_id (ad_record a)) (cd_run db1) = Inr (ad_message a)"
      using ok(2) by (simp add: loadAdmissionMessage_def)
    then show ?thesis using m
      by (simp add: AdmitChatMessage_def run_tx_FaultNone admit_message_body_def res existing_admission_def)
  qed
next
  case True
  from stored True show ?thesis
  proof (rule existing_after_body)
    fix rc0
    assume A: "reserveChatRunInTx now input (cd_run db) = (Inr (True, rc0), cd_run db)" "ad_record a = rc0" "db1 = db"
      "loadAdmissionMessage (rr_user_message_id rc0) (cd_run db) = Inr (ad_message a)"
    have "ReserveChatRun FaultNone later input (cd_run db) = (Inr (True, rc0), cd_run db)"
      using reservation_idempotent_core[OF A(1), of later] .
    then have "reserveChatRunInTx later input (cd_run db) = (Inr (True, rc0), cd_run db)"
      by (auto simp: ReserveChatRun_def run_tx_FaultNone split: prod.splits sum.splits)
    then show ?thesis using m A(2-4) True
      by (simp add: AdmitChatMessage_def run_tx_FaultNone admit_message_body_def existing_admission_def)
  qed
qed

text \<open>
  An accepted message is stored whole: its user message at the end of the history, the running run
  bound to it, one running selected answer attempt for that run, and its attachments claimed - or it
  was admitted before and nothing changes.
\<close>

theorem admission_stores_everything:
  assumes r: "AdmitChatMessage FaultNone now input m db = (Inr a, db1)"
  shows "if ad_existing a then db1 = db
    else mr_role (ad_message a) = ''user'' \<and> mr_data (ad_message a) = nm_data m \<and>
      db_messages (cd_run db1) = db_messages (cd_run db) @ [ad_message a] \<and>
      (\<exists>r t. db_runs (cd_run db1) = db_runs (cd_run db) @ [r] \<and> cr_run_id r = trim_space (rv_run_id input) \<and> row_running r \<and>
         cr_user_message_id r = Some (mr_id (ad_message a)) \<and> ad_record a = scanChatRun r \<and>
         db_attempts (cd_run db1) = db_attempts (cd_run db) @ [t] \<and> aa_run_id t = Some (cr_run_id r) \<and> aa_selected t \<and>
         aa_user_message_id t = mr_id (ad_message a) \<and> aa_status t = AnswerAttemptStatusRunning) \<and>
      claimStagedAttachmentsForMessages (rv_session_id input) (rv_user_id input) [nm_data m] (cd_files db) = (None, cd_files db1)"
proof -
  have body: "admit_message_body now input m db = (Inr a, db1)"
    using r by (auto simp: AdmitChatMessage_def run_tx_FaultNone split: if_splits prod.splits sum.splits)
  show ?thesis
  proof (cases "ad_existing a")
    case True
    with body show ?thesis by (simp add: existing_after_body[where thesis = "db1 = db"])
  next
    case False
    from body False show ?thesis
    proof (rule admitted_message)
      fix v t files
      assume A: "normalizeChatRunReservation now input = Inr v" "ad_message a = new_row now (cd_next_message db) m" "mr_role (ad_message a) = ''user''"
        "ad_record a = scanChatRun (admitted_run now v (mr_id (ad_message a)))"
        "claimStagedAttachmentsForMessages (rv_session_id input) (rv_user_id input) [nm_data m] (cd_files db) = (None, files)"
        "db_runs (cd_run db1) = db_runs (cd_run db) @ [admitted_run now v (mr_id (ad_message a))]"
        "db_messages (cd_run db1) = db_messages (cd_run db) @ [ad_message a]" "db_attempts (cd_run db1) = db_attempts (cd_run db) @ [t]"
        "aa_run_id t = Some (rv_run_id v)" "aa_user_message_id t = mr_id (ad_message a)" "aa_selected t"
        "aa_status t = AnswerAttemptStatusRunning" "cd_files db1 = files"
      let ?r = "admitted_run now v (mr_id (ad_message a))"
      have run: "cr_run_id ?r = rv_run_id v" "row_running ?r" "cr_user_message_id ?r = Some (mr_id (ad_message a))"
        by (simp_all add: admitted_run_def new_run_row_def row_running_def)
      have v: "rv_run_id v = trim_space (rv_run_id input)" using normalize_shape(1)[OF A(1)] .
      have data: "mr_data (ad_message a) = nm_data m" by (simp add: A(2) new_row_def)
      have "\<exists>r t. db_runs (cd_run db1) = db_runs (cd_run db) @ [r] \<and> cr_run_id r = trim_space (rv_run_id input) \<and> row_running r \<and>
         cr_user_message_id r = Some (mr_id (ad_message a)) \<and> ad_record a = scanChatRun r \<and>
         db_attempts (cd_run db1) = db_attempts (cd_run db) @ [t] \<and> aa_run_id t = Some (cr_run_id r) \<and> aa_selected t \<and>
         aa_user_message_id t = mr_id (ad_message a) \<and> aa_status t = AnswerAttemptStatusRunning"
        by (rule exI[of _ ?r], rule exI[of _ t]) (use A(4,6,8-12) run v in simp)
      then show ?thesis using False A(3,5,7,13) data by simp
    qed
  qed
qed

section \<open>An admitted message\<close>

definition admission_demo :: chat_db where
  "admission_demo = \<lparr>cd_run = quota_demo, cd_files = qd_files quota_demo_all, cd_next_message = 1\<rparr>"

definition admission_demo_message :: new_message where
  "admission_demo_message = \<lparr>nm_session_id = 3, nm_role = [], nm_schema = ''v1'',
     nm_data = JObj [(''role'', JStr ''user''), (''content'', JStr ''hi'')], nm_answer_attempt = None\<rparr>"

lemma admission_demo_ok: "chat_ok admission_demo" "0 < cd_next_message admission_demo"
  by (simp_all add: chat_ok_def admission_demo_def messages_ok_def quota_demo_def)

lemma admission_demo_admitted:
  obtains a db1 where "admit_message_body 50 quota_demo_request admission_demo_message admission_demo = (Inr a, db1)" "\<not> ad_existing a"
proof -
  let ?v = "quota_demo_request\<lparr>rv_kind := ''chat'', rv_operation := ''send'', rv_runtime_snapshot := ''{}'', rv_accepted_at := Some 50\<rparr>"
  let ?row = "new_row 50 1 admission_demo_message"
  let ?rd = "quota_demo\<lparr>db_runs := [new_run_row 50 ?v]\<rparr>"
  let ?rd1 = "?rd\<lparr>db_messages := [?row]\<rparr>"
  have refusal: "quota_refusal quota_demo 50 ?v = None"
    by (simp add: quota_refusal_def quota_demo_request_def quota_demo_limits active_runs_def pending_messages_def daily_messages_def)
      (simp add: quota_demo_def)
  have req: "rv_user_id quota_demo_request = 7" "rv_auth_version quota_demo_request = 1" "rv_session_id quota_demo_request = 3"
    "rv_run_id quota_demo_request = ''r''" "rv_reserve_message quota_demo_request"
    by (simp_all add: quota_demo_request_def)
  have res: "reserveChatRunInTx 50 quota_demo_request quota_demo = (Inr (False, scanChatRun (new_run_row 50 ?v)), ?rd)"
    using refusal by (simp add: reserveChatRunInTx_def quota_demo_normal req quota_demo_open) (simp add: quota_demo_def)
  have claim: "claimStagedAttachmentsForMessages 3 7 [nm_data admission_demo_message] (cd_files admission_demo) = (None, cd_files admission_demo)"
    by (simp add: claimStagedAttachmentsForMessages_def admission_demo_message_def isUserMessageData_def attachmentIDsFromMessageData_def value_at_def)
  have row: "mr_schema ?row = ''v1''" "mr_session_id ?row = 3" "data_role (nm_data admission_demo_message) = Some ''user''" "mr_role ?row = ''user''" "mr_id ?row = 1" "\<not> mr_deleted ?row"
    by (simp_all add: new_row_def admission_demo_message_def data_role_def mr_role_def text_at_def coalesce_def)
  have "insert_error ?rd ?row = None"
    by (simp add: insert_error_def row) (simp add: quota_demo_def)
  then have create: "createMessage 50 admission_demo_message (admission_demo\<lparr>cd_run := ?rd\<rparr>) =
      (Inr ?row, \<lparr>cd_run = ?rd1, cd_files = cd_files admission_demo, cd_next_message = 2\<rparr>)"
    using row by (simp add: createMessage_def add_message_def Let_def admission_demo_def) (simp add: quota_demo_def)
  have run: "row_running (new_run_row 50 ?v)" "cr_user_message_id (new_run_row 50 ?v) = None" "cr_run_id (new_run_row 50 ?v) = ''r''"
    "rr_run_id (scanChatRun (new_run_row 50 ?v)) = ''r''"
    by (simp_all add: new_run_row_def row_running_def scanChatRun_def req)
  obtain bound db2 where bind: "bind_and_open 50 quota_demo_request (scanChatRun (new_run_row 50 ?v)) ?row True
      \<lparr>cd_run = ?rd1, cd_files = cd_files admission_demo, cd_next_message = 2\<rparr> = (Inr bound, db2)"
    using run row by (simp add: bind_and_open_def bindAdmissionMessage_def createAnswerAttemptForRunTx_def insert_attempt_def Let_def
      req quota_demo_text update_runs_def) (simp add: quota_demo_def)
  have cd: "cd_run admission_demo = quota_demo" by (simp add: admission_demo_def)
  show ?thesis
    by (rule that[of "\<lparr>ad_record = bound, ad_message = ?row, ad_existing = False\<rparr>" "on_run (touch_session 50 3) db2"])
      (simp_all add: admit_message_body_def res claim create bind req row cd)
qed

lemma admission_idempotent_witness:
  "\<exists>a db1. admit_message_body 50 quota_demo_request admission_demo_message admission_demo = (Inr a, db1) \<and>
    AdmitChatMessage FaultNone 60 quota_demo_request admission_demo_message db1 = (Inr (a\<lparr>ad_existing := True\<rparr>), db1)"
proof -
  obtain a db1 where r: "admit_message_body 50 quota_demo_request admission_demo_message admission_demo = (Inr a, db1)"
    by (rule admission_demo_admitted)
  with admission_idempotent[OF admission_demo_ok r, of 60] show ?thesis by (auto simp: admission_demo_message_def quota_demo_request_def)
qed

lemma admission_stores_everything_witness:
  "\<exists>a db1. AdmitChatMessage FaultNone 50 quota_demo_request admission_demo_message admission_demo = (Inr a, db1) \<and>
    db_messages (cd_run db1) = db_messages quota_demo @ [ad_message a] \<and> mr_role (ad_message a) = ''user''"
proof -
  obtain a db1 where r: "admit_message_body 50 quota_demo_request admission_demo_message admission_demo = (Inr a, db1)" and n: "\<not> ad_existing a"
    by (rule admission_demo_admitted)
  then have "AdmitChatMessage FaultNone 50 quota_demo_request admission_demo_message admission_demo = (Inr a, db1)"
    by (simp add: AdmitChatMessage_def run_tx_FaultNone admission_demo_message_def quota_demo_request_def)
  with admission_stores_everything[OF this] n show ?thesis by (auto simp: admission_demo_def)
qed

end
