(* ===== verification/UserMessage.thy ===== *)
theory UserMessage
  imports Admission "HOL-Library.Log_Nat"
begin

text \<open>
  The messages the service writes (\<^verbatim>\<open>internal/service/message_service.go\<close>): the
  user message of a request, the edited message of a retry, the messages an agent run produced.  A
  document is its value; the strings of a request are the ones its JSON was decoded to.  The format a
  session prefers is the argument \<open>format\<close>, a column the other operations do not read.
\<close>

section \<open>A request\<close>

record send_request =
  sq_content :: string
  sq_schema :: string
  sq_run :: string
  sq_attachments :: "int list"
  sq_effort :: string

definition MaxMessageContentRunes :: nat where "MaxMessageContentRunes = 250000"
definition MaxClientRunIDBytes :: nat where "MaxClientRunIDBytes = 128"
definition MaxMessageAttachments :: nat where "MaxMessageAttachments = 10"
definition MaxVisionImageBytes :: int where "MaxVisionImageBytes = 8 * 2 ^ 20"
definition MaxVisionRequestBytes :: int where "MaxVisionRequestBytes = 12 * 2 ^ 20"
definition MaxVisionImages :: nat where "MaxVisionImages = 4"

definition NormalizeThinkingEffort :: "string \<Rightarrow> string" where
  "NormalizeThinkingEffort effort0 =
    (let effort = to_lower (trim_space effort0) in if effort = [] then ''auto'' else effort)"

definition IsValidThinkingEffort :: "string \<Rightarrow> bool" where
  "IsValidThinkingEffort effort \<longleftrightarrow> NormalizeThinkingEffort effort \<in> set [''auto'', ''none'', ''low'', ''medium'', ''high'', ''xhigh'', ''max'']"

definition normalizeMessageThinkingEffort :: "string \<Rightarrow> string" where
  "normalizeMessageThinkingEffort effort =
    (let normalized = NormalizeThinkingEffort effort
     in if normalized = ''auto'' \<or> \<not> IsValidThinkingEffort normalized then [] else normalized)"

definition validateSendMessageInput :: "send_request option \<Rightarrow> go_err option" where
  "validateSendMessageInput req0 =
    (case req0 of
       None \<Rightarrow> Some (ErrWrap ''request is required'' ErrInvalidMessageInput)
     | Some req \<Rightarrow>
         if rune_count (sq_content req) > MaxMessageContentRunes then Some (ErrWrap ''content exceeds the maximum'' ErrMessageTooLarge)
         else if length (sq_run req) > MaxClientRunIDBytes then Some (ErrWrap ''client_run_id is too long'' ErrInvalidMessageInput)
         else if length (sq_attachments req) > MaxMessageAttachments then Some (ErrWrap ''maximum is 10'' ErrTooManyAttachments)
         else None)"

text \<open>The patch is laid over the metadata that is there, key by key.\<close>

definition attachMessageMetadata :: "(string \<times> jv) list \<Rightarrow> (string \<times> jv) list \<Rightarrow> (string \<times> jv) list" where
  "attachMessageMetadata patch data =
    AList.update ''metadata'' (JObj (fold (\<lambda>(k, v). AList.update k v) patch (metadata_map data))) data"

section \<open>Attachments\<close>

definition GetStagedFilesForSession :: "file_db \<Rightarrow> int \<Rightarrow> int \<Rightarrow> int list \<Rightarrow> (int \<times> file_row) list" where
  "GetStagedFilesForSession db userID sessionID ids = getFilesForSessionByStatuses db userID sessionID ids [FileStatusStaged]"

definition GetFormalFilesForSession :: "file_db \<Rightarrow> int \<Rightarrow> int \<Rightarrow> int list \<Rightarrow> (int \<times> file_row) list" where
  "GetFormalFilesForSession db userID sessionID ids = getFilesForSessionByStatuses db userID sessionID ids [FileStatusFormal]"

definition attachment_item :: "file_row \<Rightarrow> jv" where
  "attachment_item f = JObj [(''file_id'', JInt (fl_id f)), (''filename'', JStr (fl_name f)), (''file_type'', JStr (fl_type f)),
     (''size'', JInt (fl_size f)), (''token_estimate'', JInt (fl_tokens f))]"

definition is_image :: "file_row \<Rightarrow> bool" where
  "is_image f \<longleftrightarrow> has_prefix (fl_type f) ''image/''"

text \<open>The loop over the requested ids, with the ids seen and the bytes and number of the images.\<close>

fun attachment_items :: "(int \<times> file_row) list \<Rightarrow> int list \<Rightarrow> int \<Rightarrow> nat \<Rightarrow> int list \<Rightarrow> go_err + jv list" where
  "attachment_items files seen imageBytes imageCount [] = Inr []"
| "attachment_items files seen imageBytes imageCount (fid # rest) =
    (if fid \<le> 0 then Inl (ErrWrap ''attachment is invalid'' ErrInvalidMessageInput)
     else if fid \<in> set seen then attachment_items files seen imageBytes imageCount rest
     else (case map_of files fid of
         None \<Rightarrow> Inl (ErrWrap ''attachment is not available in this conversation'' ErrInvalidMessageInput)
       | Some f \<Rightarrow>
           if \<not> is_image f \<and> fl_extract f \<noteq> ExtractReady then Inl (ErrWrap ''the file is still being parsed'' ErrInvalidMessageInput)
           else
             (let count = (if is_image f then imageCount + 1 else imageCount);
                  bytes = (if is_image f then imageBytes + fl_size f else imageBytes)
              in if is_image f \<and> (fl_size f > MaxVisionImageBytes \<or> count > MaxVisionImages \<or> bytes > MaxVisionRequestBytes)
                 then Inl (ErrWrap ''the images exceed the limit of the vision input'' ErrMessageTooLarge)
                 else map_sum id (\<lambda>items. attachment_item f # items)
                   (attachment_items files (seen @ [fid]) bytes count rest))))"

section \<open>The user message\<close>

definition request_metadata :: "send_request \<Rightarrow> (string \<times> jv) list" where
  "request_metadata req =
    (let clientRunID = trim_space (sq_run req); effort = normalizeMessageThinkingEffort (sq_effort req)
     in (if clientRunID \<noteq> [] then [(''run_id'', JStr clientRunID)] else []) @
        (if effort \<noteq> [] then [(''thinking_effort'', JStr effort)] else []))"

definition user_document :: "send_request \<Rightarrow> jv list \<Rightarrow> (string \<times> jv) list" where
  "user_document req atts =
    (let base = [(''role'', JStr ''user''), (''content'', JStr (sq_content req))];
         data = (if request_metadata req \<noteq> [] then attachMessageMetadata (request_metadata req) base else base)
     in if atts \<noteq> [] then AList.update ''attachments'' (JArr atts) data else data)"

definition buildUserMessage :: "file_db \<Rightarrow> int \<Rightarrow> int \<Rightarrow> string \<Rightarrow> send_request option \<Rightarrow> go_err + new_message" where
  "buildUserMessage db sessionID userID format req0 =
    (case validateSendMessageInput req0 of
       Some e \<Rightarrow> Inl e
     | None \<Rightarrow>
       (let req = the req0; schemaVersion = (if sq_schema req = [] then format else sq_schema req) in
        if schemaVersion \<noteq> ''v1'' \<and> schemaVersion \<noteq> ''v2'' then Inl (ErrWrap ''schema_version must be v1 or v2'' ErrInvalidMessageInput)
        else (case attachment_items (GetStagedFilesForSession db userID sessionID (sq_attachments req)) [] 0 0 (sq_attachments req) of
            Inl e \<Rightarrow> Inl e
          | Inr atts \<Rightarrow>
              if trim_space (sq_content req) = [] \<and> atts = []
              then Inl (ErrWrap ''message must have content or attachments'' ErrInvalidMessageInput)
              else Inr \<lparr>nm_session_id = sessionID, nm_role = [], nm_schema = schemaVersion,
                nm_data = JObj (user_document req atts), nm_answer_attempt = None\<rparr>)))"

text \<open>\<^verbatim>\<open>GetByIDContext\<close> of the sessions and the error the service makes of it.\<close>

definition sessionLookupError :: "go_err \<Rightarrow> go_err" where
  "sessionLookupError e = (if err_is e ErrNotFound then ErrSessionNotFound else ErrWrap ''load session'' e)"

definition BuildUserMessagePreviewContext :: "chat_db \<Rightarrow> int \<Rightarrow> int \<Rightarrow> string \<Rightarrow> send_request option \<Rightarrow> go_err + new_message" where
  "BuildUserMessagePreviewContext db sessionID userID format req =
    (case lockActiveSession (cd_run db) sessionID userID of
       Some e \<Rightarrow> Inl (sessionLookupError e)
     | None \<Rightarrow> buildUserMessage (cd_files db) sessionID userID format req)"

definition IsUniqueViolation :: "go_err \<Rightarrow> bool" where
  "IsUniqueViolation e \<longleftrightarrow> as_sql_state e = Some ''23505''"

text \<open>The message of a run that exists is handed back instead of the unique violation.\<close>

definition CreateUserMessageContext ::
  "db_fault \<Rightarrow> int \<Rightarrow> int \<Rightarrow> int \<Rightarrow> string \<Rightarrow> send_request option \<Rightarrow> chat_db \<Rightarrow> (go_err + message_row) \<times> chat_db" where
  "CreateUserMessageContext fault now sessionID userID format req db =
    (case lockActiveSession (cd_run db) sessionID userID of
       Some _ \<Rightarrow> (Inl (ErrText ''session not found or access denied''), db)
     | None \<Rightarrow>
       (case buildUserMessage (cd_files db) sessionID userID format req of
          Inl e \<Rightarrow> (Inl e, db)
        | Inr message \<Rightarrow>
            (case CreateForActiveSession fault now sessionID userID message db of
               (Inl e, db') \<Rightarrow>
                 (let clientRunID = trim_space (sq_run (the req)) in
                  if clientRunID \<noteq> [] \<and> IsUniqueViolation e \<and> FindByRunID (cd_run db') sessionID clientRunID [''user''] \<noteq> []
                  then (Inr (hd (FindByRunID (cd_run db') sessionID clientRunID [''user''])), db')
                  else (Inl (ErrWrap ''failed to create message'' e), db'))
             | (Inr rows, db') \<Rightarrow> (Inr (hd rows), db'))))"

section \<open>Messages of the assistant\<close>

definition CreateAssistantMessageContext ::
  "db_fault \<Rightarrow> int \<Rightarrow> int \<Rightarrow> int \<Rightarrow> (string \<times> jv) list \<Rightarrow> string \<Rightarrow> chat_db \<Rightarrow> (go_err + message_row) \<times> chat_db" where
  "CreateAssistantMessageContext fault now sessionID userID data schemaVersion db =
    (case lockActiveSession (cd_run db) sessionID userID of
       Some _ \<Rightarrow> (Inl (ErrText ''session not found or access denied''), db)
     | None \<Rightarrow>
       (case CreateForActiveSession fault now sessionID userID
           \<lparr>nm_session_id = sessionID, nm_role = [], nm_schema = schemaVersion, nm_data = JObj data, nm_answer_attempt = None\<rparr> db of
          (Inl e, db') \<Rightarrow> (Inl (ErrWrap ''failed to create message'' e), db')
        | (Inr rows, db') \<Rightarrow> (Inr (hd rows), db')))"

definition CreateErrorAssistantMessageContext ::
  "db_fault \<Rightarrow> int \<Rightarrow> int \<Rightarrow> int \<Rightarrow> string \<Rightarrow> string \<Rightarrow> chat_db \<Rightarrow> (go_err + message_row) \<times> chat_db" where
  "CreateErrorAssistantMessageContext fault now sessionID userID content schemaVersion db =
    (if trim_space content = [] then (Inl (ErrText ''error content is required''), db)
     else CreateAssistantMessageContext fault now sessionID userID
       [(''role'', JStr ''assistant''), (''content'', JStr content), (''metadata'', JObj [(''ephemeral_error'', JBool True)])]
       schemaVersion db)"

definition stored_agent_message :: "int \<Rightarrow> string \<Rightarrow> string \<Rightarrow> int \<Rightarrow> (string \<times> jv) list \<Rightarrow> new_message" where
  "stored_agent_message sessionID schemaVersion runID i data =
    \<lparr>nm_session_id = sessionID, nm_role = [], nm_schema = schemaVersion,
     nm_data = JObj (if runID = [] then data
       else attachMessageMetadata [(''run_id'', JStr runID), (''run_sequence'', JInt i), (''produced_role'', value_at data ''role'')] data),
     nm_answer_attempt = None\<rparr>"

definition buildAgentMessages :: "int \<Rightarrow> (string \<times> jv) list list \<Rightarrow> string \<Rightarrow> string \<Rightarrow> new_message list" where
  "buildAgentMessages sessionID messages schemaVersion runID =
    map (\<lambda>(i, data). stored_agent_message sessionID schemaVersion runID (int i) data) (enumerate 0 messages)"

definition PersistAgentMessagesContext ::
  "db_fault \<Rightarrow> int \<Rightarrow> int \<Rightarrow> int \<Rightarrow> (string \<times> jv) list list \<Rightarrow> string \<Rightarrow> string \<Rightarrow> chat_db \<Rightarrow> (go_err + message_row list) \<times> chat_db" where
  "PersistAgentMessagesContext fault now sessionID userID messages schemaVersion runID0 db =
    (case lockActiveSession (cd_run db) sessionID userID of
       Some _ \<Rightarrow> (Inl (ErrText ''session not found or access denied''), db)
     | None \<Rightarrow>
       (let runID = trim_space runID0;
            stored = (\<lambda>db. if runID = [] then [] else FindByRunID (cd_run db) sessionID runID [''assistant'', ''tool''])
        in if stored db \<noteq> [] then (Inr (stored db), db)
           else (case CreateBatchForActiveRun fault now sessionID userID runID (buildAgentMessages sessionID messages schemaVersion runID) db of
               (Inl e, db') \<Rightarrow> if IsUniqueViolation e \<and> stored db' \<noteq> [] then (Inr (stored db'), db') else (Inl e, db')
             | (Inr rows, db') \<Rightarrow> (Inr rows, db'))))"

text \<open>When the run was terminal already the built messages are handed back, which have no id.\<close>

definition PersistAgentMessagesAndTransitionContext ::
  "db_fault \<Rightarrow> int \<Rightarrow> int \<Rightarrow> int \<Rightarrow> (string \<times> jv) list list \<Rightarrow> string \<Rightarrow> string \<Rightarrow> transition_input \<Rightarrow> chat_db
     \<Rightarrow> (go_err + (chat_run_record \<times> bool) \<times> message_row list) \<times> chat_db" where
  "PersistAgentMessagesAndTransitionContext fault now sessionID userID messages schemaVersion runID0 input db =
    (let runID = trim_space runID0
     in if runID = [] then (Inl (ErrText ''run id is required''), db)
        else
          (let saved = buildAgentMessages sessionID messages schemaVersion runID
           in case CreateBatchAndTransitionActiveRun fault now sessionID userID runID saved input db of
                (Inr ((r, False), _), db') \<Rightarrow> (Inr ((r, False), map (new_row 0 0) saved), db')
              | result \<Rightarrow> result))"

section \<open>An edited message\<close>

text \<open>
  \<^verbatim>\<open>json.Unmarshal\<close> gives a number as the nearest \<^verbatim>\<open>float64\<close>.
  \<open>f64_int p q\<close> is the integer the double nearest to \<open>p / q\<close> is, ties to even; a value below one half
  has none that is positive.
\<close>

definition round_even :: "nat \<Rightarrow> nat \<Rightarrow> nat" where
  "round_even p q =
    (let d = p div q; r = p mod q
     in if 2 * r < q \<or> 2 * r = q \<and> even d then d else d + 1)"

definition f64_int :: "nat \<Rightarrow> nat \<Rightarrow> nat option" where
  "f64_int p q =
    (let l = floorlog 2 (p div q)
     in if 53 \<le> l then Some (round_even p (q * 2 ^ (l - 53)) * 2 ^ (l - 53))
        else (let m = round_even (p * 2 ^ (53 - l)) q
              in if 2 ^ (53 - l) dvd m then Some (m div 2 ^ (53 - l)) else None))"

text \<open>A literal without a minus sign as a fraction: its digits, and the places its exponent moves them.\<close>

definition split_at :: "(char \<Rightarrow> bool) \<Rightarrow> string \<Rightarrow> string \<times> string" where
  "split_at P s = (takeWhile (\<lambda>c. \<not> P c) s, drop 1 (dropWhile (\<lambda>c. \<not> P c) s))"

definition literal_ratio :: "string \<Rightarrow> nat \<times> nat" where
  "literal_ratio lit =
    (let (mantissa, e) = split_at (\<lambda>c. c = CHR ''e'' \<or> c = CHR ''E'') lit;
         (whole, frac) = split_at (\<lambda>c. c = CHR ''.'') mantissa;
         n = nat (digits_val (whole @ frac));
         k = nat (digits_val (filter is_digit e));
         down = length frac + (if CHR ''-'' \<in> set e then k else 0);
         up = (if CHR ''-'' \<in> set e then 0 else k)
     in (n * 10 ^ up, 10 ^ down))"

definition toInt64 :: "jv \<Rightarrow> int option" where
  "toInt64 v =
    (case v of
       JInt i \<Rightarrow>
         if i \<le> 0 then None
         else (case f64_int (nat i) 1 of Some n \<Rightarrow> if n < 2 ^ 63 then Some (int n) else None | None \<Rightarrow> None)
     | JNum lit \<Rightarrow>
         if hd lit = CHR ''-'' then None
         else (case literal_ratio lit of
             (p, q) \<Rightarrow> (case f64_int p q of Some n \<Rightarrow> if 0 < n \<and> n < 2 ^ 63 then Some (int n) else None | None \<Rightarrow> None))
     | JStr s \<Rightarrow>
         if s = [] \<or> \<not> list_all is_digit s then None
         else (case parse_int64 s of Some i \<Rightarrow> if i > 0 then Some i else None | None \<Rightarrow> None)
     | _ \<Rightarrow> None)"

fun payload_ids :: "int list \<Rightarrow> jv list \<Rightarrow> go_err + int list" where
  "payload_ids ids [] = Inr ids"
| "payload_ids ids (raw # rest) =
    (case raw of
       JObj attachment \<Rightarrow>
         (case toInt64 (value_at attachment ''file_id'') of
            None \<Rightarrow> Inl (ErrWrap ''attachment is invalid'' ErrInvalidMessageInput)
          | Some i \<Rightarrow> payload_ids (if i \<in> set ids then ids else ids @ [i]) rest)
     | _ \<Rightarrow> Inl (ErrWrap ''attachment is invalid'' ErrInvalidMessageInput))"

definition attachmentIDsFromMessagePayload :: "(string \<times> jv) list \<Rightarrow> go_err + int list" where
  "attachmentIDsFromMessagePayload data = payload_ids [] (arr_at data ''attachments'')"

text \<open>
  The document is written again from the decoded one.  Its numbers are kept as they are: the rounding of
  an integer above \<open>2 ^ 53\<close> to a \<^verbatim>\<open>float64\<close>, and another spelling of a number that is no
  integer, are not modelled here (\<open>toInt64\<close>, which reads the ids of attachments, does round).
\<close>

definition edited_document :: "(string \<times> jv) list \<Rightarrow> string \<Rightarrow> string \<Rightarrow> (string \<times> jv) list" where
  "edited_document data content clientRunID =
    AList.update ''metadata'' (JObj (AList.update ''run_id'' (JStr clientRunID) (metadata_map data)))
      (AList.update ''content'' (JStr content) data)"

definition buildEditedRetryMessage :: "message_row option \<Rightarrow> string \<Rightarrow> string \<Rightarrow> go_err + message_row" where
  "buildEditedRetryMessage source0 content clientRunID0 =
    (case source0 of
       None \<Rightarrow> Inl ErrRetryTargetStale
     | Some source \<Rightarrow>
         if mr_id source \<le> 0 \<or> mr_role source \<noteq> ''user'' then Inl ErrRetryTargetStale
         else if rune_count content > MaxMessageContentRunes then Inl (ErrWrap ''content exceeds the maximum'' ErrMessageTooLarge)
         else
           (let clientRunID = trim_space clientRunID0 in
            if clientRunID = [] \<or> length clientRunID > MaxClientRunIDBytes
            then Inl (ErrWrap ''client_run_id is invalid'' ErrInvalidMessageInput)
            else (case ParseMessageData (mr_data source) of
                None \<Rightarrow> Inl (ErrText ''failed to parse message data'')
              | Some data \<Rightarrow>
                  if content = go_content data then Inl ErrMessageUnchanged
                  else (case attachmentIDsFromMessagePayload data of
                      Inl e \<Rightarrow> Inl e
                    | Inr attachments \<Rightarrow>
                        if trim_space content = [] \<and> attachments = []
                        then Inl (ErrWrap ''message must have content or attachments'' ErrInvalidMessageInput)
                        else Inr (source\<lparr>mr_data := JObj (edited_document data content clientRunID),
                               mr_created_at := 0, mr_updated_at := 0, mr_deleted := False\<rparr>)))))"

text \<open>The message handed to the repository.\<close>

definition as_new_message :: "message_row \<Rightarrow> new_message" where
  "as_new_message m = \<lparr>nm_session_id = mr_session_id m, nm_role = mr_role m, nm_schema = mr_schema m, nm_data = mr_data m,
     nm_answer_attempt = mr_answer_attempt m\<rparr>"

section \<open>What a built message is\<close>

text \<open>The ids of a list that are not among those seen, once each, in order.\<close>

fun fresh_ids :: "int list \<Rightarrow> int list \<Rightarrow> int list" where
  "fresh_ids seen [] = []"
| "fresh_ids seen (i # rest) = (if i \<in> set seen then fresh_ids seen rest else i # fresh_ids (seen @ [i]) rest)"

lemma fresh_ids_set: "set (fresh_ids seen xs) = set xs - set seen" "distinct (fresh_ids seen xs)"
  by (induction xs arbitrary: seen) auto

lemma fresh_ids_length: "length (fresh_ids seen xs) \<le> length xs"
  by (induction xs arbitrary: seen) (auto intro: le_SucI)

lemma fresh_ids_distinct: "distinct xs \<Longrightarrow> set xs \<inter> set seen = {} \<Longrightarrow> fresh_ids seen xs = xs"
  by (induction xs arbitrary: seen) auto

lemma collect_fresh: "collect_ids acc (map Some xs) = Some (acc @ fresh_ids acc xs)"
  by (induction xs arbitrary: acc) auto

lemma foldl_fresh: "foldl (\<lambda>acc i. if i \<in> set acc then acc else acc @ [i]) acc xs = acc @ fresh_ids acc xs"
  by (induction xs arbitrary: acc) auto

lemma map_sum_Inr: "map_sum id g x = Inr y \<longleftrightarrow> (\<exists>z. x = Inr z \<and> y = g z)"
  by (cases x) auto

lemma attachment_items_shape:
  assumes "attachment_items files seen b c xs = Inr atts" "\<And>k f. map_of files k = Some f \<Longrightarrow> fl_id f = k"
  shows "\<exists>fs. atts = map attachment_item fs \<and> map fl_id fs = fresh_ids seen xs \<and>
    (\<forall>f\<in>set fs. map_of files (fl_id f) = Some f \<and> 0 < fl_id f \<and> (is_image f \<or> fl_extract f = ExtractReady))"
  using assms(1)
proof (induction xs arbitrary: seen b c atts)
  case (Cons i xs)
  show ?case
  proof (cases "i \<in> set seen")
    case True
    then show ?thesis using Cons by (auto split: if_splits)
  next
    case False
    then obtain f where f: "map_of files i = Some f" "0 < i" "is_image f \<or> fl_extract f = ExtractReady"
      using Cons.prems by (auto simp: Let_def split: if_splits option.splits)
    obtain b' c' rest where rest: "attachment_items files (seen @ [i]) b' c' xs = Inr rest" "atts = attachment_item f # rest"
      using Cons.prems False f
      by (auto simp: Let_def map_sum_Inr split: if_splits option.splits)
    from Cons.IH[OF rest(1)] obtain fs where "rest = map attachment_item fs" "map fl_id fs = fresh_ids (seen @ [i]) xs"
      "\<forall>f\<in>set fs. map_of files (fl_id f) = Some f \<and> 0 < fl_id f \<and> (is_image f \<or> fl_extract f = ExtractReady)" by blast
    then show ?thesis using False f rest(2) assms(2)[OF f(1)] by (intro exI[of _ "f # fs"]) simp
  qed
qed simp

lemma staged_files:
  "map_of (GetStagedFilesForSession db u s ids) k = Some f \<Longrightarrow> fl_id f = k"
  "map_of (GetStagedFilesForSession db u s ids) k = Some f \<Longrightarrow>
     f \<in> set (fd_files db) \<and> in_session u s f \<and> fl_status f = FileStatusStaged"
  by (auto simp: GetStagedFilesForSession_def getFilesForSessionByStatuses_def dest: map_of_SomeD)

lemma user_document_fields:
  "value_at (user_document req atts) ''role'' = JStr ''user''" "go_content (user_document req atts) = sq_content req"
  "value_at (user_document req atts) ''attachments'' = (if atts = [] then JNull else JArr atts)"
  "metadata_map (user_document req atts) = request_metadata req"
  by (simp_all add: user_document_def attachMessageMetadata_def Let_def value_at_def go_content_def str_at_def coalesce_def
      metadata_map_def request_metadata_def obj_fields_def)

lemma attachment_item_id: "parseAttachmentFileID (map_of (obj_fields (attachment_item f)) ''file_id'') =
    (if 0 < fl_id f \<and> fl_id f < 2 ^ 63 then Some (fl_id f) else None)"
  by (simp add: attachment_item_def parseAttachmentFileID_def)

text \<open>Ids of claimable files are claimed.\<close>

lemma claim_succeeds:
  assumes "gather_attachments [] ms = Inr ids" "distinct ids"
    "\<And>i. i \<in> set ids \<Longrightarrow> \<exists>f\<in>set (fd_files db). fl_id f = i \<and> claimable userID sessionID ids f"
  shows "fst (claimStagedAttachmentsForMessages sessionID userID ms db) = None"
proof -
  let ?claimed = "remdups (map fl_id (filter (claimable userID sessionID ids) (fd_files db)))"
  have "set ?claimed = set ids" using assms(3) by (force simp: claimable_def)
  then have "length ?claimed = length ids" using assms(2) by (metis distinct_card distinct_remdups)
  then show ?thesis using assms(1) by (auto simp: claimStagedAttachmentsForMessages_def Let_def split: list.splits)
qed

text \<open>
  C27.
  A message the service builds is well-formed: its document is a user message with the content of the
  request, its attachments are the requested ids without repetitions and within the limit, and the
  transaction that stores it can claim them all.
\<close>

theorem built_message_is_claimable:
  assumes built: "buildUserMessage db sessionID userID format (Some req) = Inr m" and ids: "\<forall>i\<in>set (sq_attachments req). i < 2 ^ 63"
  shows "isUserMessageData (nm_data m) = Inr True \<and> go_content (obj_fields (nm_data m)) = sq_content req \<and>
    (\<exists>ids. attachmentIDsFromMessageData (nm_data m) = Inr ids \<and> distinct ids \<and> set ids = set (sq_attachments req) \<and>
       length ids \<le> MaxMessageAttachments \<and> (ids = [] \<longrightarrow> trim_space (sq_content req) \<noteq> [])) \<and>
    fst (claimStagedAttachmentsForMessages sessionID userID [nm_data m] db) = None"
proof -
  let ?files = "GetStagedFilesForSession db userID sessionID (sq_attachments req)"
  have valid: "length (sq_attachments req) \<le> MaxMessageAttachments"
    using built by (auto simp: buildUserMessage_def validateSendMessageInput_def split: if_splits)
  obtain atts where atts: "attachment_items ?files [] 0 0 (sq_attachments req) = Inr atts"
    and content: "trim_space (sq_content req) \<noteq> [] \<or> atts \<noteq> []" and m: "nm_data m = JObj (user_document req atts)"
    using built by (auto simp: buildUserMessage_def Let_def split: option.splits if_splits sum.splits)
  obtain fs where fs: "atts = map attachment_item fs" "map fl_id fs = fresh_ids [] (sq_attachments req)"
    "\<forall>f\<in>set fs. map_of ?files (fl_id f) = Some f \<and> 0 < fl_id f \<and> (is_image f \<or> fl_extract f = ExtractReady)"
    using attachment_items_shape[OF atts] staged_files(1)[of db userID sessionID "sq_attachments req"] by blast
  let ?ids = "fresh_ids [] (sq_attachments req)"
  have set: "set ?ids = set (sq_attachments req)" "distinct ?ids" by (simp_all add: fresh_ids_set)
  have "fl_id f < 2 ^ 63" if "f \<in> set fs" for f
    using ids set(1) fs(2) that by (metis image_eqI list.set_map)
  then have "map (\<lambda>a. parseAttachmentFileID (map_of (obj_fields a) ''file_id'')) atts = map Some (map fl_id fs)"
    using fs(3) by (simp add: fs(1) attachment_item_id)
  then have parsed: "attachmentIDsFromMessageData (nm_data m) = Inr ?ids"
    using set(2) by (auto simp: attachmentIDsFromMessageData_def m user_document_fields collect_fresh fs(2) fresh_ids_distinct list_ex_iff
        fs(1) attachment_item_def)
  have role: "isUserMessageData (nm_data m) = Inr True"
    by (simp add: isUserMessageData_def m user_document_fields)
  have gather: "gather_attachments [] [nm_data m] = Inr ?ids"
    using set(2) by (simp add: role parsed foldl_fresh fresh_ids_distinct)
  have claim: "\<exists>f\<in>set (fd_files db). fl_id f = i \<and> claimable userID sessionID ?ids f" if i: "i \<in> set ?ids" for i
  proof -
    from i obtain f where f: "f \<in> set fs" "fl_id f = i" by (metis fs(2) imageE list.set_map)
    with fs(3) staged_files(2)[of db userID sessionID "sq_attachments req" i f] i show ?thesis
      by (auto simp: claimable_def is_image_def)
  qed
  have "?ids = [] \<longleftrightarrow> atts = []" using fs(1,2) by (metis list.map_disc_iff)
  then show ?thesis
    using role parsed set content valid fresh_ids_length[of "[]" "sq_attachments req"] claim_succeeds[OF gather set(2) claim]
    by (auto simp: m user_document_fields)
qed

lemma built_message_is_claimable_witness:
  "\<exists>m. buildUserMessage \<lparr>fd_files = [], fd_messages = [], fd_sessions = [], fd_next_file = 1, fd_claim_seq = 0\<rparr> 7 3 ''v1''
      (Some \<lparr>sq_content = ''hi'', sq_schema = [], sq_run = ''r'', sq_attachments = [], sq_effort = []\<rparr>) = Inr m \<and>
    isUserMessageData (nm_data m) = Inr True"
proof -
  let ?db = "\<lparr>fd_files = [], fd_messages = [], fd_sessions = [], fd_next_file = 1, fd_claim_seq = 0\<rparr>"
  let ?req = "\<lparr>sq_content = ''hi'', sq_schema = [], sq_run = ''r'', sq_attachments = [], sq_effort = []\<rparr>"
  have t: "trim_space ''hi'' = ''hi''" "rune_count ''hi'' = 2"
    by (simp_all add: trim_space_def trim_ends_def dec_more_def is_space_def rune_count_def)
  obtain m where m: "buildUserMessage ?db 7 3 ''v1'' (Some ?req) = Inr m"
    by (simp add: buildUserMessage_def validateSendMessageInput_def t MaxMessageContentRunes_def MaxClientRunIDBytes_def)
  with built_message_is_claimable[OF m] show ?thesis by auto
qed

section \<open>An edited message is what the repository accepts\<close>

lemma payload_ids_item: "payload_ids ids (raw # rest) = Inr out \<Longrightarrow> out \<noteq> []"
proof -
  have ext: "payload_ids ids xs = Inr out \<Longrightarrow> \<exists>more. out = ids @ more" for ids xs
    by (induction xs arbitrary: ids) (force split: jv.splits option.splits if_splits)+
  show "payload_ids ids (raw # rest) = Inr out \<Longrightarrow> out \<noteq> []"
    by (auto split: jv.splits option.splits if_splits dest!: ext)
qed

lemma collect_ids_item: "collect_ids ids (x # xs) = Some out \<Longrightarrow> out \<noteq> []"
proof -
  have ext: "collect_ids ids xs = Some out \<Longrightarrow> \<exists>more. out = ids @ more" for ids xs
    by (induction ids xs rule: collect_ids.induct) (auto split: if_splits)
  show "collect_ids ids (x # xs) = Some out \<Longrightarrow> out \<noteq> []"
    by (cases x) (auto split: if_splits dest!: ext)
qed

text \<open>
  C28.
  The service and the repository agree on an edited retry: a replacement the service builds from the
  user message the repository checked passes every check of the transaction that stores it.
\<close>

theorem edited_message_is_accepted:
  assumes prep: "prepareEditRetryForActiveSessionTx sessionID userID target db = Inr source"
    and built: "buildEditedRetryMessage (Some source) content clientRunID = Inr m"
    and user: "isUserMessageData (mr_data source) = Inr True" and run: "rv_run_id input = trim_space clientRunID"
  shows "replacement_error input source (as_new_message m) = None"
proof -
  obtain data where data: "mr_data source = JObj data" and role: "value_at data ''role'' = JStr ''user''"
    using user by (auto simp: isUserMessageData_def split: jv.splits)
  obtain ids where ids: "attachmentIDsFromMessageData (mr_data source) = Inr ids"
    using prep by (auto simp: prepareEditRetryForActiveSessionTx_def ensureFormalMessageAttachmentsAvailableTx_def Let_def
      split: option.splits if_splits sum.splits)
  obtain atts where built': "content \<noteq> go_content data" "attachmentIDsFromMessagePayload data = Inr atts"
    "trim_space content \<noteq> [] \<or> atts \<noteq> []"
    "m = source\<lparr>mr_data := JObj (edited_document data content (trim_space clientRunID)), mr_created_at := 0, mr_updated_at := 0, mr_deleted := False\<rparr>"
    using built by (auto simp: buildEditedRetryMessage_def Let_def data ParseMessageData_def split: if_splits sum.splits)
  let ?doc = "edited_document data content (trim_space clientRunID)"
  have doc: "go_content ?doc = content" "value_at ?doc ''attachments'' = value_at data ''attachments''"
    "str_at ?doc ''role'' = Some ''user''" "str_at (metadata_map ?doc) ''run_id'' = Some (trim_space clientRunID)"
    using role by (auto simp: edited_document_def go_content_def str_at_def coalesce_def value_at_def metadata_map_def split: option.splits)
  have att: "attachmentIDsFromMessageData (JObj ?doc) = Inr ids"
    using ids by (simp add: attachmentIDsFromMessageData_def data doc)
  have "ids \<noteq> []" if some: "atts \<noteq> []"
  proof -
    obtain x xs where "value_at data ''attachments'' = JArr (x # xs)"
      using built'(2) some by (cases "arr_at data ''attachments''")
        (auto simp: attachmentIDsFromMessagePayload_def arr_at_def value_at_def split: jv.splits option.splits)
    then show ?thesis using ids by (auto simp: attachmentIDsFromMessageData_def data dest: collect_ids_item split: if_splits option.splits)
  qed
  moreover have n: "nm_data (as_new_message m) = JObj ?doc" "nm_schema (as_new_message m) = mr_schema source"
    by (simp_all add: as_new_message_def built'(4))
  ultimately show ?thesis
    using built'(1,3) by (simp add: replacement_error_def n data ParseMessageData_def doc ids[unfolded data] att run coalesce_def)
qed

definition edit_demo :: chat_db where
  "edit_demo = chat_demo_db\<lparr>cd_run := chat_demo\<lparr>db_messages := [text_message 5 ''user'' ''a'' []]\<rparr>\<rparr>"

lemma edited_message_is_accepted_witness:
  "\<exists>m. buildEditedRetryMessage (Some (text_message 5 ''user'' ''a'' [])) ''b'' ''r'' = Inr m \<and>
    replacement_error quota_demo_request (text_message 5 ''user'' ''a'' []) (as_new_message m) = None"
proof -
  let ?s = "text_message 5 ''user'' ''a'' []"
  have d: "mr_data ?s = JObj [(''role'', JStr ''user''), (''content'', JStr ''a''), (''metadata'', JObj [])]" by (simp add: text_message_def)
  have atts: "attachmentIDsFromMessageData (mr_data ?s) = Inr []"
    by (simp add: d attachmentIDsFromMessageData_def value_at_def)
  have c: "conversational ?s" by (simp add: conversational_def bool_at_def)
  have l: "listRetryMessages (cd_run edit_demo) 1 = [?s]"
    by (simp add: listRetryMessages_def edit_demo_def in_history_def in_context_def shown_def)
  have prep: "prepareEditRetryForActiveSessionTx 1 5 5 edit_demo = Inr ?s"
    using c by (simp add: prepareEditRetryForActiveSessionTx_def l last_where_def atts ensureFormalMessageAttachmentsAvailableTx_def Let_def)
      (simp add: edit_demo_def attempt_output_def)
  have user: "isUserMessageData (mr_data ?s) = Inr True" by (simp add: d isUserMessageData_def value_at_def)
  have t: "trim_space ''b'' = ''b''" "rune_count ''b'' = 1"
    by (simp_all add: trim_space_def trim_ends_def dec_more_def is_space_def rune_count_def)
  obtain m where m: "buildEditedRetryMessage (Some ?s) ''b'' ''r'' = Inr m"
    by (simp add: buildEditedRetryMessage_def t quota_demo_text d ParseMessageData_def go_content_def str_at_def coalesce_def
      attachmentIDsFromMessagePayload_def arr_at_def MaxMessageContentRunes_def MaxClientRunIDBytes_def Let_def)
  have "rv_run_id quota_demo_request = trim_space ''r''" by (simp add: quota_demo_text quota_demo_request_def)
  with edited_message_is_accepted[OF prep m user] m show ?thesis by blast
qed

end
