(* ===== verification/AgentContext.thy ===== *)
theory AgentContext
  imports UserMessage
begin

text \<open>
  The conversation the agent, the memory maintenance and the browser are given
  (\<^verbatim>\<open>internal/service/message_service.go\<close>): questions whose answer failed
  are left out with their error, a retry ends with the question it answers again, attachments become a
  short list of notes.  Parameters: \<open>quote\<close> is \<^verbatim>\<open>strconv.Quote\<close> (it rests on the
  Unicode tables of the printable runes), \<open>rfc3339\<close> formats a time in the zone of the server.  An
  operation that only reads may also fail with the error of a query; those are not shown.
\<close>

section \<open>Marks of a message\<close>

definition isEphemeralErrorMessage :: "message_row \<Rightarrow> bool" where
  "isEphemeralErrorMessage m = (case ParseMessageData (mr_data m) of None \<Rightarrow> False | Some data \<Rightarrow> go_flag data ''ephemeral_error'')"

definition compactionSummaryKind :: "message_row \<Rightarrow> string option" where
  "compactionSummaryKind m =
    (case ParseMessageData (mr_data m) of
       None \<Rightarrow> None
     | Some data \<Rightarrow>
         if go_flag data ''compaction_summary'' then Some (trim_space (coalesce (str_at (metadata_map data) ''compaction_kind'') []))
         else None)"

definition isCompactionSummaryMessage :: "message_row \<Rightarrow> bool" where
  "isCompactionSummaryMessage m \<longleftrightarrow> compactionSummaryKind m \<noteq> None"

section \<open>Attachments\<close>

definition extract_text :: "extract_status \<Rightarrow> string" where
  "extract_text e = (case e of ExtractPending \<Rightarrow> ''pending'' | ExtractReady \<Rightarrow> ''ready'' | ExtractFailed \<Rightarrow> ''failed''
     | ExtractOcrPending \<Rightarrow> ''ocr_pending'' | ExtractOcrRunning \<Rightarrow> ''ocr_running'')"

definition formatAttachmentListItem :: "(string \<Rightarrow> string) \<Rightarrow> file_row \<Rightarrow> string" where
  "formatAttachmentListItem quote f =
    (let tokenPart = (if fl_tokens f > 0 then '' tokens'' @ [CHR 0xE2, CHR 0x89, CHR 0x88] @ itoa (fl_tokens f) else []);
         error = trim_space (coalesce (fl_extract_error f) []);
         errorPart = (if error \<noteq> [] then '' error='' @ quote error else [])
     in ''- file_id='' @ itoa (fl_id f) @ '' filename='' @ quote (fl_name f) @ '' type='' @ fl_type f @ '' size='' @ itoa (fl_size f) @
        tokenPart @ '' status='' @ extract_text (fl_extract f) @ errorPart)"

definition formatUnavailableAttachmentListItem :: "(string \<Rightarrow> string) \<Rightarrow> int \<Rightarrow> string \<Rightarrow> string \<Rightarrow> string" where
  "formatUnavailableAttachmentListItem quote fileID filename fileType =
    ''- file_id='' @ itoa fileID @ '' filename='' @ quote (if trim_space filename = [] then ''unknown'' else filename) @
    '' type='' @ (if trim_space fileType = [] then ''unknown'' else fileType) @
    '' status=unavailable (the original attachment was deleted; do not infer its contents)''"

definition appendAttachmentListNote :: "string \<Rightarrow> string list \<Rightarrow> string" where
  "appendAttachmentListNote content items =
    (let nl = [CHR 0x0A];
         note = ''[Attachment list]'' @ nl @ sep_by nl items @ nl @
           ''When the answer depends on attachment text that is not already visible, use file_search with focused entity/section/claim/table terms, then use file_read(file_id, query or offset/next_offset) to read only the needed passages. Do not infer document contents from filenames and do not assume full attachment text is already in context.'' @ nl @
           ''[/Attachment list]''
     in if trim_space content = [] then note else content @ nl @ nl @ note)"

text \<open>A reference to a file in a document: its id, name, type and whether it was marked unavailable.\<close>

type_synonym attachment_ref = "int \<times> string \<times> string \<times> bool"

definition attachment_ref_of :: "jv \<Rightarrow> attachment_ref option" where
  "attachment_ref_of a =
    (case a of
       JObj am \<Rightarrow> (case toInt64 (value_at am ''file_id'') of
           None \<Rightarrow> None
         | Some i \<Rightarrow> Some (i, coalesce (str_at am ''filename'') [], coalesce (str_at am ''file_type'') [], bool_at am ''unavailable'' = Some True))
     | _ \<Rightarrow> None)"

definition attachment_refs :: "message_row \<Rightarrow> attachment_ref list" where
  "attachment_refs m = List.map_filter attachment_ref_of (arr_at (obj_fields (mr_data m)) ''attachments'')"

definition image_part :: "file_row \<Rightarrow> jv" where
  "image_part f = JObj [(''file_id'', JInt (fl_id f)), (''file_type'', JStr (fl_type f)), (''file_path'', JStr (fl_path f)),
     (''filename'', JStr (fl_name f)), (''file_size'', JInt (fl_size f))]"

definition available :: "(int \<times> file_row) list \<Rightarrow> attachment_ref \<Rightarrow> file_row option" where
  "available files r = (case r of (i, _, _, unavailable) \<Rightarrow> if unavailable then None else map_of files i)"

definition prepared_message :: "(string \<Rightarrow> string) \<Rightarrow> (int \<times> file_row) list \<Rightarrow> message_row \<Rightarrow> message_row" where
  "prepared_message quote files m =
    (let refs = attachment_refs m;
         found = List.map_filter (available files) refs;
         notes = map (formatAttachmentListItem quote) (filter (\<lambda>f. \<not> is_image f) found);
         images = map image_part (filter is_image found);
         unavailable = map (\<lambda>(i, name, type, _). formatUnavailableAttachmentListItem quote i name type) (filter (\<lambda>r. available files r = None) refs);
         data = obj_fields (mr_data m);
         data1 = (if notes \<noteq> [] \<or> unavailable \<noteq> []
           then AList.update ''content'' (JStr (appendAttachmentListNote (go_content data) (notes @ unavailable))) data else data);
         data2 = (if images \<noteq> [] then AList.update ''_image_parts'' (JArr images) data1 else data1)
     in if refs = [] then m else m\<lparr>mr_data := JObj data2\<rparr>)"

definition prepareAttachments :: "(string \<Rightarrow> string) \<Rightarrow> file_db \<Rightarrow> int \<Rightarrow> int \<Rightarrow> bool \<Rightarrow> message_row list \<Rightarrow> message_row list" where
  "prepareAttachments quote db userID sessionID staged messages =
    (let ids = map fst (concat (map attachment_refs messages));
         files = (if staged then GetStagedFilesForSession db userID sessionID ids else GetFormalFilesForSession db userID sessionID ids)
     in if ids = [] then messages else map (prepared_message quote files) messages)"

section \<open>The context of the agent\<close>

text \<open>One step of the loop: an error takes the question before it along, unless that is the one to keep.\<close>

definition context_step :: "int \<Rightarrow> message_row option \<Rightarrow> message_row list \<Rightarrow> message_row \<Rightarrow> message_row list" where
  "context_step preserve replacement filtered msg =
    (if isEphemeralErrorMessage msg
     then (if filtered \<noteq> [] \<and> mr_role (last filtered) = ''user'' \<and> mr_id (last filtered) \<noteq> preserve then butlast filtered else filtered)
     else (case replacement of
         Some r \<Rightarrow> if mr_id msg = mr_id r then filtered @ [r] else filtered @ [msg]
       | None \<Rightarrow> filtered @ [msg]))"

definition context_messages :: "int \<Rightarrow> message_row option \<Rightarrow> message_row list \<Rightarrow> message_row list" where
  "context_messages preserve replacement messages = foldl (context_step preserve replacement) [] messages"

definition listForAgentContext ::
  "(string \<Rightarrow> string) \<Rightarrow> chat_db \<Rightarrow> int \<Rightarrow> int \<Rightarrow> int \<Rightarrow> message_row option \<Rightarrow> go_err + message_row list" where
  "listForAgentContext quote db sessionID userID preserve replacement =
    (case lockActiveSession (cd_run db) sessionID userID of
       Some e \<Rightarrow> Inl (sessionLookupError e)
     | None \<Rightarrow> Inr (prepareAttachments quote (cd_files db) userID sessionID False
         (context_messages preserve replacement (ListBySession (cd_run db) sessionID))))"

definition ListForAgentContext :: "(string \<Rightarrow> string) \<Rightarrow> chat_db \<Rightarrow> int \<Rightarrow> int \<Rightarrow> go_err + message_row list" where
  "ListForAgentContext quote db sessionID userID = listForAgentContext quote db sessionID userID 0 None"

fun messagesThroughID :: "message_row list \<Rightarrow> int \<Rightarrow> go_err + message_row list" where
  "messagesThroughID [] i = Inl ErrRetryTargetStale"
| "messagesThroughID (m # ms) i = (if mr_id m = i then Inr [m] else map_sum id ((#) m) (messagesThroughID ms i))"

definition ListForAgentThroughMessageContext :: "(string \<Rightarrow> string) \<Rightarrow> chat_db \<Rightarrow> int \<Rightarrow> int \<Rightarrow> int \<Rightarrow> go_err + message_row list" where
  "ListForAgentThroughMessageContext quote db sessionID userID messageID =
    (case ListForAgentContext quote db sessionID userID of Inl e \<Rightarrow> Inl e | Inr ms \<Rightarrow> messagesThroughID ms messageID)"

text \<open>A draft has no id yet.\<close>

definition ListForAgentWithDraftContext ::
  "(string \<Rightarrow> string) \<Rightarrow> chat_db \<Rightarrow> int \<Rightarrow> int \<Rightarrow> string \<Rightarrow> send_request option \<Rightarrow> go_err + message_row list" where
  "ListForAgentWithDraftContext quote db sessionID userID format req =
    (case ListForAgentContext quote db sessionID userID of
       Inl e \<Rightarrow> Inl e
     | Inr ms \<Rightarrow>
         (case BuildUserMessagePreviewContext db sessionID userID format req of
            Inl e \<Rightarrow> Inl e
          | Inr draft \<Rightarrow> Inr (ms @ prepareAttachments quote (cd_files db) userID sessionID True [new_row 0 0 draft])))"

section \<open>Retries\<close>

definition PrepareRetryContext :: "chat_db \<Rightarrow> int \<Rightarrow> int \<Rightarrow> int \<Rightarrow> go_err + message_row" where
  "PrepareRetryContext db sessionID userID target =
    (case PrepareRetryForActiveSession sessionID userID target db of
       Inl e \<Rightarrow> Inl (if err_is e ErrNotFound then ErrSessionNotFound else e)
     | Inr m \<Rightarrow> Inr m)"

definition RetryAgentContext :: "(string \<Rightarrow> string) \<Rightarrow> chat_db \<Rightarrow> int \<Rightarrow> int \<Rightarrow> int \<Rightarrow> go_err + message_row \<times> message_row list" where
  "RetryAgentContext quote db sessionID userID target =
    (case PrepareRetryContext db sessionID userID target of
       Inl e \<Rightarrow> Inl e
     | Inr retryUser \<Rightarrow>
         (case listForAgentContext quote db sessionID userID (mr_id retryUser) None of
            Inl e \<Rightarrow> Inl e
          | Inr ms \<Rightarrow>
              (case messagesThroughID ms (mr_id retryUser) of
                 Inl e \<Rightarrow> Inl e
               | Inr ms' \<Rightarrow> Inr (retryUser, ms'))))"

definition ListForRetryAgentContext :: "(string \<Rightarrow> string) \<Rightarrow> chat_db \<Rightarrow> int \<Rightarrow> int \<Rightarrow> int \<Rightarrow> go_err + message_row list" where
  "ListForRetryAgentContext quote db sessionID userID target = map_sum id snd (RetryAgentContext quote db sessionID userID target)"

definition EditRetryAgentContext ::
  "(string \<Rightarrow> string) \<Rightarrow> chat_db \<Rightarrow> int \<Rightarrow> int \<Rightarrow> int \<Rightarrow> string \<Rightarrow> string \<Rightarrow> go_err + message_row \<times> message_row list" where
  "EditRetryAgentContext quote db sessionID userID target content clientRunID =
    (case PrepareEditRetryForActiveSession sessionID userID target db of
       Inl e \<Rightarrow> Inl (if err_is e ErrNotFound then ErrSessionNotFound else e)
     | Inr source \<Rightarrow>
         (case buildEditedRetryMessage (Some source) content clientRunID of
            Inl e \<Rightarrow> Inl e
          | Inr replacement \<Rightarrow>
              (case listForAgentContext quote db sessionID userID (mr_id source) (Some replacement) of
                 Inl e \<Rightarrow> Inl e
               | Inr ms \<Rightarrow>
                   (case messagesThroughID ms (mr_id source) of
                      Inl e \<Rightarrow> Inl e
                    | Inr ms' \<Rightarrow> Inr (replacement, ms')))))"

text \<open>What a compaction before a retried question may summarise.\<close>

definition latest_user_id :: "message_row list \<Rightarrow> int" where
  "latest_user_id messages =
    (case find (\<lambda>m. mr_role m = ''user'' \<and> \<not> isCompactionSummaryMessage m) (rev messages) of None \<Rightarrow> 0 | Some m \<Rightarrow> mr_id m)"

definition ListForCompactionBeforeMessageContext :: "(string \<Rightarrow> string) \<Rightarrow> chat_db \<Rightarrow> int \<Rightarrow> int \<Rightarrow> int \<Rightarrow> go_err + message_row list" where
  "ListForCompactionBeforeMessageContext quote db sessionID userID preserveMessageID =
    (if preserveMessageID \<le> 0 then Inl ErrRetryTargetStale
     else (case ListForAgentContext quote db sessionID userID of
         Inl e \<Rightarrow> Inl e
       | Inr messages \<Rightarrow>
           if latest_user_id messages \<noteq> preserveMessageID then Inl ErrRetryTargetStale
           else Inr (filter (\<lambda>m. mr_id m < preserveMessageID) messages)))"

section \<open>The memory of the conversation\<close>

definition counts_for_memory :: "message_row \<Rightarrow> bool" where
  "counts_for_memory m \<longleftrightarrow> mr_role m = ''user'' \<and> \<not> isCompactionSummaryMessage m \<and> \<not> isEphemeralErrorMessage m"

definition CountUserMessagesSince :: "run_db \<Rightarrow> int \<Rightarrow> int \<Rightarrow> int option \<Rightarrow> go_err + nat" where
  "CountUserMessagesSince db sessionID userID since =
    (case lockActiveSession db sessionID userID of
       Some _ \<Rightarrow> Inl (ErrText ''session not found or access denied'')
     | None \<Rightarrow> Inr (length (filter (\<lambda>m. counts_for_memory m \<and> (case since of None \<Rightarrow> True | Some t \<Rightarrow> mr_created_at m > t))
         (ListAllBySession db sessionID))))"

definition truncateMemoryContext :: "string \<Rightarrow> nat \<Rightarrow> string" where
  "truncateMemoryContext value0 maxRunes =
    (let s = trim_space value0
     in if maxRunes = 0 \<or> rune_count s \<le> maxRunes then s
        else str_of_runes (take maxRunes (runes s)) @ [CHR 0x0A] @ ''[truncated]'')"

text \<open>The loop from the end: the place of the last question counted, at most \<open>limit\<close> of them.\<close>

fun memory_start :: "nat \<Rightarrow> nat \<Rightarrow> message_row list \<Rightarrow> nat \<Rightarrow> nat" where
  "memory_start limit seen [] start = start"
| "memory_start limit seen (m # before) start =
    (if \<not> counts_for_memory m then memory_start limit seen before start
     else if limit \<le> seen + 1 then length before
     else memory_start limit (seen + 1) before (length before))"

definition memory_part :: "(int \<Rightarrow> string) \<Rightarrow> message_row \<Rightarrow> string option" where
  "memory_part rfc3339 m =
    (if isCompactionSummaryMessage m \<or> isEphemeralErrorMessage m then None
     else (case ParseMessageData (mr_data m) of
         None \<Rightarrow> None
       | Some data \<Rightarrow>
           (let named = coalesce (str_at data ''role'') [];
                role = (if named = [] then mr_role m else named);
                content = trim_space (go_content data)
            in if role \<noteq> ''user'' \<and> role \<noteq> ''assistant'' \<or> content = [] then None
               else Some (role @ '' @ '' @ rfc3339 (mr_created_at m) @ '':'' @ [CHR 0x0A] @ truncateMemoryContext content 1600))))"

definition RecentConversationTextForMemoryMessages :: "(int \<Rightarrow> string) \<Rightarrow> message_row list \<Rightarrow> nat \<Rightarrow> string" where
  "RecentConversationTextForMemoryMessages rfc3339 messages userLimit =
    sep_by [CHR 0x0A, CHR 0x0A] (List.map_filter (memory_part rfc3339) (drop (memory_start userLimit 0 (rev messages) 0) messages))"

definition RecentConversationTextForMemoryContext :: "(int \<Rightarrow> string) \<Rightarrow> run_db \<Rightarrow> int \<Rightarrow> int \<Rightarrow> int \<Rightarrow> go_err + string" where
  "RecentConversationTextForMemoryContext rfc3339 db sessionID userID userLimit =
    (case lockActiveSession db sessionID userID of
       Some _ \<Rightarrow> Inl (ErrText ''session not found or access denied'')
     | None \<Rightarrow> Inr (RecentConversationTextForMemoryMessages rfc3339 (ListAllBySession db sessionID)
         (if userLimit \<le> 0 then 5 else nat userLimit)))"

section \<open>Checkpoints through the service\<close>

definition PersistCompressionCheckpointContext ::
  "db_fault \<Rightarrow> int \<Rightarrow> int \<Rightarrow> int \<Rightarrow> jv \<Rightarrow> int \<Rightarrow> string \<Rightarrow> chat_db \<Rightarrow> go_err option \<times> chat_db" where
  "PersistCompressionCheckpointContext fault now sessionID userID summaryData beforeMessageID kind db =
    (case lockActiveSession (cd_run db) sessionID userID of
       Some _ \<Rightarrow> (Some (ErrText ''session not found or access denied''), db)
     | None \<Rightarrow>
       (case PersistCheckpointForActiveSession fault now sessionID userID
           \<lparr>nm_session_id = sessionID, nm_role = [], nm_schema = ''v1'', nm_data = markCompactionSummary summaryData kind beforeMessageID,
            nm_answer_attempt = None\<rparr> beforeMessageID db of
          (Inl e, db') \<Rightarrow> (Some (ErrWrap ''failed to persist compression checkpoint'' e), db')
        | (Inr _, db') \<Rightarrow> (None, db')))"

definition UndoLastCompaction :: "db_fault \<Rightarrow> int \<Rightarrow> int \<Rightarrow> run_db \<Rightarrow> (go_err + nat) \<times> run_db" where
  "UndoLastCompaction fault sessionID userID db =
    (case UndoLatestManualCheckpointForActiveSession fault sessionID userID db of
       (Inl e, db') \<Rightarrow> (Inl (if err_is e ErrNotFound then ErrSessionNotFound else e), db')
     | (Inr n, db') \<Rightarrow> (Inr n, db'))"

section \<open>The messages for the browser\<close>

record message_response =
  rs_message :: message_row
  rs_navigation :: "attempt_navigation option"

definition answer_of :: "message_row \<Rightarrow> int option" where
  "answer_of m = (if mr_role m = ''assistant'' then mr_answer_attempt m else None)"

text \<open>The navigation is shown at the last message of an answer that has a rival.\<close>

definition messageResponses :: "run_db \<Rightarrow> message_row list \<Rightarrow> go_err + message_response list" where
  "messageResponses db messages =
    (if list_ex (\<lambda>m. ParseMessageData (mr_data m) = None) messages then Inl (ErrText ''failed to unmarshal message data'')
     else
       (let lastMessage = map_of (rev (List.map_filter (\<lambda>m. map_option (\<lambda>i. (i, mr_id m)) (answer_of m)) messages));
            navigation = NavigationForAttemptIDs db (List.map_filter answer_of messages)
        in Inr (map (\<lambda>m. \<lparr>rs_message = m, rs_navigation =
             (case answer_of m of
                None \<Rightarrow> None
              | Some i \<Rightarrow>
                  if lastMessage i \<noteq> Some (mr_id m) then None
                  else (case map_of navigation i of
                      None \<Rightarrow> None
                    | Some nav \<Rightarrow> if an_count nav < 2 then None else Some nav))\<rparr>) messages)))"

definition service_ListBySessionPaged :: "run_db \<Rightarrow> int \<Rightarrow> int \<Rightarrow> int \<Rightarrow> int \<Rightarrow> go_err + message_response list \<times> bool" where
  "service_ListBySessionPaged db sessionID userID limit beforeID =
    (case lockActiveSession db sessionID userID of
       Some e \<Rightarrow> Inl (sessionLookupError e)
     | None \<Rightarrow>
       (case ListBySessionPaged db sessionID limit beforeID of
          (ms, hasMore) \<Rightarrow> map_sum id (\<lambda>result. (result, hasMore)) (messageResponses db ms)))"

definition service_GetSessionMessageCursor :: "run_db \<Rightarrow> int \<Rightarrow> int \<Rightarrow> go_err + int \<times> int" where
  "service_GetSessionMessageCursor db sessionID userID =
    (case lockActiveSession db sessionID userID of
       Some e \<Rightarrow> Inl (sessionLookupError e)
     | None \<Rightarrow> GetSessionMessageCursor db sessionID)"

definition service_ListMessageWindow ::
  "run_db \<Rightarrow> int \<Rightarrow> int \<Rightarrow> message_window_mode \<Rightarrow> int \<Rightarrow> int \<Rightarrow> go_err + message_window \<times> message_response list" where
  "service_ListMessageWindow db sessionID userID mode target limit =
    (case lockActiveSession db sessionID userID of
       Some e \<Rightarrow> Inl (sessionLookupError e)
     | None \<Rightarrow>
       (case ListMessageWindow db sessionID mode target limit of
          Inl e \<Rightarrow> Inl (if err_is e ErrNotFound then ErrConversationTurnNotFound else e)
        | Inr window \<Rightarrow> map_sum id (\<lambda>result. (window, result)) (messageResponses db (mw_messages window))))"

section \<open>A retry ends with its question\<close>

lemma last_where_bound: "last_where P xs = Some k \<Longrightarrow> k < length xs"
  by (auto simp: last_where_def index_where_Some(1) dest: index_where_Some(1))

lemma retry_user_mem: "retry_user ms target = Some m \<Longrightarrow> m \<in> set ms"
  by (auto simp: retry_user_def Let_def dest: last_where_bound split: option.splits if_splits)

text \<open>The notes on attachments change neither the place of a message nor its marks.\<close>

lemma prepared_message_fields [simp]:
  "mr_id (prepared_message quote files m) = mr_id m"
  "isEphemeralErrorMessage (prepared_message quote files m) = isEphemeralErrorMessage m"
proof -
  show "mr_id (prepared_message quote files m) = mr_id m" by (simp add: prepared_message_def Let_def)
  have meta: "go_flag (AList.update k v data) f = go_flag data f" if "k \<noteq> ''metadata''" for k v f data
    using that by (simp add: go_flag_def metadata_map_def value_at_def)
  show "isEphemeralErrorMessage (prepared_message quote files m) = isEphemeralErrorMessage m"
  proof (cases "attachment_refs m = []")
    case False
    then obtain data where "mr_data m = JObj data"
      by (cases "mr_data m") (auto simp: attachment_refs_def arr_at_def obj_fields_def List.map_filter_def)
    then show ?thesis by (simp add: prepared_message_def isEphemeralErrorMessage_def ParseMessageData_def meta Let_def)
  qed (simp add: prepared_message_def Let_def)
qed

lemma prepareAttachments_fields [simp]:
  "map mr_id (prepareAttachments quote db u s staged ms) = map mr_id ms"
  "(\<forall>m\<in>set (prepareAttachments quote db u s staged ms). \<not> isEphemeralErrorMessage m) \<longleftrightarrow> (\<forall>m\<in>set ms. \<not> isEphemeralErrorMessage m)"
  by (simp_all add: prepareAttachments_def Let_def comp_def)

lemma messagesThroughID_found:
  "i \<in> mr_id ` set ms \<Longrightarrow> \<exists>xs. messagesThroughID ms i = Inr xs \<and> xs \<noteq> [] \<and> mr_id (last xs) = i \<and> set xs \<subseteq> set ms"
  by (induction ms) (auto, blast+)

lemma foldl_keeps: "(\<And>acc x. I acc \<Longrightarrow> I (f acc x)) \<Longrightarrow> I acc \<Longrightarrow> I (foldl f acc xs)"
  by (induction xs arbitrary: acc) auto

lemma context_no_errors:
  assumes "\<And>r. replacement = Some r \<Longrightarrow> \<not> isEphemeralErrorMessage r"
  shows "\<forall>m\<in>set (context_messages preserve replacement xs). \<not> isEphemeralErrorMessage m"
  unfolding context_messages_def
  by (rule foldl_keeps) (use assms in \<open>auto simp: context_step_def dest: in_set_butlastD split: option.splits\<close>)

lemma context_step_keeps: "preserve \<in> mr_id ` set acc \<Longrightarrow> preserve \<in> mr_id ` set (context_step preserve replacement acc m)"
proof -
  assume p: "preserve \<in> mr_id ` set acc"
  have "preserve \<in> mr_id ` set (butlast acc)" if "acc \<noteq> []" "mr_id (last acc) \<noteq> preserve"
    using p that by (cases acc rule: rev_cases) auto
  then show ?thesis using p by (auto simp: context_step_def split: option.splits)
qed

lemma context_keeps:
  assumes "q \<in> set xs" "\<not> isEphemeralErrorMessage q"
  shows "mr_id q \<in> mr_id ` set (context_messages (mr_id q) replacement xs)"
proof -
  obtain as bs where xs: "xs = as @ q # bs" using assms(1) by (meson split_list)
  have kept: "mr_id q \<in> mr_id ` set acc \<Longrightarrow> mr_id q \<in> mr_id ` set (foldl (context_step (mr_id q) replacement) acc bs)" for acc
    by (rule foldl_keeps[where I = "\<lambda>a. mr_id q \<in> mr_id ` set a"]) (rule context_step_keeps)
  have "mr_id q \<in> mr_id ` set (context_step (mr_id q) replacement acc q)" for acc
    using assms(2) by (auto simp: context_step_def split: option.splits)
  then show ?thesis by (simp add: context_messages_def xs kept)
qed

text \<open>
  C29.
  A retry that was admitted to its question is never stale afterwards: the agent is given a
  conversation that ends with exactly that question and contains no failed answer.
\<close>

theorem retry_context_ends_with_question:
  assumes prep: "PrepareRetryContext db sessionID userID target = Inr q" and q: "\<not> isEphemeralErrorMessage q"
  shows "\<exists>ms. RetryAgentContext quote db sessionID userID target = Inr (q, ms) \<and> ms \<noteq> [] \<and> mr_id (last ms) = mr_id q \<and>
    (\<forall>m\<in>set ms. \<not> isEphemeralErrorMessage m)"
proof -
  have lock: "lockActiveSession (cd_run db) sessionID userID = None"
    and user: "retry_user (listRetryMessages (cd_run db) sessionID) target = Some q"
    using prep by (auto simp: PrepareRetryContext_def PrepareRetryForActiveSession_def prepareRetryForActiveSessionTx_def
      split: sum.splits option.splits)
  have "q \<in> set (ListBySession (cd_run db) sessionID)"
    using retry_user_mem[OF user] by (simp add: listRetryMessages_def ListBySession_def)
  let ?c = "prepareAttachments quote (cd_files db) userID sessionID False
    (context_messages (mr_id q) None (ListBySession (cd_run db) sessionID))"
  have l: "listForAgentContext quote db sessionID userID (mr_id q) None = Inr ?c"
    by (simp add: listForAgentContext_def lock)
  have "mr_id q \<in> mr_id ` set ?c"
    using context_keeps[OF \<open>q \<in> _\<close> q] by (metis list.set_map prepareAttachments_fields(1))
  then obtain xs where xs: "messagesThroughID ?c (mr_id q) = Inr xs" "xs \<noteq> []" "mr_id (last xs) = mr_id q" "set xs \<subseteq> set ?c"
    using messagesThroughID_found by blast
  have "\<forall>m\<in>set ?c. \<not> isEphemeralErrorMessage m"
    unfolding prepareAttachments_fields(2) by (rule context_no_errors) simp
  then have "\<forall>m\<in>set xs. \<not> isEphemeralErrorMessage m" using xs(4) by blast
  then show ?thesis using xs(1-3) by (simp add: RetryAgentContext_def prep l)
qed

section \<open>A failed answer\<close>

text \<open>A conversation whose last question failed.\<close>

definition failed_demo :: chat_db where
  "failed_demo = chat_demo_db\<lparr>cd_run := chat_demo\<lparr>db_messages := [text_message 1 ''user'' ''a'' [], text_message 2 ''assistant'' ''b'' [],
     text_message 3 ''user'' ''c'' [], text_message 4 ''assistant'' ''d'' [(''ephemeral_error'', JBool True)]]\<rparr>\<rparr>"

lemma text_message_error [simp]:
  "isEphemeralErrorMessage (text_message i r c meta) \<longleftrightarrow> bool_at meta ''ephemeral_error'' = Some True"
  by (simp add: isEphemeralErrorMessage_def text_message_def ParseMessageData_def go_flag_def metadata_map_def value_at_def)

lemma text_message_summary [simp]:
  "isCompactionSummaryMessage (text_message i r c meta) \<longleftrightarrow> bool_at meta ''compaction_summary'' = Some True"
  by (simp add: isCompactionSummaryMessage_def compactionSummaryKind_def text_message_def ParseMessageData_def go_flag_def
      metadata_map_def value_at_def)

lemma failed_demo_list:
  "ListBySession (cd_run failed_demo) 1 = [text_message 1 ''user'' ''a'' [], text_message 2 ''assistant'' ''b'' [],
     text_message 3 ''user'' ''c'' [], text_message 4 ''assistant'' ''d'' [(''ephemeral_error'', JBool True)]]"
  "listRetryMessages (cd_run failed_demo) 1 = ListBySession (cd_run failed_demo) 1"
  by (simp_all add: ListBySession_def listRetryMessages_def failed_demo_def in_context_def in_history_def shown_def position_def
      summary_boundary_def)

lemma failed_demo_session: "lockActiveSession (cd_run failed_demo) 1 5 = None"
  by (simp add: failed_demo_def lockActiveSession_def chat_demo_def)

lemma failed_demo_retry: "PrepareRetryContext failed_demo 1 5 4 = Inr (text_message 3 ''user'' ''c'' [])"
proof -
  let ?q = "text_message 3 ''user'' ''c'' []"
  have "attachmentIDsFromMessageData (mr_data ?q) = Inr []"
    by (simp add: text_message_def attachmentIDsFromMessageData_def value_at_def)
  moreover have "retry_user (listRetryMessages (cd_run failed_demo) 1) 4 = Some ?q"
    by (simp add: failed_demo_list retry_user_def last_where_def conversational_def bool_at_def Let_def)
  ultimately show ?thesis
    by (simp add: PrepareRetryContext_def PrepareRetryForActiveSession_def failed_demo_session prepareRetryForActiveSessionTx_def
        ensureFormalMessageAttachmentsAvailableTx_def)
qed

lemma retry_context_ends_with_question_witness:
  "\<exists>ms. RetryAgentContext pg_quote failed_demo 1 5 4 = Inr (text_message 3 ''user'' ''c'' [], ms) \<and> mr_id (last ms) = 3"
  using retry_context_ends_with_question[OF failed_demo_retry, of pg_quote] by (auto simp: bool_at_def)

text \<open>
  When that retry has to be compacted first, the compaction is refused as stale, although the retry
  itself is not: the list it is made from leaves the failed question out.
\<close>

lemma compaction_refuses_failed_question:
  "ListForCompactionBeforeMessageContext quote failed_demo 1 5 3 = Inl ErrRetryTargetStale"
proof -
  have refs: "attachment_refs (text_message i r c meta) = []" for i r c meta
    by (simp add: attachment_refs_def text_message_def arr_at_def List.map_filter_def)
  have "context_messages 0 None (ListBySession (cd_run failed_demo) 1) = [text_message 1 ''user'' ''a'' [], text_message 2 ''assistant'' ''b'' []]"
    by (simp add: failed_demo_list context_messages_def context_step_def bool_at_def)
  then have "ListForAgentContext quote failed_demo 1 5 = Inr [text_message 1 ''user'' ''a'' [], text_message 2 ''assistant'' ''b'' []]"
    by (simp add: ListForAgentContext_def listForAgentContext_def failed_demo_session prepareAttachments_def refs)
  then show ?thesis
    by (simp add: ListForCompactionBeforeMessageContext_def latest_user_id_def bool_at_def)
qed

end
