(* ===== verification/GoRegexp.thy ===== *)
theory GoRegexp
  imports GoBase
begin

text \<open>
  The package \<^verbatim>\<open>regexp\<close> as the program uses it: a match is the leftmost one, and of
  those the one a backtracking search tries first.  A pattern is a term of \<open>re\<close>; the text is its list
  of segments (a rune with the bytes it was decoded from), so a byte that is no rune is kept.  The
  search \<open>matches\<close> lists the states after a match in the order of preference; a repetition only goes
  on where its body used something up, so the length of the rest bounds it.
\<close>

section \<open>Patterns\<close>

type_synonym rune_seg = "nat \<times> string"

datatype re =
  Eps
| Cls "(nat \<times> nat) list"
| NotCls "(nat \<times> nat) list"
| AnyRune
| Seq re re
| Alt re re
| Star bool re
| Group nat re
| BeginText
| BeginLine
| EndText
| WordBoundary

record rx_state =
  rx_prev :: "nat option"
  rx_rest :: "rune_seg list"
  rx_caps :: "(nat \<times> string) list"

definition in_ranges :: "nat \<Rightarrow> (nat \<times> nat) list \<Rightarrow> bool" where
  "in_ranges r rs \<longleftrightarrow> list_ex (\<lambda>(a, b). a \<le> r \<and> r \<le> b) rs"

definition is_word :: "nat \<Rightarrow> bool" where
  "is_word r \<longleftrightarrow> in_ranges r [(48, 57), (65, 90), (95, 95), (97, 122)]"

definition word_at :: "nat option \<Rightarrow> bool" where
  "word_at x = (case x of None \<Rightarrow> False | Some r \<Rightarrow> is_word r)"

definition next_rune :: "rx_state \<Rightarrow> nat option" where
  "next_rune s = (case rx_rest s of [] \<Rightarrow> None | (r, b) # xs \<Rightarrow> Some r)"

definition seg_text :: "rune_seg list \<Rightarrow> string" where
  "seg_text xs = concat (map snd xs)"

definition step_if :: "(nat \<Rightarrow> bool) \<Rightarrow> rx_state \<Rightarrow> rx_state list" where
  "step_if P s = (case rx_rest s of
     [] \<Rightarrow> []
   | (r, b) # xs \<Rightarrow> if P r then [s\<lparr>rx_prev := Some r, rx_rest := xs\<rparr>] else [])"

fun repeat :: "bool \<Rightarrow> nat \<Rightarrow> (rx_state \<Rightarrow> rx_state list) \<Rightarrow> rx_state \<Rightarrow> rx_state list" where
  "repeat greedy 0 f s = [s]"
| "repeat greedy (Suc n) f s =
    (let further = concat (map (\<lambda>t. if length (rx_rest t) < length (rx_rest s) then repeat greedy n f t else []) (f s))
     in if greedy then further @ [s] else s # further)"

primrec matches :: "re \<Rightarrow> rx_state \<Rightarrow> rx_state list" where
  "matches Eps s = [s]"
| "matches (Cls rs) s = step_if (\<lambda>r. in_ranges r rs) s"
| "matches (NotCls rs) s = step_if (\<lambda>r. \<not> in_ranges r rs) s"
| "matches AnyRune s = step_if (\<lambda>r. r \<noteq> 10) s"
| "matches (Seq a b) s = concat (map (matches b) (matches a s))"
| "matches (Alt a b) s = matches a s @ matches b s"
| "matches (Star greedy a) s = repeat greedy (length (rx_rest s)) (matches a) s"
| "matches (Group i a) s =
    map (\<lambda>t. t\<lparr>rx_caps := (i, seg_text (take (length (rx_rest s) - length (rx_rest t)) (rx_rest s))) # rx_caps t\<rparr>) (matches a s)"
| "matches BeginText s = (if rx_prev s = None then [s] else [])"
| "matches BeginLine s = (if rx_prev s = None \<or> rx_prev s = Some 10 then [s] else [])"
| "matches EndText s = (if rx_rest s = [] then [s] else [])"
| "matches WordBoundary s = (if word_at (rx_prev s) \<noteq> word_at (next_rune s) then [s] else [])"

text \<open>The leftmost match from a place: the segments before it and the state after it.\<close>

fun rx_find :: "re \<Rightarrow> nat option \<Rightarrow> rune_seg list \<Rightarrow> (rune_seg list \<times> rx_state) option" where
  "rx_find r p [] = (case matches r \<lparr>rx_prev = p, rx_rest = [], rx_caps = []\<rparr> of [] \<Rightarrow> None | t # _ \<Rightarrow> Some ([], t))"
| "rx_find r p (x # xs) =
    (case matches r \<lparr>rx_prev = p, rx_rest = x # xs, rx_caps = []\<rparr> of
       t # _ \<Rightarrow> Some ([], t)
     | [] \<Rightarrow> map_option (\<lambda>(skipped, t). (x # skipped, t)) (rx_find r (Some (fst x)) xs))"

definition MatchString :: "re \<Rightarrow> string \<Rightarrow> bool" where
  "MatchString r s \<longleftrightarrow> rx_find r None (segs s) \<noteq> None"

definition submatch :: "nat \<Rightarrow> rx_state \<Rightarrow> string" where
  "submatch i t = (case map_of (rx_caps t) i of None \<Rightarrow> [] | Some s \<Rightarrow> s)"

text \<open>\<^verbatim>\<open>FindStringSubmatch\<close>: the group of the first match.\<close>

definition FindSubmatch :: "re \<Rightarrow> nat \<Rightarrow> string \<Rightarrow> string option" where
  "FindSubmatch r i s = map_option (\<lambda>(skipped, t). submatch i t) (rx_find r None (segs s))"

text \<open>
  The matches one after another, from the rest of the one before; after an empty match one segment is
  passed over.  \<open>n\<close> is the length of the text.
\<close>

fun rx_replace :: "nat \<Rightarrow> re \<Rightarrow> (rx_state \<Rightarrow> string) \<Rightarrow> nat option \<Rightarrow> rune_seg list \<Rightarrow> string" where
  "rx_replace 0 r f p xs = seg_text xs"
| "rx_replace (Suc n) r f p xs =
    (case rx_find r p xs of
       None \<Rightarrow> seg_text xs
     | Some (skipped, t) \<Rightarrow>
         seg_text skipped @ f t @
         (if length skipped + length (rx_rest t) < length xs then rx_replace n r f (rx_prev t) (rx_rest t)
          else (case rx_rest t of [] \<Rightarrow> [] | x # rest \<Rightarrow> snd x @ rx_replace n r f (Some (fst x)) rest)))"

definition ReplaceAll :: "re \<Rightarrow> (rx_state \<Rightarrow> string) \<Rightarrow> string \<Rightarrow> string" where
  "ReplaceAll r f s = rx_replace (Suc (length (segs s))) r f None (segs s)"

fun rx_all :: "nat \<Rightarrow> re \<Rightarrow> (rune_seg list \<Rightarrow> rx_state \<Rightarrow> 'a) \<Rightarrow> nat option \<Rightarrow> rune_seg list \<Rightarrow> 'a list" where
  "rx_all 0 r f p xs = []"
| "rx_all (Suc n) r f p xs =
    (case rx_find r p xs of
       None \<Rightarrow> []
     | Some (skipped, t) \<Rightarrow>
         f (take (length xs - length skipped - length (rx_rest t)) (drop (length skipped) xs)) t #
         (if length skipped + length (rx_rest t) < length xs then rx_all n r f (rx_prev t) (rx_rest t)
          else (case rx_rest t of [] \<Rightarrow> [] | x # rest \<Rightarrow> rx_all n r f (Some (fst x)) rest)))"

definition FindAll :: "re \<Rightarrow> string \<Rightarrow> string list" where
  "FindAll r s = rx_all (Suc (length (segs s))) r (\<lambda>m t. seg_text m) None (segs s)"

definition FindAllSubmatch :: "re \<Rightarrow> nat \<Rightarrow> string \<Rightarrow> string list" where
  "FindAllSubmatch r i s = rx_all (Suc (length (segs s))) r (\<lambda>m t. submatch i t) None (segs s)"

section \<open>Building patterns\<close>

definition rune_re :: "nat \<Rightarrow> re" where
  "rune_re r = Cls [(r, r)]"

text \<open>The runes that fold to a rune: the other case of a letter, the long s and the Kelvin sign.\<close>

definition folds :: "nat \<Rightarrow> nat list" where
  "folds r =
    (let l = (if 65 \<le> r \<and> r \<le> 90 then r + 32 else r)
     in if 97 \<le> l \<and> l \<le> 122 then [l, l - 32] @ (if l = 115 then [383] else if l = 107 then [8490] else []) else [r])"

definition fold_re :: "nat \<Rightarrow> re" where
  "fold_re r = Cls (map (\<lambda>x. (x, x)) (folds r))"

definition seq_all :: "re list \<Rightarrow> re" where
  "seq_all rs = foldr Seq rs Eps"

definition alt_all :: "re list \<Rightarrow> re" where
  "alt_all rs = (case rs of [] \<Rightarrow> Cls [] | r # rest \<Rightarrow> foldl Alt r rest)"

definition lit :: "string \<Rightarrow> re" where
  "lit s = seq_all (map rune_re (runes s))"

definition lit_ci :: "string \<Rightarrow> re" where
  "lit_ci s = seq_all (map fold_re (runes s))"

definition plus_re :: "re \<Rightarrow> re" where "plus_re r = Seq r (Star True r)"
definition opt_re :: "re \<Rightarrow> re" where "opt_re r = Alt r Eps"
definition times_re :: "nat \<Rightarrow> re \<Rightarrow> re" where "times_re n r = seq_all (replicate n r)"
definition at_least :: "nat \<Rightarrow> re \<Rightarrow> re" where "at_least n r = Seq (times_re n r) (Star True r)"

definition space_ranges :: "(nat \<times> nat) list" where "space_ranges = [(9, 10), (12, 13), (32, 32)]"
definition digit_ranges :: "(nat \<times> nat) list" where "digit_ranges = [(48, 57)]"
definition upper_ranges :: "(nat \<times> nat) list" where "upper_ranges = [(65, 90)]"

text \<open>The letters where case does not matter.\<close>

definition letter_ranges :: "(nat \<times> nat) list" where "letter_ranges = [(65, 90), (97, 122), (383, 383), (8490, 8490)]"

section \<open>Facts\<close>

lemma seg_text_segs [simp]: "seg_text (segs s) = s"
  by (simp add: seg_text_def segs_concat)

lemma rx_replace_unmatched: "rx_find r p xs = None \<Longrightarrow> rx_replace n r f p xs = seg_text xs"
  by (cases n) simp_all

lemma ReplaceAll_unmatched: "\<not> MatchString r s \<Longrightarrow> ReplaceAll r f s = s"
  by (simp add: MatchString_def ReplaceAll_def rx_replace_unmatched del: rx_replace.simps not_None_eq)

text \<open>A match never goes back: what is left after it is an end of what was there.\<close>

definition rx_goes_on :: "rx_state \<Rightarrow> rx_state \<Rightarrow> bool" where
  "rx_goes_on s t \<longleftrightarrow> (\<exists>k. rx_rest t = drop k (rx_rest s))"

lemma rx_goes_on_refl [simp]: "rx_goes_on s s"
  unfolding rx_goes_on_def by (rule exI[of _ 0]) simp

lemma rx_goes_on_trans: "rx_goes_on s t \<Longrightarrow> rx_goes_on t u \<Longrightarrow> rx_goes_on s u"
  unfolding rx_goes_on_def by (metis drop_drop)

lemma step_if_goes_on: "t \<in> set (step_if P s) \<Longrightarrow> rx_goes_on s t"
  unfolding rx_goes_on_def by (rule exI[of _ 1], cases "rx_rest s") (auto simp: step_if_def split: if_splits)

lemma repeat_goes_on:
  assumes "\<And>s t. t \<in> set (f s) \<Longrightarrow> rx_goes_on s t"
  shows "t \<in> set (repeat greedy n f s) \<Longrightarrow> rx_goes_on s t"
proof (induction n arbitrary: s t)
  case (Suc n)
  then consider "t = s" | u where "u \<in> set (f s)" "t \<in> set (repeat greedy n f u)"
    by (auto simp: Let_def split: if_splits)
  then show ?case
  proof cases
    case 2
    with rx_goes_on_trans[OF assms Suc.IH] show ?thesis by blast
  qed simp
qed simp

lemma matches_goes_on: "t \<in> set (matches r s) \<Longrightarrow> rx_goes_on s t"
proof (induction r arbitrary: s t)
  case (Seq a b)
  then obtain u where "u \<in> set (matches a s)" "t \<in> set (matches b u)" by auto
  with Seq.IH rx_goes_on_trans show ?case by blast
next
  case (Star greedy a)
  then show ?case using repeat_goes_on[of "matches a"] by (metis matches.simps(7))
next
  case (Group i a)
  then show ?case by (auto simp: rx_goes_on_def)
qed (auto simp: step_if_goes_on split: if_splits)

lemma rx_find_split: "rx_find r p xs = Some (skipped, t) \<Longrightarrow> \<exists>m. xs = skipped @ m @ rx_rest t"
proof (induction r p xs arbitrary: skipped t rule: rx_find.induct)
  case (1 r p)
  then have "t \<in> set (matches r \<lparr>rx_prev = p, rx_rest = [], rx_caps = []\<rparr>)" "skipped = []" by (auto split: list.splits)
  from matches_goes_on[OF this(1)] this(2) show ?case by (auto simp: rx_goes_on_def)
next
  case (2 r p x xs)
  show ?case
  proof (cases "matches r \<lparr>rx_prev = p, rx_rest = x # xs, rx_caps = []\<rparr>")
    case Nil
    with 2 obtain b where "rx_find r (Some (fst x)) xs = Some (b, t)" "skipped = x # b" by (auto split: prod.splits)
    with "2.IH"[OF Nil] show ?thesis by auto
  next
    case (Cons u us)
    then have "rx_goes_on \<lparr>rx_prev = p, rx_rest = x # xs, rx_caps = []\<rparr> t" "skipped = []"
      using 2(2) matches_goes_on[of t r] by auto
    then show ?thesis by (metis append_Nil append_take_drop_id rx_goes_on_def rx_state.select_convs(2))
  qed
qed

section \<open>Showing that a text matches\<close>

text \<open>\<open>can r p xs q ys\<close>: after the rune \<open>p\<close>, \<open>r\<close> can use up \<open>xs\<close> as far as \<open>ys\<close>, the last rune then being \<open>q\<close>.\<close>

definition can :: "re \<Rightarrow> nat option \<Rightarrow> rune_seg list \<Rightarrow> nat option \<Rightarrow> rune_seg list \<Rightarrow> bool" where
  "can r p xs q ys \<longleftrightarrow> (\<forall>c. \<exists>d. \<lparr>rx_prev = q, rx_rest = ys, rx_caps = d\<rparr> \<in> set (matches r \<lparr>rx_prev = p, rx_rest = xs, rx_caps = c\<rparr>))"

lemma repeat_refl: "s \<in> set (repeat greedy n f s)"
  by (cases n) (auto simp: Let_def)

lemma can_rules:
  "can Eps p xs p xs" "in_ranges r rs \<Longrightarrow> can (Cls rs) p ((r, w) # xs) (Some r) xs"
  "\<not> in_ranges r rs \<Longrightarrow> can (NotCls rs) p ((r, w) # xs) (Some r) xs" "can BeginText None xs None xs" "can BeginLine None xs None xs"
  "can (Star greedy a) p xs p xs" "can a p xs q ys \<Longrightarrow> can (Alt a b) p xs q ys" "can b p xs q ys \<Longrightarrow> can (Alt a b) p xs q ys"
  unfolding can_def
  by (simp_all add: step_if_def) (blast intro: repeat_refl | metis Un_iff)+

lemma can_Seq: "can a p xs q ys \<Longrightarrow> can b q ys r zs \<Longrightarrow> can (Seq a b) p xs r zs"
  unfolding can_def by simp blast

lemma can_Group: "can a p xs q ys \<Longrightarrow> can (Group i a) p xs q ys"
  unfolding can_def by (auto simp: image_iff) (metis rx_state.update_convs(3))

lemma can_seq_all: "can (seq_all []) p xs p xs" "can r p xs q ys \<Longrightarrow> can (seq_all rs) q ys u zs \<Longrightarrow> can (seq_all (r # rs)) p xs u zs"
  by (simp_all add: seq_all_def can_rules can_Seq)

lemma can_alt_all: "r \<in> set rs \<Longrightarrow> can r p xs q ys \<Longrightarrow> can (alt_all rs) p xs q ys"
proof -
  have f: "can a p xs q ys \<or> (\<exists>r\<in>set rs. can r p xs q ys) \<Longrightarrow> can (foldl Alt a rs) p xs q ys" for a rs
    by (induction rs arbitrary: a) (auto intro: can_rules)
  show "r \<in> set rs \<Longrightarrow> can r p xs q ys \<Longrightarrow> can (alt_all rs) p xs q ys"
    by (cases rs) (auto simp: alt_all_def intro: f)
qed

lemma can_match: "can r None (segs s) q ys \<Longrightarrow> MatchString r s"
  unfolding can_def MatchString_def
  by (cases "segs s") (auto split: list.splits dest!: spec[of _ "[]"])

text \<open>The runes a match of a pattern uses up at least; a shorter text does not match.\<close>

primrec min_runes :: "re \<Rightarrow> nat" where
  "min_runes Eps = 0"
| "min_runes (Cls rs) = 1"
| "min_runes (NotCls rs) = 1"
| "min_runes AnyRune = 1"
| "min_runes (Seq a b) = min_runes a + min_runes b"
| "min_runes (Alt a b) = min (min_runes a) (min_runes b)"
| "min_runes (Star greedy a) = 0"
| "min_runes (Group i a) = min_runes a"
| "min_runes BeginText = 0"
| "min_runes BeginLine = 0"
| "min_runes EndText = 0"
| "min_runes WordBoundary = 0"

lemma step_if_uses: "t \<in> set (step_if P s) \<Longrightarrow> Suc (length (rx_rest t)) \<le> length (rx_rest s)"
  by (cases "rx_rest s") (auto simp: step_if_def split: if_splits)

lemma min_runes_matches: "t \<in> set (matches r s) \<Longrightarrow> min_runes r + length (rx_rest t) \<le> length (rx_rest s)"
proof (induction r arbitrary: s t)
  case (Seq a b)
  then obtain u where "u \<in> set (matches a s)" "t \<in> set (matches b u)" by auto
  with Seq.IH(1)[of u s] Seq.IH(2)[of t u] show ?case by simp
next
  case (Alt a b)
  then show ?case by (auto simp: min_def dest!: Alt.IH)
next
  case (Star greedy a)
  then show ?case using matches_goes_on[of t "Star greedy a" s] by (auto simp: rx_goes_on_def)
next
  case (Group i a)
  then show ?case by (auto dest!: Group.IH)
qed (auto dest: step_if_uses split: if_splits)

lemma min_runes_none: "length (rx_rest s) < min_runes r \<Longrightarrow> matches r s = []"
  using min_runes_matches[of "hd (matches r s)" r s] by (cases "matches r s") auto

lemma rx_find_short: "length xs < min_runes r \<Longrightarrow> rx_find r p xs = None"
  by (induction xs arbitrary: p) (simp_all add: min_runes_none)

lemma MatchString_short: "rune_count s < min_runes r \<Longrightarrow> \<not> MatchString r s"
  by (simp add: MatchString_def rx_find_short rune_count_def)

lemma min_runes_seq_all: "min_runes (seq_all rs) = sum_list (map min_runes rs)"
  by (induction rs) (simp_all add: seq_all_def)

lemma min_runes_alt_all: "n \<le> min_runes (alt_all (r # rs)) \<longleftrightarrow> list_all (\<lambda>r. n \<le> min_runes r) (r # rs)"
proof -
  have "n \<le> min_runes (foldl Alt r rs) \<longleftrightarrow> n \<le> min_runes r \<and> list_all (\<lambda>r. n \<le> min_runes r) rs" for r
    by (induction rs arbitrary: r) auto
  then show ?thesis by (simp add: alt_all_def)
qed

lemma min_runes_lit [simp]:
  "min_runes (rune_re r) = 1" "min_runes (fold_re r) = 1" "min_runes (lit s) = rune_count s" "min_runes (lit_ci s) = rune_count s"
proof -
  have o: "min_runes \<circ> rune_re = (\<lambda>_. 1)" "min_runes \<circ> fold_re = (\<lambda>_. 1)" by (simp_all add: rune_re_def fold_re_def fun_eq_iff)
  show "min_runes (lit s) = rune_count s" "min_runes (lit_ci s) = rune_count s"
    by (simp_all add: lit_def lit_ci_def min_runes_seq_all o sum_list_triv del: One_nat_def)
qed (simp_all add: rune_re_def fold_re_def)

text \<open>A pattern whose matches begin with a rune of \<open>Q\<close> does not match in a text without one.\<close>

definition begins :: "(nat \<Rightarrow> bool) \<Rightarrow> re \<Rightarrow> bool" where
  "begins Q r \<longleftrightarrow> (\<forall>s t. t \<in> set (matches r s) \<longrightarrow> (\<exists>a b xs. rx_rest s = (a, b) # xs \<and> Q a))"

lemma step_if_begins: "t \<in> set (step_if P s) \<Longrightarrow> \<exists>a b xs. rx_rest s = (a, b) # xs \<and> P a"
  by (cases "rx_rest s") (auto simp: step_if_def split: if_splits)

lemma begins_rules:
  "(\<And>a. in_ranges a rs \<Longrightarrow> Q a) \<Longrightarrow> begins Q (Cls rs)" "begins Q a \<Longrightarrow> begins Q (Seq a b)" "begins Q b \<Longrightarrow> begins Q (Seq WordBoundary b)"
  unfolding begins_def by (metis matches.simps(2) step_if_begins) auto

lemma begins_none:
  assumes "begins Q r" "list_all (\<lambda>p. \<not> Q (fst p)) xs"
  shows "rx_find r q xs = None"
  using assms(2)
proof (induction xs arbitrary: q)
  case Nil
  have "matches r \<lparr>rx_prev = q, rx_rest = [], rx_caps = []\<rparr> = []" using assms(1) by (auto simp: begins_def simp flip: set_empty)
  then show ?case by simp
next
  case (Cons x xs)
  have "matches r \<lparr>rx_prev = q, rx_rest = x # xs, rx_caps = []\<rparr> = []"
    using assms(1) Cons.prems by (cases x) (auto simp: begins_def simp flip: set_empty)
  then show ?case using Cons by simp
qed

text \<open>A pattern that cannot match without one of the runes \<open>qs\<close> does not match in a text without them.\<close>

primrec needs :: "nat list \<Rightarrow> re \<Rightarrow> bool" where
  "needs qs Eps = False"
| "needs qs (Cls rs) = list_all (\<lambda>(a, b). a = b \<and> a \<in> set qs) rs"
| "needs qs (NotCls rs) = False"
| "needs qs AnyRune = False"
| "needs qs (Seq a b) = (needs qs a \<or> needs qs b)"
| "needs qs (Alt a b) = (needs qs a \<and> needs qs b)"
| "needs qs (Star greedy a) = False"
| "needs qs (Group i a) = needs qs a"
| "needs qs BeginText = False"
| "needs qs BeginLine = False"
| "needs qs EndText = False"
| "needs qs WordBoundary = False"

lemma needs_matches: "needs qs r \<Longrightarrow> t \<in> set (matches r s) \<Longrightarrow> \<exists>x\<in>set (rx_rest s). fst x \<in> set qs"
proof (induction r arbitrary: s t)
  case (Cls rs)
  then obtain a b xs where "rx_rest s = (a, b) # xs" "in_ranges a rs" using step_if_begins[of t "\<lambda>r. in_ranges r rs" s] by auto
  with Cls show ?case by (fastforce simp: in_ranges_def list_ex_iff list_all_iff)
next
  case (Seq a b)
  then obtain u where u: "u \<in> set (matches a s)" "t \<in> set (matches b u)" by auto
  show ?case
  proof (cases "needs qs a")
    case False
    then have "needs qs b" using Seq.prems(1) by simp
    then obtain x where x: "x \<in> set (rx_rest u)" "fst x \<in> set qs" using Seq.IH(2) u(2) by blast
    moreover have "set (rx_rest u) \<subseteq> set (rx_rest s)"
      using matches_goes_on[OF u(1)] by (auto simp: rx_goes_on_def dest: in_set_dropD)
    ultimately show ?thesis by blast
  qed (use Seq.IH(1) u(1) in blast)
next
  case (Group i a)
  then show ?case by auto
qed auto

lemma needs_no_match:
  assumes "needs qs r" "list_all (\<lambda>x. fst x \<notin> set qs) (rx_rest s)" shows "matches r s = []"
proof -
  have "t \<notin> set (matches r s)" for t using needs_matches[OF assms(1)] assms(2) unfolding list_all_iff by blast
  then show ?thesis by (cases "matches r s") auto
qed

lemma needs_none: "needs qs r \<Longrightarrow> list_all (\<lambda>x. fst x \<notin> set qs) xs \<Longrightarrow> rx_find r q xs = None"
  by (induction xs arbitrary: q) (simp_all add: needs_no_match)

lemma needs_seq_all: "needs qs (seq_all rs) = list_ex (needs qs) rs"
  by (induction rs) (simp_all add: seq_all_def)

lemma FindAll_none: "rx_find r None (segs s) = None \<Longrightarrow> FindAll r s = []" "rx_find r None (segs s) = None \<Longrightarrow> FindAllSubmatch r i s = []"
  by (simp_all add: FindAll_def FindAllSubmatch_def)

end
