(* ===== verification/MemoryDocument.thy ===== *)
theory MemoryDocument
  imports GoRegexp GoJson Errors
begin

text \<open>
  The memory card of a session (\<^verbatim>\<open>internal/memory/document.go\<close>): parsing and
  serialising its fixed sections, the limits, and the guard against credentials.  The patterns are the
  terms of the source's regular expressions.
\<close>

section \<open>Limits\<close>

definition MaxChars :: int where "MaxChars = 4000"
definition SoftMaxChars :: int where "SoftMaxChars = 3200"
definition MaxChangeList :: nat where "MaxChangeList = 20"

record limits =
  lm_max :: int
  lm_soft :: int

text \<open>The parameters are positive or unset, so the quotient is exact below zero too.\<close>

definition NormalizeLimits :: "int \<Rightarrow> int \<Rightarrow> limits" where
  "NormalizeLimits maxChars0 soft0 =
    (let maxChars = (if maxChars0 \<le> 0 then MaxChars else maxChars0);
         soft1 = (if soft0 \<le> 0 then maxChars * 4 div 5 else soft0);
         soft2 = (if soft1 \<le> 0 then maxChars else soft1)
     in \<lparr>lm_max = maxChars, lm_soft = (if soft2 > maxChars then maxChars else soft2)\<rparr>)"

definition DefaultLimits :: limits where
  "DefaultLimits = NormalizeLimits MaxChars SoftMaxChars"

section \<open>Sections\<close>

definition SectionDefs :: "(string \<times> string) list" where
  "SectionDefs = [(''user_background'', ''User Background''), (''user_preferences'', ''User Preferences''),
     (''project_context'', ''Project Context''), (''current_progress'', ''Current Progress''), (''decisions'', ''Decisions''),
     (''do_not_remember'', ''Do Not Remember'')]"

record mem_section =
  ms_key :: string
  ms_title :: string
  ms_items :: "string list"

record document =
  doc_sections :: "mem_section list"
  doc_legacy :: bool

definition EmptyDocument :: document where
  "EmptyDocument = \<lparr>doc_sections = map (\<lambda>(k, t). \<lparr>ms_key = k, ms_title = t, ms_items = []\<rparr>) SectionDefs, doc_legacy = False\<rparr>"

definition replace_char :: "char \<Rightarrow> char \<Rightarrow> string \<Rightarrow> string" where
  "replace_char a b s = map (\<lambda>c. if c = a then b else c) s"

definition NormalizeSectionKey :: "string \<Rightarrow> string" where
  "NormalizeSectionKey value0 =
    (let v = replace_char CHR '' '' CHR ''_'' (replace_char CHR ''-'' CHR ''_'' (to_lower (trim_space value0)))
     in case find (\<lambda>(k, t). v = k \<or> v = to_lower (replace_char CHR '' '' CHR ''_'' t)) SectionDefs of
          None \<Rightarrow> []
        | Some (k, t) \<Rightarrow> k)"

definition firstNonEmpty :: "string list \<Rightarrow> string" where
  "firstNonEmpty values = (case find (\<lambda>v. trim_space v \<noteq> []) values of None \<Rightarrow> [] | Some v \<Rightarrow> v)"

definition trim_prefix :: "string \<Rightarrow> string \<Rightarrow> string" where
  "trim_prefix s p = (if has_prefix s p then drop (length p) s else s)"

text \<open>The markers of an empty list, in English and Chinese.\<close>

definition no_items :: "string list" where
  "no_items = [''none'', ''(none)'', ''n/a'', ''(n/a)'', str_of_runes [26080], str_of_runes [26080, 26465, 30446], str_of_runes [26242, 26080]]"

definition cleanItem :: "string \<Rightarrow> string" where
  "cleanItem line0 =
    (let line = trim_space (trim_prefix (trim_prefix (trim_space line0) ''- '') ''* '')
     in if to_lower line \<in> set no_items then [] else line)"

fun split_lines :: "string \<Rightarrow> string list" where
  "split_lines [] = [[]]"
| "split_lines (c # cs) = (if c = CHR 0x0A then [] # split_lines cs else (case split_lines cs of l # ls \<Rightarrow> (c # l) # ls | [] \<Rightarrow> [[c]]))"

definition sectionHeaderRE :: re where
  "sectionHeaderRE = seq_all [BeginText, rune_re 35, opt_re (Seq (rune_re 35) (opt_re (rune_re 35))), plus_re (Cls space_ranges),
     Group 1 (Seq AnyRune (Star False AnyRune)), Star True (Cls space_ranges), EndText]"

section \<open>Credentials\<close>

definition doNotRememberSecretPlaceholder :: string where
  "doNotRememberSecretPlaceholder = str_of_runes [19981, 35201, 20445, 23384, 20020, 26102, 39564, 35777, 30721, 12289, 23494, 30721, 12289,
     65, 80, 73, 32, 107, 101, 121, 12289, 116, 111, 107, 101, 110, 32, 25110, 20854, 20182, 31192, 23494, 20540, 12290]"

definition SensitiveValuePlaceholder :: string where
  "SensitiveValuePlaceholder = ''[REDACTED SECRET]''"

definition doNotRememberSensitiveValueRE :: re where
  "doNotRememberSensitiveValueRE = alt_all
    [Seq (lit_ci ''sk-'') (at_least 8 (Cls (letter_ranges @ digit_ranges @ [(95, 95), (45, 45)]))),
     Seq (Cls (letter_ranges @ digit_ranges)) (at_least 19 (Cls (letter_ranges @ digit_ranges @ [(95, 95), (45, 45)]))),
     at_least 4 (Cls digit_ranges)]"

definition privateKeyRE :: re where
  "privateKeyRE =
    (let label = opt_re (Seq (plus_re (Cls (upper_ranges @ digit_ranges @ [(32, 32)]))) (rune_re 32))
     in seq_all [lit ''-----BEGIN '', label, lit ''PRIVATE KEY-----'', Star False (NotCls []), lit ''-----END '', label, lit ''PRIVATE KEY-----''])"

definition connectionRE :: re where
  "connectionRE = seq_all [WordBoundary,
     Group 1 (seq_all [alt_all [Seq (lit_ci ''postgres'') (opt_re (lit_ci ''ql'')), lit_ci ''mysql'', Seq (lit_ci ''mongodb'') (opt_re (lit_ci ''+srv'')),
       lit_ci ''redis'', lit_ci ''amqp''], lit ''://'', plus_re (NotCls (space_ranges @ [(47, 47), (58, 58), (64, 64)])), rune_re 58]),
     Group 2 (plus_re (NotCls (space_ranges @ [(64, 64), (47, 47)]))), Group 3 (rune_re 64)]"

definition authorizationRE :: re where
  "authorizationRE = Seq
     (Group 1 (seq_all [WordBoundary, lit_ci ''authorization'', Star True (Cls space_ranges), rune_re 58, Star True (Cls space_ranges),
        lit_ci ''bearer'', plus_re (Cls space_ranges)]))
     (Group 2 (plus_re (NotCls (space_ranges @ [(44, 44), (59, 59)]))))"

text \<open>The words of an assignment, the separators between their parts, its brackets and quotes.\<close>

definition two_words :: "string \<Rightarrow> string \<Rightarrow> re" where
  "two_words a b = seq_all [lit_ci a, Star True (Cls (space_ranges @ [(95, 95), (45, 45)])), lit_ci b]"

definition quote_re :: re where
  "quote_re = opt_re (Cls [(34, 34), (39, 39)])"

definition assignmentRE :: re where
  "assignmentRE = seq_all
    [Group 1 (Alt BeginLine (Cls (space_ranges @ [(40, 40), (91, 91), (123, 123), (44, 44), (59, 59)]))),
     Group 2 (alt_all [lit_ci ''password'', lit_ci ''passwd'', lit_ci ''pwd'', two_words ''api'' ''key'', two_words ''client'' ''secret'',
       two_words ''access'' ''token'', two_words ''refresh'' ''token'', two_words ''auth'' ''token'', two_words ''private'' ''key'',
       Seq (rune_re 23494) (rune_re 30721), Seq (rune_re 21475) (rune_re 20196), Seq (rune_re 20196) (rune_re 29260),
       seq_all [lit_ci ''api'', Star True (Cls space_ranges), rune_re 23494, rune_re 38053]]),
     Group 3 (seq_all [Star True (Cls space_ranges), Cls [(58, 58), (61, 61), (65306, 65306)], Star True (Cls space_ranges)]),
     Group 4 quote_re,
     Group 5 (plus_re (NotCls (space_ranges @ [(34, 34), (39, 39), (96, 96), (44, 44), (59, 59)]))),
     Group 6 quote_re]"

definition tokenRE :: re where
  "tokenRE =
    (let an = letter_ranges @ digit_ranges; any = an @ [(95, 95), (45, 45)]; under = an @ [(95, 95)]; dash = an @ [(45, 45)]
     in seq_all [WordBoundary,
       alt_all [seq_all [lit_ci ''sk-'', Cls an, at_least 11 (Cls any)],
         Seq (lit_ci ''github_pat_'') (at_least 20 (Cls under)),
         seq_all [lit_ci ''gh'', alt_all (map fold_re [111, 112, 117, 115, 114]), lit ''_'', at_least 20 (Cls an)],
         Seq (Alt (lit_ci ''AKIA'') (lit_ci ''ASIA'')) (times_re 16 (Cls an)),
         Seq (lit_ci ''AIza'') (times_re 35 (Cls any)),
         seq_all [lit_ci ''xox'', alt_all (map fold_re [98, 97, 112, 114, 115]), lit ''-'', at_least 10 (Cls dash)],
         seq_all [Alt (lit_ci ''sk'') (lit_ci ''rk''), lit_ci ''_live_'', at_least 12 (Cls an)],
         seq_all [lit_ci ''eyJ'', at_least 8 (Cls any), lit ''.'', at_least 8 (Cls any), lit ''.'', at_least 8 (Cls any)]],
       WordBoundary])"

definition sensitiveValuePatterns :: "(re \<times> (rx_state \<Rightarrow> string)) list" where
  "sensitiveValuePatterns =
    [(privateKeyRE, \<lambda>t. SensitiveValuePlaceholder),
     (connectionRE, \<lambda>t. submatch 1 t @ SensitiveValuePlaceholder @ submatch 3 t),
     (authorizationRE, \<lambda>t. submatch 1 t @ SensitiveValuePlaceholder),
     (assignmentRE, \<lambda>t. submatch 1 t @ submatch 2 t @ submatch 3 t @ SensitiveValuePlaceholder),
     (tokenRE, \<lambda>t. SensitiveValuePlaceholder)]"

definition containsSensitiveValue :: "string \<Rightarrow> bool" where
  "containsSensitiveValue content = list_ex (\<lambda>(r, f). MatchString r content) sensitiveValuePatterns"

definition RedactSensitiveValues :: "string \<Rightarrow> string" where
  "RedactSensitiveValues content = foldl (\<lambda>s (r, f). ReplaceAll r f s) content sensitiveValuePatterns"

section \<open>Parsing\<close>

text \<open>The loop over the lines: the section they belong to, whether a header was seen, the items before any.\<close>

record parse_state =
  ps_sections :: "mem_section list"
  ps_current :: "nat option"
  ps_seen :: bool
  ps_legacy :: "string list"

definition section_index :: "string \<Rightarrow> nat option" where
  "section_index title =
    (case find (\<lambda>i. to_lower (snd (SectionDefs ! i)) = to_lower title) [0..<length SectionDefs] of
       Some i \<Rightarrow> Some i
     | None \<Rightarrow> find (\<lambda>i. fst (SectionDefs ! i) = NormalizeSectionKey title) [0..<length SectionDefs])"

definition add_item :: "string \<Rightarrow> parse_state \<Rightarrow> parse_state" where
  "add_item item p =
    (case ps_current p of
       Some i \<Rightarrow> p\<lparr>ps_sections := (ps_sections p)[i := (ps_sections p ! i)\<lparr>ms_items := ms_items (ps_sections p ! i) @ [item]\<rparr>]\<rparr>
     | None \<Rightarrow> p\<lparr>ps_legacy := ps_legacy p @ [item]\<rparr>)"

definition parse_line :: "parse_state \<Rightarrow> string \<Rightarrow> parse_state" where
  "parse_line p raw =
    (let line = trim_space raw in
     if line = [] then p
     else (case FindSubmatch sectionHeaderRE 1 line of
         Some title \<Rightarrow>
           (case section_index (trim_space title) of
              Some i \<Rightarrow> p\<lparr>ps_current := Some i, ps_seen := True\<rparr>
            | None \<Rightarrow> add_item (cleanItem line) p)
       | None \<Rightarrow> if cleanItem line = [] then p else add_item (cleanItem line) p))"

definition Parse :: "string \<Rightarrow> document" where
  "Parse content0 =
    (let content = trim_space content0 in
     if content = [] then EmptyDocument
     else
       (let p = foldl parse_line \<lparr>ps_sections = doc_sections EmptyDocument, ps_current = None, ps_seen = False, ps_legacy = []\<rparr>
              (split_lines content);
            sections = (if ps_legacy p = [] then ps_sections p
              else (ps_sections p)[3 := (ps_sections p ! 3)\<lparr>ms_items := ps_legacy p @ ms_items (ps_sections p ! 3)\<rparr>])
        in \<lparr>doc_sections = sections, doc_legacy = (\<not> ps_seen p \<and> ps_legacy p \<noteq> [])\<rparr>))"

section \<open>Serialising\<close>

definition sanitizeDoNotRememberItem :: "string \<Rightarrow> string" where
  "sanitizeDoNotRememberItem item = (if MatchString doNotRememberSensitiveValueRE item then doNotRememberSecretPlaceholder else item)"

fun join_with :: "string \<Rightarrow> string list \<Rightarrow> string" where
  "join_with d [] = []"
| "join_with d [x] = x"
| "join_with d (x # xs) = x @ d @ join_with d xs"

definition newline :: string where "newline = [CHR 0x0A]"

definition section_key :: "mem_section \<Rightarrow> string" where
  "section_key s = NormalizeSectionKey (firstNonEmpty [ms_key s, ms_title s])"

definition cleaned_items :: "mem_section \<Rightarrow> string list" where
  "cleaned_items s =
    (let dnr = (section_key s = ''do_not_remember'');
         items = (if dnr \<and> containsSensitiveValue (join_with newline (ms_items s)) then [doNotRememberSecretPlaceholder] else ms_items s)
     in map (\<lambda>i. if dnr then sanitizeDoNotRememberItem i else i) (filter (\<lambda>i. i \<noteq> []) (map cleanItem items)))"

text \<open>The section of a key: the last one of the document that has it.\<close>

definition items_of :: "document \<Rightarrow> string \<Rightarrow> string list" where
  "items_of doc key = (case find (\<lambda>s. section_key s = key) (rev (doc_sections doc)) of None \<Rightarrow> [] | Some s \<Rightarrow> cleaned_items s)"

definition section_text :: "string \<Rightarrow> string list \<Rightarrow> string" where
  "section_text title items = ''## '' @ title @ newline @ concat (map (\<lambda>i. ''- '' @ i @ newline) items)"

definition Serialize :: "document \<Rightarrow> string" where
  "Serialize doc = trim_space (join_with (newline @ newline)
     (map (\<lambda>(k, t). section_text t (items_of doc k)) (filter (\<lambda>(k, t). items_of doc k \<noteq> []) SectionDefs)))"

definition rejectSensitiveValues :: "document \<Rightarrow> bool" where
  "rejectSensitiveValues doc \<longleftrightarrow>
    list_ex (\<lambda>s. section_key s \<noteq> ''do_not_remember'' \<and> containsSensitiveValue (join_with newline (ms_items s))) (doc_sections doc)"

definition rejectUnknownSections :: "string \<Rightarrow> string option" where
  "rejectUnknownSections content =
    find (\<lambda>title. NormalizeSectionKey title = []) (map trim_space (List.map_filter (FindSubmatch sectionHeaderRE 1) (map trim_space (split_lines content))))"

definition ValidateContentWithLimits :: "string \<Rightarrow> limits \<Rightarrow> bool" where
  "ValidateContentWithLimits content l0 \<longleftrightarrow>
    int (rune_count (trim_space content)) \<le> lm_max (NormalizeLimits (lm_max l0) (lm_soft l0))"

definition NormalizeWithLimits :: "string \<Rightarrow> limits \<Rightarrow> go_err + string \<times> document" where
  "NormalizeWithLimits content l =
    (case rejectUnknownSections content of
       Some title \<Rightarrow> Inl (ErrText ''unknown memory section'')
     | None \<Rightarrow>
         (let doc = Parse content; normalized = Serialize doc in
          if rejectSensitiveValues doc then Inl ErrSensitiveValue
          else if \<not> ValidateContentWithLimits normalized l then Inl (ErrText (''memory content too long; limit '' @ itoa (lm_max (NormalizeLimits (lm_max l) (lm_soft l))) @ '' characters''))
          else Inr (normalized, Parse normalized)))"

definition Normalize :: "string \<Rightarrow> go_err + string \<times> document" where
  "Normalize content = NormalizeWithLimits content DefaultLimits"

section \<open>Statistics\<close>

record memory_stats =
  mst_chars :: int
  mst_max :: int
  mst_soft :: int
  mst_near :: bool
  mst_hard :: bool
  mst_items :: nat

definition item_count :: "document \<Rightarrow> nat" where
  "item_count doc = sum_list (map (\<lambda>s. length (ms_items s)) (doc_sections doc))"

definition StatsForWithLimits :: "string \<Rightarrow> limits \<Rightarrow> memory_stats" where
  "StatsForWithLimits content l0 =
    (let l = NormalizeLimits (lm_max l0) (lm_soft l0); chars = int (rune_count (trim_space content))
     in \<lparr>mst_chars = chars, mst_max = lm_max l, mst_soft = lm_soft l, mst_near = (chars \<ge> lm_soft l), mst_hard = (chars \<ge> lm_max l),
         mst_items = item_count (Parse content)\<rparr>)"

definition StatsFor :: "string \<Rightarrow> memory_stats" where
  "StatsFor content = StatsForWithLimits content DefaultLimits"

definition Summary :: "string \<Rightarrow> string \<Rightarrow> string" where
  "Summary before0 after0 =
    (if trim_space before0 = [] \<and> trim_space after0 = [] then str_of_runes [20250, 35805, 35760, 24518, 26410, 21464, 21270]
     else if trim_space after0 = [] then str_of_runes [24050, 28165, 31354, 20250, 35805, 35760, 24518]
     else if trim_space before0 = []
     then str_of_runes [24050, 21019, 24314, 32] @ itoa (int (mst_items (StatsFor after0))) @ str_of_runes [32, 26465, 20250, 35805, 35760, 24518]
     else str_of_runes [24050, 26356, 26032, 20250, 35805, 35760, 24518, 65306] @ itoa (int (mst_items (StatsFor before0))) @
       str_of_runes [32, 26465, 21464, 20026, 32] @ itoa (int (mst_items (StatsFor after0))) @ str_of_runes [32, 26465])"

section \<open>Redacted values\<close>

text \<open>
  The placeholder of an assignment is itself a value of the assignment for the guard: a card whose
  credential was redacted is refused like one that has the credential.
\<close>

lemma redacted_is_still_sensitive: "containsSensitiveValue ''pwd:[REDACTED SECRET]''"
proof -
  have s: "segs ''pwd:[REDACTED SECRET]'' = (112, ''p'') # (119, ''w'') # (100, ''d'') # (58, '':'') # (91, ''['') # segs ''REDACTED SECRET]''"
    by (simp add: dec_more_def)
  let ?ys = "segs ''REDACTED SECRET]''"
  have lit: "runes ''pwd'' = [112, 119, 100]" by (simp add: runes_def dec_more_def)
  have pwd: "can (lit_ci ''pwd'') None ((112, ''p'') # (119, ''w'') # (100, ''d'') # xs) (Some 100) xs" for xs
    unfolding lit_ci_def lit by (simp, intro can_seq_all) (auto simp: fold_re_def folds_def in_ranges_def intro!: can_rules can_seq_all(1))
  note words = can_Group[OF can_alt_all[OF _ pwd]]
  have colon: "can (Cls [(58, 58), (61, 61), (65306, 65306)]) (Some 100) ((58, '':'') # xs) (Some 58) xs" for xs
    by (rule can_rules) (simp add: in_ranges_def)
  have bracket: "can (plus_re (NotCls (space_ranges @ [(34, 34), (39, 39), (96, 96), (44, 44), (59, 59)]))) (Some 58) ((91, ''['') # ?ys) (Some 91) ?ys"
    unfolding plus_re_def by (rule can_Seq[OF can_rules(3) can_rules(6)]) (simp add: in_ranges_def space_ranges_def)
  have "can assignmentRE None (segs ''pwd:[REDACTED SECRET]'') (Some 91) ?ys"
    unfolding assignmentRE_def s
    by (rule can_seq_all(2)[OF can_Group[OF can_rules(7)[OF can_rules(5)]]], rule can_seq_all(2)[OF words], simp,
        rule can_seq_all(2)[OF can_Group[OF can_seq_all(2)[OF can_rules(6) can_seq_all(2)[OF colon can_seq_all(2)[OF can_rules(6) can_seq_all(1)]]]]],
        unfold quote_re_def opt_re_def, rule can_seq_all(2)[OF can_Group[OF can_rules(8)[OF can_rules(1)]]],
        rule can_seq_all(2)[OF can_Group[OF bracket]], rule can_seq_all(2)[OF can_Group[OF can_rules(8)[OF can_rules(1)]]], rule can_seq_all(1))
  then show ?thesis
    by (simp add: containsSensitiveValue_def sensitiveValuePatterns_def can_match)
qed

section \<open>A card is read back as it was written\<close>

text \<open>The fixed sections: their keys are their own normal forms, their headers are found by their titles.\<close>

lemmas string_eval = trim_space_def trim_ends_def dec_more_def is_space_def runes_def

lemmas lower_eval = to_lower_def runes_def dec_more_def str_of_runes_def enc_rune_def valid_rune_def lower_rune_def char_of_def bit_iff_odd

lemma lower_keys:
  "to_lower ''user_background'' = ''user_background''" "to_lower ''user_preferences'' = ''user_preferences''"
  "to_lower ''project_context'' = ''project_context''" "to_lower ''current_progress'' = ''current_progress''"
  "to_lower ''decisions'' = ''decisions''" "to_lower ''do_not_remember'' = ''do_not_remember''"
  by (simp_all add: lower_eval)

lemma lower_titles:
  "to_lower ''User Background'' = ''user background''" "to_lower ''User Preferences'' = ''user preferences''"
  "to_lower ''Project Context'' = ''project context''" "to_lower ''Current Progress'' = ''current progress''"
  "to_lower ''Decisions'' = ''decisions''" "to_lower ''Do Not Remember'' = ''do not remember''"
  by (simp_all add: lower_eval)

lemma header_titles:
  "FindSubmatch sectionHeaderRE 1 ''## User Background'' = Some ''User Background''"
  "FindSubmatch sectionHeaderRE 1 ''## User Preferences'' = Some ''User Preferences''"
  "FindSubmatch sectionHeaderRE 1 ''## Project Context'' = Some ''Project Context''"
  "FindSubmatch sectionHeaderRE 1 ''## Current Progress'' = Some ''Current Progress''"
  "FindSubmatch sectionHeaderRE 1 ''## Decisions'' = Some ''Decisions''"
  "FindSubmatch sectionHeaderRE 1 ''## Do Not Remember'' = Some ''Do Not Remember''"
  by (simp_all add: FindSubmatch_def sectionHeaderRE_def dec_more_def seq_all_def plus_re_def opt_re_def space_ranges_def in_ranges_def
      step_if_def rune_re_def submatch_def Let_def seg_text_def)

lemma trim_headers:
  "trim_space ''## User Background'' = ''## User Background''" "trim_space ''## User Preferences'' = ''## User Preferences''"
  "trim_space ''## Project Context'' = ''## Project Context''" "trim_space ''## Current Progress'' = ''## Current Progress''"
  "trim_space ''## Decisions'' = ''## Decisions''" "trim_space ''## Do Not Remember'' = ''## Do Not Remember''"
  "trim_space ''User Background'' = ''User Background''" "trim_space ''User Preferences'' = ''User Preferences''"
  "trim_space ''Project Context'' = ''Project Context''" "trim_space ''Current Progress'' = ''Current Progress''"
  "trim_space ''Decisions'' = ''Decisions''" "trim_space ''Do Not Remember'' = ''Do Not Remember''"
  by (simp_all add: string_eval)

lemma lower_under:
  "to_lower ''User_Background'' = ''user_background''" "to_lower ''User_Preferences'' = ''user_preferences''"
  "to_lower ''Project_Context'' = ''project_context''" "to_lower ''Current_Progress'' = ''current_progress''"
  "to_lower ''Do_Not_Remember'' = ''do_not_remember''"
  by (simp_all add: lower_eval)

lemma trim_keys:
  "trim_space ''user_background'' = ''user_background''" "trim_space ''user_preferences'' = ''user_preferences''"
  "trim_space ''project_context'' = ''project_context''" "trim_space ''current_progress'' = ''current_progress''"
  "trim_space ''decisions'' = ''decisions''" "trim_space ''do_not_remember'' = ''do_not_remember''"
  by (simp_all add: string_eval)

lemma key_forms:
  "NormalizeSectionKey ''user_background'' = ''user_background''" "NormalizeSectionKey ''user_preferences'' = ''user_preferences''"
  "NormalizeSectionKey ''project_context'' = ''project_context''" "NormalizeSectionKey ''current_progress'' = ''current_progress''"
  "NormalizeSectionKey ''decisions'' = ''decisions''" "NormalizeSectionKey ''do_not_remember'' = ''do_not_remember''"
  by (simp_all add: NormalizeSectionKey_def lower_keys lower_titles lower_under replace_char_def SectionDefs_def Let_def trim_keys)

lemma less_six: "(j :: nat) < 6 \<longleftrightarrow> j = 0 \<or> j = 1 \<or> j = 2 \<or> j = 3 \<or> j = 4 \<or> j = 5"
  by linarith

lemma parse_header:
  assumes "j < 6"
  shows "parse_line p (''## '' @ snd (SectionDefs ! j)) = p\<lparr>ps_current := Some j, ps_seen := True\<rparr>"
proof -
  have "[0..<6] = [0, 1, 2, 3, 4, 5 :: nat]" by (simp add: upt_rec)
  then show ?thesis
    using assms unfolding less_six
    by (elim disjE)
      (simp_all add: parse_line_def section_index_def header_titles[simplified] trim_headers[simplified] lower_titles SectionDefs_def Let_def)
qed

text \<open>An item the card keeps as it is.\<close>

definition clean_item :: "string \<Rightarrow> bool" where
  "clean_item i \<longleftrightarrow> i \<noteq> [] \<and> trim_space i = i \<and> \<not> has_prefix i ''- '' \<and> \<not> has_prefix i ''* '' \<and> to_lower i \<notin> set no_items \<and> CHR 0x0A \<notin> set i"

lemma segs_item: "segs (''- '' @ i) = (45, ''-'') # (32, '' '') # segs i"
  by (simp add: dec_more_def)

lemma trim_item: "clean_item i \<Longrightarrow> trim_space (''- '' @ i) = ''- '' @ i"
  by (rule trim_space_fixed, simp, unfold segs_item) (simp_all add: clean_item_def trim_space_ends(2))

lemma no_header_match: "rx_find sectionHeaderRE (Some q) xs = None"
  by (induction xs arbitrary: q) (simp_all add: sectionHeaderRE_def seq_all_def)

lemma parse_item:
  assumes "clean_item i"
  shows "parse_line p (''- '' @ i) = add_item i p"
proof -
  have c: "cleanItem (''- '' @ i) = i"
    using assms trim_item[OF assms, simplified] by (simp add: cleanItem_def trim_prefix_def clean_item_def Let_def)
  have "rx_find sectionHeaderRE None (segs (''- '' @ i)) = None"
    unfolding segs_item
    by (simp only: rx_find.simps no_header_match fst_conv, simp add: sectionHeaderRE_def seq_all_def rune_re_def in_ranges_def step_if_def)
  then have f: "FindSubmatch sectionHeaderRE 1 (''- '' @ i) = None" by (simp add: FindSubmatch_def del: append_Cons)
  have "i \<noteq> []" using assms by (simp add: clean_item_def)
  then show ?thesis by (simp only: parse_line_def Let_def trim_item[OF assms] f c) simp
qed

lemma parse_blank: "parse_line p [] = p"
  by (simp add: parse_line_def)

text \<open>The card with the items \<open>f\<close>, and the lines it is written in.\<close>

definition memory_card :: "(nat \<Rightarrow> string list) \<Rightarrow> mem_section list" where
  "memory_card f = map (\<lambda>j. \<lparr>ms_key = fst (SectionDefs ! j), ms_title = snd (SectionDefs ! j), ms_items = f j\<rparr>) [0..<6]"

definition section_lines :: "(nat \<Rightarrow> string list) \<Rightarrow> nat \<Rightarrow> string list" where
  "section_lines f j = (''## '' @ snd (SectionDefs ! j)) # map (\<lambda>i. ''- '' @ i) (f j)"

fun card_lines :: "(nat \<Rightarrow> string list) \<Rightarrow> nat list \<Rightarrow> string list" where
  "card_lines f [] = []"
| "card_lines f [j] = section_lines f j"
| "card_lines f (j # k # js) = section_lines f j @ [[], []] @ card_lines f (k # js)"

lemma card_put: "j < 6 \<Longrightarrow> (memory_card f)[j := (memory_card f ! j)\<lparr>ms_items := xs\<rparr>] = memory_card (f(j := xs))"
  by (rule nth_equalityI) (auto simp: memory_card_def nth_list_update)

lemma card_items: "j < 6 \<Longrightarrow> ms_items (memory_card f ! j) = f j"
  by (simp add: memory_card_def)

lemma parse_items:
  "list_all clean_item xs \<Longrightarrow> j < 6 \<Longrightarrow> ps_current p = Some j \<Longrightarrow> ps_sections p = memory_card g \<Longrightarrow>
   foldl parse_line p (map (\<lambda>i. ''- '' @ i) xs) = p\<lparr>ps_sections := memory_card (g(j := g j @ xs))\<rparr>"
proof (induction xs arbitrary: p g)
  case (Cons x xs)
  define h where "h = g(j := g j @ [x])"
  have h: "h(j := h j @ xs) = g(j := g j @ x # xs)" by (simp add: h_def)
  have "parse_line p (''- '' @ x) = p\<lparr>ps_sections := memory_card h\<rparr>"
    using Cons.prems parse_item[of x p] by (simp add: add_item_def card_put card_items h_def)
  then show ?case using Cons.IH[of "p\<lparr>ps_sections := memory_card h\<rparr>" h] Cons.prems by (simp add: h)
qed simp

lemma parse_section:
  assumes "list_all clean_item (f j)" "j < 6" "ps_sections p = memory_card g" "g j = []"
  shows "foldl parse_line p (section_lines f j) = p\<lparr>ps_sections := memory_card (g(j := f j)), ps_current := Some j, ps_seen := True\<rparr>"
  using assms parse_items[of "f j" j "p\<lparr>ps_current := Some j, ps_seen := True\<rparr>" g]
  by (simp only: section_lines_def foldl_Cons parse_header) (simp cong: map_cong)

lemma parse_card:
  "js \<noteq> [] \<Longrightarrow> distinct js \<Longrightarrow> \<forall>j\<in>set js. j < 6 \<and> list_all clean_item (f j) \<and> g j = [] \<Longrightarrow> ps_sections p = memory_card g \<Longrightarrow>
   foldl parse_line p (card_lines f js) =
     p\<lparr>ps_sections := memory_card (\<lambda>j. if j \<in> set js then f j else g j), ps_current := Some (last js), ps_seen := True\<rparr>"
proof (induction f js arbitrary: p g rule: card_lines.induct)
  case (2 f j)
  have "(\<lambda>i. if i \<in> set [j] then f i else g i) = g(j := f j)" by auto
  then show ?case using 2 parse_section[of f j p g] by (simp del: fun_upd_apply)
next
  case (3 f j k js)
  define h where "h = g(j := f j)"
  let ?q = "p\<lparr>ps_sections := memory_card h, ps_current := Some j, ps_seen := True\<rparr>"
  have "foldl parse_line p (section_lines f j) = ?q"
    unfolding h_def using "3.prems" by (intro parse_section[of f j p g]) auto
  moreover have "foldl parse_line ?q (card_lines f (k # js)) =
    ?q\<lparr>ps_sections := memory_card (\<lambda>i. if i \<in> set (k # js) then f i else h i), ps_current := Some (last (k # js)), ps_seen := True\<rparr>"
    using "3.prems" by (intro "3.IH") (auto simp: h_def fun_upd_def)
  moreover have "(\<lambda>i. if i \<in> set (k # js) then f i else h i) = (\<lambda>i. if i \<in> set (j # k # js) then f i else g i)"
    using "3.prems" by (auto simp: h_def)
  ultimately show ?case by (simp only: card_lines.simps foldl_append foldl_Cons foldl_Nil parse_blank) simp
qed simp

text \<open>Lines joined and split.\<close>

definition unlines :: "string list \<Rightarrow> string" where
  "unlines ls = concat (map (\<lambda>l. l @ newline) ls)"

lemma split_line: "CHR 0x0A \<notin> set l \<Longrightarrow> split_lines (l @ newline @ s) = l # split_lines s"
  by (induction l) (auto simp: newline_def)

lemma split_last: "CHR 0x0A \<notin> set l \<Longrightarrow> split_lines l = [l]"
  by (induction l) auto

lemma split_unlines: "\<forall>l\<in>set ls. CHR 0x0A \<notin> set l \<Longrightarrow> split_lines (unlines ls @ s) = ls @ split_lines s"
  by (induction ls) (auto simp: unlines_def split_line)

lemma section_text_lines: "section_text (snd (SectionDefs ! j)) (f j) = unlines (section_lines f j)"
  by (simp add: section_text_def unlines_def section_lines_def comp_def)

lemma card_text: "join_with (newline @ newline) (map (\<lambda>j. section_text (snd (SectionDefs ! j)) (f j)) js) = unlines (card_lines f js)"
proof (induction f js rule: card_lines.induct)
  case (3 f j k js)
  then show ?case by (simp add: section_text_lines) (simp add: unlines_def)
qed (simp_all add: section_text_lines, simp add: unlines_def)

lemma last_card_lines: "js \<noteq> [] \<Longrightarrow> \<forall>j\<in>set js. f j \<noteq> [] \<Longrightarrow> \<exists>j\<in>set js. \<exists>i\<in>set (f j). card_lines f js \<noteq> [] \<and> last (card_lines f js) = ''- '' @ i"
proof (induction f js rule: card_lines.induct)
  case (2 f j)
  then show ?case by (intro bexI[of _ j] bexI[of _ "last (f j)"]) (auto simp: section_lines_def last_map)
next
  case (3 f j k js)
  then obtain a i where "a \<in> set (k # js)" "i \<in> set (f a)" "card_lines f (k # js) \<noteq> []" "last (card_lines f (k # js)) = ''- '' @ i" by auto
  then show ?case by (intro bexI[of _ a] bexI[of _ i]) auto
qed simp

lemma trim_newline:
  assumes "s \<noteq> []" "\<not> is_space (fst (hd (segs s)))" "\<not> is_space (fst (last (segs s)))"
  shows "trim_space (s @ newline) = s"
proof -
  let ?P = "\<lambda>p :: nat \<times> string. is_space (fst p)"
  have t: "segs (s @ newline) = segs s @ [(10, newline)]"
    by (subst segs_append_ascii) (simp_all add: newline_def dec_more_def)
  have "dropWhile ?P (segs s @ [(10, newline)]) = segs s @ [(10, newline)]" using assms(1,2) by (cases "segs s") auto
  moreover have "dropWhile ?P (rev (segs s)) = rev (segs s)" using assms(1,3) by (cases "segs s" rule: rev_cases) auto
  ultimately have "trim_ends ?P (segs s @ [(10, newline)]) = segs s" by (simp add: trim_ends_def)
  then show ?thesis by (simp add: trim_space_def t segs_concat)
qed

lemma unlines_butlast: "ls \<noteq> [] \<Longrightarrow> unlines ls = (unlines (butlast ls) @ last ls) @ newline"
  by (induction ls rule: rev_induct) (simp_all add: unlines_def)

text \<open>A card whose items are clean, those not to remember not being values themselves.\<close>

definition clean_card :: "(nat \<Rightarrow> string list) \<Rightarrow> bool" where
  "clean_card f \<longleftrightarrow> list_all (\<lambda>j. list_all clean_item (f j)) [0..<6] \<and>
     \<not> containsSensitiveValue (join_with newline (f 5)) \<and> list_all (\<lambda>i. \<not> MatchString doNotRememberSensitiveValueRE i) (f 5)"

definition card_document :: "(nat \<Rightarrow> string list) \<Rightarrow> document" where
  "card_document f = \<lparr>doc_sections = memory_card f, doc_legacy = False\<rparr>"

lemma clean_cardD: "clean_card f \<Longrightarrow> j < 6 \<Longrightarrow> list_all clean_item (f j)"
  by (auto simp: clean_card_def list_all_iff)

lemma upt_six: "[0..<6] = [0, 1, 2, 3, 4, 5 :: nat]"
  by (simp add: upt_rec)

lemma card_keys:
  "j < 6 \<Longrightarrow> section_key \<lparr>ms_key = fst (SectionDefs ! j), ms_title = snd (SectionDefs ! j), ms_items = xs\<rparr> = fst (SectionDefs ! j)"
  unfolding less_six
  by (elim disjE) (simp_all add: section_key_def firstNonEmpty_def SectionDefs_def trim_keys key_forms)

lemma clean_fixed: "list_all clean_item xs \<Longrightarrow> filter (\<lambda>i. i \<noteq> []) (map cleanItem xs) = xs"
  by (induction xs) (auto simp: clean_item_def cleanItem_def trim_prefix_def)

lemma cleaned_card:
  assumes "clean_card f" "j < 6"
  shows "cleaned_items (memory_card f ! j) = f j"
proof -
  have j: "memory_card f ! j = \<lparr>ms_key = fst (SectionDefs ! j), ms_title = snd (SectionDefs ! j), ms_items = f j\<rparr>"
    using assms(2) by (simp add: memory_card_def)
  have five: "fst (SectionDefs ! j) = ''do_not_remember'' \<longleftrightarrow> j = 5"
    using assms(2) unfolding less_six by (elim disjE) (simp_all add: SectionDefs_def)
  have c: "filter (\<lambda>i. i \<noteq> []) (map cleanItem (f j)) = f j" using assms clean_cardD clean_fixed by blast
  show ?thesis
  proof (cases "j = 5")
    case True
    have "map sanitizeDoNotRememberItem (f 5) = f 5"
      using assms(1) by (intro map_idI) (auto simp: clean_card_def list_all_iff sanitizeDoNotRememberItem_def)
    then show ?thesis
      using assms(1) c True unfolding j cleaned_items_def card_keys[OF assms(2)] five by (simp add: clean_card_def)
  next
    case False
    then show ?thesis using c unfolding j cleaned_items_def card_keys[OF assms(2)] five by simp
  qed
qed

lemma find_card: "j < 6 \<Longrightarrow> find (\<lambda>s. section_key s = fst (SectionDefs ! j)) (rev (memory_card f)) = Some (memory_card f ! j)"
  unfolding less_six memory_card_def upt_six
  by (elim disjE) (simp_all add: card_keys[of 0, simplified] card_keys[of 1, simplified] card_keys[of 2, simplified]
      card_keys[of 3, simplified] card_keys[of 4, simplified] card_keys[of 5, simplified], simp_all add: SectionDefs_def)

lemma items_of_card: "clean_card f \<Longrightarrow> j < 6 \<Longrightarrow> items_of (card_document f) (fst (SectionDefs ! j)) = f j"
  by (simp add: items_of_def card_document_def find_card cleaned_card)

lemma Serialize_items:
  assumes "\<And>j. j < 6 \<Longrightarrow> items_of d (fst (SectionDefs ! j)) = g j"
  shows "Serialize d = trim_space (unlines (card_lines g (filter (\<lambda>j. g j \<noteq> []) [0..<6])))"
proof -
  have s: "SectionDefs = map ((!) SectionDefs) [0..<6]" by (simp add: upt_six) (simp add: SectionDefs_def)
  let ?P = "\<lambda>(k, t). items_of d k \<noteq> []"
  have "filter ?P SectionDefs = filter ?P (map ((!) SectionDefs) [0..<6])" by (rule arg_cong[OF s])
  also have "\<dots> = map ((!) SectionDefs) (filter (\<lambda>j. g j \<noteq> []) [0..<6])"
    unfolding filter_map by (rule arg_cong[of _ _ "map _"], rule filter_cong) (auto simp: case_prod_beta assms)
  finally have f: "filter ?P SectionDefs = map ((!) SectionDefs) (filter (\<lambda>j. g j \<noteq> []) [0..<6])" .
  have "map (\<lambda>(k, t). section_text t (items_of d k)) (map ((!) SectionDefs) (filter (\<lambda>j. g j \<noteq> []) [0..<6])) =
    map (\<lambda>j. section_text (snd (SectionDefs ! j)) (g j)) (filter (\<lambda>j. g j \<noteq> []) [0..<6])"
    by (auto simp: case_prod_beta assms)
  then show ?thesis by (simp only: Serialize_def f card_text)
qed

lemma Serialize_card:
  "clean_card f \<Longrightarrow> Serialize (card_document f) = trim_space (unlines (card_lines f (filter (\<lambda>j. f j \<noteq> []) [0..<6])))"
  by (rule Serialize_items) (rule items_of_card)

lemma title_line: "j < 6 \<Longrightarrow> CHR 0x0A \<notin> set (snd (SectionDefs ! j))"
  unfolding less_six by (elim disjE) (simp_all add: SectionDefs_def)

lemma card_lines_inline:
  "\<forall>j\<in>set js. j < 6 \<and> list_all clean_item (f j) \<Longrightarrow> l \<in> set (card_lines f js) \<Longrightarrow> CHR 0x0A \<notin> set l"
  by (induction f js rule: card_lines.induct) (auto simp: section_lines_def title_line list_all_iff clean_item_def)

lemma card_lines_start: "\<exists>l ls. card_lines f (j # js) = (CHR ''#'' # l) # ls"
  by (cases js) (simp_all add: section_lines_def)

lemma unlines_start: "ls = (c # l) # ms \<Longrightarrow> \<exists>r. unlines (butlast ls) @ last ls = c # r"
  by (cases ms) (auto simp: unlines_def)

lemma card_reads_back:
  assumes "clean_card f"
  shows "Parse (Serialize (card_document f)) = card_document f"
proof -
  define js where "js = filter (\<lambda>j. f j \<noteq> []) [0..<6]"
  define ls where "ls = card_lines f js"
  have js: "\<forall>j\<in>set js. j < 6 \<and> list_all clean_item (f j) \<and> f j \<noteq> []" "distinct js"
    using clean_cardD[OF assms] by (auto simp: js_def)
  have all: "memory_card (\<lambda>j. if j \<in> set js then f j else []) = memory_card f"
    by (auto simp: memory_card_def js_def)
  have empty: "doc_sections EmptyDocument = memory_card (\<lambda>_. [])"
    unfolding memory_card_def upt_six by (simp add: EmptyDocument_def SectionDefs_def)
  show ?thesis
  proof (cases js)
    case Nil
    then have "Serialize (card_document f) = []" by (simp add: Serialize_card[OF assms] flip: js_def) (simp add: unlines_def)
    moreover have "card_document f = EmptyDocument" using all empty Nil by (simp add: card_document_def EmptyDocument_def)
    ultimately show ?thesis by (simp add: Parse_def)
  next
    case (Cons j js')
    let ?k = "unlines (butlast ls) @ last ls"
    obtain l ms where start: "ls = (CHR ''#'' # l) # ms" using card_lines_start[of f j js'] by (auto simp: ls_def Cons)
    then obtain r where k: "?k = CHR ''#'' # r" using unlines_start by blast
    obtain i where i: "clean_item i" "last ls = ''- '' @ i"
      using last_card_lines[of js f] js Cons unfolding ls_def list_all_iff by blast
    have "segs ?k = segs (unlines (butlast ls)) @ segs (''- '' @ i)" unfolding i(2) by (subst segs_append_ascii) simp_all
    then have "last (segs ?k) = last (segs i)" using i(1) by (simp only: segs_item) (simp add: clean_item_def)
    moreover have "hd (segs ?k) = (35, ''#'')" unfolding k by (simp add: dec_more_def)
    ultimately have ends: "?k \<noteq> []" "\<not> is_space (fst (hd (segs ?k)))" "\<not> is_space (fst (last (segs ?k)))"
      using i(1) trim_space_ends(2)[of i] k by (simp_all add: clean_item_def)
    have "Serialize (card_document f) = ?k"
      using trim_newline[OF ends] unlines_butlast[of ls] start by (simp add: Serialize_card[OF assms] flip: js_def ls_def)
    moreover have "trim_space ?k = ?k" using trim_space_fixed ends by blast
    moreover have "split_lines ?k = ls"
    proof -
      have inl: "CHR 0x0A \<notin> set x" if "x \<in> set ls" for x using card_lines_inline[of js f x] js that by (auto simp: ls_def)
      have "split_lines ?k = butlast ls @ split_lines (last ls)" using inl by (intro split_unlines) (auto dest: in_set_butlastD)
      also have "split_lines (last ls) = [last ls]" using inl start by (intro split_last) auto
      finally show ?thesis using start by simp
    qed
    moreover have "foldl parse_line \<lparr>ps_sections = doc_sections EmptyDocument, ps_current = None, ps_seen = False, ps_legacy = []\<rparr> ls =
      \<lparr>ps_sections = memory_card f, ps_current = Some (last js), ps_seen = True, ps_legacy = []\<rparr>"
      unfolding ls_def using js Cons all empty by (subst parse_card[where g = "\<lambda>_. []"]) auto
    ultimately show ?thesis using k by (simp add: Parse_def card_document_def Let_def)
  qed
qed

text \<open>
  C30.
  A memory card whose items are clean is read back from its text as it was written, section by section.
\<close>

theorem card_roundtrip:
  assumes "clean_card f"
  shows "Parse (Serialize (card_document f)) = card_document f"
  by (rule card_reads_back[OF assms])

text \<open>No credential fits in three runes.\<close>

lemma short_not_sensitive: "rune_count s < 4 \<Longrightarrow> \<not> containsSensitiveValue s"
proof -
  have a: "rune_count s < 4 \<Longrightarrow> 4 \<le> min_runes r \<Longrightarrow> \<not> MatchString r s" for r by (rule MatchString_short) simp
  have lits: "rune_count ''-----BEGIN '' = 11" "rune_count ''://'' = 3" "rune_count ''authorization'' = 13" "rune_count ''sk-'' = 3"
    by (simp_all add: rune_count_def dec_more_def)
  have words: "2 \<le> min_runes (alt_all [lit_ci ''password'', lit_ci ''passwd'', lit_ci ''pwd'', two_words ''api'' ''key'', two_words ''client'' ''secret'',
       two_words ''access'' ''token'', two_words ''refresh'' ''token'', two_words ''auth'' ''token'', two_words ''private'' ''key'',
       Seq (rune_re 23494) (rune_re 30721), Seq (rune_re 21475) (rune_re 20196), Seq (rune_re 20196) (rune_re 29260),
       seq_all [lit_ci ''api'', Star True (Cls space_ranges), rune_re 23494, rune_re 38053]])"
    by (simp add: min_runes_alt_all min_runes_seq_all two_words_def rune_count_def dec_more_def)
  have tokens: "4 \<le> min_runes tokenRE"
    by (simp add: tokenRE_def Let_def min_runes_seq_all min_runes_alt_all at_least_def times_re_def sum_list_replicate rune_count_def dec_more_def)
  show "rune_count s < 4 \<Longrightarrow> \<not> containsSensitiveValue s"
    unfolding containsSensitiveValue_def sensitiveValuePatterns_def
    using words tokens by (simp add: a privateKeyRE_def Let_def connectionRE_def authorizationRE_def assignmentRE_def min_runes_seq_all lits plus_re_def)
qed

lemma nothing_sensitive: "\<not> containsSensitiveValue []"
  by (rule short_not_sensitive) (simp add: rune_count_def)

text \<open>A short text without a colon or an equals sign holds no credential.\<close>

lemma plain_not_sensitive:
  assumes "rune_count s < 12" "list_all (\<lambda>x. fst x \<notin> set [58, 61, 65306]) (segs s)"
  shows "\<not> containsSensitiveValue s"
proof -
  have n: "needs [58, 61, 65306] r \<Longrightarrow> \<not> MatchString r s" for r using needs_none assms(2) by (simp add: MatchString_def)
  have a: "12 \<le> min_runes r \<Longrightarrow> \<not> MatchString r s" for r using assms(1) by (intro MatchString_short) simp
  have lits: "rune_count ''-----BEGIN '' = 11" "rune_count ''-----END '' = 9" "rune_count ''PRIVATE KEY-----'' = 16"
    by (simp_all add: rune_count_def dec_more_def)
  have "12 \<le> min_runes tokenRE"
    by (simp add: tokenRE_def Let_def min_runes_seq_all min_runes_alt_all at_least_def times_re_def sum_list_replicate rune_count_def dec_more_def)
  moreover have "12 \<le> min_runes privateKeyRE" by (simp add: privateKeyRE_def Let_def min_runes_seq_all lits)
  moreover have "needs [58, 61, 65306] connectionRE" "needs [58, 61, 65306] authorizationRE" "needs [58, 61, 65306] assignmentRE"
    by (simp_all add: connectionRE_def authorizationRE_def assignmentRE_def needs_seq_all rune_re_def)
  ultimately show ?thesis
    unfolding containsSensitiveValue_def sensitiveValuePatterns_def by (simp add: a n)
qed


lemma card_roundtrip_witness:
  "clean_card (\<lambda>j. if j = 0 then [''Go''] else []) \<and>
   Parse (Serialize (card_document (\<lambda>j. if j = 0 then [''Go''] else []))) = card_document (\<lambda>j. if j = 0 then [''Go''] else [])"
proof -
  have "to_lower ''Go'' = ''go''" by (simp add: lower_eval)
  moreover have "trim_space ''Go'' = ''Go''" by (simp add: string_eval)
  ultimately have "clean_item ''Go''"
    by (simp add: clean_item_def no_items_def str_of_runes_def enc_rune_def valid_rune_def char_of_def)
  then have c: "clean_card (\<lambda>j. if j = 0 then [''Go''] else [])" by (simp add: clean_card_def upt_six nothing_sensitive)
  with card_roundtrip[OF c] show ?thesis by blast
qed

text \<open>The empty card.\<close>

lemma EmptyDocument_card: "EmptyDocument = card_document (\<lambda>_. [])"
  unfolding card_document_def memory_card_def upt_six by (simp add: EmptyDocument_def SectionDefs_def)

lemma Normalize_empty: "NormalizeWithLimits [] l = Inr ([], EmptyDocument)"
proof -
  have c: "clean_card (\<lambda>_. [])" by (simp add: clean_card_def list_all_iff nothing_sensitive)
  have s: "Serialize EmptyDocument = []" unfolding EmptyDocument_card by (simp add: Serialize_card[OF c]) (simp add: unlines_def)
  have h: "FindSubmatch sectionHeaderRE 1 [] = None"
    unfolding FindSubmatch_def by (subst rx_find_short) (simp_all add: sectionHeaderRE_def min_runes_seq_all plus_re_def)
  have u: "rejectUnknownSections [] = None" using h by (simp add: rejectUnknownSections_def List.map_filter_def)
  have p: "Parse [] = EmptyDocument" by (simp add: Parse_def)
  have r: "\<not> rejectSensitiveValues EmptyDocument" by (simp add: rejectSensitiveValues_def EmptyDocument_def SectionDefs_def nothing_sensitive)
  have v: "ValidateContentWithLimits [] l" by (simp add: ValidateContentWithLimits_def NormalizeLimits_def Let_def rune_count_def MaxChars_def)
  show ?thesis by (simp only: NormalizeWithLimits_def u p s r v Let_def) simp
qed

section \<open>A card is not written the same twice\<close>

lemma items_read:
  "cleanItem ''- - - none'' = ''- - none''" "cleanItem ''- - none'' = ''- none''" "cleanItem ''- none'' = []"
proof -
  have "to_lower ''- - none'' = ''- - none''" "to_lower ''- none'' = ''- none''" "to_lower ''none'' = ''none''" by (simp_all add: lower_eval)
  moreover have "trim_space ''- - - none'' = ''- - - none''" "trim_space ''- - none'' = ''- - none''" "trim_space ''- none'' = ''- none''"
    "trim_space ''none'' = ''none''" by (simp_all add: string_eval)
  ultimately show "cleanItem ''- - - none'' = ''- - none''" "cleanItem ''- - none'' = ''- none''" "cleanItem ''- none'' = []"
    by (simp_all add: cleanItem_def trim_prefix_def no_items_def Let_def str_of_runes_def enc_rune_def valid_rune_def char_of_def)
qed

lemma no_header: "FindSubmatch sectionHeaderRE 1 (CHR ''-'' # s) = None"
proof -
  have "segs (CHR ''-'' # s) = (45, ''-'') # segs s" by (simp add: dec_more_def)
  then show ?thesis
    by (simp only: FindSubmatch_def rx_find.simps no_header_match fst_conv)
      (simp add: sectionHeaderRE_def seq_all_def rune_re_def in_ranges_def step_if_def)
qed

text \<open>The card with one item under the current progress.\<close>

definition progress_card :: "string \<Rightarrow> document" where
  "progress_card i = card_document (\<lambda>j. if j = 3 then [i] else [])"

lemma progress_items:
  assumes "j < 6"
  shows "items_of (progress_card i) (fst (SectionDefs ! j)) = (if j = 3 \<and> cleanItem i \<noteq> [] then [cleanItem i] else [])"
proof -
  let ?f = "\<lambda>j. if j = (3 :: nat) then [i] else []"
  have m: "memory_card ?f ! j = \<lparr>ms_key = fst (SectionDefs ! j), ms_title = snd (SectionDefs ! j), ms_items = ?f j\<rparr>"
    using assms by (simp add: memory_card_def)
  have three: "fst (SectionDefs ! 3) \<noteq> ''do_not_remember''" by (simp add: SectionDefs_def)
  show ?thesis
    using assms three unfolding items_of_def progress_card_def card_document_def
    by (simp add: find_card m cleaned_items_def card_keys nothing_sensitive Let_def)
qed

definition progress_text :: "string \<Rightarrow> string" where
  "progress_text i = ''## Current Progress'' @ newline @ ''- '' @ i"

lemma progress_written:
  "cleanItem i = [] \<Longrightarrow> Serialize (progress_card i) = []"
  "cleanItem i \<noteq> [] \<Longrightarrow> \<not> is_space (fst (last (segs (progress_text (cleanItem i))))) \<Longrightarrow> Serialize (progress_card i) = progress_text (cleanItem i)"
proof -
  note w = Serialize_items[of "progress_card i", OF progress_items]
  show "cleanItem i = [] \<Longrightarrow> Serialize (progress_card i) = []"
    by (simp add: w upt_six) (simp add: unlines_def)
  assume "cleanItem i \<noteq> []" and e: "\<not> is_space (fst (last (segs (progress_text (cleanItem i)))))"
  then have "Serialize (progress_card i) = trim_space (progress_text (cleanItem i) @ newline)"
    by (simp add: w upt_six section_lines_def unlines_def SectionDefs_def progress_text_def)
  then show "Serialize (progress_card i) = progress_text (cleanItem i)"
    using trim_newline[OF _ _ e] by (simp add: progress_text_def dec_more_def)
qed

lemma legacy_written: "Serialize (d\<lparr>doc_legacy := b\<rparr>) = Serialize d"
  by (simp add: Serialize_def items_of_def)

lemma progress_read:
  assumes t: "trim_space (''- '' @ i) = ''- '' @ i" "trim_space (progress_text i) = progress_text i"
    and i: "CHR 0x0A \<notin> set i" "cleanItem (''- '' @ i) \<noteq> []"
  shows "Parse (progress_text i) = progress_card (cleanItem (''- '' @ i))" "Parse (''- '' @ i) = (progress_card (cleanItem (''- '' @ i)))\<lparr>doc_legacy := True\<rparr>"
    "rejectUnknownSections (progress_text i) = None" "rejectUnknownSections (''- '' @ i) = None"
proof -
  have l1: "split_lines (''- '' @ i) = [''- '' @ i]" using i(1) by (intro split_last) auto
  then have l2: "split_lines (progress_text i) = [''## Current Progress'', ''- '' @ i]" by (simp add: progress_text_def newline_def)
  have h: "parse_line p ''## Current Progress'' = p\<lparr>ps_current := Some 3, ps_seen := True\<rparr>" for p
    using parse_header[of 3 p] by (simp add: SectionDefs_def)
  have n: "FindSubmatch sectionHeaderRE 1 (''- '' @ i) = None" using no_header[of "CHR '' '' # i"] by simp
  have item: "parse_line p (''- '' @ i) = add_item (cleanItem (''- '' @ i)) p" for p
    using i(2) unfolding parse_line_def Let_def t(1) n by simp
  have k: "NormalizeSectionKey ''Current Progress'' = ''current_progress''"
    by (simp add: NormalizeSectionKey_def lower_titles lower_under replace_char_def SectionDefs_def Let_def trim_headers trim_keys)
  have e: "progress_text i \<noteq> []" by (simp add: progress_text_def)
  show "Parse (progress_text i) = progress_card (cleanItem (''- '' @ i))"
    unfolding Parse_def t(2) l2 Let_def progress_card_def card_document_def memory_card_def upt_six
    using e by (simp add: h item[simplified] add_item_def EmptyDocument_def SectionDefs_def)
  show "Parse (''- '' @ i) = (progress_card (cleanItem (''- '' @ i)))\<lparr>doc_legacy := True\<rparr>"
    unfolding Parse_def t(1) l1 Let_def progress_card_def card_document_def memory_card_def upt_six
    by (simp add: item[simplified] add_item_def EmptyDocument_def SectionDefs_def)
  show "rejectUnknownSections (progress_text i) = None" "rejectUnknownSections (''- '' @ i) = None"
    unfolding rejectUnknownSections_def l1 l2 using n t(1)
    by (simp_all add: List.map_filter_def trim_headers header_titles[simplified] k)
qed

lemma progress_within: "length i < 100 \<Longrightarrow> ValidateContentWithLimits (progress_text i) DefaultLimits" "ValidateContentWithLimits [] l"
proof -
  assume "length i < 100"
  then have "length (trim_space (progress_text i)) \<le> 4000"
    using trim_space_length[of "progress_text i"] by (simp add: progress_text_def newline_def)
  then have "rune_count (trim_space (progress_text i)) \<le> 4000" using rune_count_le_length order_trans by blast
  then show "ValidateContentWithLimits (progress_text i) DefaultLimits"
    by (simp add: ValidateContentWithLimits_def DefaultLimits_def NormalizeLimits_def MaxChars_def SoftMaxChars_def Let_def)
qed (simp add: ValidateContentWithLimits_def NormalizeLimits_def Let_def rune_count_def MaxChars_def)

lemma progress_safe: "\<not> containsSensitiveValue i \<Longrightarrow> \<not> rejectSensitiveValues (progress_card i)"
  unfolding progress_card_def rejectSensitiveValues_def card_document_def memory_card_def upt_six
  by (simp add: nothing_sensitive)

lemma legacy_safe: "rejectSensitiveValues (d\<lparr>doc_legacy := b\<rparr>) = rejectSensitiveValues d"
  by (simp add: rejectSensitiveValues_def)

lemma dashes_read:
  "trim_space (''- '' @ ''- - none'') = ''- '' @ ''- - none''" "trim_space (''- '' @ ''- none'') = ''- '' @ ''- none''"
  "trim_space (progress_text ''- - none'') = progress_text ''- - none''" "trim_space (progress_text ''- none'') = progress_text ''- none''"
  by (rule trim_space_fixed; simp add: progress_text_def newline_def dec_more_def)+

lemma dashes_safe: "\<not> containsSensitiveValue ''- - none''" "\<not> containsSensitiveValue ''- none''"
  by (rule plain_not_sensitive; simp add: rune_count_def dec_more_def)+

text \<open>
  The writing of a card is not idempotent: \<open>- - - none\<close> is written as a card with the item \<open>- none\<close>,
  and this card as the empty text.
\<close>

lemma written_twice:
  "NormalizeWithLimits ''- - - none'' DefaultLimits = Inr (progress_text ''- none'', progress_card ''- none'')"
  "NormalizeWithLimits (progress_text ''- none'') l = Inr ([], EmptyDocument)"
  "Parse (progress_text ''- none'') = progress_card ''- none''"
proof -
  note r1 = progress_read[of "''- - none''", OF dashes_read(1,3)]
  note r2 = progress_read[of "''- none''", OF dashes_read(2,4)]
  have p1: "Parse ''- - - none'' = (progress_card ''- - none'')\<lparr>doc_legacy := True\<rparr>" "rejectUnknownSections ''- - - none'' = None"
    using r1(2,4) by (simp_all add: items_read)
  have p2: "Parse (progress_text ''- none'') = progress_card ''- none''" "rejectUnknownSections (progress_text ''- none'') = None"
    using r2(1,3) by (simp_all add: items_read)
  have w: "Serialize (progress_card ''- - none'') = progress_text ''- none''" "Serialize (progress_card ''- none'') = []"
    using progress_written(2)[of "''- - none''"] progress_written(1)[of "''- none''"]
    by (simp_all add: items_read) (simp add: progress_text_def newline_def dec_more_def)
  show "NormalizeWithLimits ''- - - none'' DefaultLimits = Inr (progress_text ''- none'', progress_card ''- none'')"
    using progress_safe[OF dashes_safe(1)]
    by (simp add: NormalizeWithLimits_def p1 p2 legacy_written legacy_safe w progress_within)
  show "NormalizeWithLimits (progress_text ''- none'') l = Inr ([], EmptyDocument)"
    using progress_safe[OF dashes_safe(2)]
    by (simp add: NormalizeWithLimits_def p2 w progress_within) (simp add: Parse_def)
  show "Parse (progress_text ''- none'') = progress_card ''- none''" by (rule p2(1))
qed

end
