(* ===== verification/SessionMemory.thy ===== *)
theory SessionMemory
  imports MemoryDocument Checkpoints RunPersist
begin

text \<open>
  The stored memory of a session (\<^verbatim>\<open>internal/repository/session_memory_repository.go\<close>,
  \<^verbatim>\<open>memory_maintenance_run_repository.go\<close>, \<^verbatim>\<open>model_task_run_repository.go\<close>):
  the tables \<^verbatim>\<open>session_memories\<close>, \<^verbatim>\<open>session_memory_changes\<close> and
  \<^verbatim>\<open>model_task_runs\<close>, beside the run tables of \<open>RunStore\<close>.
  \<open>md_enabled\<close> is the column \<^verbatim>\<open>sessions.memory_enabled\<close>.  The checks of the schema
  are part of the inserts.  \<open>now\<close> is both \<^verbatim>\<open>NOW()\<close> and
  \<^verbatim>\<open>time.Now()\<close>; time 0 is the zero time.
\<close>

section \<open>Tables\<close>

record mem_change =
  mc_id :: int
  mc_run_id :: "string option"
  mc_session_id :: int
  mc_user_id :: int
  mc_source :: string
  mc_action :: string
  mc_before :: string
  mc_after :: string
  mc_summary :: string
  mc_created :: int
  mc_undone :: "int option"

record memory_row =
  mw_session_id :: int
  mw_content :: string
  mw_updated :: int

record task_run_input =
  tk_key :: string
  tk_user_id :: int
  tk_session_id :: int
  tk_run_id :: string
  tk_source :: string
  tk_status :: string
  tk_provider :: string
  tk_model_id :: string
  tk_target_type :: string
  tk_target_id :: string
  tk_error_type :: string
  tk_error_message :: string
  tk_retry_after :: "int option"
  tk_metadata :: string
  tk_started :: int
  tk_finished :: int

record model_task_run =
  mt_id :: int
  mt_input :: task_run_input
  mt_duration_ms :: int

record mem_db =
  md_run :: run_db
  md_enabled :: "(int \<times> bool) list"
  md_memories :: "memory_row list"
  md_changes :: "mem_change list"
  md_next_change :: int
  md_tasks :: "model_task_run list"
  md_next_task :: int

section \<open>Utility task runs\<close>

definition ModelTaskMemoryMaintenance :: string where "ModelTaskMemoryMaintenance = ''memory_maintenance''"
definition ModelTaskSourceAuto :: string where "ModelTaskSourceAuto = ''auto''"
definition ModelTaskSourceManual :: string where "ModelTaskSourceManual = ''manual''"
definition ModelTaskSourceTool :: string where "ModelTaskSourceTool = ''tool''"
definition ModelTaskStatusSuccess :: string where "ModelTaskStatusSuccess = ''success''"
definition ModelTaskStatusFailed :: string where "ModelTaskStatusFailed = ''failed''"
definition ModelTaskStatusSkipped :: string where "ModelTaskStatusSkipped = ''skipped''"
definition maxModelTaskErrorRunes :: nat where "maxModelTaskErrorRunes = 500"

definition normalizeModelTaskKey :: "string \<Rightarrow> string" where
  "normalizeModelTaskKey value0 =
    (if trim_space value0 \<in> set [''title_generation'', ''compression'', ''tool_extract_summary'', ModelTaskMemoryMaintenance]
     then trim_space value0 else [])"

definition normalizeModelTaskSource :: "string \<Rightarrow> string" where
  "normalizeModelTaskSource value0 =
    (if trim_space value0 \<in> set [ModelTaskSourceAuto, ModelTaskSourceManual, ModelTaskSourceTool, ''system'']
     then trim_space value0 else ''system'')"

definition normalizeModelTaskStatus :: "string \<Rightarrow> string" where
  "normalizeModelTaskStatus value0 =
    (if trim_space value0 \<in> set [ModelTaskStatusSuccess, ModelTaskStatusFailed, ModelTaskStatusSkipped]
     then trim_space value0 else ModelTaskStatusFailed)"

definition truncateRunesLocal :: "string \<Rightarrow> nat \<Rightarrow> string" where
  "truncateRunesLocal value0 max0 =
    (if max0 = 0 \<or> rune_count value0 \<le> max0 then value0 else str_of_runes (take max0 (runes value0)))"

definition normalizeModelTaskRunInput :: "int \<Rightarrow> task_run_input \<Rightarrow> task_run_input" where
  "normalizeModelTaskRunInput now input =
    (let started = (if tk_started input = 0 then now else tk_started input)
     in input\<lparr>tk_key := normalizeModelTaskKey (tk_key input), tk_source := normalizeModelTaskSource (tk_source input),
          tk_status := normalizeModelTaskStatus (tk_status input), tk_run_id := trim_space (tk_run_id input),
          tk_provider := trim_space (tk_provider input), tk_model_id := trim_space (tk_model_id input),
          tk_target_type := trim_space (tk_target_type input), tk_target_id := trim_space (tk_target_id input),
          tk_error_type := trim_space (tk_error_type input),
          tk_error_message := truncateRunesLocal (trim_space (tk_error_message input)) maxModelTaskErrorRunes,
          tk_metadata := (if tk_metadata input = [] \<or> \<not> json_valid (tk_metadata input) then ''{}'' else tk_metadata input),
          tk_started := started,
          tk_finished := (if tk_finished input = 0 \<or> tk_finished input < started then started else tk_finished input)\<rparr>)"

text \<open>The INSERT with its foreign keys; 0 is NULL.\<close>

definition insert_task_row :: "task_run_input \<Rightarrow> mem_db \<Rightarrow> (go_err + model_task_run) \<times> mem_db" where
  "insert_task_row input db =
    (if tk_user_id input \<noteq> 0 \<and> map_of (db_users (md_run db)) (tk_user_id input) = None \<or>
        tk_session_id input \<noteq> 0 \<and> map_of (db_sessions (md_run db)) (tk_session_id input) = None
     then (Inl (ErrWrap ''record model task run'' (SqlError ''23503'' ''foreign key'')), db)
     else (let row = \<lparr>mt_id = md_next_task db, mt_input = input, mt_duration_ms = (tk_finished input - tk_started input) div 1000000\<rparr>
       in (Inr row, db\<lparr>md_tasks := md_tasks db @ [row], md_next_task := md_next_task db + 1\<rparr>)))"

definition insertModelTaskRun :: "int \<Rightarrow> task_run_input \<Rightarrow> mem_db \<Rightarrow> (go_err + model_task_run) \<times> mem_db" where
  "insertModelTaskRun now input0 db =
    (let input = normalizeModelTaskRunInput now input0 in
     if tk_key input = [] then (Inl (ErrText ''task_key is required''), db) else insert_task_row input db)"

definition RecordTaskRun :: "db_fault \<Rightarrow> int \<Rightarrow> task_run_input \<Rightarrow> mem_db \<Rightarrow> (go_err + model_task_run) \<times> mem_db" where
  "RecordTaskRun fault now input0 db =
    (let input = normalizeModelTaskRunInput now input0 in
     if tk_key input = [] then (Inl (ErrText ''task_key is required''), db)
     else if tk_source input = [] then (Inl (ErrText ''source is required''), db)
     else if tk_status input = [] then (Inl (ErrText ''status is required''), db)
     else run_tx fault (insert_task_row input) db)"

definition task_of :: "int \<Rightarrow> int \<Rightarrow> string \<Rightarrow> model_task_run \<Rightarrow> bool" where
  "task_of sessionID userID taskKey t \<longleftrightarrow> sessionID \<noteq> 0 \<and> userID \<noteq> 0 \<and> tk_session_id (mt_input t) = sessionID \<and>
     tk_user_id (mt_input t) = userID \<and> tk_key (mt_input t) = trim_space taskKey"

definition ListForSession :: "mem_db \<Rightarrow> int \<Rightarrow> int \<Rightarrow> string \<Rightarrow> int \<Rightarrow> model_task_run list" where
  "ListForSession db sessionID userID taskKey limit0 =
    (if sessionID \<le> 0 \<or> userID \<le> 0 then []
     else take (nat (if limit0 \<le> 0 \<or> limit0 > 20 then 5 else limit0))
       (rev (sort_key (\<lambda>t. (tk_started (mt_input t), mt_id t)) (filter (task_of sessionID userID taskKey) (md_tasks db)))))"

definition LatestForSession :: "mem_db \<Rightarrow> int \<Rightarrow> int \<Rightarrow> string \<Rightarrow> model_task_run option" where
  "LatestForSession db sessionID userID taskKey =
    (if sessionID \<le> 0 \<or> userID \<le> 0 then None
     else (case ListForSession db sessionID userID taskKey 1 of [] \<Rightarrow> None | t # _ \<Rightarrow> Some t))"

definition LatestEffectiveAttemptForSession :: "mem_db \<Rightarrow> int \<Rightarrow> int \<Rightarrow> string \<Rightarrow> model_task_run option" where
  "LatestEffectiveAttemptForSession db sessionID userID taskKey =
    (if sessionID \<le> 0 \<or> userID \<le> 0 then None
     else (case rev (sort_key (\<lambda>t. (tk_finished (mt_input t), mt_id t))
             (filter (\<lambda>t. task_of sessionID userID taskKey t \<and>
               (tk_status (mt_input t) = ModelTaskStatusSuccess \<or> tk_status (mt_input t) = ModelTaskStatusSkipped)) (md_tasks db))) of
           [] \<Rightarrow> None | t # _ \<Rightarrow> Some t))"

definition LatestCooldown :: "mem_db \<Rightarrow> int \<Rightarrow> int \<Rightarrow> string \<Rightarrow> string \<Rightarrow> int \<Rightarrow> model_task_run option" where
  "LatestCooldown db sessionID userID taskKey source now =
    (if sessionID \<le> 0 \<or> userID \<le> 0 then None
     else (case LatestForSession db sessionID userID taskKey of
         None \<Rightarrow> None
       | Some t \<Rightarrow>
           if tk_source (mt_input t) = normalizeModelTaskSource source \<and> tk_status (mt_input t) = ModelTaskStatusFailed \<and>
              (case tk_retry_after (mt_input t) of None \<Rightarrow> False | Some r \<Rightarrow> r > now)
           then Some t else None))"

definition LatestAutoCooldown :: "mem_db \<Rightarrow> int \<Rightarrow> int \<Rightarrow> string \<Rightarrow> int \<Rightarrow> model_task_run option" where
  "LatestAutoCooldown db sessionID userID taskKey now = LatestCooldown db sessionID userID taskKey ModelTaskSourceAuto now"

definition DeleteOlderThan :: "db_fault \<Rightarrow> int \<Rightarrow> mem_db \<Rightarrow> (go_err + unit) \<times> mem_db" where
  "DeleteOlderThan fault cutoff db =
    run_tx fault (\<lambda>db. (Inr (), db\<lparr>md_tasks := filter (\<lambda>t. \<not> tk_finished (mt_input t) < cutoff) (md_tasks db)\<rparr>)) db"

section \<open>Memory and its history\<close>

definition find_memory :: "mem_db \<Rightarrow> int \<Rightarrow> memory_row option" where
  "find_memory db sessionID = find (\<lambda>m. mw_session_id m = sessionID) (md_memories db)"

definition memory_Get :: "mem_db \<Rightarrow> int \<Rightarrow> string" where
  "memory_Get db sessionID = (case find_memory db sessionID of None \<Rightarrow> [] | Some m \<Rightarrow> mw_content m)"

definition GetWithUpdatedAt :: "mem_db \<Rightarrow> int \<Rightarrow> string \<times> int" where
  "GetWithUpdatedAt db sessionID = (case find_memory db sessionID of None \<Rightarrow> ([], 0) | Some m \<Rightarrow> (mw_content m, mw_updated m))"

definition upsertSessionMemory :: "int \<Rightarrow> int \<Rightarrow> string \<Rightarrow> mem_db \<Rightarrow> mem_db" where
  "upsertSessionMemory now sessionID content db =
    (case find_memory db sessionID of
       None \<Rightarrow> db\<lparr>md_memories := md_memories db @ [\<lparr>mw_session_id = sessionID, mw_content = content, mw_updated = now\<rparr>]\<rparr>
     | Some _ \<Rightarrow> db\<lparr>md_memories := map (\<lambda>m. if mw_session_id m = sessionID then m\<lparr>mw_content := content, mw_updated := now\<rparr> else m) (md_memories db)\<rparr>)"

definition memory_Set :: "db_fault \<Rightarrow> int \<Rightarrow> int \<Rightarrow> string \<Rightarrow> mem_db \<Rightarrow> (go_err + unit) \<times> mem_db" where
  "memory_Set fault now sessionID content0 db =
    (case Normalize content0 of
       Inl e \<Rightarrow> (Inl e, db)
     | Inr (content, _) \<Rightarrow>
         run_tx fault (\<lambda>db.
           if map_of (db_sessions (md_run db)) sessionID = None
           then (Inl (ErrWrap ''failed to set session memory'' (SqlError ''23503'' ''foreign key'')), db)
           else (Inr (), upsertSessionMemory now sessionID content db)) db)"

definition getSessionMemoryForUpdate :: "int \<Rightarrow> int \<Rightarrow> mem_db \<Rightarrow> string \<times> mem_db" where
  "getSessionMemoryForUpdate now sessionID db =
    (case find_memory db sessionID of
       Some m \<Rightarrow> (mw_content m, db)
     | None \<Rightarrow> ([], upsertSessionMemory now sessionID [] db))"

definition normalizeMemoryChangeValue :: "string \<Rightarrow> string \<Rightarrow> string" where
  "normalizeMemoryChangeValue value0 fallback = (if trim_space value0 = [] then fallback else trim_space value0)"

text \<open>The INSERT with the checks of \<^verbatim>\<open>source\<close> and \<^verbatim>\<open>action\<close> and the unique run.\<close>

definition insertSessionMemoryChange ::
  "int \<Rightarrow> string \<Rightarrow> int \<Rightarrow> int \<Rightarrow> string \<Rightarrow> string \<Rightarrow> string \<Rightarrow> string \<Rightarrow> string \<Rightarrow> mem_db \<Rightarrow> (go_err + mem_change) \<times> mem_db" where
  "insertSessionMemoryChange now runID sessionID userID source action before0 after0 summary db =
    (let c = \<lparr>mc_id = md_next_change db, mc_run_id = (if runID = [] then None else Some runID), mc_session_id = sessionID,
           mc_user_id = userID, mc_source = source, mc_action = action, mc_before = RedactSensitiveValues before0,
           mc_after = RedactSensitiveValues after0, mc_summary = RedactSensitiveValues summary, mc_created = now, mc_undone = None\<rparr>
     in if source \<notin> set [''auto'', ''manual'', ''tool'', ''compact'', ''undo''] \<or> action \<notin> set [''update'', ''compact'', ''clear'', ''undo'']
        then (Inl (ErrWrap ''insert session memory change'' (SqlError ''23514'' ''check'')), db)
        else if runID \<noteq> [] \<and> list_ex (\<lambda>c. mc_run_id c = Some runID) (md_changes db)
        then (Inl (ErrWrap ''insert session memory change'' (SqlError ''23505'' ''unique'')), db)
        else (Inr c, db\<lparr>md_changes := md_changes db @ [c], md_next_change := md_next_change db + 1\<rparr>))"

definition newest_changes :: "mem_change list \<Rightarrow> mem_change list" where
  "newest_changes cs = rev (sort_key (\<lambda>c. (mc_created c, mc_id c)) cs)"

definition pruneSessionMemoryChanges :: "int \<Rightarrow> mem_db \<Rightarrow> mem_db" where
  "pruneSessionMemoryChanges sessionID db =
    (let kept = map mc_id (take MaxChangeList (newest_changes (filter (\<lambda>c. mc_session_id c = sessionID) (md_changes db))))
     in db\<lparr>md_changes := filter (\<lambda>c. mc_session_id c = sessionID \<longrightarrow> mc_id c \<in> set kept) (md_changes db)\<rparr>)"

record save_input =
  sv_run_id :: string
  sv_session_id :: int
  sv_user_id :: int
  sv_memory_enabled :: "bool option"
  sv_content :: string
  sv_source :: string
  sv_action :: string
  sv_summary :: string
  sv_expected_before :: string
  sv_check_before :: bool
  sv_expected_revision :: "int option"
  sv_max_chars :: int

definition set_enabled :: "int \<Rightarrow> save_input \<Rightarrow> mem_db \<Rightarrow> mem_db" where
  "set_enabled now input db =
    (case sv_memory_enabled input of
       None \<Rightarrow> db
     | Some b \<Rightarrow> db\<lparr>md_enabled := AList.update (sv_session_id input) b (md_enabled db),
                    md_run := touch_session now (sv_session_id input) (md_run db)\<rparr>)"

text \<open>From the guards on: the content before is locked, compared and replaced, the change is recorded.\<close>

definition replace_memory :: "int \<Rightarrow> save_input \<Rightarrow> string \<Rightarrow> mem_db \<Rightarrow> (go_err + mem_change option) \<times> mem_db" where
  "replace_memory now input content db =
    (let (before0, db1) = getSessionMemoryForUpdate now (sv_session_id input) db;
         summary = (if trim_space (sv_summary input) = [] then ''updated session memory'' else trim_space (sv_summary input))
     in if sv_check_before input \<and> trim_space before0 \<noteq> trim_space (sv_expected_before input) then (Inl ErrSessionMemoryConflict, db1)
        else if trim_space before0 = trim_space content then (Inr None, db1)
        else (case insertSessionMemoryChange now (sv_run_id input) (sv_session_id input) (sv_user_id input)
                     (normalizeMemoryChangeValue (sv_source input) ''manual'') (normalizeMemoryChangeValue (sv_action input) ''update'')
                     before0 content summary (upsertSessionMemory now (sv_session_id input) content db1) of
                (Inl e, db2) \<Rightarrow> (Inl e, db2)
              | (Inr c, db2) \<Rightarrow> (Inr (Some c), pruneSessionMemoryChanges (sv_session_id input) db2)))"

definition saveSessionMemoryWithChange :: "int \<Rightarrow> save_input \<Rightarrow> mem_db \<Rightarrow> (go_err + mem_change option) \<times> mem_db" where
  "saveSessionMemoryWithChange now input db =
    (if sv_session_id input \<le> 0 \<or> sv_user_id input \<le> 0 then (Inl (ErrText ''session_id and user_id are required''), db)
     else (case NormalizeWithLimits (sv_content input) (NormalizeLimits (sv_max_chars input) 0) of
         Inl e \<Rightarrow> (Inl e, db)
       | Inr (content, _) \<Rightarrow>
         (case lockActiveSessionAnswerSelectionRevision (md_run db) (sv_session_id input) (sv_user_id input) of
            Inl e \<Rightarrow> (Inl (ErrWrap ''session not found or access denied'' e), db)
          | Inr revision \<Rightarrow>
            (case ensureAnswerSelectionRevision revision (sv_expected_revision input) of
               Some e \<Rightarrow> (Inl e, db)
             | None \<Rightarrow> replace_memory now input content (set_enabled now input db)))))"

definition SaveWithChange :: "db_fault \<Rightarrow> int \<Rightarrow> save_input \<Rightarrow> mem_db \<Rightarrow> (go_err + mem_change option) \<times> mem_db" where
  "SaveWithChange fault now input db = run_tx fault (saveSessionMemoryWithChange now input) db"

definition CompareAndSetWithChange ::
  "db_fault \<Rightarrow> int \<Rightarrow> int \<Rightarrow> int \<Rightarrow> string \<Rightarrow> string \<Rightarrow> string \<Rightarrow> string \<Rightarrow> string \<Rightarrow> int \<Rightarrow> mem_db \<Rightarrow> (go_err + bool) \<times> mem_db" where
  "CompareAndSetWithChange fault now sessionID userID expected content source action summary maxChars db =
    (case SaveWithChange fault now \<lparr>sv_run_id = [], sv_session_id = sessionID, sv_user_id = userID, sv_memory_enabled = None,
            sv_content = content, sv_source = source, sv_action = action, sv_summary = summary, sv_expected_before = expected,
            sv_check_before = True, sv_expected_revision = None, sv_max_chars = maxChars\<rparr> db of
       (Inl e, db') \<Rightarrow> (if err_is e ErrSessionMemoryConflict then Inr False else Inl e, db')
     | (Inr _, db') \<Rightarrow> (Inr True, db'))"

definition SetWithChange ::
  "db_fault \<Rightarrow> int \<Rightarrow> int \<Rightarrow> int \<Rightarrow> string \<Rightarrow> string \<Rightarrow> string \<Rightarrow> string \<Rightarrow> int \<Rightarrow> mem_db \<Rightarrow> (go_err + unit) \<times> mem_db" where
  "SetWithChange fault now sessionID userID content source action summary maxChars db =
    (case SaveWithChange fault now \<lparr>sv_run_id = [], sv_session_id = sessionID, sv_user_id = userID, sv_memory_enabled = None,
            sv_content = content, sv_source = source, sv_action = action, sv_summary = summary, sv_expected_before = [],
            sv_check_before = False, sv_expected_revision = None, sv_max_chars = maxChars\<rparr> db of
       (Inl e, db') \<Rightarrow> (Inl e, db')
     | (Inr _, db') \<Rightarrow> (Inr (), db'))"

definition of_owner :: "int \<Rightarrow> int \<Rightarrow> mem_change \<Rightarrow> bool" where
  "of_owner sessionID userID c \<longleftrightarrow> mc_session_id c = sessionID \<and> mc_user_id c = userID"

definition ListChanges :: "mem_db \<Rightarrow> int \<Rightarrow> int \<Rightarrow> int \<Rightarrow> mem_change list" where
  "ListChanges db sessionID userID limit0 =
    take (if limit0 \<le> 0 \<or> limit0 > int MaxChangeList then MaxChangeList else nat limit0)
      (newest_changes (filter (of_owner sessionID userID) (md_changes db)))"

definition mark_undone :: "int \<Rightarrow> int \<Rightarrow> mem_db \<Rightarrow> mem_db" where
  "mark_undone now changeID db = db\<lparr>md_changes := map (\<lambda>c. if mc_id c = changeID then c\<lparr>mc_undone := Some now\<rparr> else c) (md_changes db)\<rparr>"

definition undo_change_body :: "int \<Rightarrow> int \<Rightarrow> int \<Rightarrow> int \<Rightarrow> mem_db \<Rightarrow> (go_err + mem_change) \<times> mem_db" where
  "undo_change_body now sessionID userID changeID db =
    (case find (\<lambda>c. mc_id c = changeID \<and> of_owner sessionID userID c) (md_changes db) of
       None \<Rightarrow> (Inl ErrMemoryChangeNotFound, db)
     | Some target \<Rightarrow>
         if mc_undone target \<noteq> None \<or> mc_source target \<noteq> ''compact'' \<or> mc_action target \<noteq> ''compact''
         then (Inl ErrMemoryChangeNotUndoable, db)
         else (let (current, db1) = getSessionMemoryForUpdate now sessionID db
           in case newest_changes (filter (of_owner sessionID userID) (md_changes db1)) of
                [] \<Rightarrow> (Inl ErrNotFound, db1)
              | latest # _ \<Rightarrow>
                  if mc_id latest \<noteq> mc_id target then (Inl ErrMemoryChangeNotUndoable, db1)
                  else if trim_space current \<noteq> trim_space (mc_after target) then (Inl ErrMemoryChangeNotUndoable, db1)
                  else (let restored = RedactSensitiveValues (mc_before target)
                    in case insertSessionMemoryChange now [] sessionID userID ''undo'' ''undo'' current restored ''undid memory change''
                              (mark_undone now changeID (upsertSessionMemory now sessionID restored db1)) of
                         (Inl e, db2) \<Rightarrow> (Inl e, db2)
                       | (Inr c, db2) \<Rightarrow> (Inr c, pruneSessionMemoryChanges sessionID db2))))"

definition UndoChange :: "db_fault \<Rightarrow> int \<Rightarrow> int \<Rightarrow> int \<Rightarrow> int \<Rightarrow> mem_db \<Rightarrow> (go_err + mem_change) \<times> mem_db" where
  "UndoChange fault now sessionID userID changeID db = run_tx fault (undo_change_body now sessionID userID changeID) db"

section \<open>Maintenance that ends its run\<close>

record maintenance_commit =
  cm_run :: transition_input
  cm_memory :: "save_input option"
  cm_task :: task_run_input

definition commit_body :: "int \<Rightarrow> maintenance_commit \<Rightarrow> chat_run_record \<Rightarrow> run_db \<Rightarrow> mem_db \<Rightarrow> (go_err + chat_run_record \<times> bool) \<times> mem_db" where
  "commit_body now input record0 run' db =
    (let db1 = db\<lparr>md_run := run'\<rparr>
     in case (case cm_memory input of
                None \<Rightarrow> (Inr None, db1)
              | Some m \<Rightarrow> saveSessionMemoryWithChange now (m\<lparr>sv_run_id := ti_run_id (cm_run input)\<rparr>) db1) of
          (Inl e, db2) \<Rightarrow> (Inl e, db2)
        | (Inr _, db2) \<Rightarrow>
            (case insertModelTaskRun now (cm_task input) db2 of
               (Inl e, db3) \<Rightarrow> (Inl e, db3)
             | (Inr _, db3) \<Rightarrow> (Inr (record0, True), db3)))"

definition CommitMaintenanceRun :: "db_fault \<Rightarrow> int \<Rightarrow> maintenance_commit \<Rightarrow> mem_db \<Rightarrow> (go_err + chat_run_record \<times> bool) \<times> mem_db" where
  "CommitMaintenanceRun fault now input db =
    (case fault of
       FaultBefore e \<Rightarrow> (Inl e, db)
     | _ \<Rightarrow>
       (case transitionChatRun now (cm_run input) (md_run db) of
          (Inl e, _) \<Rightarrow> (Inl e, db)
        | (Inr (record0, transitioned), run') \<Rightarrow>
            if \<not> transitioned then (Inr (record0, False), db)
            else run_tx fault (commit_body now input record0 run') db))"

section \<open>The history stays bounded\<close>

definition session_changes :: "mem_db \<Rightarrow> int \<Rightarrow> mem_change list" where
  "session_changes db s = filter (\<lambda>c. mc_session_id c = s) (md_changes db)"

definition mem_ok :: "mem_db \<Rightarrow> bool" where
  "mem_ok db \<longleftrightarrow> distinct (map mc_id (md_changes db)) \<and> (\<forall>c\<in>set (md_changes db). mc_id c < md_next_change db) \<and>
     (\<forall>s. length (session_changes db s) \<le> MaxChangeList)"

text \<open>What the operations do to the tables other than their own.\<close>

lemma upsert_keeps [simp]:
  "md_changes (upsertSessionMemory now s c db) = md_changes db" "md_next_change (upsertSessionMemory now s c db) = md_next_change db"
  "md_run (upsertSessionMemory now s c db) = md_run db" "md_tasks (upsertSessionMemory now s c db) = md_tasks db"
  by (auto simp: upsertSessionMemory_def split: option.splits)

lemma for_update_keeps [simp]:
  "md_changes (snd (getSessionMemoryForUpdate now s db)) = md_changes db" "md_next_change (snd (getSessionMemoryForUpdate now s db)) = md_next_change db"
  "md_run (snd (getSessionMemoryForUpdate now s db)) = md_run db" "md_tasks (snd (getSessionMemoryForUpdate now s db)) = md_tasks db"
  by (auto simp: getSessionMemoryForUpdate_def split: option.splits)

lemma enabled_keeps [simp]:
  "md_changes (set_enabled now input db) = md_changes db" "md_next_change (set_enabled now input db) = md_next_change db"
  "md_memories (set_enabled now input db) = md_memories db" "md_tasks (set_enabled now input db) = md_tasks db"
  by (auto simp: set_enabled_def split: option.splits)

lemma prune_keeps [simp]:
  "md_next_change (pruneSessionMemoryChanges s db) = md_next_change db" "md_memories (pruneSessionMemoryChanges s db) = md_memories db"
  "md_run (pruneSessionMemoryChanges s db) = md_run db" "md_tasks (pruneSessionMemoryChanges s db) = md_tasks db"
  by (simp_all add: pruneSessionMemoryChanges_def Let_def)

lemma prune_changes: "md_changes (pruneSessionMemoryChanges s db) = filter (\<lambda>d. mc_session_id d = s \<longrightarrow>
    mc_id d \<in> set (map mc_id (take MaxChangeList (newest_changes (filter (\<lambda>d. mc_session_id d = s) (md_changes db)))))) (md_changes db)"
  by (simp add: pruneSessionMemoryChanges_def Let_def)

lemma insert_task_keeps:
  "insert_task_row input db = (x, db') \<Longrightarrow> md_changes db' = md_changes db \<and> md_next_change db' = md_next_change db \<and> md_run db' = md_run db
     \<and> md_memories db' = md_memories db"
  by (auto simp: insert_task_row_def Let_def split: if_splits)

lemma insert_change_cases:
  assumes "insertSessionMemoryChange now runID s u source action b a summary db = (x, db')"
  obtains (refused) e where "x = Inl e" "db' = db"
  | (added) c where "x = Inr c" "db' = db\<lparr>md_changes := md_changes db @ [c], md_next_change := md_next_change db + 1\<rparr>" "mc_id c = md_next_change db"
      "mc_session_id c = s" "mc_user_id c = u" "mc_created c = now" "mc_source c = source" "mc_action c = action" "mc_undone c = None"
      "mc_before c = RedactSensitiveValues b" "mc_after c = RedactSensitiveValues a"
  using assms unfolding insertSessionMemoryChange_def Let_def
  by (simp split: if_splits) fastforce+

lemma length_filter_changes: "distinct (map f xs) \<Longrightarrow> length (filter (\<lambda>x. P x \<and> f x \<in> set ks) xs) \<le> length ks"
proof -
  assume d: "distinct (map f xs)"
  let ?ys = "map f (filter (\<lambda>x. P x \<and> f x \<in> set ks) xs)"
  have "distinct ?ys" using d by (rule distinct_map_filter)
  then have "length ?ys = card (set ?ys)" by (simp only: distinct_card)
  also have "\<dots> \<le> card (set ks)" by (rule card_mono) auto
  also have "\<dots> \<le> length ks" by (rule card_length)
  finally show ?thesis by simp
qed

lemma prune_ok:
  assumes "mem_ok db" "mc_id c = md_next_change db" "mc_session_id c = s"
    and db': "md_changes db' = md_changes db @ [c]" "md_next_change db' = md_next_change db + 1"
  shows "mem_ok (pruneSessionMemoryChanges s db')"
proof -
  have d: "distinct (map mc_id (md_changes db'))" using assms by (auto simp: mem_ok_def)
  have "length (session_changes (pruneSessionMemoryChanges s db') t) \<le> MaxChangeList" for t
  proof (cases "t = s")
    case True
    show ?thesis unfolding True session_changes_def pruneSessionMemoryChanges_def Let_def
      using length_filter_changes[OF d, of "\<lambda>c. mc_session_id c = s" "map mc_id (take MaxChangeList (newest_changes (filter (\<lambda>c. mc_session_id c = s) (md_changes db'))))"]
      by (simp add: conj_commute cong: conj_cong)
  next
    case False
    then have "session_changes (pruneSessionMemoryChanges s db') t = session_changes db t"
      using assms(3) by (auto simp: session_changes_def pruneSessionMemoryChanges_def Let_def db' cong: conj_cong intro!: filter_cong)
    then show ?thesis using assms(1) by (simp add: mem_ok_def)
  qed
  moreover have "distinct (map mc_id (md_changes (pruneSessionMemoryChanges s db')))"
    using d by (simp add: pruneSessionMemoryChanges_def Let_def distinct_map_filter)
  moreover have "\<forall>c\<in>set (md_changes (pruneSessionMemoryChanges s db')). mc_id c < md_next_change db'"
    using assms by (auto simp: pruneSessionMemoryChanges_def Let_def mem_ok_def)
  ultimately show ?thesis by (simp add: mem_ok_def)
qed

lemma mem_ok_same: "md_changes db' = md_changes db \<Longrightarrow> md_next_change db' = md_next_change db \<Longrightarrow> mem_ok db \<Longrightarrow> mem_ok db'"
  by (simp add: mem_ok_def session_changes_def)

text \<open>A save, and an undo, either leaves the history alone or adds one change and prunes.\<close>

lemma replace_memory_cases:
  assumes "replace_memory now input content db = (x, db')"
  obtains (kept) "md_changes db' = md_changes db" "md_next_change db' = md_next_change db" "\<And>c. x \<noteq> Inr (Some c)"
  | (added) c db2 where "x = Inr (Some c)" "db' = pruneSessionMemoryChanges (sv_session_id input) db2" "md_changes db2 = md_changes db @ [c]"
      "md_next_change db2 = md_next_change db + 1" "mc_id c = md_next_change db" "mc_session_id c = sv_session_id input"
      "mc_user_id c = sv_user_id input" "mc_created c = now" "mc_undone c = None"
      "mc_source c = normalizeMemoryChangeValue (sv_source input) ''manual''" "mc_action c = normalizeMemoryChangeValue (sv_action input) ''update''"
      "mc_before c = RedactSensitiveValues (fst (getSessionMemoryForUpdate now (sv_session_id input) db))" "mc_after c = RedactSensitiveValues content"
      "md_memories db2 = md_memories (upsertSessionMemory now (sv_session_id input) content (snd (getSessionMemoryForUpdate now (sv_session_id input) db)))"
proof -
  let ?s = "sv_session_id input"
  obtain b db1 where g: "getSessionMemoryForUpdate now ?s db = (b, db1)" by fastforce
  have k: "md_changes db1 = md_changes db" "md_next_change db1 = md_next_change db"
    using for_update_keeps[of now ?s db] by (simp_all add: g)
  obtain y db2 where i: "insertSessionMemoryChange now (sv_run_id input) ?s (sv_user_id input)
      (normalizeMemoryChangeValue (sv_source input) ''manual'') (normalizeMemoryChangeValue (sv_action input) ''update'') b content
      (if trim_space (sv_summary input) = [] then ''updated session memory'' else trim_space (sv_summary input))
      (upsertSessionMemory now ?s content db1) = (y, db2)" by fastforce
  note r = assms[unfolded replace_memory_def g Let_def, simplified, unfolded i, simplified]
  from i show thesis
  proof (cases rule: insert_change_cases)
    case (refused e)
    then show thesis using r k by (intro kept) (auto split: if_splits)
  next
    case (added c)
    then show thesis using r k g that(1) that(2)[of c db2] by (auto split: if_splits)
  qed
qed

lemma undo_cases:
  assumes "undo_change_body now s u i db = (x, db')"
  obtains (kept) "md_changes db' = md_changes db" "md_next_change db' = md_next_change db" "\<exists>e. x = Inl e"
  | (failed) e where "x = Inl e"
  | (added) c target db2 where "x = Inr c" "db' = pruneSessionMemoryChanges s db2" "md_changes db2 = md_changes (mark_undone now i db) @ [c]"
      "md_next_change db2 = md_next_change db + 1" "mc_id c = md_next_change db" "mc_session_id c = s"
      "md_memories db2 = md_memories (upsertSessionMemory now s (RedactSensitiveValues (mc_before target)) (snd (getSessionMemoryForUpdate now s db)))"
      "find (\<lambda>c. mc_id c = i \<and> of_owner s u c) (md_changes db) = Some target"
proof (cases x)
  case (Inl e)
  then show thesis using that(2) by blast
next
  case (Inr c)
  obtain b db1 where g: "getSessionMemoryForUpdate now s db = (b, db1)" by fastforce
  have k: "md_changes db1 = md_changes db" "md_next_change db1 = md_next_change db"
    using for_update_keeps[of now s db] by (simp_all add: g)
  obtain target where t: "find (\<lambda>c. mc_id c = i \<and> of_owner s u c) (md_changes db) = Some target"
    using assms Inr by (cases "find (\<lambda>c. mc_id c = i \<and> of_owner s u c) (md_changes db)") (auto simp: undo_change_body_def)
  let ?r = "RedactSensitiveValues (mc_before target)"
  obtain y db2 where i: "insertSessionMemoryChange now [] s u ''undo'' ''undo'' b ?r ''undid memory change''
      (mark_undone now i (upsertSessionMemory now s ?r db1)) = (y, db2)" by fastforce
  have "y = Inr c" "db' = pruneSessionMemoryChanges s db2"
    using assms Inr by (auto simp: undo_change_body_def t g i split: if_splits list.splits sum.splits)
  from i show thesis
  proof (cases rule: insert_change_cases)
    case (added c')
    then show thesis
      using that(3)[of c db2 target] Inr k g t \<open>y = Inr c\<close> \<open>db' = _\<close> by (simp add: mark_undone_def)
  qed (use \<open>y = Inr c\<close> in simp)
qed

lemma mem_ok_undone: "mem_ok db \<Longrightarrow> mem_ok (mark_undone now i db)"
proof -
  have f: "filter (\<lambda>c. mc_session_id c = s) (map (\<lambda>c. if mc_id c = i then c\<lparr>mc_undone := Some now\<rparr> else c) cs) =
      map (\<lambda>c. if mc_id c = i then c\<lparr>mc_undone := Some now\<rparr> else c) (filter (\<lambda>c. mc_session_id c = s) cs)" for s :: int and cs :: "mem_change list"
    by (induction cs) auto
  have m: "map mc_id (map (\<lambda>c. if mc_id c = i then c\<lparr>mc_undone := Some now\<rparr> else c) cs) = map mc_id cs" for cs :: "mem_change list"
    by auto
  show "mem_ok db \<Longrightarrow> mem_ok (mark_undone now i db)" by (simp add: mem_ok_def mark_undone_def session_changes_def f m del: map_map) auto
qed

lemma save_ok:
  assumes "mem_ok db"
  shows "fst (saveSessionMemoryWithChange now input db) = Inr y \<Longrightarrow> mem_ok (snd (saveSessionMemoryWithChange now input db))"
proof -
  have "mem_ok (snd (replace_memory now input content (set_enabled now input db)))" for content
  proof -
    obtain x db' where r: "replace_memory now input content (set_enabled now input db) = (x, db')" by fastforce
    then show ?thesis
    proof (cases rule: replace_memory_cases)
      case kept
      then show ?thesis using mem_ok_same[of db' db] assms r by simp
    next
      case (added c db2)
      then show ?thesis using prune_ok[of db c "sv_session_id input" db2] assms r by simp
    qed
  qed
  then show "fst (saveSessionMemoryWithChange now input db) = Inr y \<Longrightarrow> mem_ok (snd (saveSessionMemoryWithChange now input db))"
    by (auto simp: saveSessionMemoryWithChange_def assms split: sum.splits option.splits)
qed

lemma undo_ok:
  assumes "mem_ok db" "fst (undo_change_body now s u i db) = Inr y"
  shows "mem_ok (snd (undo_change_body now s u i db))"
proof -
  obtain x db' where r: "undo_change_body now s u i db = (x, db')" by fastforce
  then show ?thesis
  proof (cases rule: undo_cases)
    case (added c target db2)
    have "mem_ok (pruneSessionMemoryChanges s db2)"
      using added assms(1) by (intro prune_ok[of "mark_undone now i db" c s db2]) (simp_all add: mem_ok_undone, simp_all add: mark_undone_def)
    then show ?thesis using r added by simp
  qed (use assms r in auto)
qed

text \<open>The states of the tables: every operation, with every fault, from an empty history.\<close>

inductive mem_reach :: "mem_db \<Rightarrow> bool" where
  start: "md_changes db = [] \<Longrightarrow> mem_reach db"
| set: "mem_reach db \<Longrightarrow> mem_reach (snd (memory_Set fault now s content db))"
| save: "mem_reach db \<Longrightarrow> mem_reach (snd (SaveWithChange fault now input db))"
| undo: "mem_reach db \<Longrightarrow> mem_reach (snd (UndoChange fault now s u i db))"
| commit: "mem_reach db \<Longrightarrow> mem_reach (snd (CommitMaintenanceRun fault now maintenance db))"
| task: "mem_reach db \<Longrightarrow> mem_reach (snd (RecordTaskRun fault now run_input db))"
| expire: "mem_reach db \<Longrightarrow> mem_reach (snd (DeleteOlderThan fault now db))"
| runs: "mem_reach db \<Longrightarrow> mem_reach (db\<lparr>md_run := run'\<rparr>)"

lemma run_tx_keeps:
  assumes "I db" "\<And>r. fst (body db) = Inr r \<Longrightarrow> I (snd (body db))"
  shows "I (snd (run_tx fault body db))"
  using run_tx_cases[of fault body db] assms by auto

lemma task_ok: "mem_ok db \<Longrightarrow> mem_ok (snd (insert_task_row input db))"
  using insert_task_keeps[of input db] mem_ok_same by (metis prod.collapse)

lemma commit_ok:
  assumes "mem_ok db" "fst (commit_body now input r run' db) = Inr y"
  shows "mem_ok (snd (commit_body now input r run' db))"
proof -
  have ok: "mem_ok (db\<lparr>md_run := run'\<rparr>)" using assms(1) mem_ok_same by force
  obtain x db2 where m: "(case cm_memory input of None \<Rightarrow> (Inr None, db\<lparr>md_run := run'\<rparr>)
      | Some m \<Rightarrow> saveSessionMemoryWithChange now (m\<lparr>sv_run_id := ti_run_id (cm_run input)\<rparr>) (db\<lparr>md_run := run'\<rparr>)) = (x, db2)" by fastforce
  obtain z where x: "x = Inr z" using assms(2) by (cases x) (simp_all add: commit_body_def Let_def m)
  have "mem_ok db2"
  proof (cases "cm_memory input")
    case None
    then show ?thesis using m ok by simp
  next
    case (Some v)
    then show ?thesis using m save_ok[OF ok, of now "v\<lparr>sv_run_id := ti_run_id (cm_run input)\<rparr>" z] by (simp add: x)
  qed
  then have "mem_ok (snd (insertModelTaskRun now (cm_task input) db2))" by (simp add: insertModelTaskRun_def Let_def task_ok)
  then show ?thesis by (auto simp: commit_body_def Let_def m x split: prod.splits sum.splits)
qed

lemma mem_ok_other [simp]: "mem_ok (upsertSessionMemory now s c db) = mem_ok db" "mem_ok (db\<lparr>md_tasks := ts\<rparr>) = mem_ok db" "mem_ok (db\<lparr>md_run := r\<rparr>) = mem_ok db"
  by (simp_all add: mem_ok_def session_changes_def)

lemma mem_reach_ok: "mem_reach db \<Longrightarrow> mem_ok db"
proof (induction rule: mem_reach.induct)
  case (start db)
  then show ?case by (simp add: mem_ok_def session_changes_def)
next
  case (set db fault now s content)
  have "mem_ok (snd (run_tx fault (\<lambda>db. if map_of (db_sessions (md_run db)) s = None
      then (Inl (ErrWrap ''failed to set session memory'' (SqlError ''23503'' ''foreign key'')), db)
      else (Inr (), upsertSessionMemory now s c db)) db))" for c
    using set.IH by (rule run_tx_keeps[where I = mem_ok]) (simp add: set.IH)
  then show ?case using set.IH by (simp add: memory_Set_def split: sum.splits prod.splits)
next
  case (save db fault now input)
  from save.IH show ?case unfolding SaveWithChange_def by (rule run_tx_keeps[where I = mem_ok]) (rule save_ok[OF save.IH])
next
  case (undo db fault now s u i)
  from undo.IH show ?case unfolding UndoChange_def by (rule run_tx_keeps[where I = mem_ok]) (rule undo_ok[OF undo.IH])
next
  case (commit db fault now maintenance)
  have "mem_ok (snd (run_tx fault (commit_body now maintenance r run') db))" for r run'
    using commit.IH by (rule run_tx_keeps[where I = mem_ok]) (rule commit_ok[OF commit.IH])
  then show ?case using commit.IH by (auto simp: CommitMaintenanceRun_def split: db_fault.splits prod.splits sum.splits)
next
  case (task db fault now run_input)
  have "mem_ok (snd (run_tx fault (insert_task_row (normalizeModelTaskRunInput now run_input)) db))"
    using task.IH by (rule run_tx_keeps[where I = mem_ok]) (rule task_ok[OF task.IH])
  then show ?case using task.IH by (simp add: RecordTaskRun_def Let_def)
next
  case (expire db fault now)
  from expire.IH show ?case unfolding DeleteOlderThan_def by (rule run_tx_keeps[where I = mem_ok]) (simp add: expire.IH)
next
  case (runs db run')
  then show ?case by simp
qed

text \<open>
  C31.
  Whatever is saved, undone, committed and recorded in whatever order and with whatever faults, a
  session keeps at most twenty changes, and no two changes have the same id.
\<close>

theorem memory_history_bounded:
  assumes "mem_reach db"
  shows "length (session_changes db s) \<le> MaxChangeList \<and> distinct (map mc_id (md_changes db))"
  using mem_reach_ok[OF assms] by (simp_all add: mem_ok_def)

section \<open>An undo gives back what was there\<close>

lemma not_sensitive_redact: "\<not> containsSensitiveValue s \<Longrightarrow> RedactSensitiveValues s = s"
  by (simp add: RedactSensitiveValues_def containsSensitiveValue_def sensitiveValuePatterns_def ReplaceAll_unmatched)

lemma insort_key_snoc: "f a \<le> f y \<Longrightarrow> insort_key f a (zs @ [y]) = insort_key f a zs @ [y]"
  by (induction zs) auto

lemma sort_key_snoc_greatest: "(\<And>x. x \<in> set xs \<Longrightarrow> f x \<le> f y) \<Longrightarrow> sort_key f (xs @ [y]) = sort_key f xs @ [y]"
  by (induction xs) (auto simp: insort_key_snoc)

lemma newest_last: "(\<And>d. d \<in> set cs \<Longrightarrow> mc_created d \<le> mc_created c \<and> mc_id d \<le> mc_id c) \<Longrightarrow> newest_changes (cs @ [c]) = c # newest_changes cs"
  unfolding newest_changes_def by (subst sort_key_snoc_greatest) (auto simp: less_eq_prod_def le_less)

lemma change_find_snoc: "find P (xs @ [x]) = (case find P xs of None \<Rightarrow> if P x then Some x else None | Some y \<Rightarrow> Some y)"
  by (induction xs) auto

lemma find_SomeD: "find P xs = Some x \<Longrightarrow> P x \<and> x \<in> set xs"
  by (induction xs) (auto split: if_splits)

lemma find_memory_upsert: "find_memory (upsertSessionMemory now s c db) t = (if t = s then
    Some (case find_memory db s of None \<Rightarrow> \<lparr>mw_session_id = s, mw_content = c, mw_updated = now\<rparr> | Some m \<Rightarrow> m\<lparr>mw_content := c, mw_updated := now\<rparr>)
  else find_memory db t)"
proof -
  have n: "find (\<lambda>m. mw_session_id m = t) (map (\<lambda>m. if mw_session_id m = s then m\<lparr>mw_content := c, mw_updated := now\<rparr> else m) ms) =
      map_option (\<lambda>m. if mw_session_id m = s then m\<lparr>mw_content := c, mw_updated := now\<rparr> else m) (find (\<lambda>m. mw_session_id m = t) ms)" for ms :: "memory_row list"
    by (induction ms) auto
  show ?thesis
    by (cases "find (\<lambda>m. mw_session_id m = s) (md_memories db)"; cases "find (\<lambda>m. mw_session_id m = t) (md_memories db)")
      (auto simp: upsertSessionMemory_def find_memory_def n change_find_snoc dest: find_SomeD split: option.splits)
qed

lemma memory_Get_upsert [simp]: "memory_Get (upsertSessionMemory now s c db) t = (if t = s then c else memory_Get db t)"
  by (auto simp: memory_Get_def find_memory_upsert split: option.splits)

lemma memory_Get_same: "md_memories a = md_memories b \<Longrightarrow> memory_Get a = memory_Get b"
  by (simp add: memory_Get_def find_memory_def fun_eq_iff)

lemma upsert_memories: "md_memories a = md_memories b \<Longrightarrow> md_memories (upsertSessionMemory now s c a) = md_memories (upsertSessionMemory now s c b)"
  by (auto simp: upsertSessionMemory_def find_memory_def split: option.splits)

lemma for_update_content:
  "fst (getSessionMemoryForUpdate now s db) = memory_Get db s" "memory_Get (snd (getSessionMemoryForUpdate now s db)) t = memory_Get db t"
  by (auto simp: getSessionMemoryForUpdate_def memory_Get_def find_memory_upsert split: option.splits)

lemma for_update_present: "find_memory db s \<noteq> None \<Longrightarrow> getSessionMemoryForUpdate now s db = (memory_Get db s, db)"
  by (auto simp: getSessionMemoryForUpdate_def memory_Get_def)

lemma save_cases:
  assumes "saveSessionMemoryWithChange now input db = (Inr x, db')"
  obtains content doc where "NormalizeWithLimits (sv_content input) (NormalizeLimits (sv_max_chars input) 0) = Inr (content, doc)"
    "replace_memory now input content (set_enabled now input db) = (Inr x, db')"
  using assms by (auto simp: saveSessionMemoryWithChange_def split: if_splits sum.splits option.splits)

text \<open>
  C32.
  A compaction of the memory that was just saved can be undone as long as the saved text is its own
  redaction (no credential is read in it): the undo gives the session the memory it had before with
  every credential redacted, which is that memory itself when it has none, and leaves every other
  session alone.  A saved text that is not its own redaction cannot be undone and nothing changes.
\<close>

theorem undo_restores_memory:
  assumes ok: "mem_ok db" "\<And>c. c \<in> set (md_changes db) \<Longrightarrow> mc_created c \<le> now"
    and saved: "SaveWithChange FaultNone now input db = (Inr (Some c), db1)"
    and compact: "trim_space (sv_source input) = ''compact''" "trim_space (sv_action input) = ''compact''"
  shows "let s = sv_session_id input; before = memory_Get db s; after = memory_Get db1 s;
      undo = UndoChange FaultNone later s (sv_user_id input) (mc_id c) db1
    in if trim_space (RedactSensitiveValues after) = trim_space after
       then (\<exists>c' db2. undo = (Inr c', db2) \<and> memory_Get db2 s = RedactSensitiveValues (RedactSensitiveValues before) \<and>
         (\<not> containsSensitiveValue before \<longrightarrow> memory_Get db2 s = before) \<and>
         (\<forall>t. t \<noteq> s \<longrightarrow> memory_Get db2 t = memory_Get db t))
       else undo = (Inl ErrMemoryChangeNotUndoable, db1)"
proof -
  let ?s = "sv_session_id input" and ?u = "sv_user_id input"
  define dbe where "dbe = set_enabled now input db"
  have e: "memory_Get dbe t = memory_Get db t" "md_changes dbe = md_changes db" "md_next_change dbe = md_next_change db" for t
    using memory_Get_same[of dbe db] by (simp_all add: dbe_def)
  have "saveSessionMemoryWithChange now input db = (Inr (Some c), db1)" using saved run_tx_Inr by (fastforce simp: SaveWithChange_def)
  then obtain content where r: "replace_memory now input content dbe = (Inr (Some c), db1)" by (auto simp: dbe_def elim: save_cases)
  from r obtain dbc where a: "db1 = pruneSessionMemoryChanges ?s dbc" "md_changes dbc = md_changes db @ [c]"
      "mc_id c = md_next_change db" "mc_session_id c = ?s" "mc_user_id c = ?u" "mc_created c = now" "mc_undone c = None"
      "mc_source c = ''compact''" "mc_action c = ''compact''" "mc_before c = RedactSensitiveValues (memory_Get db ?s)"
      "mc_after c = RedactSensitiveValues content"
      "md_memories dbc = md_memories (upsertSessionMemory now ?s content (snd (getSessionMemoryForUpdate now ?s dbe)))"
    using compact by (cases rule: replace_memory_cases) (auto simp: for_update_content e normalizeMemoryChangeValue_def)
  have m1: "memory_Get db1 t = (if t = ?s then content else memory_Get db t)" for t
    using memory_Get_same[of db1 "upsertSessionMemory now ?s content (snd (getSessionMemoryForUpdate now ?s dbe))"] a(1,12)
    by (simp add: for_update_content e)
  have present: "find_memory db1 ?s \<noteq> None"
    using find_memory_upsert[of now ?s content "snd (getSessionMemoryForUpdate now ?s dbe)" ?s] a(1,12) by (simp add: find_memory_def)
  have old: "mc_created d \<le> mc_created c \<and> mc_id d \<le> mc_id c \<and> mc_id d \<noteq> mc_id c" if "d \<in> set (md_changes db)" for d
    using ok that by (auto simp: a(3,6) mem_ok_def)
  have newest: "newest_changes (filter P (filter Q (md_changes db)) @ [c]) = c # newest_changes (filter P (filter Q (md_changes db)))" for P Q
    using old by (intro newest_last) auto
  define Q where "Q = (\<lambda>d :: mem_change. mc_session_id d = ?s \<longrightarrow>
    mc_id d \<in> set (map mc_id (take MaxChangeList (newest_changes (filter (\<lambda>d. mc_session_id d = ?s) (md_changes dbc))))))"
  have kept: "Q c" using newest[of "\<lambda>d. mc_session_id d = ?s" "\<lambda>_. True"] by (simp add: Q_def a(2,4) MaxChangeList_def)
  have ch: "md_changes db1 = filter Q (md_changes db) @ [c]" 
  proof -
    have "md_changes db1 = filter Q (md_changes dbc)" by (simp only: a(1) prune_changes Q_def)
    then show ?thesis using kept by (simp add: a(2))
  qed
  have found: "find (\<lambda>d. mc_id d = mc_id c \<and> of_owner ?s ?u d) (md_changes db1) = Some c"
  proof -
    have "find (\<lambda>d. mc_id d = mc_id c \<and> of_owner ?s ?u d) (filter Q (md_changes db)) = None" using old by (auto simp: find_None_iff)
    then show ?thesis by (simp add: ch change_find_snoc a(4,5) of_owner_def)
  qed
  have latest: "newest_changes (filter (of_owner ?s ?u) (md_changes db1)) = c # newest_changes (filter (of_owner ?s ?u) (filter Q (md_changes db)))"
    using newest[of "of_owner ?s ?u" Q] by (simp add: ch of_owner_def a(4,5))
  have plain: "\<not> containsSensitiveValue (memory_Get db ?s) \<Longrightarrow> RedactSensitiveValues (RedactSensitiveValues (memory_Get db ?s)) = memory_Get db ?s"
    by (simp add: not_sensitive_redact)
  let ?r = "RedactSensitiveValues (RedactSensitiveValues (memory_Get db ?s))"
  show ?thesis
  proof (cases "trim_space (RedactSensitiveValues content) = trim_space content")
    case False
    then have "trim_space content \<noteq> trim_space (RedactSensitiveValues content)" by (rule not_sym)
    then have "undo_change_body later ?s ?u (mc_id c) db1 = (Inl ErrMemoryChangeNotUndoable, db1)"
      by (simp add: undo_change_body_def found a(7-11) for_update_present[OF present] latest m1)
    with False show ?thesis by (simp add: UndoChange_def run_tx_def m1 Let_def)
  next
    case True
    obtain y db2 where i: "insertSessionMemoryChange later [] ?s ?u ''undo'' ''undo'' content ?r ''undid memory change''
        (mark_undone later (mc_id c) (upsertSessionMemory later ?s ?r db1)) = (y, db2)" by fastforce
    then obtain c' where y: "y = Inr c'" "md_memories db2 = md_memories (upsertSessionMemory later ?s ?r db1)"
      by (auto simp: insertSessionMemoryChange_def Let_def mark_undone_def)
    have b: "undo_change_body later ?s ?u (mc_id c) db1 = (Inr c', pruneSessionMemoryChanges ?s db2)"
      by (simp add: undo_change_body_def found a(7-11) for_update_present[OF present] latest m1 True i y)
    have "memory_Get (pruneSessionMemoryChanges ?s db2) t = (if t = ?s then ?r else memory_Get db t)" for t
      using memory_Get_same[of "pruneSessionMemoryChanges ?s db2" "upsertSessionMemory later ?s ?r db1"] y(2) by (simp add: m1)
    with True plain show ?thesis by (simp add: UndoChange_def run_tx_def b m1 Let_def)
  qed
qed

section \<open>Maintenance takes effect once\<close>

lemma insert_change_keeps:
  "insertSessionMemoryChange now r s u src act b a sm db = (x, db') \<Longrightarrow> md_run db' = md_run db \<and> md_tasks db' = md_tasks db \<and> md_memories db' = md_memories db"
  by (auto simp: insertSessionMemoryChange_def Let_def split: if_splits)

lemma replace_memory_keeps:
  assumes "replace_memory now input content db = (x, db')"
  shows "md_run db' = md_run db \<and> md_tasks db' = md_tasks db"
proof -
  obtain b db1 where g: "getSessionMemoryForUpdate now (sv_session_id input) db = (b, db1)" by fastforce
  have "md_run db1 = md_run db" "md_tasks db1 = md_tasks db" using for_update_keeps[of now "sv_session_id input" db] by (simp_all add: g)
  then show ?thesis
    using assms unfolding replace_memory_def g Let_def
    by (auto simp: split: if_splits prod.splits sum.splits dest: insert_change_keeps)
qed

lemma replace_memory_content:
  assumes "replace_memory now input content db = (Inr x, db')"
  shows "trim_space (memory_Get db' (sv_session_id input)) = trim_space content"
proof -
  let ?s = "sv_session_id input"
  obtain b db1 where g: "getSessionMemoryForUpdate now ?s db = (b, db1)" by fastforce
  have b: "b = memory_Get db1 ?s"
    using for_update_content[of now ?s db] by (simp_all add: g)
  show ?thesis
    using assms unfolding replace_memory_def g Let_def
    by (auto simp: b memory_Get_same[of "pruneSessionMemoryChanges ?s _" "upsertSessionMemory now ?s content db1"]
        split: if_splits prod.splits sum.splits dest!: insert_change_keeps)
qed

lemma find_run_enabled: "find_run (md_run (set_enabled now input db)) i = find_run (md_run db) i"
  by (auto simp: set_enabled_def touch_session_def find_run_def split: option.splits)

lemma save_keeps:
  assumes "saveSessionMemoryWithChange now input db = (Inr x, db')"
  shows "find_run (md_run db') i = find_run (md_run db) i \<and> md_tasks db' = md_tasks db"
  using save_cases[OF assms] replace_memory_keeps find_run_enabled by (metis enabled_keeps(4))

text \<open>
  C33.
  A commit of memory maintenance that took effect, its reply lost or not, has ended the run with its
  status, recorded one task run and stored the normalized card; the same commit again, under whatever
  fault, changes nothing and, once it gets through, hands back the record of the run.
\<close>

theorem maintenance_commits_once:
  assumes commit: "CommitMaintenanceRun fault now input db = (x, db1)" and effect: "db1 \<noteq> db"
  shows "snd (CommitMaintenanceRun fault' later input db1) = db1 \<and>
    (\<exists>r. CommitMaintenanceRun FaultNone later input db1 = (Inr (r, False), db1) \<and> rr_status r = ti_status (cm_run input)) \<and>
    length (md_tasks db1) = Suc (length (md_tasks db)) \<and>
    (case cm_memory input of
       None \<Rightarrow> True
     | Some m \<Rightarrow> (case NormalizeWithLimits (sv_content m) (NormalizeLimits (sv_max_chars m) 0) of
         Inl _ \<Rightarrow> False
       | Inr (content, _) \<Rightarrow> trim_space (memory_Get db1 (sv_session_id m)) = trim_space content))"
proof -
  let ?i = "ti_run_id (cm_run input)"
  obtain y run' where t: "transitionChatRun now (cm_run input) (md_run db) = (y, run')" by fastforce
  obtain r0 where y: "y = Inr (r0, True)"
    using commit effect t by (cases fault; cases y) (auto simp: CommitMaintenanceRun_def split: if_splits)
  have tx: "run_tx fault (commit_body now input r0 run') db = (x, db1)"
    using commit effect t y by (cases fault) (auto simp: CommitMaintenanceRun_def)
  obtain z where z: "commit_body now input r0 run' db = (Inr z, db1)"
    using tx effect run_tx_cases[of fault "commit_body now input r0 run'" db] by (cases "commit_body now input r0 run' db") auto
  obtain r where r: "find_run run' ?i = Some (terminal_row now (cm_run input) r)" "valid_input (cm_run input)"
    using t by (cases rule: transitionChatRun_cases) (auto simp: y)
  obtain w db2 where m: "(case cm_memory input of None \<Rightarrow> (Inr None, db\<lparr>md_run := run'\<rparr>)
      | Some m \<Rightarrow> saveSessionMemoryWithChange now (m\<lparr>sv_run_id := ?i\<rparr>) (db\<lparr>md_run := run'\<rparr>)) = (Inr w, db2)"
    using z by (auto simp: commit_body_def Let_def split: prod.splits sum.splits)
  have d2: "find_run (md_run db2) ?i = find_run run' ?i" "md_tasks db2 = md_tasks db"
    using m save_keeps by (cases "cm_memory input"; fastforce)+
  obtain task where k: "insertModelTaskRun now (cm_task input) db2 = (Inr task, db1)"
    using z by (auto simp: commit_body_def Let_def m split: prod.splits sum.splits)
  then have i: "insert_task_row (normalizeModelTaskRunInput now (cm_task input)) db2 = (Inr task, db1)"
    by (auto simp: insertModelTaskRun_def Let_def split: if_splits)
  have d1: "find_run (md_run db1) ?i = Some (terminal_row now (cm_run input) r)" "length (md_tasks db1) = Suc (length (md_tasks db))"
    using i insert_task_keeps[OF i] d2 r(1) by (auto simp: insert_task_row_def Let_def split: if_splits)
  have again: "transitionChatRun later (cm_run input) (md_run db1) = (Inr (scanChatRun (terminal_row now (cm_run input) r), False), md_run db1)"
    using d1(1) r(2) by (auto simp: transitionChatRun_def valid_input_def row_running_def terminal_row_def terminal_status_def)
  have stored: "trim_space (memory_Get db1 (sv_session_id v)) = trim_space content \<and> NormalizeWithLimits (sv_content v) (NormalizeLimits (sv_max_chars v) 0) = Inr (content, doc)"
    if "cm_memory input = Some v" "NormalizeWithLimits (sv_content v) (NormalizeLimits (sv_max_chars v) 0) = Inr (content, doc)" for v content doc
    using that m memory_Get_same[of db1 db2] insert_task_keeps[OF i]
    by (auto elim!: save_cases dest!: replace_memory_content)
  have norm: "\<exists>content doc. NormalizeWithLimits (sv_content v) (NormalizeLimits (sv_max_chars v) 0) = Inr (content, doc)" if "cm_memory input = Some v" for v
    using that m by (auto elim!: save_cases)
  have "snd (CommitMaintenanceRun fault' later input db1) = db1" by (cases fault') (simp_all add: CommitMaintenanceRun_def again)
  moreover have "CommitMaintenanceRun FaultNone later input db1 = (Inr (scanChatRun (terminal_row now (cm_run input) r), False), db1)"
    by (simp add: CommitMaintenanceRun_def again)
  moreover have "rr_status (scanChatRun (terminal_row now (cm_run input) r)) = ti_status (cm_run input)" by (simp add: scanChatRun_def terminal_row_def)
  ultimately show ?thesis using d1(2) norm stored by (auto split: option.splits sum.splits)
qed

section \<open>Examples\<close>

definition memory_demo :: mem_db where
  "memory_demo = \<lparr>md_run = \<lparr>db_runs = [\<lparr>cr_run_id = ''r'', cr_user_id = 5, cr_session_id = 1, cr_kind = ''memory_maintenance'',
       cr_operation = ''memory_compact'', cr_intent_version = 1, cr_intent_hash = [], cr_retry_target = None, cr_runtime_snapshot = [],
       cr_status = RunStatusRunning, cr_cancel_cause = CauseNone, cr_public_error_code = [], cr_public_error_message = [],
       cr_user_message_id = None, cr_terminal_message_id = None, cr_terminal_event = None, cr_message_reserved = False, cr_expires_at = 9,
       cr_released_at = None, cr_accepted_at = 1, cr_terminal_at = None, cr_updated_at = 1\<rparr>],
       db_attempts = [], db_messages = [], db_sessions = [(1, \<lparr>sr_user_id = 5, sr_deleted = False, sr_selection_revision = 0, sr_updated_at = 0\<rparr>)],
       db_users = [(5, \<lparr>ur_auth_version = 1, ur_active = True, ur_limits = \<lparr>ql_daily_message = 0, ql_daily_token = 0, ql_concurrent_run = 0,
         ql_daily_tool_call = 0, ql_daily_web_search = 0, ql_daily_web_extract = 0, ql_daily_ocr_file = 0, ql_daily_ocr_page = 0\<rparr>\<rparr>)],
       db_next_attempt = 1\<rparr>,
     md_enabled = [(1, True)], md_memories = [\<lparr>mw_session_id = 1, mw_content = ''Go'', mw_updated = 1\<rparr>], md_changes = [], md_next_change = 1,
     md_tasks = [], md_next_task = 1\<rparr>"

definition compact_demo :: save_input where
  "compact_demo = \<lparr>sv_run_id = [], sv_session_id = 1, sv_user_id = 5, sv_memory_enabled = None, sv_content = [], sv_source = ''compact'',
     sv_action = ''compact'', sv_summary = [], sv_expected_before = ''Go'', sv_check_before = True, sv_expected_revision = None, sv_max_chars = 0\<rparr>"

definition commit_demo :: maintenance_commit where
  "commit_demo = \<lparr>cm_run = \<lparr>ti_run_id = ''r'', ti_status = RunStatusCompleted, ti_cancel_cause = CauseNone, ti_public_error_code = [],
       ti_public_error_message = [], ti_terminal_message_id = 0, ti_terminal_event = None, ti_expires_at = 9\<rparr>,
     cm_memory = Some compact_demo,
     cm_task = \<lparr>tk_key = ModelTaskMemoryMaintenance, tk_user_id = 5, tk_session_id = 1, tk_run_id = ''r'', tk_source = ModelTaskSourceManual,
       tk_status = ModelTaskStatusSuccess, tk_provider = [], tk_model_id = [], tk_target_type = [], tk_target_id = [], tk_error_type = [],
       tk_error_message = [], tk_retry_after = None, tk_metadata = [], tk_started = 1, tk_finished = 2\<rparr>\<rparr>"

lemma demo_words: "trim_space ''Go'' = ''Go''" "trim_space ''compact'' = ''compact''" "trim_space ''memory_maintenance'' = ''memory_maintenance''"
  by (simp_all add: string_eval)

lemma compact_demo_saves:
  "\<exists>c. saveSessionMemoryWithChange 3 (compact_demo\<lparr>sv_run_id := i\<rparr>) (memory_demo\<lparr>md_run := run'\<rparr>) = (Inr (Some c),
     memory_demo\<lparr>md_run := run', md_memories := [\<lparr>mw_session_id = 1, mw_content = [], mw_updated = 3\<rparr>], md_changes := [c], md_next_change := 2\<rparr>)"
  if "db_sessions run' = db_sessions (md_run memory_demo)"
proof -
  have l: "lockActiveSessionAnswerSelectionRevision run' 1 5 = Inr 0"
    by (simp add: lockActiveSessionAnswerSelectionRevision_def lockActiveSession_def session_revision_def that memory_demo_def)
  show ?thesis
    by (simp add: saveSessionMemoryWithChange_def compact_demo_def Normalize_empty l ensureAnswerSelectionRevision_def set_enabled_def replace_memory_def)
      (simp add: getSessionMemoryForUpdate_def memory_demo_def find_memory_def Let_def demo_words normalizeMemoryChangeValue_def
        insertSessionMemoryChange_def upsertSessionMemory_def pruneSessionMemoryChanges_def newest_changes_def MaxChangeList_def)
qed

lemma memory_history_bounded_witness:
  "length (session_changes (snd (SaveWithChange FaultNone 3 compact_demo memory_demo)) 1) \<le> MaxChangeList"
proof -
  have "mem_reach memory_demo" by (rule start) (simp add: memory_demo_def)
  from memory_history_bounded[OF save[OF this]] show ?thesis by blast
qed

lemma undo_restores_memory_witness:
  "\<exists>c db1 c' db2. SaveWithChange FaultNone 3 compact_demo memory_demo = (Inr (Some c), db1) \<and> memory_Get db1 1 = [] \<and>
     UndoChange FaultNone 4 1 5 (mc_id c) db1 = (Inr c', db2) \<and> memory_Get db2 1 = ''Go''"
proof -
  obtain c db1 where s: "SaveWithChange FaultNone 3 compact_demo memory_demo = (Inr (Some c), db1)" "memory_Get db1 1 = []"
    using compact_demo_saves[of "md_run memory_demo" "[]"]
    by (auto simp: SaveWithChange_def run_tx_def compact_demo_def) (simp add: memory_Get_def find_memory_def)
  have g: "memory_Get memory_demo 1 = ''Go''" by (simp add: memory_Get_def find_memory_def memory_demo_def)
  have "mem_ok memory_demo" by (simp add: mem_ok_def memory_demo_def session_changes_def)
  moreover have "\<not> containsSensitiveValue ''Go''" by (rule short_not_sensitive) (simp add: rune_count_def dec_more_def)
  moreover have "RedactSensitiveValues [] = []" by (simp add: not_sensitive_redact nothing_sensitive)
  ultimately obtain c' db2 where "UndoChange FaultNone 4 1 5 (mc_id c) db1 = (Inr c', db2)" "memory_Get db2 1 = memory_Get memory_demo 1"
    using undo_restores_memory[of memory_demo 3 compact_demo c db1 4] s g
    by (auto simp: memory_demo_def compact_demo_def demo_words Let_def)
  then show ?thesis using s g by auto
qed

lemma maintenance_commits_once_witness:
  "\<exists>x db1. CommitMaintenanceRun (FaultAfter ErrBadConn) 3 commit_demo memory_demo = (x, db1) \<and> memory_Get db1 1 = [] \<and>
     snd (CommitMaintenanceRun FaultNone 4 commit_demo db1) = db1 \<and>
     (\<exists>r. CommitMaintenanceRun FaultNone 4 commit_demo db1 = (Inr (r, False), db1) \<and> rr_status r = RunStatusCompleted)"
proof -
  obtain r0 run' where t: "transitionChatRun 3 (cm_run commit_demo) (md_run memory_demo) = (Inr (r0, True), run')"
      "db_sessions run' = db_sessions (md_run memory_demo)" "db_users run' = db_users (md_run memory_demo)"
    by (simp add: transitionChatRun_def commit_demo_def memory_demo_def find_run_def row_running_def terminal_status_def update_runs_def)
  obtain c where c: "saveSessionMemoryWithChange 3 (compact_demo\<lparr>sv_run_id := ''r''\<rparr>) (memory_demo\<lparr>md_run := run'\<rparr>) = (Inr (Some c),
     memory_demo\<lparr>md_run := run', md_memories := [\<lparr>mw_session_id = 1, mw_content = [], mw_updated = 3\<rparr>], md_changes := [c], md_next_change := 2\<rparr>)"
    using compact_demo_saves[OF t(2)] by blast
  have n: "normalizeModelTaskKey ModelTaskMemoryMaintenance \<noteq> []"
    by (simp add: normalizeModelTaskKey_def ModelTaskMemoryMaintenance_def demo_words)
  define db2 where "db2 = memory_demo\<lparr>md_run := run', md_memories := [\<lparr>mw_session_id = 1, mw_content = [], mw_updated = 3\<rparr>], md_changes := [c], md_next_change := 2\<rparr>"
  obtain task where task: "insertModelTaskRun 3 (cm_task commit_demo) db2 = (Inr task, db2\<lparr>md_tasks := [task], md_next_task := 2\<rparr>)"
    using n t(2,3) by (simp add: insertModelTaskRun_def insert_task_row_def normalizeModelTaskRunInput_def Let_def commit_demo_def db2_def memory_demo_def)
  have b: "commit_body 3 commit_demo r0 run' memory_demo = (Inr (r0, True), db2\<lparr>md_tasks := [task], md_next_task := 2\<rparr>)"
  proof -
    have m: "cm_memory commit_demo = Some compact_demo" "ti_run_id (cm_run commit_demo) = ''r''" by (simp_all add: commit_demo_def)
    show ?thesis by (simp add: commit_body_def m c flip: db2_def) (simp add: task)
  qed
  obtain x db1 where k: "CommitMaintenanceRun (FaultAfter ErrBadConn) 3 commit_demo memory_demo = (x, db1)"
      "md_memories db1 = [\<lparr>mw_session_id = 1, mw_content = [], mw_updated = 3\<rparr>]"
    by (simp add: CommitMaintenanceRun_def t(1) run_tx_def b) (simp add: db2_def)
  have d: "db1 \<noteq> memory_demo" using k(2) by (auto simp: memory_demo_def)
  show ?thesis using maintenance_commits_once[OF k(1) d, of FaultNone 4] k
    by (auto simp: memory_Get_def find_memory_def) (simp add: commit_demo_def)
qed

end
