(* ===== verification/MemoryMaintenance.thy ===== *)
theory MemoryMaintenance
  imports SessionMemory
begin

text \<open>
  The maintenance of the memory card by a model (\<^verbatim>\<open>internal/agent/memory_maintenance.go\<close>,
  \<^verbatim>\<open>memory_maintenance_budget.go\<close>, \<^verbatim>\<open>finish_reason.go\<close>): which turns ask for it, what the
  model's answer may be, how it is applied, checked and saved, and what is recorded about it.

  The model is a parameter: \<open>collected\<close> is what \<open>Collect\<close> gave for its stream.  So are the
  declared output of a registered model, the error of building a client, the limits read from the
  configuration, the text of an error and the calendar (the clock in the user's time zone).
\<close>

section \<open>Which turns ask for maintenance\<close>

definition contains_any :: "string \<Rightarrow> string list \<Rightarrow> bool" where
  "contains_any t ws \<longleftrightarrow> list_ex (contains t) ws"

definition IsExplicitMemoryMaintenanceRequest :: "string \<Rightarrow> bool" where
  "IsExplicitMemoryMaintenanceRequest userText =
    (let t = to_lower (trim_space userText) in
     if rune_count t < 2 then False
     else contains_any t [str_of_runes [35760, 20303], str_of_runes [35760, 19968, 19979], str_of_runes [20445, 23384, 21040, 35760, 24518], 
       str_of_runes [23384, 21040, 35760, 24518], str_of_runes [21035, 24536], str_of_runes [24536, 25481], 
       str_of_runes [24536, 35760], str_of_runes [21024, 38500, 35760, 24518], str_of_runes [28165, 38500, 35760, 24518], 
       str_of_runes [19981, 35201, 35760], str_of_runes [26356, 26032, 35760, 24518], str_of_runes [20462, 25913, 35760, 24518], 
       str_of_runes [26356, 27491, 35760, 24518], str_of_runes [26356, 26032, 36825, 20010, 20915, 31574], 
       str_of_runes [26356, 26032, 36825, 26465, 20915, 31574], str_of_runes [20462, 25913, 36825, 20010, 20915, 31574], 
       str_of_runes [20462, 27491, 36825, 20010, 20915, 31574], str_of_runes [32416, 27491, 36825, 20010, 20915, 31574], 
       ''remember'', ''save this'', ''save to memory'', ''forget'', ''delete memory'', ''do not remember''])"

definition IsMemoryReadOnlyRequest :: "string \<Rightarrow> bool" where
  "IsMemoryReadOnlyRequest userText =
    (let t = to_lower (trim_space userText) in
     if \<not> contains_any t [str_of_runes [20250, 35805, 35760, 24518], str_of_runes [26681, 25454, 35760, 24518], 
       str_of_runes [22522, 20110, 35760, 24518], str_of_runes [20174, 35760, 24518], str_of_runes [24403, 21069, 35760, 24518], 
       ''memory''] then False
     else contains_any t [str_of_runes [22238, 31572], str_of_runes [24635, 32467], str_of_runes [21015, 20986], 
       str_of_runes [21578, 35785, 25105], str_of_runes [26159, 20160, 20040], str_of_runes [26377, 21738, 20123], 
       str_of_runes [23637, 31034], str_of_runes [26597, 30475], ''what'', ''summarize'', ''based on'', ''according to''])"

definition IsMemoryDeletionRequest :: "string \<Rightarrow> bool" where
  "IsMemoryDeletionRequest userText =
    contains_any (to_lower (trim_space userText)) [str_of_runes [24536, 25481], str_of_runes [24536, 35760], str_of_runes [21024, 38500, 35760, 24518], 
      str_of_runes [28165, 38500, 35760, 24518], str_of_runes [28165, 31354, 35760, 24518], str_of_runes [19981, 35201, 35760], 
      ''forget'', ''delete memory'', ''clear memory'', ''do not remember'']"

definition strings_Trim :: "string \<Rightarrow> nat list \<Rightarrow> string" where
  "strings_Trim s cutset = concat (map snd (trim_ends (\<lambda>p. fst p \<in> set cutset) (segs s)))"

definition IsTinyChitChat :: "string \<Rightarrow> bool" where
  "IsTinyChitChat userText =
    (let t = strings_Trim (trim_space (to_lower userText)) [12290, 46, 33, 65281, 63, 65311, 126, 65374, 32] in
     if rune_count t > 12 then False
     else t \<in> set [str_of_runes [22909], str_of_runes [22909, 30340], str_of_runes [34892], str_of_runes [21487, 20197], 
       str_of_runes [21999], str_of_runes [21999, 21999], ''ok'', ''okay'', ''thanks'', ''thank you'', 
       str_of_runes [35874, 35874], str_of_runes [36763, 33510, 20102], str_of_runes [19979, 27425, 20877, 35828], 
       str_of_runes [19979, 27425, 20877, 32842], str_of_runes [19979, 27425, 20877, 32842, 21543], 
       str_of_runes [22238, 22836, 20877, 32842], str_of_runes [21704, 21704]])"

definition ShouldRunMemoryMaintenance :: "string \<Rightarrow> bool" where
  "ShouldRunMemoryMaintenance userText =
    (let t = to_lower (trim_space userText) in
     if rune_count t < 8 then False
     else if IsExplicitMemoryMaintenanceRequest t then True
     else if IsMemoryReadOnlyRequest t then False
     else \<not> IsTinyChitChat t)"

section \<open>The answer of the model\<close>

text \<open>\<^verbatim>\<open>strings.EqualFold\<close> with an ASCII word.\<close>

definition equal_fold :: "string \<Rightarrow> string \<Rightarrow> bool" where
  "equal_fold s t \<longleftrightarrow> list_all2 (\<lambda>a b. a \<in> set (folds b)) (runes s) (runes t)"

record maintenance_op =
  mo_op :: string
  mo_section :: string
  mo_match :: string
  mo_content :: string

record maintenance_decision =
  de_action :: string
  de_content :: string
  de_operations :: "maintenance_op list"
  de_summary :: string

datatype finish_reason =
  FinishReasonStop | FinishReasonOutputLimit | FinishReasonSafety | FinishReasonMalformedTool | FinishReasonToolContinuation | FinishReasonUnknown

definition maxRawFinishReasonRunes :: nat where "maxRawFinishReasonRunes = 64"

definition boundedFinishReason :: "string \<Rightarrow> string" where
  "boundedFinishReason raw = str_of_runes (take maxRawFinishReasonRunes (runes (trim_space raw)))"

definition normalizeProviderFinishReason :: "string \<Rightarrow> bool \<Rightarrow> finish_reason \<times> string" where
  "normalizeProviderFinishReason raw hasToolCalls =
    (let v = map (\<lambda>c. if c = CHR ''-'' \<or> c = CHR '' '' then CHR ''_'' else c) (to_lower (trim_space raw));
         canonical =
           (if v \<in> set [''stop'', ''end_turn'', ''stop_sequence'', ''complete'', ''completed''] then FinishReasonStop
            else if v \<in> set [''length'', ''max_tokens'', ''max_output_tokens'', ''token_limit'', ''model_context_window_exceeded''] then FinishReasonOutputLimit
            else if v \<in> set [''content_filter'', ''safety'', ''blocked'', ''refusal'', ''recitation'', ''language'', ''blocklist'', ''prohibited_content'',
              ''spii'', ''image_safety'', ''image_prohibited_content'', ''no_image'', ''sensitive''] then FinishReasonSafety
            else if v \<in> set [''malformed_function_call'', ''unexpected_tool_call'', ''invalid_tool_arguments'', ''malformed_tool''] then FinishReasonMalformedTool
            else if v \<in> set [''tool_calls'', ''tool_use'', ''function_call'', ''pause_turn''] then FinishReasonToolContinuation
            else FinishReasonUnknown)
     in (if hasToolCalls \<and> (canonical = FinishReasonStop \<or> canonical = FinishReasonToolContinuation \<or> canonical = FinishReasonUnknown)
         then FinishReasonToolContinuation else canonical, boundedFinishReason raw))"

definition completionIsIncomplete :: "finish_reason \<Rightarrow> bool" where
  "completionIsIncomplete reason \<longleftrightarrow> reason = FinishReasonOutputLimit"

definition generateMemoryMaintenanceText :: "message option \<times> go_err option \<Rightarrow> go_err + string" where
  "generateMemoryMaintenanceText collected =
    (case snd collected of
       Some e \<Rightarrow> Inl (if err_is e ErrEmptyOutput then ErrWrap ''memory maintenance returned empty output'' e else e)
     | None \<Rightarrow>
       (case fst collected of
          None \<Rightarrow> Inl (ErrText ''memory maintenance returned empty output'')
        | Some m \<Rightarrow>
            if (case m_finish_reason m of None \<Rightarrow> False
                | Some r \<Rightarrow> fst (normalizeProviderFinishReason r (m_tool_names m \<noteq> [])) = FinishReasonOutputLimit)
            then Inl ErrMemoryMaintenanceOutputLimit
            else if trim_space (m_content m) = [] then Inl (ErrText ''memory maintenance returned empty output'')
            else Inr (trim_space (m_content m))))"

definition memoryFencedJSONPattern :: re where
  "memoryFencedJSONPattern = seq_all [lit ''```'', opt_re (lit ''json''), Star True (Cls space_ranges), Group 1 (Star False (NotCls [])),
     Star True (Cls space_ranges), lit ''```'']"

definition fencedJSONCandidates :: "string \<Rightarrow> string list" where
  "fencedJSONCandidates raw = FindAllSubmatch memoryFencedJSONPattern 1 raw"

text \<open>
  A field of a struct from the value of a member: a \<^verbatim>\<open>null\<close> leaves it, another type is an
  error.  A member belongs to the field whose name it has, up to case.
\<close>

definition string_field :: "jv \<Rightarrow> string \<Rightarrow> string option" where
  "string_field v old = (case v of JStr s \<Rightarrow> Some s | JNull \<Rightarrow> Some old | _ \<Rightarrow> None)"

definition op_member :: "string \<times> jv \<Rightarrow> maintenance_op \<Rightarrow> maintenance_op option" where
  "op_member p o1 =
    (if equal_fold (fst p) ''op'' then map_option (\<lambda>s. o1\<lparr>mo_op := s\<rparr>) (string_field (snd p) (mo_op o1))
     else if equal_fold (fst p) ''section'' then map_option (\<lambda>s. o1\<lparr>mo_section := s\<rparr>) (string_field (snd p) (mo_section o1))
     else if equal_fold (fst p) ''match'' then map_option (\<lambda>s. o1\<lparr>mo_match := s\<rparr>) (string_field (snd p) (mo_match o1))
     else if equal_fold (fst p) ''content'' then map_option (\<lambda>s. o1\<lparr>mo_content := s\<rparr>) (string_field (snd p) (mo_content o1))
     else Some o1)"

fun fold_members :: "(string \<times> jv \<Rightarrow> 'a \<Rightarrow> 'a option) \<Rightarrow> (string \<times> jv) list \<Rightarrow> 'a \<Rightarrow> 'a option" where
  "fold_members f [] x = Some x"
| "fold_members f (p # ps) x = (case f p x of None \<Rightarrow> None | Some y \<Rightarrow> fold_members f ps y)"

definition zero_op :: maintenance_op where
  "zero_op = \<lparr>mo_op = [], mo_section = [], mo_match = [], mo_content = []\<rparr>"

definition decode_op :: "jv \<Rightarrow> maintenance_op option" where
  "decode_op v = (case v of JObj m \<Rightarrow> fold_members op_member m zero_op | JNull \<Rightarrow> Some zero_op | _ \<Rightarrow> None)"

definition operations_field :: "jv \<Rightarrow> maintenance_op list option" where
  "operations_field v =
    (case v of
       JNull \<Rightarrow> Some []
     | JArr vs \<Rightarrow> if list_ex (\<lambda>v. decode_op v = None) vs then None else Some (List.map_filter decode_op vs)
     | _ \<Rightarrow> None)"

definition decision_member :: "string \<times> jv \<Rightarrow> maintenance_decision \<Rightarrow> maintenance_decision option" where
  "decision_member p d =
    (if equal_fold (fst p) ''action'' then map_option (\<lambda>s. d\<lparr>de_action := s\<rparr>) (string_field (snd p) (de_action d))
     else if equal_fold (fst p) ''content'' then map_option (\<lambda>s. d\<lparr>de_content := s\<rparr>) (string_field (snd p) (de_content d))
     else if equal_fold (fst p) ''operations'' then map_option (\<lambda>os. d\<lparr>de_operations := os\<rparr>) (operations_field (snd p))
     else if equal_fold (fst p) ''summary'' then map_option (\<lambda>s. d\<lparr>de_summary := s\<rparr>) (string_field (snd p) (de_summary d))
     else Some d)"

definition decodeFirstJSONDecision :: "string \<Rightarrow> maintenance_decision option" where
  "decodeFirstJSONDecision raw =
    (case index_of raw ''{'' of
       None \<Rightarrow> None
     | Some start \<Rightarrow>
       (case jd_value (2 * length raw + 2) 10000 (drop start raw) of
          Some (JObj m, rest) \<Rightarrow> fold_members decision_member m \<lparr>de_action = [], de_content = [], de_operations = [], de_summary = []\<rparr>
        | _ \<Rightarrow> None))"

definition parseMemoryMaintenanceDecision :: "string \<Rightarrow> maintenance_decision option" where
  "parseMemoryMaintenanceDecision raw0 =
    (let raw = trim_space raw0
     in case List.map_filter decodeFirstJSONDecision (fencedJSONCandidates raw @ [raw]) of [] \<Rightarrow> None | d # _ \<Rightarrow> Some d)"

section \<open>Applying it\<close>

fun replace_first :: "('a \<Rightarrow> bool) \<Rightarrow> 'a list \<Rightarrow> 'a list \<Rightarrow> 'a list option" where
  "replace_first P ys [] = None"
| "replace_first P ys (x # xs) = (if P x then Some (ys @ xs) else map_option (\<lambda>r. x # r) (replace_first P ys xs))"

definition section_at :: "document \<Rightarrow> string \<Rightarrow> nat option" where
  "section_at doc key = find (\<lambda>i. ms_key (doc_sections doc ! i) = key) [0..<length (doc_sections doc)]"

definition put_items :: "document \<Rightarrow> nat \<Rightarrow> string list \<Rightarrow> document" where
  "put_items doc i items = doc\<lparr>doc_sections := (doc_sections doc)[i := (doc_sections doc ! i)\<lparr>ms_items := items\<rparr>]\<rparr>"

definition apply_op :: "maintenance_op \<Rightarrow> document \<Rightarrow> go_err + document" where
  "apply_op p doc =
    (case section_at doc (NormalizeSectionKey (mo_section p)) of
       None \<Rightarrow> Inl (ErrText ''memory patch section is invalid'')
     | Some i \<Rightarrow>
       (let op = to_lower (trim_space (mo_op p)); m = trim_space (mo_match p); content = trim_space (mo_content p);
            items = ms_items (doc_sections doc ! i)
        in if op = ''add'' then
             (if content = [] then Inl (ErrText ''memory patch add content is required'') else Inr (put_items doc i (items @ [content])))
           else if op = ''update'' then
             (if m = [] \<or> content = [] then Inl (ErrText ''memory patch update requires match and content'')
              else (case replace_first (\<lambda>x. trim_space x = m) [content] items of
                  None \<Rightarrow> Inl (ErrText ''memory patch update target not found'') | Some xs \<Rightarrow> Inr (put_items doc i xs)))
           else if op = ''delete'' \<or> op = ''remove'' then
             (if m = [] then Inl (ErrText ''memory patch delete requires match'')
              else (case replace_first (\<lambda>x. trim_space x = m) [] items of
                  None \<Rightarrow> Inl (ErrText ''memory patch delete target not found'') | Some xs \<Rightarrow> Inr (put_items doc i xs)))
           else Inl (ErrText ''memory patch operation is invalid'')))"

fun apply_ops :: "maintenance_op list \<Rightarrow> document \<Rightarrow> go_err + document" where
  "apply_ops [] doc = Inr doc"
| "apply_ops (p # ps) doc = (case apply_op p doc of Inl e \<Rightarrow> Inl e | Inr doc' \<Rightarrow> apply_ops ps doc')"

definition applyMemoryMaintenanceDecision :: "string \<Rightarrow> maintenance_decision \<Rightarrow> limits \<Rightarrow> go_err + string \<times> document" where
  "applyMemoryMaintenanceDecision current d l =
    (if equal_fold (de_action d) ''patch'' \<or> de_operations d \<noteq> []
     then (case apply_ops (de_operations d) (Parse current) of Inl e \<Rightarrow> Inl e | Inr doc \<Rightarrow> NormalizeWithLimits (Serialize doc) l)
     else NormalizeWithLimits (de_content d) l)"

section \<open>Checks\<close>

text \<open>\<^verbatim>\<open>unicode.Han\<close> (Unicode 15).\<close>

definition han_ranges :: "(nat \<times> nat) list" where
  "han_ranges = [(0x2E80, 0x2E99), (0x2E9B, 0x2EF3), (0x2F00, 0x2FD5), (0x3005, 0x3005), (0x3007, 0x3007), (0x3021, 0x3029), (0x3038, 0x303B),
     (0x3400, 0x4DBF), (0x4E00, 0x9FFF), (0xF900, 0xFA6D), (0xFA70, 0xFAD9), (0x16FE2, 0x16FE3), (0x16FF0, 0x16FF1), (0x20000, 0x2A6DF),
     (0x2A700, 0x2B739), (0x2B740, 0x2B81D), (0x2B820, 0x2CEA1), (0x2CEB0, 0x2EBE0), (0x2F800, 0x2FA1D), (0x30000, 0x3134A), (0x31350, 0x323AF)]"

definition containsHan :: "string \<Rightarrow> bool" where
  "containsHan s = list_ex (\<lambda>r. in_ranges r han_ranges) (runes s)"

definition memoryEnglishWordPattern :: re where
  "memoryEnglishWordPattern = at_least 2 (Cls [(65, 90), (97, 122)])"

definition item_language_ok :: "string \<Rightarrow> bool" where
  "item_language_ok item \<longleftrightarrow> containsHan item \<or> length (FindAll memoryEnglishWordPattern item) < 3"

definition validateMemoryMaintenanceLanguage :: "document \<Rightarrow> bool" where
  "validateMemoryMaintenanceLanguage doc = list_all (\<lambda>s. list_all item_language_ok (ms_items s)) (doc_sections doc)"

definition memoryDatePattern :: re where
  "memoryDatePattern = seq_all [WordBoundary, times_re 4 (Cls digit_ranges), rune_re 45, times_re 2 (Cls digit_ranges), rune_re 45,
     times_re 2 (Cls digit_ranges), WordBoundary]"

definition dates_of :: "string \<Rightarrow> string list" where
  "dates_of s = FindAll memoryDatePattern s"

definition validateMemoryMaintenanceDates :: "string \<Rightarrow> string \<Rightarrow> string \<Rightarrow> string \<Rightarrow> bool" where
  "validateMemoryMaintenanceDates current userText after0 currentDate \<longleftrightarrow>
    list_all (\<lambda>d. d \<in> set (concat (map dates_of [current, userText, currentDate]))) (dates_of after0)"

definition countMemoryItems :: "document \<Rightarrow> nat" where
  "countMemoryItems doc = sum_list (map (\<lambda>s. length (ms_items s)) (doc_sections doc))"

definition validateMemoryMaintenanceUpdate :: "string \<Rightarrow> string \<Rightarrow> bool \<Rightarrow> bool" where
  "validateMemoryMaintenanceUpdate before0 after0 allowEmpty =
    (let b = countMemoryItems (Parse before0); a = countMemoryItems (Parse after0)
     in if a = 0 \<and> b > 0 \<and> \<not> allowEmpty then False
        else if b > 1 \<and> a = 1
        then list_all (\<lambda>s. list_all (\<lambda>i. \<not> rune_count (trim_space i) < 10) (ms_items s)) (doc_sections (Parse after0))
        else True)"

section \<open>The budget of the model's answer\<close>

record model_request =
  rq_provider :: string
  rq_model_id :: string
  rq_max_output :: int
  rq_max_tokens :: int
  rq_runtime_resolved :: bool
  rq_suppress_thinking :: bool
  rq_user_id :: int
  rq_session_id :: int
  rq_skip_usage :: bool

definition memoryMaintenanceJSONHeadroomTokens :: int where "memoryMaintenanceJSONHeadroomTokens = 4096"
definition memoryMaintenanceOutputTokenStep :: int where "memoryMaintenanceOutputTokenStep = 4096"

definition memoryMaintenanceOutputTokenBudget :: "limits \<Rightarrow> int" where
  "memoryMaintenanceOutputTokenBudget l0 =
    (let l = NormalizeLimits (lm_max l0) (lm_soft l0); raw = lm_max l + memoryMaintenanceJSONHeadroomTokens
     in (raw + memoryMaintenanceOutputTokenStep - 1) div memoryMaintenanceOutputTokenStep * memoryMaintenanceOutputTokenStep)"

definition taskModelRequest :: "model_request \<Rightarrow> int \<Rightarrow> model_request" where
  "taskModelRequest req maxTokens =
    req\<lparr>rq_max_tokens := (if rq_max_output req > 0 \<and> (maxTokens \<le> 0 \<or> rq_max_output req < maxTokens) then rq_max_output req else maxTokens)\<rparr>"

definition prepareMemoryMaintenanceModelRequest :: "(string \<Rightarrow> string \<Rightarrow> int) \<Rightarrow> model_request option \<Rightarrow> limits \<Rightarrow> go_err + model_request" where
  "prepareMemoryMaintenanceModelRequest declared req0 l =
    (case req0 of
       None \<Rightarrow> Inl (ErrText ''memory maintenance requires the active chat model configuration'')
     | Some req \<Rightarrow>
       (let required = memoryMaintenanceOutputTokenBudget (NormalizeLimits (lm_max l) (lm_soft l));
            available = (if rq_max_output req \<le> 0 \<and> \<not> rq_runtime_resolved req then declared (rq_model_id req) (rq_provider req) else rq_max_output req)
        in if available > 0 \<and> available < required then Inl ErrMemoryMaintenanceOutputBudgetInsufficient
           else (let r = taskModelRequest req required
             in Inr (r\<lparr>rq_max_output := (if rq_max_output r \<le> 0 \<and> available > 0 then available else rq_max_output r), rq_suppress_thinking := True\<rparr>))))"

definition usage_ErrorType :: "go_err \<Rightarrow> string" where
  "usage_ErrorType e =
    (if err_is e ErrFirstOutputTimeout then ''first_output_timeout''
     else if err_is e ContextCanceled then ''canceled''
     else if err_is e DeadlineExceeded then ''timeout'' else ''model_error'')"

definition memoryMaintenanceTaskErrorType :: "go_err \<Rightarrow> string" where
  "memoryMaintenanceTaskErrorType e =
    (if err_is e ErrMemoryMaintenanceOutputBudgetInsufficient then ''memory_output_budget_insufficient''
     else if err_is e ErrMemoryMaintenanceOutputLimit then ''memory_output_limit''
     else usage_ErrorType e)"

section \<open>A maintenance run\<close>

record calendar =
  ca_date :: string
  ca_week :: string
  ca_month :: string
  ca_timezone :: string

record maintenance_request =
  ma_session_id :: int
  ma_user_id :: int
  ma_run_id :: string
  ma_user_text :: string
  ma_context_text :: string
  ma_memory_enabled :: bool
  ma_expected_revision :: "int option"
  ma_source :: string
  ma_skip_memory :: bool
  ma_force :: bool
  ma_ignore_cooldown :: bool
  ma_model :: "model_request option"
  ma_prepared :: bool

record maintenance_env =
  ev_now :: int
  ev_cooldown_error :: "go_err option"
  ev_read_error :: "go_err option"
  ev_limits :: "go_err + limits"
  ev_declared_output :: "string \<Rightarrow> string \<Rightarrow> int"
  ev_build_error :: "go_err option"
  ev_calendar :: calendar
  ev_collected :: "message option \<times> go_err option"
  ev_error_text :: "go_err \<Rightarrow> string"
  ev_between :: "mem_db \<Rightarrow> mem_db"
  ev_save_fault :: db_fault

definition limitMemoryPromptText :: "string \<Rightarrow> nat \<Rightarrow> string" where
  "limitMemoryPromptText value0 maxRunes =
    (let v = trim_space value0 in
     if rune_count v \<le> maxRunes then v else str_of_runes (take maxRunes (runes v)) @ newline @ ''[truncated]'')"

definition buildMemoryMaintenancePrompt :: "string \<Rightarrow> maintenance_request \<Rightarrow> string \<Rightarrow> calendar \<Rightarrow> string" where
  "buildMemoryMaintenancePrompt current0 req source c =
    (let current = RedactSensitiveValues current0
     in ''Current date: '' @ ca_date c @ newline @ ''Current week: '' @ ca_week c @ newline @ ''Current month: '' @ ca_month c @ newline @
        ''Timezone: '' @ ca_timezone c @ newline @ newline @ ''Current memory:'' @ newline @
        (if trim_space current = [] then ''(empty)'' else current) @ newline @ newline @ ''Mode: '' @
        (if source = ''compact'' then ''compact and clean the memory card. Preserve facts, remove duplication, keep sections concise.''
         else ''update memory only if the recent conversation window contains durable information. Prefer the newest user correction when meanings conflict.'') @
        newline @ newline @ ''Latest user message:'' @ newline @ limitMemoryPromptText (ma_user_text req) 2000 @
        (if trim_space (ma_context_text req) = [] then []
         else newline @ newline @ ''Recent conversation window:'' @ newline @ limitMemoryPromptText (ma_context_text req) 8000))"

definition modelTaskSourceForMaintenance :: "string \<Rightarrow> string" where
  "modelTaskSourceForMaintenance source =
    (if trim_space source = ''auto'' then ModelTaskSourceAuto else if trim_space source = ''tool'' then ModelTaskSourceTool else ModelTaskSourceManual)"

definition retryAfterForTask :: "int \<Rightarrow> string \<Rightarrow> int option" where
  "retryAfterForTask now source = (if source \<noteq> ModelTaskSourceAuto then None else Some (now + 1800000000000))"

definition retryAfterForMemoryTask :: "int \<Rightarrow> string \<Rightarrow> go_err \<Rightarrow> int option" where
  "retryAfterForMemoryTask now source e = (if err_is e ErrMemoryMaintenanceOutputBudgetInsufficient then None else retryAfterForTask now source)"

definition memoryMaintenanceSummary :: "string \<Rightarrow> string \<Rightarrow> string \<Rightarrow> string" where
  "memoryMaintenanceSummary source before0 after0 =
    (if source = ''compact'' then str_of_runes [24050, 25972, 29702, 20250, 35805, 35760, 24518] else Summary before0 after0)"

text \<open>The model's names; they are empty where the request has none.\<close>

definition model_names :: "maintenance_request \<Rightarrow> string \<times> string" where
  "model_names req =
    (case ma_model req of
       None \<Rightarrow> ([], [])
     | Some m \<Rightarrow> if trim_space (rq_model_id m) = [] \<or> trim_space (rq_provider m) = [] then ([], []) else (rq_provider m, rq_model_id m))"

definition buildMemoryMaintenanceModel :: "maintenance_env \<Rightarrow> maintenance_request \<Rightarrow> limits \<Rightarrow> go_err + model_request" where
  "buildMemoryMaintenanceModel env req l =
    (if model_names req = ([], []) then Inl (ErrText ''memory maintenance requires the active chat model configuration'')
     else (case prepareMemoryMaintenanceModelRequest (ev_declared_output env) (ma_model req) l of
         Inl e \<Rightarrow> Inl e
       | Inr r \<Rightarrow> (case ev_build_error env of
           Some e \<Rightarrow> Inl e
         | None \<Rightarrow> Inr (r\<lparr>rq_user_id := ma_user_id req, rq_session_id := ma_session_id req, rq_skip_usage := False\<rparr>))))"

text \<open>
  What a run comes to before anything is saved: a failure with the type of its error (and whether the
  model was named, and a budget error spares the cooldown), a skip with its reason, or the save.
\<close>

datatype preparation = PrepFail bool bool go_err string | PrepSkip bool string | PrepSave save_input

definition check_decision :: "maintenance_request \<Rightarrow> string \<Rightarrow> limits \<Rightarrow> calendar \<Rightarrow> string \<Rightarrow> string \<Rightarrow> maintenance_decision \<Rightarrow> preparation" where
  "check_decision req source l c rawCurrent current d =
    (if trim_space (de_action d) = [] \<or> equal_fold (de_action d) ''none'' then PrepSkip True ''model_returned_none''
     else if \<not> equal_fold (de_action d) ''update'' \<and> \<not> equal_fold (de_action d) ''patch''
     then PrepFail True False (ErrText ''unsupported memory maintenance action'') ''validation_error''
     else (case applyMemoryMaintenanceDecision current d l of
         Inl e \<Rightarrow> PrepFail True False e ''validation_error''
       | Inr (normalized, doc) \<Rightarrow>
           if \<not> validateMemoryMaintenanceLanguage doc
           then PrepFail True False (ErrText ''memory maintenance returned non-Chinese prose'') ''validation_error''
           else if trim_space normalized = trim_space current then PrepSkip True ''unchanged''
           else if \<not> validateMemoryMaintenanceDates current (ma_user_text req @ newline @ ma_context_text req) normalized (ca_date c)
           then PrepFail True False (ErrText ''memory maintenance discarded: produced ungrounded date'') ''validation_error''
           else if \<not> validateMemoryMaintenanceUpdate current normalized (IsMemoryDeletionRequest (ma_user_text req))
           then PrepFail True False (ErrText ''memory maintenance discarded'') ''validation_error''
           else (let summary = trim_space (de_summary d)
             in PrepSave \<lparr>sv_run_id = [], sv_session_id = ma_session_id req, sv_user_id = ma_user_id req, sv_memory_enabled = None,
                  sv_content = normalized, sv_source = source, sv_action = (if source = ''compact'' then ''compact'' else ''update''),
                  sv_summary = (if summary = [] \<or> \<not> containsHan summary then memoryMaintenanceSummary source current normalized else summary),
                  sv_expected_before = rawCurrent, sv_check_before = True, sv_expected_revision = ma_expected_revision req,
                  sv_max_chars = lm_max l\<rparr>)))"

definition current_card :: "string \<Rightarrow> string" where
  "current_card rawCurrent = RedactSensitiveValues (Serialize (Parse rawCurrent))"

definition prepare_maintenance :: "maintenance_env \<Rightarrow> maintenance_request \<Rightarrow> string \<Rightarrow> string \<Rightarrow> preparation" where
  "prepare_maintenance env req source rawCurrent =
    (let current = current_card rawCurrent in
     if trim_space current = [] \<and> source = ''compact'' then PrepSkip False ''empty_memory''
     else (case ev_limits env of
         Inl e \<Rightarrow> PrepFail False False e (usage_ErrorType e)
       | Inr l \<Rightarrow>
         (case buildMemoryMaintenanceModel env req l of
            Inl e \<Rightarrow> PrepFail True True e (memoryMaintenanceTaskErrorType e)
          | Inr _ \<Rightarrow>
            (case generateMemoryMaintenanceText (ev_collected env) of
               Inl e0 \<Rightarrow> (let e = ErrWrap ''memory maintenance generation failed'' e0 in PrepFail True True e (memoryMaintenanceTaskErrorType e))
             | Inr output \<Rightarrow>
               (case parseMemoryMaintenanceDecision output of
                  None \<Rightarrow> PrepFail True False (ErrText ''decode memory maintenance decision'') ''parse_error''
                | Some d \<Rightarrow> check_decision req source l (ev_calendar env) rawCurrent current d)))))"

text \<open>The record of a run: its names where the model was named, its target, error and cooldown.\<close>

definition maintenance_task :: "maintenance_env \<Rightarrow> maintenance_request \<Rightarrow> string \<Rightarrow> bool \<Rightarrow> string \<Rightarrow> string \<Rightarrow> string \<Rightarrow> string \<Rightarrow> int option \<Rightarrow> task_run_input" where
  "maintenance_task env req source named status errorType message metadata retryAfter =
    \<lparr>tk_key = ModelTaskMemoryMaintenance, tk_user_id = ma_user_id req, tk_session_id = ma_session_id req, tk_run_id = ma_run_id req,
     tk_source = modelTaskSourceForMaintenance source, tk_status = status,
     tk_provider = (if named then fst (model_names req) else []), tk_model_id = (if named then snd (model_names req) else []),
     tk_target_type = ''memory'', tk_target_id = itoa (ma_session_id req), tk_error_type = errorType, tk_error_message = message,
     tk_retry_after = retryAfter, tk_metadata = metadata, tk_started = ev_now env, tk_finished = ev_now env\<rparr>"

definition reason_json :: "string \<Rightarrow> string" where
  "reason_json reason = json_object [(''reason'', json_str reason)]"

definition skipped_task :: "maintenance_env \<Rightarrow> maintenance_request \<Rightarrow> string \<Rightarrow> bool \<Rightarrow> string \<Rightarrow> task_run_input" where
  "skipped_task env req source named reason = maintenance_task env req source named ModelTaskStatusSkipped [] [] (reason_json reason) None"

definition failed_task :: "maintenance_env \<Rightarrow> maintenance_request \<Rightarrow> string \<Rightarrow> bool \<Rightarrow> go_err \<Rightarrow> string \<Rightarrow> int option \<Rightarrow> task_run_input" where
  "failed_task env req source named e errorType retryAfter =
    maintenance_task env req source named ModelTaskStatusFailed errorType (ev_error_text env e) [] retryAfter"

definition success_task :: "maintenance_env \<Rightarrow> maintenance_request \<Rightarrow> string \<Rightarrow> task_run_input" where
  "success_task env req source = maintenance_task env req source True ModelTaskStatusSuccess [] [] [] None"

text \<open>The direct save of the automatic path, after what others did to the tables meanwhile.\<close>

definition save_maintenance :: "maintenance_env \<Rightarrow> maintenance_request \<Rightarrow> string \<Rightarrow> save_input \<Rightarrow> mem_db \<Rightarrow> (go_err option \<times> task_run_input) \<times> mem_db" where
  "save_maintenance env req source v db =
    (let auto0 = (modelTaskSourceForMaintenance source = ModelTaskSourceAuto)
     in case SaveWithChange (ev_save_fault env) (ev_now env) v db of
          (Inr _, db') \<Rightarrow> ((None, success_task env req source), db')
        | (Inl e, db') \<Rightarrow>
            if err_is e ErrSessionMemoryConflict
            then ((if auto0 then None else Some e, skipped_task env req source True ''memory_changed''), db')
            else if err_is e ErrAnswerSelectionRevisionConflict
            then ((Some e, skipped_task env req source True ''answer_selection_changed''), db')
            else ((Some e, failed_task env req source True e (usage_ErrorType e)
                    (retryAfterForTask (ev_now env) (modelTaskSourceForMaintenance source))), db'))"

text \<open>The error, the recorded task runs and the prepared save of a run, with the tables after it.\<close>

definition runMemoryMaintenance ::
  "maintenance_env \<Rightarrow> maintenance_request \<Rightarrow> string \<Rightarrow> mem_db \<Rightarrow> (go_err option \<times> task_run_input list \<times> save_input option) \<times> mem_db" where
  "runMemoryMaintenance env req source db =
    (let taskSource = modelTaskSourceForMaintenance source; now = ev_now env; cooled = (taskSource = ModelTaskSourceAuto \<and> \<not> ma_ignore_cooldown req)
     in if cooled \<and> ev_cooldown_error env \<noteq> None
        then ((map_option (ErrWrap ''check memory maintenance cooldown'') (ev_cooldown_error env), [], None), db)
        else if cooled \<and> LatestAutoCooldown db (ma_session_id req) (ma_user_id req) ModelTaskMemoryMaintenance now \<noteq> None
        then ((None, [], None), db)
        else (case ev_read_error env of
            Some e \<Rightarrow> ((Some e, [(failed_task env req source False e (usage_ErrorType e) (retryAfterForTask now taskSource))\<lparr>tk_target_id := []\<rparr>], None), db)
          | None \<Rightarrow>
            (case prepare_maintenance env req source (fst (GetWithUpdatedAt db (ma_session_id req))) of
               PrepFail named budget e errorType \<Rightarrow>
                 ((Some e, [failed_task env req source named e errorType
                    (if budget then retryAfterForMemoryTask now taskSource e else retryAfterForTask now taskSource)], None), db)
             | PrepSkip named reason \<Rightarrow> ((None, [skipped_task env req source named reason], None), db)
             | PrepSave v \<Rightarrow>
                 if ma_prepared req then ((None, [success_task env req source], Some v), db)
                 else (let ((err, task0), db') = save_maintenance env req source v (ev_between env db) in ((err, [task0], None), db')))))"

definition MaintainSessionMemory ::
  "bool \<Rightarrow> maintenance_env \<Rightarrow> maintenance_request \<Rightarrow> mem_db \<Rightarrow> (go_err option \<times> task_run_input list \<times> save_input option) \<times> mem_db" where
  "MaintainSessionMemory toolEnabled env req db =
    (if ma_session_id req \<le> 0 \<or> ma_user_id req \<le> 0 then ((None, [], None), db)
     else if \<not> ma_memory_enabled req then ((None, [], None), db)
     else if \<not> toolEnabled then ((None, [], None), db)
     else if \<not> ma_force req \<and> \<not> ShouldRunMemoryMaintenance (ma_user_text req) then ((None, [], None), db)
     else runMemoryMaintenance env req ''auto'' db)"

definition CompactSessionMemory ::
  "maintenance_env \<Rightarrow> maintenance_request \<Rightarrow> mem_db \<Rightarrow> (go_err option \<times> task_run_input list \<times> save_input option) \<times> mem_db" where
  "CompactSessionMemory env req db =
    (if ma_session_id req \<le> 0 \<or> ma_user_id req \<le> 0 then ((Some (ErrText ''memory maintenance is unavailable''), [], None), db)
     else runMemoryMaintenance env req ''compact'' db)"

definition RetrySessionMemory ::
  "bool \<Rightarrow> maintenance_env \<Rightarrow> maintenance_request \<Rightarrow> mem_db \<Rightarrow> (go_err option \<times> task_run_input list \<times> save_input option) \<times> mem_db" where
  "RetrySessionMemory toolEnabled env req db =
    (if ma_session_id req \<le> 0 \<or> ma_user_id req \<le> 0 then ((Some (ErrText ''memory maintenance is unavailable''), [], None), db)
     else if \<not> ma_memory_enabled req then ((Some (ErrText ''session memory is disabled''), [], None), db)
     else if \<not> toolEnabled then ((Some (ErrText ''memory tool is disabled''), [], None), db)
     else if trim_space (ma_user_text req) = [] then ((Some (ErrText ''no user message available for memory retry''), [], None), db)
     else runMemoryMaintenance env req ''manual'' db)"

text \<open>
  Recording a task run outside a sink: the cooldown of an automatic run is dropped when its context
  was cancelled, and the record then belongs to the background tasks, which a drain no longer starts.
\<close>

definition recordUtilityTaskRun :: "db_fault \<Rightarrow> int \<Rightarrow> bool \<Rightarrow> bool \<Rightarrow> task_run_input \<Rightarrow> mem_db \<Rightarrow> mem_db" where
  "recordUtilityTaskRun fault now canceled draining input0 db =
    (let input = (if tk_source input0 = ModelTaskSourceAuto \<and> canceled then input0\<lparr>tk_retry_after := None\<rparr> else input0)
     in if canceled \<and> draining then db else snd (RecordTaskRun fault now input db))"

section \<open>Background tasks\<close>

record memory_tasks =
  bg_draining :: bool
  bg_claims :: "int list"
  bg_running :: "(int \<times> bool) list"

definition startMemoryBackgroundTask :: "int \<Rightarrow> bool \<Rightarrow> memory_tasks \<Rightarrow> bool \<times> memory_tasks" where
  "startMemoryBackgroundTask session claimed b =
    (if bg_draining b then (False, b) else (True, b\<lparr>bg_running := bg_running b @ [(session, claimed)]\<rparr>))"

definition tryClaimAutomaticMemory :: "int \<Rightarrow> memory_tasks \<Rightarrow> bool \<times> memory_tasks" where
  "tryClaimAutomaticMemory session b =
    (if session \<le> 0 \<or> session \<in> set (bg_claims b) then (False, b) else (True, b\<lparr>bg_claims := bg_claims b @ [session]\<rparr>))"

text \<open>Whether the task runs: a drain refuses it, an automatic one needs the claim of its session.\<close>

definition MaintainSessionMemoryAsync :: "maintenance_request \<Rightarrow> memory_tasks \<Rightarrow> bool \<times> memory_tasks" where
  "MaintainSessionMemoryAsync req b =
    (let claims = (ma_source req = ''auto'' \<and> \<not> ma_force req) in
     if bg_draining b then (False, b)
     else if claims
     then (case tryClaimAutomaticMemory (ma_session_id req) b of
         (False, b') \<Rightarrow> (False, b')
       | (True, b') \<Rightarrow> startMemoryBackgroundTask (ma_session_id req) True b')
     else startMemoryBackgroundTask (ma_session_id req) False b)"

definition finish_memory_task :: "int \<Rightarrow> bool \<Rightarrow> memory_tasks \<Rightarrow> memory_tasks" where
  "finish_memory_task session claimed b =
    (if (session, claimed) \<notin> set (bg_running b) then b
     else b\<lparr>bg_running := remove1 (session, claimed) (bg_running b),
            bg_claims := (if claimed then removeAll session (bg_claims b) else bg_claims b)\<rparr>)"

definition DrainMemoryTasks :: "memory_tasks \<Rightarrow> memory_tasks" where
  "DrainMemoryTasks b = b\<lparr>bg_draining := True\<rparr>"

section \<open>Only a checked card is saved\<close>

lemma NormalizeWithLimits_Inr:
  assumes "NormalizeWithLimits content l = Inr (n, doc)"
  shows "doc = Parse n" "n = Serialize (Parse content)" "ValidateContentWithLimits n l" "\<not> rejectSensitiveValues (Parse content)"
  using assms by (auto simp: NormalizeWithLimits_def Let_def split: option.splits if_splits)

lemma applied_normalized:
  "applyMemoryMaintenanceDecision current d l = Inr (n, doc) \<Longrightarrow> \<exists>content. NormalizeWithLimits content l = Inr (n, doc)"
  by (auto simp: applyMemoryMaintenanceDecision_def split: if_splits sum.splits)

lemma prepare_save_cases:
  assumes "prepare_maintenance env req source raw = PrepSave v"
  obtains l reply d where "ev_limits env = Inr l" "parseMemoryMaintenanceDecision reply = Some d"
    "check_decision req source l (ev_calendar env) raw (current_card raw) d = PrepSave v"
  using assms by (auto simp: prepare_maintenance_def Let_def split: if_splits sum.splits option.splits)

lemma maintenance_checks:
  "prepare_maintenance env req source raw = PrepSave v \<Longrightarrow> sv_check_before v \<and> sv_expected_before v = raw"
  by (elim prepare_save_cases) (auto simp: check_decision_def Let_def split: if_splits sum.splits)

lemma checked_content:
  assumes "prepare_maintenance env req source raw = PrepSave v"
  obtains l where "ev_limits env = Inr l" "int (rune_count (trim_space (sv_content v))) \<le> lm_max (NormalizeLimits (lm_max l) (lm_soft l))"
    "list_all (\<lambda>s. list_all item_language_ok (ms_items s)) (doc_sections (Parse (sv_content v)))"
    "set (dates_of (sv_content v)) \<subseteq> set (dates_of (current_card raw)) \<union> set (dates_of (ma_user_text req @ newline @ ma_context_text req)) \<union>
      set (dates_of (ca_date (ev_calendar env)))"
    "countMemoryItems (Parse (sv_content v)) = 0 \<longrightarrow>
      countMemoryItems (Parse (current_card raw)) = 0 \<or> IsMemoryDeletionRequest (ma_user_text req)"
    "sv_check_before v" "sv_expected_before v = raw" "sv_expected_revision v = ma_expected_revision req" "sv_session_id v = ma_session_id req"
    "sv_max_chars v = lm_max l"
proof -
  obtain l and reply :: string and d where l: "ev_limits env = Inr l"
      and c: "check_decision req source l (ev_calendar env) raw (current_card raw) d = PrepSave v"
    using assms by (rule prepare_save_cases)
  obtain n doc where n: "applyMemoryMaintenanceDecision (current_card raw) d l = Inr (n, doc)"
    using c by (auto simp: check_decision_def split: if_splits sum.splits)
  have v: "sv_content v = n" "sv_check_before v" "sv_expected_before v = raw" "sv_expected_revision v = ma_expected_revision req"
        "sv_session_id v = ma_session_id req" "sv_max_chars v = lm_max l"
      and ok: "validateMemoryMaintenanceLanguage doc"
        "validateMemoryMaintenanceDates (current_card raw) (ma_user_text req @ newline @ ma_context_text req) n (ca_date (ev_calendar env))"
        "validateMemoryMaintenanceUpdate (current_card raw) n (IsMemoryDeletionRequest (ma_user_text req))"
    using c by (auto simp: check_decision_def n Let_def split: if_splits)
  obtain content where norm: "NormalizeWithLimits content l = Inr (n, doc)" using applied_normalized[OF n] by blast
  have "int (rune_count (trim_space n)) \<le> lm_max (NormalizeLimits (lm_max l) (lm_soft l))"
    using NormalizeWithLimits_Inr(3)[OF norm] by (simp add: ValidateContentWithLimits_def)
  moreover have "list_all (\<lambda>s. list_all item_language_ok (ms_items s)) (doc_sections (Parse n))"
    using ok(1) NormalizeWithLimits_Inr(1)[OF norm] by (simp add: validateMemoryMaintenanceLanguage_def)
  moreover have "set (dates_of n) \<subseteq> set (dates_of (current_card raw)) \<union> set (dates_of (ma_user_text req @ newline @ ma_context_text req)) \<union>
      set (dates_of (ca_date (ev_calendar env)))"
    using ok(2) by (auto simp: validateMemoryMaintenanceDates_def list_all_iff)
  moreover have "countMemoryItems (Parse n) = 0 \<longrightarrow> countMemoryItems (Parse (current_card raw)) = 0 \<or> IsMemoryDeletionRequest (ma_user_text req)"
    using ok(3) by (auto simp: validateMemoryMaintenanceUpdate_def Let_def split: if_splits)
  ultimately show thesis using that[OF l] v by simp
qed

text \<open>A checked save writes only over the memory it was made from, whatever happened meanwhile.\<close>

lemma checked_save:
  assumes "sv_check_before v" "SaveWithChange fault now v db = (x, db')" "db' \<noteq> db"
  shows "trim_space (memory_Get db (sv_session_id v)) = trim_space (sv_expected_before v)"
proof -
  obtain y where s: "saveSessionMemoryWithChange now v db = (Inr y, db')"
    using assms(2,3) run_tx_cases[of fault "saveSessionMemoryWithChange now v" db]
    by (cases "saveSessionMemoryWithChange now v db") (auto simp: SaveWithChange_def)
  then obtain content where r: "replace_memory now v content (set_enabled now v db) = (Inr y, db')" by (auto elim: save_cases)
  obtain b db1 where g: "getSessionMemoryForUpdate now (sv_session_id v) (set_enabled now v db) = (b, db1)" by fastforce
  have "b = memory_Get db (sv_session_id v)"
    using for_update_content(1)[of now "sv_session_id v" "set_enabled now v db"] memory_Get_same[of "set_enabled now v db" db] by (simp add: g)
  then show ?thesis using r assms(1) unfolding replace_memory_def g by (simp split: if_splits)
qed

text \<open>What a save that takes effect stores: its content written once more.\<close>

lemma saved_content:
  assumes "SaveWithChange fault now v db = (x, db')" "db' \<noteq> db"
  obtains content doc where "NormalizeWithLimits (sv_content v) (NormalizeLimits (sv_max_chars v) 0) = Inr (content, doc)"
    "trim_space (memory_Get db' (sv_session_id v)) = trim_space content"
proof -
  obtain y where s: "saveSessionMemoryWithChange now v db = (Inr y, db')"
    using assms run_tx_cases[of fault "saveSessionMemoryWithChange now v" db]
    by (cases "saveSessionMemoryWithChange now v db") (auto simp: SaveWithChange_def)
  then show thesis by (rule save_cases) (use that replace_memory_content in blast)
qed

lemma limit_twice: "lm_max (NormalizeLimits (lm_max (NormalizeLimits m a)) b) = lm_max (NormalizeLimits m c)"
  by (simp add: NormalizeLimits_def Let_def MaxChars_def)


lemma maintenance_loses_no_update:
  assumes "runMemoryMaintenance env req source db = (x, db')" "db' \<noteq> db" "db' \<noteq> ev_between env db"
  shows "trim_space (memory_Get (ev_between env db) (ma_session_id req)) = trim_space (memory_Get db (ma_session_id req))"
proof -
  obtain v where v: "prepare_maintenance env req source (fst (GetWithUpdatedAt db (ma_session_id req))) = PrepSave v"
      "\<exists>y. save_maintenance env req source v (ev_between env db) = (y, db')"
    using assms by (auto simp: runMemoryMaintenance_def Let_def split: if_splits option.splits preparation.splits prod.splits)
  obtain z where z: "SaveWithChange (ev_save_fault env) (ev_now env) v (ev_between env db) = (z, db')"
    using v(2) by (auto simp: save_maintenance_def Let_def split: prod.splits sum.splits if_splits)
  have s: "sv_check_before v \<and> sv_expected_before v = fst (GetWithUpdatedAt db (ma_session_id req))"
    using maintenance_checks[OF v(1)] by blast
  have "sv_session_id v = ma_session_id req"
    using v(1) by (rule prepare_save_cases) (auto simp: check_decision_def Let_def split: if_splits sum.splits)
  moreover have "fst (GetWithUpdatedAt db (ma_session_id req)) = memory_Get db (ma_session_id req)"
    by (simp add: GetWithUpdatedAt_def memory_Get_def split: option.splits)
  ultimately show ?thesis using checked_save[OF _ z assms(3)] s by simp
qed

section \<open>One automatic task per session\<close>

definition auto_sessions :: "memory_tasks \<Rightarrow> int list" where
  "auto_sessions b = map fst (filter snd (bg_running b))"

definition tasks_ok :: "memory_tasks \<Rightarrow> bool" where
  "tasks_ok b \<longleftrightarrow> distinct (bg_claims b) \<and> distinct (auto_sessions b) \<and> set (bg_claims b) = set (auto_sessions b)"

lemma auto_sessions_add [simp]:
  "auto_sessions (b\<lparr>bg_running := bg_running b @ [(s, c)]\<rparr>) = (if c then auto_sessions b @ [s] else auto_sessions b)"
  "auto_sessions (b\<lparr>bg_claims := cs\<rparr>) = auto_sessions b"
  "auto_sessions (b\<lparr>bg_claims := cs, bg_running := bg_running b @ [(s, c)]\<rparr>) = (if c then auto_sessions b @ [s] else auto_sessions b)"
  by (simp_all add: auto_sessions_def)

lemma tasks_ok_start: "tasks_ok b \<Longrightarrow> tasks_ok (snd (MaintainSessionMemoryAsync req b))"
  by (simp add: MaintainSessionMemoryAsync_def tryClaimAutomaticMemory_def startMemoryBackgroundTask_def tasks_ok_def Let_def)

lemma auto_sessions_remove: "map fst (filter snd (remove1 (s, c) xs)) = (if c then remove1 s (map fst (filter snd xs)) else map fst (filter snd xs))"
  by (induction xs) auto

lemma tasks_ok_finish: "tasks_ok b \<Longrightarrow> tasks_ok (finish_memory_task s claimed b)"
  by (simp add: tasks_ok_def finish_memory_task_def auto_sessions_def auto_sessions_remove distinct_removeAll del: set_map)

lemma drained_starts_nothing: "bg_draining b \<Longrightarrow> MaintainSessionMemoryAsync req b = (False, b)"
  by (simp add: MaintainSessionMemoryAsync_def Let_def)

section \<open>An example\<close>

text \<open>An empty card, to which the model's answer adds one item.\<close>

definition maintenance_reply :: string where
  "maintenance_reply = ''{\"action\":\"update\",\"content\":\"a\"}''"

definition maintenance_demo :: maintenance_env where
  "maintenance_demo = \<lparr>ev_now = 1, ev_cooldown_error = None, ev_read_error = None, ev_limits = Inr DefaultLimits, ev_declared_output = (\<lambda>_ _. 0),
     ev_build_error = None, ev_calendar = \<lparr>ca_date = ''2024-01-02'', ca_week = [], ca_month = [], ca_timezone = []\<rparr>,
     ev_collected = (Some \<lparr>m_content = maintenance_reply, m_reasoning = [], m_tool_names = [], m_finish_reason = None\<rparr>, None),
     ev_error_text = (\<lambda>_. []), ev_between = (\<lambda>db. db), ev_save_fault = FaultNone\<rparr>"

definition maintenance_demo_request :: maintenance_request where
  "maintenance_demo_request = \<lparr>ma_session_id = 1, ma_user_id = 5, ma_run_id = [], ma_user_text = [], ma_context_text = [], ma_memory_enabled = True,
     ma_expected_revision = None, ma_source = ''auto'', ma_skip_memory = False, ma_force = True, ma_ignore_cooldown = False,
     ma_model = Some \<lparr>rq_provider = ''p'', rq_model_id = ''m'', rq_max_output = 0, rq_max_tokens = 0, rq_runtime_resolved = True,
       rq_suppress_thinking = False, rq_user_id = 0, rq_session_id = 0, rq_skip_usage = False\<rparr>, ma_prepared = False\<rparr>"

lemma reply_trimmed: "trim_space maintenance_reply = maintenance_reply"
  unfolding maintenance_reply_def by (rule trim_space_fixed) (simp_all add: dec_more_def)

lemma no_fence: "list_all (\<lambda>p. fst p \<noteq> 96) xs \<Longrightarrow> rx_find memoryFencedJSONPattern q xs = None"
proof (rule begins_none[where Q = "\<lambda>r. r = 96"])
  have "runes ''```'' = [96, 96, 96]" by (simp add: runes_def dec_more_def)
  then show "begins (\<lambda>r. r = 96) memoryFencedJSONPattern"
    by (simp add: memoryFencedJSONPattern_def seq_all_def lit_def rune_re_def) (intro begins_rules, simp add: in_ranges_def)
qed

lemma no_digit: "list_all (\<lambda>p. \<not> (48 \<le> fst p \<and> fst p \<le> 57)) xs \<Longrightarrow> rx_find memoryDatePattern q xs = None"
proof (rule begins_none[where Q = "\<lambda>r. 48 \<le> r \<and> r \<le> 57"])
  show "begins (\<lambda>r. 48 \<le> r \<and> r \<le> 57) memoryDatePattern"
    by (simp add: memoryDatePattern_def seq_all_def times_re_def numeral_eq_Suc digit_ranges_def) (intro begins_rules, simp add: in_ranges_def)
qed

lemma dates_of_none: "list_all (\<lambda>p. \<not> (48 \<le> fst p \<and> fst p \<le> 57)) (segs s) \<Longrightarrow> dates_of s = []"
  unfolding dates_of_def by (rule FindAll_none, rule no_digit)

lemma unquoted: "str_of_runes (unq (runes ''action'')) = ''action''" "str_of_runes (unq (runes ''content'')) = ''content''"
  "str_of_runes (unq (runes ''update'')) = ''update''" "str_of_runes (unq (runes ''a'')) = ''a''"
  by (simp_all add: lower_eval)

lemma fold_words: "equal_fold ''action'' ''action''" "\<not> equal_fold ''content'' ''action''" "equal_fold ''content'' ''content''"
  "\<not> equal_fold ''update'' ''none''" "equal_fold ''update'' ''update''" "\<not> equal_fold ''update'' ''patch''"
  by (simp_all add: equal_fold_def runes_def dec_more_def folds_def Let_def)

lemma reply_parsed:
  "parseMemoryMaintenanceDecision maintenance_reply = Some \<lparr>de_action = ''update'', de_content = ''a'', de_operations = [], de_summary = []\<rparr>"
proof -
  have "fencedJSONCandidates maintenance_reply = []"
    unfolding fencedJSONCandidates_def by (rule FindAll_none, rule no_fence) (simp add: maintenance_reply_def dec_more_def)
  moreover have "decodeFirstJSONDecision maintenance_reply = Some \<lparr>de_action = ''update'', de_content = ''a'', de_operations = [], de_summary = []\<rparr>"
    unfolding decodeFirstJSONDecision_def maintenance_reply_def
    by (simp add: numeral_eq_Suc jd_string_def dec_more_def) (simp add: unquoted decision_member_def fold_words string_field_def)
  ultimately show ?thesis by (simp add: parseMemoryMaintenanceDecision_def reply_trimmed List.map_filter_def)
qed

text \<open>The card with one item, as it is read, written and checked.\<close>

definition one_item :: "nat \<Rightarrow> string list" where
  "one_item j = (if j = 3 then [''a''] else [])"

lemma one_item_words: "to_lower ''a'' = ''a''" "trim_space ''a'' = ''a''" "trim_space ''- a'' = ''- a''"
  by (simp add: lower_eval) (simp_all add: string_eval)

lemma one_item_clean: "clean_card one_item"
proof -
  have "clean_item ''a''"
    by (simp add: one_item_words clean_item_def no_items_def str_of_runes_def enc_rune_def valid_rune_def char_of_def)
  then show ?thesis by (simp add: clean_card_def upt_six one_item_def nothing_sensitive)
qed

definition one_item_text :: string where
  "one_item_text = ''## Current Progress'' @ newline @ ''- a''"

lemma one_item_written: "Serialize (card_document one_item) = one_item_text"
proof -
  have "unlines (card_lines one_item (filter (\<lambda>j. one_item j \<noteq> []) [0..<6])) = one_item_text @ newline"
    by (simp add: upt_six one_item_def section_lines_def unlines_def SectionDefs_def one_item_text_def)
  moreover have "trim_space (one_item_text @ newline) = one_item_text"
    by (rule trim_newline) (simp_all add: one_item_text_def newline_def dec_more_def)
  ultimately show ?thesis by (simp add: Serialize_card[OF one_item_clean])
qed

lemma one_item_read: "Parse ''a'' = (card_document one_item)\<lparr>doc_legacy := True\<rparr>" "Parse one_item_text = card_document one_item"
proof -
  have t: "trim_space ''a'' = ''a''" by (simp add: string_eval)
  have c: "cleanItem ''a'' = ''a''"
    using one_item_clean clean_fixed[of "[''a'']"] by (simp add: clean_card_def upt_six one_item_def split: if_splits)
  have f: "FindSubmatch sectionHeaderRE 1 ''a'' = None"
    unfolding FindSubmatch_def by (subst rx_find_short) (simp_all add: sectionHeaderRE_def min_runes_seq_all plus_re_def dec_more_def)
  show "Parse ''a'' = (card_document one_item)\<lparr>doc_legacy := True\<rparr>"
    unfolding Parse_def card_document_def memory_card_def upt_six
    by (simp add: t parse_line_def f[simplified] c add_item_def EmptyDocument_def SectionDefs_def one_item_def Let_def)
  show "Parse one_item_text = card_document one_item"
    using card_reads_back[OF one_item_clean] by (simp add: one_item_written)
qed

lemma one_item_normal: "NormalizeWithLimits ''a'' DefaultLimits = Inr (one_item_text, card_document one_item)"
proof -
  have t: "trim_space ''a'' = ''a''" by (simp add: string_eval)
  have f: "FindSubmatch sectionHeaderRE 1 ''a'' = None"
    unfolding FindSubmatch_def by (subst rx_find_short) (simp_all add: sectionHeaderRE_def min_runes_seq_all plus_re_def dec_more_def)
  then have u: "rejectUnknownSections ''a'' = None" by (simp add: rejectUnknownSections_def t List.map_filter_def)
  have s: "Serialize ((card_document one_item)\<lparr>doc_legacy := True\<rparr>) = one_item_text"
    using one_item_written by (simp add: Serialize_def items_of_def)
  have r: "\<not> rejectSensitiveValues ((card_document one_item)\<lparr>doc_legacy := True\<rparr>)"
    unfolding rejectSensitiveValues_def card_document_def memory_card_def upt_six
    by (simp add: one_item_def nothing_sensitive short_not_sensitive rune_count_def dec_more_def)
  have v: "ValidateContentWithLimits one_item_text DefaultLimits"
  proof -
    have "length (trim_space one_item_text) \<le> 24" using trim_space_length[of one_item_text] by (simp add: one_item_text_def newline_def)
    then have "rune_count (trim_space one_item_text) \<le> 24" using rune_count_le_length order_trans by blast
    then show ?thesis by (simp add: ValidateContentWithLimits_def DefaultLimits_def NormalizeLimits_def MaxChars_def SoftMaxChars_def Let_def)
  qed
  show ?thesis by (simp add: NormalizeWithLimits_def u one_item_read s r v)
qed

lemma current_card_empty: "current_card [] = []"
  using NormalizeWithLimits_Inr(2)[OF Normalize_empty[of DefaultLimits]] by (simp add: current_card_def not_sensitive_redact nothing_sensitive)

lemma maintenance_demo_saves:
  "\<exists>summary. prepare_maintenance maintenance_demo maintenance_demo_request ''auto'' [] = PrepSave
     \<lparr>sv_run_id = [], sv_session_id = 1, sv_user_id = 5, sv_memory_enabled = None, sv_content = one_item_text, sv_source = ''auto'',
      sv_action = ''update'', sv_summary = summary, sv_expected_before = [], sv_check_before = True, sv_expected_revision = None,
      sv_max_chars = 4000\<rparr>"
proof -
  have names: "trim_space ''p'' = ''p''" "trim_space ''m'' = ''m''" by (simp_all add: string_eval)
  have model: "\<exists>r. buildMemoryMaintenanceModel maintenance_demo maintenance_demo_request DefaultLimits = Inr r"
    by (simp add: buildMemoryMaintenanceModel_def maintenance_demo_def maintenance_demo_request_def model_names_def names
        prepareMemoryMaintenanceModelRequest_def Let_def)
  have reply: "generateMemoryMaintenanceText (ev_collected maintenance_demo) = Inr maintenance_reply"
    by (simp add: generateMemoryMaintenanceText_def maintenance_demo_def reply_trimmed) (simp add: maintenance_reply_def)
  have short: "FindAll memoryEnglishWordPattern ''a'' = []"
    by (rule FindAll_none, rule rx_find_short)
      (simp add: memoryEnglishWordPattern_def at_least_def times_re_def min_runes_seq_all numeral_eq_Suc dec_more_def)
  have language: "validateMemoryMaintenanceLanguage (card_document one_item)"
    unfolding validateMemoryMaintenanceLanguage_def card_document_def memory_card_def upt_six
    by (simp add: one_item_def item_language_ok_def short)
  have "dates_of one_item_text = []" by (rule dates_of_none) (simp add: one_item_text_def newline_def dec_more_def)
  then have dates: "validateMemoryMaintenanceDates c u one_item_text d" for c u d by (simp add: validateMemoryMaintenanceDates_def)
  have "countMemoryItems (Parse []) = 0" by (simp add: Parse_def countMemoryItems_def EmptyDocument_def SectionDefs_def)
  then have update: "validateMemoryMaintenanceUpdate [] one_item_text b" for b by (simp add: validateMemoryMaintenanceUpdate_def Let_def)
  have t: "trim_space one_item_text \<noteq> []"
    using trim_space_fixed[of one_item_text] by (simp add: one_item_text_def newline_def dec_more_def)
  have l: "ev_limits maintenance_demo = Inr DefaultLimits" by (simp add: maintenance_demo_def)
  have u: "trim_space ''update'' \<noteq> []" by (simp add: string_eval)
  have m: "lm_max DefaultLimits = 4000" by (simp add: DefaultLimits_def NormalizeLimits_def MaxChars_def SoftMaxChars_def Let_def)
  have req: "ma_session_id maintenance_demo_request = 1" "ma_user_id maintenance_demo_request = 5"
    "ma_expected_revision maintenance_demo_request = None" by (simp_all add: maintenance_demo_request_def)
  show ?thesis
    using model t by (auto simp: m req prepare_maintenance_def Let_def current_card_empty l reply reply_parsed check_decision_def u fold_words
        applyMemoryMaintenanceDecision_def one_item_normal language dates update)
qed

definition empty_memory :: mem_db where
  "empty_memory = memory_demo\<lparr>md_memories := []\<rparr>"

lemma one_item_again: "NormalizeWithLimits one_item_text (NormalizeLimits 4000 0) = Inr (one_item_text, card_document one_item)"
proof -
  have t: "one_item_text = progress_text ''a''" by (simp add: one_item_text_def progress_text_def)
  have "trim_space (''- '' @ ''a'') = ''- '' @ ''a''" "trim_space (progress_text ''a'') = progress_text ''a''"
    by (rule trim_space_fixed; simp add: progress_text_def newline_def dec_more_def)+
  moreover have "cleanItem (''- '' @ ''a'') \<noteq> []"
    by (simp add: cleanItem_def trim_prefix_def one_item_words no_items_def Let_def str_of_runes_def enc_rune_def valid_rune_def char_of_def)
  ultimately have "rejectUnknownSections one_item_text = None" unfolding t by (intro progress_read(3)) simp_all
  moreover have "\<not> rejectSensitiveValues (card_document one_item)"
    unfolding rejectSensitiveValues_def card_document_def memory_card_def upt_six
    by (simp add: one_item_def nothing_sensitive short_not_sensitive rune_count_def dec_more_def)
  moreover have "ValidateContentWithLimits one_item_text (NormalizeLimits 4000 0)"
    using progress_within(1)[of "''a''"] unfolding t
    by (simp add: ValidateContentWithLimits_def DefaultLimits_def NormalizeLimits_def MaxChars_def SoftMaxChars_def Let_def)
  ultimately show ?thesis by (simp add: NormalizeWithLimits_def one_item_read one_item_written)
qed


text \<open>
  The check that the user asked to forget can be passed by a card that the save then empties: on a
  card with one item the answer \<open>- - - none\<close> passes the checks as a card with the item \<open>- none\<close>, and
  the save, which writes it once more, stores the empty memory.
\<close>

lemma checked_card_lost_on_save:
  "NormalizeWithLimits ''- - - none'' DefaultLimits = Inr (progress_text ''- none'', progress_card ''- none'')"
  "validateMemoryMaintenanceLanguage (progress_card ''- none'')"
  "validateMemoryMaintenanceDates c u (progress_text ''- none'') d"
  "validateMemoryMaintenanceUpdate one_item_text (progress_text ''- none'') False"
  "countMemoryItems (Parse (progress_text ''- none'')) = 1"
  "NormalizeWithLimits (progress_text ''- none'') l = Inr ([], EmptyDocument)"
proof -
  have short: "FindAll memoryEnglishWordPattern ''- none'' = [''none'']"
    by (simp add: FindAll_def memoryEnglishWordPattern_def at_least_def times_re_def seq_all_def numeral_eq_Suc dec_more_def step_if_def
        in_ranges_def seg_text_def Let_def)
  show "validateMemoryMaintenanceLanguage (progress_card ''- none'')"
    unfolding validateMemoryMaintenanceLanguage_def progress_card_def card_document_def memory_card_def upt_six
    by (simp add: item_language_ok_def short)
  have "dates_of (progress_text ''- none'') = []" by (rule dates_of_none) (simp add: progress_text_def newline_def dec_more_def)
  then show "validateMemoryMaintenanceDates c u (progress_text ''- none'') d" by (simp add: validateMemoryMaintenanceDates_def)
  have n: "countMemoryItems (progress_card i) = 1" "countMemoryItems (card_document one_item) = 1" for i
    by (simp_all add: countMemoryItems_def progress_card_def card_document_def memory_card_def upt_six one_item_def)
  show "countMemoryItems (Parse (progress_text ''- none'')) = 1" by (simp add: written_twice(3) n)
  then show "validateMemoryMaintenanceUpdate one_item_text (progress_text ''- none'') False"
    by (simp add: validateMemoryMaintenanceUpdate_def one_item_read n)
qed (rule written_twice)+

end
