(* ===== verification/MemoryTool.thy ===== *)
theory MemoryTool
  imports MemoryMaintenance
begin

text \<open>
  The tool by which the model of a conversation reads and edits its memory card
  (\<^verbatim>\<open>internal/tool/memory.go\<close>), over the store of \<open>SessionMemory\<close>.  \<open>tw_between\<close> is
  what others do to the tables between the read and the save of a call.  An index out of range is a
  panic, a value of its own.  The output is the record before it is marshalled.
\<close>

section \<open>Input and output\<close>

record memory_input =
  mi_action :: string
  mi_section :: string
  mi_content :: string
  mi_line_number :: int

record memory_item =
  it_line :: nat
  it_section :: string
  it_content :: string

record memory_output =
  mo_ok :: bool
  mo_message :: string
  mo_act :: string
  mo_memory_text :: string
  mo_items :: "memory_item list"
  mo_sect :: string
  mo_line_number :: nat
  mo_changed_item :: string
  mo_error :: string

datatype tool_result = ToolPanic | ToolError go_err | ToolOutput memory_output

record memory_tool =
  mt_session_id :: int
  mt_user_id :: int
  mt_max_chars :: int

record tool_world =
  tw_now :: int
  tw_read_error :: "go_err option"
  tw_between :: "mem_db \<Rightarrow> mem_db"
  tw_save_fault :: db_fault

definition NewMemoryToolWithMaxChars :: "int \<Rightarrow> int \<Rightarrow> int \<Rightarrow> memory_tool" where
  "NewMemoryToolWithMaxChars sessionID userID maxChars =
    \<lparr>mt_session_id = sessionID, mt_user_id = userID, mt_max_chars = lm_max (NormalizeLimits maxChars 0)\<rparr>"

definition int_field :: "jv \<Rightarrow> int \<Rightarrow> int option" where
  "int_field v old =
    (case v of JInt i \<Rightarrow> if - 9223372036854775808 \<le> i \<and> i \<le> 9223372036854775807 then Some i else None | JNull \<Rightarrow> Some old | _ \<Rightarrow> None)"

definition input_member :: "string \<times> jv \<Rightarrow> memory_input \<Rightarrow> memory_input option" where
  "input_member p x =
    (if equal_fold (fst p) ''action'' then map_option (\<lambda>s. x\<lparr>mi_action := s\<rparr>) (string_field (snd p) (mi_action x))
     else if equal_fold (fst p) ''section'' then map_option (\<lambda>s. x\<lparr>mi_section := s\<rparr>) (string_field (snd p) (mi_section x))
     else if equal_fold (fst p) ''content'' then map_option (\<lambda>s. x\<lparr>mi_content := s\<rparr>) (string_field (snd p) (mi_content x))
     else if equal_fold (fst p) ''line_number'' then map_option (\<lambda>i. x\<lparr>mi_line_number := i\<rparr>) (int_field (snd p) (mi_line_number x))
     else Some x)"

definition decode_input :: "string \<Rightarrow> memory_input option" where
  "decode_input arguments =
    (let zero0 = \<lparr>mi_action = [], mi_section = [], mi_content = [], mi_line_number = 0\<rparr>
     in case json_dec arguments of Some (JObj m) \<Rightarrow> fold_members input_member m zero0 | Some JNull \<Rightarrow> Some zero0 | _ \<Rightarrow> None)"

definition memoryError :: "string \<Rightarrow> memory_output" where
  "memoryError message0 = \<lparr>mo_ok = False, mo_message = message0, mo_act = [], mo_memory_text = [], mo_items = [], mo_sect = [], mo_line_number = 0,
     mo_changed_item = [], mo_error = message0\<rparr>"

text \<open>The texts of the errors an edit can meet; a quoted title after \<^verbatim>\<open>unknown memory section\<close> is left out.\<close>

fun err_message :: "go_err \<Rightarrow> string" where
  "err_message (ErrText s) = s"
| "err_message ErrSensitiveValue = ''memory contains a secret value; remove passwords, tokens, API keys, authorization credentials, or private keys before saving''"
| "err_message (ErrWrap s e) = s @ '': '' @ err_message e"
| "err_message e = []"

definition memoryActionOutput :: "string \<Rightarrow> string \<Rightarrow> nat \<Rightarrow> string \<Rightarrow> string \<Rightarrow> memory_output" where
  "memoryActionOutput action section0 line item message0 = \<lparr>mo_ok = True, mo_message = message0, mo_act = action, mo_memory_text = [], mo_items = [],
     mo_sect = section0, mo_line_number = line, mo_changed_item = item, mo_error = []\<rparr>"

section \<open>Items and their lines\<close>

definition memoryItems :: "document \<Rightarrow> memory_item list" where
  "memoryItems doc =
    map (\<lambda>(i, k, c). \<lparr>it_line = Suc i, it_section = k, it_content = c\<rparr>)
      (let all = concat (map (\<lambda>s. map (\<lambda>c. (ms_key s, c)) (ms_items s)) (doc_sections doc)) in zip [0..<length all] all)"

definition memoryText :: "memory_item list \<Rightarrow> string" where
  "memoryText items = join_with newline (map (\<lambda>i. itoa (int (it_line i)) @ '' ['' @ it_section i @ ''] '' @ it_content i) items)"

text \<open>\<^verbatim>\<open>sectionIndex\<close>: without a key the current progress, where that is the default.\<close>

definition sectionIndex :: "document \<Rightarrow> string \<Rightarrow> bool \<Rightarrow> go_err + nat" where
  "sectionIndex doc section0 defaultCurrent =
    (let key0 = NormalizeSectionKey section0; key = (if key0 = [] \<and> defaultCurrent then ''current_progress'' else key0)
     in if key = [] then Inl (ErrText ''section is required'')
        else (case section_at doc key of None \<Rightarrow> Inl (ErrText ''unknown memory section'') | Some i \<Rightarrow> Inr i))"

fun line_from :: "string \<Rightarrow> nat \<Rightarrow> nat \<Rightarrow> mem_section list \<Rightarrow> nat" where
  "line_from key n line [] = line"
| "line_from key n line (s # ss) =
    (if ms_key s = key \<and> 0 < n \<and> n \<le> length (ms_items s) then line + (n - 1) else line_from key n (line + length (ms_items s)) ss)"

definition globalLineNumber :: "document \<Rightarrow> string \<Rightarrow> nat \<Rightarrow> nat" where
  "globalLineNumber doc key sectionLine = line_from key sectionLine 1 (doc_sections doc)"

record memory_entry =
  me_global :: nat
  me_section :: nat
  me_item :: nat
  me_content :: string

text \<open>All entries in order, with their places.\<close>

definition entries :: "document \<Rightarrow> memory_entry list" where
  "entries doc =
    map (\<lambda>(g, s, i, c). \<lparr>me_global = Suc g, me_section = s, me_item = i, me_content = c\<rparr>)
      (let all = concat (map (\<lambda>s. map (\<lambda>i. (s, i, ms_items (doc_sections doc ! s) ! i)) [0..<length (ms_items (doc_sections doc ! s))])
             [0..<length (doc_sections doc)])
       in zip [0..<length all] all)"

definition entry_by_section :: "document \<Rightarrow> string \<Rightarrow> int \<Rightarrow> go_err + memory_entry" where
  "entry_by_section doc key lineNumber =
    (case sectionIndex doc key False of
       Inl e \<Rightarrow> Inl e
     | Inr i \<Rightarrow>
       (let all = memoryItems doc; items = ms_items (doc_sections doc ! i)
        in if lineNumber \<le> 0 then Inl (ErrText ''line_number is required with section'')
           else if lineNumber > int (length items)
           then (if lineNumber \<le> int (length all) \<and> it_section (all ! (nat lineNumber - 1)) = key
             then Inr \<lparr>me_global = nat lineNumber, me_section = i, me_item = nat lineNumber - globalLineNumber doc key 1,
                       me_content = it_content (all ! (nat lineNumber - 1))\<rparr>
             else Inl (ErrText (''line_number '' @ itoa lineNumber @ '' is out of range for section '' @ key)))
           else Inr \<lparr>me_global = globalLineNumber doc key (nat lineNumber), me_section = i, me_item = nat lineNumber - 1,
                     me_content = items ! (nat lineNumber - 1)\<rparr>))"

definition entry_by_content :: "document \<Rightarrow> string \<Rightarrow> go_err + memory_entry" where
  "entry_by_content doc content0 =
    (let content = trim_space content0 in
     if content = [] then Inl (ErrText ''line_number or content is required'')
     else (case filter (\<lambda>e. contains (to_lower (me_content e)) (to_lower content)) (entries doc) of
         [] \<Rightarrow> Inl (ErrText ''no memory item matched content'')
       | [e] \<Rightarrow> Inr e
       | _ \<Rightarrow> Inl (ErrText ''content matched multiple memory items; view memory and use line_number'')))"

definition memoryEntryIndex :: "document \<Rightarrow> string \<Rightarrow> int \<Rightarrow> string \<Rightarrow> go_err + memory_entry" where
  "memoryEntryIndex doc section0 lineNumber content =
    (let all = memoryItems doc; key = NormalizeSectionKey section0
     in if all = [] then Inl (ErrText ''memory is empty'')
        else if key \<noteq> [] then entry_by_section doc key lineNumber
        else if lineNumber > 0 \<and> lineNumber > int (length all) then Inl (ErrText (''line_number '' @ itoa lineNumber @ '' is out of range; view memory first''))
        else if lineNumber > 0
        then (let want = all ! (nat lineNumber - 1)
          in case find (\<lambda>e. ms_key (doc_sections doc ! me_section e) = it_section want \<and> me_content e = it_content want) (entries doc) of
               Some e \<Rightarrow> Inr (e\<lparr>me_global := nat lineNumber\<rparr>)
             | None \<Rightarrow> entry_by_content doc content)
        else entry_by_content doc content)"

text \<open>\<^verbatim>\<open>strings.EqualFold\<close> on the runes whose case \<open>to_lower\<close> knows and the single letters that fold to them.\<close>

definition fold_rune :: "nat \<Rightarrow> nat" where
  "fold_rune r =
    (case map_of [(383, 115), (181, 956), (962, 963), (976, 946), (977, 952), (981, 966), (982, 960), (1008, 954), (1009, 961), (1013, 949),
       (8126, 953), (837, 953), (8486, 969), (8491, 229), (7838, 223), (304, 304)] r of
       Some f \<Rightarrow> f | None \<Rightarrow> lower_rune r)"

definition EqualFold :: "string \<Rightarrow> string \<Rightarrow> bool" where
  "EqualFold s t \<longleftrightarrow> map fold_rune (runes s) = map fold_rune (runes t)"

section \<open>Saving\<close>

definition errMemoryChangedWhileEditing :: go_err where
  "errMemoryChangedWhileEditing = ErrText ''memory changed while editing; view memory again and retry''"

definition tool_save :: "tool_world \<Rightarrow> memory_tool \<Rightarrow> string \<Rightarrow> string \<Rightarrow> string \<Rightarrow> string \<Rightarrow> mem_db \<Rightarrow> go_err option \<times> mem_db" where
  "tool_save w t expected content action summary db =
    (if mt_user_id t > 0
     then (case CompareAndSetWithChange (tw_save_fault w) (tw_now w) (mt_session_id t) (mt_user_id t) expected content ''tool'' action summary
              (mt_max_chars t) db of
         (Inl e, db') \<Rightarrow> (Some e, db')
       | (Inr saved, db') \<Rightarrow> (if saved then None else Some errMemoryChangedWhileEditing, db'))
     else (case memory_Set (tw_save_fault w) (tw_now w) (mt_session_id t) content db of
         (Inl e, db') \<Rightarrow> (Some e, db')
       | (Inr _, db') \<Rightarrow> (None, db')))"

definition memoryMutationFailure :: "string \<Rightarrow> go_err \<Rightarrow> tool_result" where
  "memoryMutationFailure operation e =
    (if err_is e errMemoryChangedWhileEditing then ToolOutput (memoryError ''memory changed while editing; view memory again and retry'')
     else ToolError (ErrWrap operation e))"

text \<open>The save at the end of an edit and what the call then answers.\<close>

definition save_then :: "tool_world \<Rightarrow> memory_tool \<Rightarrow> string \<Rightarrow> string \<Rightarrow> string \<Rightarrow> string \<Rightarrow> string \<Rightarrow> tool_result \<Rightarrow> mem_db \<Rightarrow> tool_result \<times> mem_db" where
  "save_then w t current next0 action summary operation result0 db =
    (case tool_save w t current next0 action summary (tw_between w db) of
       (Some e, db') \<Rightarrow> (memoryMutationFailure operation e, db')
     | (None, db') \<Rightarrow> (result0, db'))"

definition validateContent :: "memory_tool \<Rightarrow> string \<Rightarrow> bool" where
  "validateContent t content \<longleftrightarrow> int (rune_count content) \<le> mt_max_chars t"

definition tool_limits :: "memory_tool \<Rightarrow> limits" where
  "tool_limits t = NormalizeLimits (mt_max_chars t) 0"

section \<open>Actions\<close>

definition memoryViewOutput :: "string \<Rightarrow> memory_output" where
  "memoryViewOutput content =
    (let items = memoryItems (Parse (RedactSensitiveValues content))
     in \<lparr>mo_ok = True, mo_message = (if items = [] then ''Memory is empty.'' else ''Memory loaded.''), mo_act = ''view'',
         mo_memory_text = memoryText items, mo_items = items, mo_sect = [], mo_line_number = 0, mo_changed_item = [], mo_error = []\<rparr>)"

definition tool_add :: "tool_world \<Rightarrow> memory_tool \<Rightarrow> memory_input \<Rightarrow> string \<Rightarrow> mem_db \<Rightarrow> tool_result \<times> mem_db" where
  "tool_add w t x current db =
    (let content = trim_space (mi_content x); doc = Parse current
     in case find (\<lambda>i. EqualFold (it_content i) content) (memoryItems doc) of
          Some i \<Rightarrow> (ToolOutput (memoryActionOutput ''add'' (it_section i) (it_line i) (it_content i)
              (''Memory already contains item #'' @ itoa (int (it_line i)) @ ''.'')), db)
        | None \<Rightarrow>
          (case sectionIndex doc (mi_section x) True of
             Inl e \<Rightarrow> (ToolOutput (memoryError (err_message e)), db)
           | Inr i \<Rightarrow>
             (case NormalizeWithLimits (Serialize (put_items doc i (ms_items (doc_sections doc ! i) @ [content]))) (tool_limits t) of
                Inl e \<Rightarrow> (ToolOutput (memoryError (err_message e)), db)
              | Inr (next0, normalized) \<Rightarrow>
                (let s = doc_sections normalized ! i; line = globalLineNumber normalized (ms_key s) (length (ms_items s))
                 in save_then w t current next0 ''update'' ''added memory item'' ''add memory item''
                      (if ms_items s = [] then ToolPanic
                       else ToolOutput (memoryActionOutput ''add'' (ms_key s) line (last (ms_items s)) (''Added memory item #'' @ itoa (int line) @ ''.''))) db))))"

definition tool_replace :: "tool_world \<Rightarrow> memory_tool \<Rightarrow> memory_input \<Rightarrow> string \<Rightarrow> mem_db \<Rightarrow> tool_result \<times> mem_db" where
  "tool_replace w t x current db =
    (let content = trim_space (mi_content x); doc = Parse current
     in case memoryEntryIndex doc (mi_section x) (mi_line_number x) [] of
          Inl e \<Rightarrow> (ToolOutput (memoryError (err_message e)), db)
        | Inr target \<Rightarrow>
          (case NormalizeWithLimits (Serialize (put_items doc (me_section target)
                  ((ms_items (doc_sections doc ! me_section target))[me_item target := content]))) (tool_limits t) of
             Inl e \<Rightarrow> (ToolOutput (memoryError (err_message e)), db)
           | Inr (next0, normalized) \<Rightarrow>
             (let s = doc_sections normalized ! me_section target
              in save_then w t current next0 ''update'' ''replaced memory item'' ''replace memory item''
                   (if me_item target \<ge> length (ms_items s) then ToolPanic
                    else ToolOutput (memoryActionOutput ''replace'' (ms_key s) (me_global target) (ms_items s ! me_item target)
                      (''Replaced memory item #'' @ itoa (int (me_global target)) @ ''.''))) db)))"

definition tool_remove :: "tool_world \<Rightarrow> memory_tool \<Rightarrow> memory_input \<Rightarrow> string \<Rightarrow> mem_db \<Rightarrow> tool_result \<times> mem_db" where
  "tool_remove w t x current db =
    (let doc = Parse current
     in case memoryEntryIndex doc (mi_section x) (mi_line_number x) (mi_content x) of
          Inl e \<Rightarrow> (ToolOutput (memoryError (err_message e)), db)
        | Inr target \<Rightarrow>
          (let s = doc_sections doc ! me_section target;
               next0 = Serialize (put_items doc (me_section target) (take (me_item target) (ms_items s) @ drop (Suc (me_item target)) (ms_items s)))
           in save_then w t current next0 ''update'' ''removed memory item'' ''remove memory item''
                (ToolOutput (memoryActionOutput ''remove'' (ms_key s) (me_global target) (me_content target)
                  (''Removed memory item #'' @ itoa (int (me_global target)) @ ''.''))) db))"

definition tool_clear :: "tool_world \<Rightarrow> memory_tool \<Rightarrow> string \<Rightarrow> mem_db \<Rightarrow> tool_result \<times> mem_db" where
  "tool_clear w t current db =
    save_then w t current [] ''clear'' ''cleared memory'' ''clear memory'' (ToolOutput (memoryActionOutput ''clear'' [] 0 [] ''Memory cleared.'')) db"

definition tool_write :: "tool_world \<Rightarrow> memory_tool \<Rightarrow> memory_input \<Rightarrow> string \<Rightarrow> mem_db \<Rightarrow> tool_result \<times> mem_db" where
  "tool_write w t x current db =
    (case NormalizeWithLimits (trim_space (mi_content x)) (tool_limits t) of
       Inl e \<Rightarrow> (ToolOutput (memoryError (err_message e)), db)
     | Inr (content, _) \<Rightarrow>
         if \<not> validateContent t content then (ToolOutput (memoryError (''content too long ('' @ itoa (int (rune_count content)) @ '' chars, limit '' @ itoa (mt_max_chars t) @
           ''); store only high-signal facts'')), db)
         else save_then w t current content ''update'' ''rewrote memory note'' ''write memory''
                (ToolOutput (memoryActionOutput ''write'' [] 0 [] ''Memory saved.'')) db)"

text \<open>An action that reads the store first.\<close>

definition reading :: "tool_world \<Rightarrow> memory_tool \<Rightarrow> string \<Rightarrow> (string \<Rightarrow> mem_db \<Rightarrow> tool_result \<times> mem_db) \<Rightarrow> mem_db \<Rightarrow> tool_result \<times> mem_db" where
  "reading w t operation act db =
    (case tw_read_error w of
       Some e \<Rightarrow> (ToolError (ErrWrap operation e), db)
     | None \<Rightarrow> act (memory_Get db (mt_session_id t)) db)"

definition tool_action :: "tool_world \<Rightarrow> memory_tool \<Rightarrow> memory_input \<Rightarrow> mem_db \<Rightarrow> tool_result \<times> mem_db" where
  "tool_action w t x db =
    (let action = to_lower (trim_space (mi_action x))
     in if action = ''read'' \<or> action = ''view''
        then reading w t ''read memory'' (\<lambda>current db. (ToolOutput (memoryViewOutput current), db)) db
        else if action = ''add''
        then (if trim_space (mi_content x) = [] then (ToolOutput (memoryError ''content is required for add''), db)
              else if trim_space (mi_section x) = [] then (ToolOutput (memoryError ''section is required for add; choose user_background, user_preferences, project_context, current_progress, decisions, or do_not_remember''), db)
              else reading w t ''read memory before add'' (tool_add w t x) db)
        else if action = ''replace''
        then (if trim_space (mi_content x) = [] then (ToolOutput (memoryError ''content is required for replace''), db)
              else reading w t ''read memory before replace'' (tool_replace w t x) db)
        else if action = ''remove'' \<or> action = ''delete'' then reading w t ''read memory before remove'' (tool_remove w t x) db
        else if action = ''clear'' then reading w t ''read memory before clear'' (tool_clear w t) db
        else if action = ''write'' then reading w t ''read memory before write'' (tool_write w t x) db
        else (ToolOutput (memoryError ''unknown action; use view, add, replace, remove, clear, or write''), db))"

definition memory_InvokableRun :: "tool_world \<Rightarrow> memory_tool \<Rightarrow> string \<Rightarrow> mem_db \<Rightarrow> tool_result \<times> mem_db" where
  "memory_InvokableRun w t arguments db =
    (case decode_input arguments of
       None \<Rightarrow> (ToolOutput (memoryError ''memory input is invalid''), db)
     | Some x \<Rightarrow> tool_action w t x db)"

section \<open>An edit overwrites nothing it has not seen\<close>

lemma tool_save_checked:
  assumes "tool_save w t expected content action summary db = (r, db')" "mt_user_id t > 0" "db' \<noteq> db"
  shows "trim_space (memory_Get db (mt_session_id t)) = trim_space expected"
proof -
  obtain x where "SaveWithChange (tw_save_fault w) (tw_now w) \<lparr>sv_run_id = [], sv_session_id = mt_session_id t, sv_user_id = mt_user_id t,
      sv_memory_enabled = None, sv_content = content, sv_source = ''tool'', sv_action = action, sv_summary = summary, sv_expected_before = expected,
      sv_check_before = True, sv_expected_revision = None, sv_max_chars = mt_max_chars t\<rparr> db = (x, db')"
    using assms(1,2) by (auto simp: tool_save_def CompareAndSetWithChange_def split: prod.splits sum.splits if_splits)
  from checked_save[OF _ this assms(3)] show ?thesis by simp
qed

lemma save_then_checked:
  assumes "save_then w t current next0 action summary operation result0 db = (r, db')" "mt_user_id t > 0" "db' \<noteq> tw_between w db"
  shows "trim_space (memory_Get (tw_between w db) (mt_session_id t)) = trim_space current"
proof -
  obtain e where "tool_save w t current next0 action summary (tw_between w db) = (e, db')"
    using assms(1) by (auto simp: save_then_def split: prod.splits option.splits)
  from tool_save_checked[OF this assms(2,3)] show ?thesis .
qed

text \<open>An action either leaves the tables alone or ends in the save of what it read.\<close>

definition saves_or_leaves :: "tool_world \<Rightarrow> memory_tool \<Rightarrow> mem_db \<Rightarrow> tool_result \<times> mem_db \<Rightarrow> bool" where
  "saves_or_leaves w t db p \<longleftrightarrow> snd p = db \<or>
    (\<exists>next0 action summary operation result0. p = save_then w t (memory_Get db (mt_session_id t)) next0 action summary operation result0 db)"

lemma saves_I: "saves_or_leaves w t db (save_then w t (memory_Get db (mt_session_id t)) next0 action summary operation result0 db)"
  unfolding saves_or_leaves_def by blast

lemma leaves_I: "saves_or_leaves w t db (r, db)"
  by (simp add: saves_or_leaves_def)

lemma add_saves: "saves_or_leaves w t db (tool_add w t x (memory_Get db (mt_session_id t)) db)"
  unfolding tool_add_def Let_def by (auto simp: leaves_I saves_I split: option.split sum.split prod.split)

lemma replace_saves: "saves_or_leaves w t db (tool_replace w t x (memory_Get db (mt_session_id t)) db)"
  unfolding tool_replace_def Let_def by (auto simp: leaves_I saves_I split: sum.split prod.split)

lemma remove_saves: "saves_or_leaves w t db (tool_remove w t x (memory_Get db (mt_session_id t)) db)"
  unfolding tool_remove_def Let_def by (auto simp: leaves_I saves_I split: sum.split)

lemma clear_saves: "saves_or_leaves w t db (tool_clear w t (memory_Get db (mt_session_id t)) db)"
  unfolding tool_clear_def by (rule saves_I)

lemma write_saves: "saves_or_leaves w t db (tool_write w t x (memory_Get db (mt_session_id t)) db)"
  unfolding tool_write_def by (auto simp: leaves_I saves_I split: sum.split prod.split)

lemmas actions_save = add_saves replace_saves remove_saves clear_saves write_saves

lemma reading_saves:
  "(\<And>current. current = memory_Get db (mt_session_id t) \<Longrightarrow> saves_or_leaves w t db (act current db)) \<Longrightarrow> saves_or_leaves w t db (reading w t operation act db)"
  by (cases "tw_read_error w") (auto simp: reading_def saves_or_leaves_def)

lemma run_saves: "saves_or_leaves w t db (memory_InvokableRun w t arguments db)"
  unfolding memory_InvokableRun_def tool_action_def Let_def
  by (auto simp: leaves_I actions_save intro!: reading_saves split: option.split)

text \<open>
  C35.
  No call of the memory tool overwrites a change it has not seen: when it writes, the memory is what it
  read, whatever others did between its read and its save; otherwise the tables stay as they left them.
\<close>

theorem tool_overwrites_nothing_unseen:
  assumes "memory_InvokableRun w t arguments db = (r, db')" "mt_user_id t > 0"
  shows "db' = db \<or> db' = tw_between w db \<or>
    trim_space (memory_Get (tw_between w db) (mt_session_id t)) = trim_space (memory_Get db (mt_session_id t))"
  using run_saves[of w t db arguments] assms save_then_checked[OF _ assms(2)]
  unfolding saves_or_leaves_def by (metis snd_conv)

section \<open>Examples\<close>

definition clear_args :: string where
  "clear_args = [CHR 0x7B, CHR 0x22] @ ''action'' @ [CHR 0x22, CHR 0x3A, CHR 0x22] @ ''clear'' @ [CHR 0x22, CHR 0x7D]"

lemma clear_unquoted: "str_of_runes (unq (runes ''action'')) = ''action''" "str_of_runes (unq (runes ''clear'')) = ''clear''"
  by (simp_all add: lower_eval)

lemma clear_decoded: "decode_input clear_args = Some \<lparr>mi_action = ''clear'', mi_section = [], mi_content = [], mi_line_number = 0\<rparr>"
  unfolding decode_input_def json_dec_def clear_args_def
  by (simp add: numeral_eq_Suc jd_string_def dec_more_def) (simp add: clear_unquoted Let_def input_member_def fold_words string_field_def)

text \<open>Somebody writes \<^verbatim>\<open>Rust\<close> while the call that saw \<^verbatim>\<open>Go\<close> clears the memory.\<close>

definition rust_world :: tool_world where
  "rust_world = \<lparr>tw_now = 3, tw_read_error = None, tw_between = (\<lambda>db. db\<lparr>md_memories := [\<lparr>mw_session_id = 1, mw_content = ''Rust'', mw_updated = 2\<rparr>]\<rparr>),
     tw_save_fault = FaultNone\<rparr>"

lemma tool_overwrites_nothing_unseen_witness:
  "decode_input clear_args = Some \<lparr>mi_action = ''clear'', mi_section = [], mi_content = [], mi_line_number = 0\<rparr> \<and>
   snd (memory_InvokableRun rust_world (NewMemoryToolWithMaxChars 1 5 0) clear_args memory_demo)
     \<in> {memory_demo, tw_between rust_world memory_demo}"
proof -
  let ?t = "NewMemoryToolWithMaxChars 1 5 0"
  obtain r db' where run: "memory_InvokableRun rust_world ?t clear_args memory_demo = (r, db')" by force
  have "trim_space ''Rust'' = ''Rust''" by (simp add: string_eval)
  then have "trim_space (memory_Get (tw_between rust_world memory_demo) (mt_session_id ?t)) \<noteq> trim_space (memory_Get memory_demo (mt_session_id ?t))"
    by (simp add: rust_world_def memory_demo_def memory_Get_def find_memory_def NewMemoryToolWithMaxChars_def demo_words)
  then show ?thesis
    using tool_overwrites_nothing_unseen[OF run] run clear_decoded by (auto simp: NewMemoryToolWithMaxChars_def)
qed

section \<open>A marker of an empty list as content\<close>

lemma placeholder_dropped: "cleanItem ''none'' = []"
proof -
  have "trim_space ''none'' = ''none''" by (simp add: string_eval)
  moreover have "to_lower ''none'' = ''none''" by (simp add: lower_eval)
  ultimately show ?thesis by (simp add: cleanItem_def trim_prefix_def no_items_def Let_def)
qed

lemma placeholder_not_written: "Serialize (put_items EmptyDocument 4 [''none'']) = []"
proof -
  have k: "section_key \<lparr>ms_key = ''decisions'', ms_title = t, ms_items = i\<rparr> \<noteq> ''do_not_remember''" for t i
    by (simp add: section_key_def firstNonEmpty_def trim_keys key_forms)
  have items: "items_of (put_items EmptyDocument 4 [''none'']) k = []" for k
  proof -
    have "cleaned_items s = []" if "s \<in> set (doc_sections (put_items EmptyDocument 4 [''none'']))" for s
      using that by (auto simp: put_items_def EmptyDocument_def SectionDefs_def cleaned_items_def Let_def placeholder_dropped nothing_sensitive k)
    then show ?thesis unfolding items_of_def by (auto split: option.split simp: find_Some_iff) (metis nth_mem rev_nth length_rev set_rev)
  qed
  show ?thesis by (simp add: Serialize_def items)
qed

text \<open>
  An item that is only a marker of an empty list is dropped when the card is written; the call looks for
  it in the card it has just stored and indexes an empty list.
\<close>

lemma add_placeholder_panics:
  "tool_add w t \<lparr>mi_action = ''add'', mi_section = ''decisions'', mi_content = ''none'', mi_line_number = 0\<rparr> [] db =
    save_then w t [] [] ''update'' ''added memory item'' ''add memory item'' ToolPanic db"
proof -
  have "trim_space ''none'' = ''none''" by (simp add: string_eval)
  moreover have "memoryItems EmptyDocument = []" by (simp add: memoryItems_def EmptyDocument_def SectionDefs_def)
  moreover have "sectionIndex EmptyDocument ''decisions'' True = Inr 4"
    by (simp add: sectionIndex_def key_forms section_at_def EmptyDocument_def SectionDefs_def Let_def upt_rec)
  moreover have "ms_items (doc_sections EmptyDocument ! 4) = []" by (simp add: EmptyDocument_def SectionDefs_def)
  moreover have "Parse [] = EmptyDocument" by (simp add: Parse_def)
  ultimately show ?thesis by (simp add: tool_add_def placeholder_not_written Normalize_empty)
qed

end
