(* ===== verification/NetPolicy.thy ===== *)
theory NetPolicy
  imports Errors "HOL-Library.Word"
begin

text \<open>
  Which addresses the server connects to when a user names the URL: \<^verbatim>\<open>internal/netpolicy/public_http.go\<close>,
  the guard of the local page fetcher (\<^verbatim>\<open>internal/tool/ssrf_guard.go\<close>, \<^verbatim>\<open>basic_dns.go\<close>) and
  the transport of Git imports (\<^verbatim>\<open>internal/service/skill_git_transport.go\<close>).

  A \<^verbatim>\<open>net.IP\<close> is the list of its bytes, \<^verbatim>\<open>nil\<close> the empty one.  A resolver is the function
  from a host to the answer of one lookup, so that two lookups of a host need not agree.  Parameters are
  what \<^verbatim>\<open>url.Parse\<close> and \<^verbatim>\<open>net.SplitHostPort\<close> made of a text and whether a peer answers.
\<close>

unbundle bit_operations_syntax

section \<open>Addresses\<close>

type_synonym ip = "8 word list"

definition v4_in_v6 :: ip where
  "v4_in_v6 = replicate 10 0 @ [255, 255]"

definition To4 :: "ip \<Rightarrow> ip option" where
  "To4 x = (if length x = 4 then Some x else if length x = 16 \<and> take 12 x = v4_in_v6 then Some (drop 12 x) else None)"

definition ip_equal :: "ip \<Rightarrow> ip \<Rightarrow> bool" where
  "ip_equal x y \<longleftrightarrow>
    (if length x = length y then x = y
     else if length x = 4 \<and> length y = 16 then take 12 y = v4_in_v6 \<and> x = drop 12 y
     else if length x = 16 \<and> length y = 4 then take 12 x = v4_in_v6 \<and> drop 12 x = y
     else False)"

definition IPv6loopback :: ip where
  "IPv6loopback = replicate 15 0 @ [1]"

definition IsUnspecified :: "ip \<Rightarrow> bool" where
  "IsUnspecified x \<longleftrightarrow> ip_equal x (v4_in_v6 @ [0, 0, 0, 0]) \<or> ip_equal x (replicate 16 0)"

definition IsLoopback :: "ip \<Rightarrow> bool" where
  "IsLoopback x \<longleftrightarrow> (case To4 x of Some v \<Rightarrow> v ! 0 = 127 | None \<Rightarrow> ip_equal x IPv6loopback)"

definition IsPrivate :: "ip \<Rightarrow> bool" where
  "IsPrivate x \<longleftrightarrow>
    (case To4 x of
       Some v \<Rightarrow> v ! 0 = 10 \<or> v ! 0 = 172 \<and> v ! 1 AND 0xF0 = 16 \<or> v ! 0 = 192 \<and> v ! 1 = 168
     | None \<Rightarrow> length x = 16 \<and> x ! 0 AND 0xFE = 0xFC)"

definition IsMulticast :: "ip \<Rightarrow> bool" where
  "IsMulticast x \<longleftrightarrow> (case To4 x of Some v \<Rightarrow> v ! 0 AND 0xF0 = 0xE0 | None \<Rightarrow> length x = 16 \<and> x ! 0 = 0xFF)"

definition IsLinkLocalMulticast :: "ip \<Rightarrow> bool" where
  "IsLinkLocalMulticast x \<longleftrightarrow>
    (case To4 x of
       Some v \<Rightarrow> v ! 0 = 224 \<and> v ! 1 = 0 \<and> v ! 2 = 0
     | None \<Rightarrow> length x = 16 \<and> x ! 0 = 0xFF \<and> x ! 1 AND 0x0F = 0x02)"

definition IsLinkLocalUnicast :: "ip \<Rightarrow> bool" where
  "IsLinkLocalUnicast x \<longleftrightarrow>
    (case To4 x of
       Some v \<Rightarrow> v ! 0 = 169 \<and> v ! 1 = 254
     | None \<Rightarrow> length x = 16 \<and> x ! 0 = 0xFE \<and> x ! 1 AND 0xC0 = 0x80)"

text \<open>\<^verbatim>\<open>net.IPNet\<close>: the network number and the mask, of the same length.\<close>

record ip_net =
  nw_ip :: ip
  nw_mask :: ip

definition net_contains :: "ip_net \<Rightarrow> ip \<Rightarrow> bool" where
  "net_contains n x =
    (let y = (case To4 x of Some v \<Rightarrow> v | None \<Rightarrow> x)
     in length y = length (nw_ip n) \<and> map2 (\<lambda>a b. a AND b) (nw_ip n) (nw_mask n) = map2 (\<lambda>a b. a AND b) y (nw_mask n))"

definition blockedIPRanges :: "ip_net list" where
  "blockedIPRanges = [\<lparr>nw_ip = [100, 64, 0, 0], nw_mask = [0xFF, 0xC0, 0, 0]\<rparr>, \<lparr>nw_ip = [198, 18, 0, 0], nw_mask = [0xFF, 0xFE, 0, 0]\<rparr>]"

definition IsBlockedIP :: "ip \<Rightarrow> bool" where
  "IsBlockedIP x =
    (if x = [] then True
     else if IsLoopback x \<or> IsPrivate x \<or> IsLinkLocalUnicast x \<or> IsLinkLocalMulticast x \<or> IsUnspecified x \<or> IsMulticast x then True
     else if ip_equal x [0xFD, 0, 0x0E, 0xC2, 0, 0, 0, 0, 0, 0, 0, 0, 0, 0, 0x02, 0x54] then True
     else list_ex (\<lambda>n. net_contains n x) blockedIPRanges)"

section \<open>The text of an address\<close>

text \<open>\<^verbatim>\<open>net.ParseIP\<close>: four decimal fields, or IPv6 without a zone, in sixteen bytes.\<close>

definition char_nat :: "char \<Rightarrow> nat" where
  "char_nat c = of_char c"

definition decimal_field :: "string \<Rightarrow> 8 word option" where
  "decimal_field s =
    (let v = foldl (\<lambda>n c. n * 10 + (char_nat c - 48)) 0 s
     in if s \<noteq> [] \<and> length s \<le> 3 \<and> list_all (\<lambda>c. 48 \<le> char_nat c \<and> char_nat c \<le> 57) s \<and> (length s > 1 \<longrightarrow> hd s \<noteq> CHR ''0'') \<and> v \<le> 255
        then Some (word_of_nat v) else None)"

definition parse_v4 :: "string \<Rightarrow> ip option" where
  "parse_v4 s =
    (let fs = map decimal_field (split_char CHR ''.'' s)
     in if length fs = 4 \<and> None \<notin> set fs then Some (map the fs) else None)"

definition hex_nibble :: "char \<Rightarrow> nat option" where
  "hex_nibble c =
    (let n = char_nat c in
     if 48 \<le> n \<and> n \<le> 57 then Some (n - 48) else if 97 \<le> n \<and> n \<le> 102 then Some (n - 87) else if 65 \<le> n \<and> n \<le> 70 then Some (n - 55) else None)"

text \<open>
  The loop over the groups: what is read so far, where the ellipsis stands, and the rest; each round
  takes two bytes (or four of an embedded IPv4), so eight rounds are enough for sixteen bytes.
\<close>

fun v6_groups :: "nat \<Rightarrow> ip \<Rightarrow> nat option \<Rightarrow> string \<Rightarrow> (ip \<times> nat option \<times> string) option" where
  "v6_groups 0 acc e s = Some (acc, e, s)"
| "v6_groups (Suc n) acc e s =
    (if length acc \<ge> 16 then Some (acc, e, s)
     else (let hex = takeWhile (\<lambda>c. hex_nibble c \<noteq> None) s; rest = dropWhile (\<lambda>c. hex_nibble c \<noteq> None) s;
               v = foldl (\<lambda>n c. n * 16 + the (hex_nibble c)) 0 hex
       in if hex = [] \<or> length hex > 4 then None
          else if rest \<noteq> [] \<and> hd rest = CHR ''.''
          then (if e = None \<and> length acc \<noteq> 12 \<or> length acc + 4 > 16 then None
                else (case parse_v4 s of None \<Rightarrow> None | Some v4 \<Rightarrow> Some (acc @ v4, e, [])))
          else (let acc' = acc @ [word_of_nat (v div 256), word_of_nat (v mod 256)]
            in case rest of
                 [] \<Rightarrow> Some (acc', e, [])
               | c # r \<Rightarrow>
                   if c \<noteq> CHR '':'' \<or> r = [] then None
                   else if hd r = CHR '':''
                   then (if e \<noteq> None then None
                         else if tl r = [] then Some (acc', Some (length acc'), [])
                         else v6_groups n acc' (Some (length acc')) (tl r))
                   else v6_groups n acc' e r)))"

definition parse_v6 :: "string \<Rightarrow> ip option" where
  "parse_v6 s0 =
    (if CHR ''%'' \<in> set s0 then None
     else (let lead = has_prefix s0 ''::''; s = (if lead then drop 2 s0 else s0)
       in if lead \<and> s = [] then Some (replicate 16 0)
          else (case v6_groups 9 [] (if lead then Some 0 else None) s of
              None \<Rightarrow> None
            | Some (x, e, rest) \<Rightarrow>
                if rest \<noteq> [] then None
                else if length x < 16
                then (case e of None \<Rightarrow> None | Some k \<Rightarrow> Some (take k x @ replicate (16 - length x) 0 @ drop k x))
                else if e \<noteq> None then None else Some x)))"

definition ParseIP :: "string \<Rightarrow> ip option" where
  "ParseIP s =
    (case find (\<lambda>c. c = CHR ''.'' \<or> c = CHR '':'' \<or> c = CHR ''%'') s of
       Some c \<Rightarrow> if c = CHR ''.'' then map_option (\<lambda>v. v4_in_v6 @ v) (parse_v4 s) else if c = CHR '':'' then parse_v6 s else None
     | None \<Rightarrow> None)"

section \<open>Resolving a URL\<close>

record parsed_url =
  pu_scheme :: string
  pu_host :: string
  pu_has_user :: bool
  pu_hostname :: string
  pu_port :: string

record ip_addr =
  ia_ip :: ip
  ia_zone :: string

record resolution =
  re_scheme :: string
  re_host :: string
  re_port :: string
  re_addresses :: "ip_addr list"

type_synonym resolver = "string \<Rightarrow> go_err + ip_addr list"

definition has_suffix :: "string \<Rightarrow> string \<Rightarrow> bool" where
  "has_suffix s p \<longleftrightarrow> length p \<le> length s \<and> drop (length s - length p) s = p"

definition local_name :: "string \<Rightarrow> bool" where
  "local_name host \<longleftrightarrow> to_lower host = ''localhost'' \<or> has_suffix (to_lower host) ''.localhost''"

text \<open>The answer of a lookup, when it has addresses and none of them is blocked.\<close>

definition checked_lookup :: "(ip \<Rightarrow> bool) \<Rightarrow> resolver \<Rightarrow> string \<Rightarrow> go_err + ip_addr list" where
  "checked_lookup blocked lookup host =
    (case lookup host of
       Inl e \<Rightarrow> Inl (ErrWrap ''dns resolution failed'' e)
     | Inr ips \<Rightarrow> if ips = [] then Inl (ErrText ''no addresses resolved'')
                  else if list_ex (\<lambda>a. blocked (ia_ip a)) ips then Inl (ErrText ''blocked address'') else Inr ips)"

definition ResolvePublicHTTPURL :: "resolver \<Rightarrow> parsed_url option \<Rightarrow> go_err + resolution" where
  "ResolvePublicHTTPURL lookup parsed =
    (case parsed of
       None \<Rightarrow> Inl (ErrText ''invalid url'')
     | Some u \<Rightarrow>
       (let host = pu_hostname u; port = (if pu_port u = [] then (if pu_scheme u = ''https'' then ''443'' else ''80'') else pu_port u)
        in if pu_host u = [] then Inl (ErrText ''invalid url'')
           else if pu_scheme u \<noteq> ''http'' \<and> pu_scheme u \<noteq> ''https'' then Inl (ErrText ''unsupported scheme'')
           else if pu_has_user u then Inl (ErrText ''url must not include credentials'')
           else if host = [] then Inl (ErrText ''empty host'')
           else if local_name host then Inl (ErrText ''blocked host'')
           else (case ParseIP host of
               Some x \<Rightarrow>
                 if IsBlockedIP x then Inl (ErrText ''blocked address'')
                 else Inr \<lparr>re_scheme = pu_scheme u, re_host = to_lower host, re_port = port, re_addresses = [\<lparr>ia_ip = x, ia_zone = []\<rparr>]\<rparr>
             | None \<Rightarrow>
                 (case checked_lookup IsBlockedIP lookup host of
                    Inl e \<Rightarrow> Inl e
                  | Inr ips \<Rightarrow> Inr \<lparr>re_scheme = pu_scheme u, re_host = to_lower host, re_port = port, re_addresses = ips\<rparr>))))"

section \<open>The local page fetcher\<close>

definition validatePublicURL :: "resolver \<Rightarrow> (ip \<Rightarrow> bool) \<Rightarrow> parsed_url option \<Rightarrow> go_err option" where
  "validatePublicURL lookup blocked parsed =
    (case parsed of
       None \<Rightarrow> Some (ErrText ''invalid url'')
     | Some u \<Rightarrow>
         if pu_scheme u \<noteq> ''http'' \<and> pu_scheme u \<noteq> ''https'' then Some (ErrText ''unsupported scheme'')
         else if pu_hostname u = [] then Some (ErrText ''empty host'')
         else if local_name (pu_hostname u) then Some (ErrText ''blocked host'')
         else (case ParseIP (pu_hostname u) of
             Some x \<Rightarrow> if blocked x then Some (ErrText ''blocked address'') else None
           | None \<Rightarrow> (case checked_lookup blocked lookup (pu_hostname u) of Inl e \<Rightarrow> Some e | Inr _ \<Rightarrow> None)))"

definition validateURLLiteralHostPolicy :: "(ip \<Rightarrow> bool) \<Rightarrow> parsed_url \<Rightarrow> go_err option" where
  "validateURLLiteralHostPolicy blocked u =
    (if pu_hostname u = [] then Some (ErrText ''empty host'')
     else if local_name (pu_hostname u) then Some (ErrText ''blocked host'')
     else (case ParseIP (pu_hostname u) of Some x \<Rightarrow> if blocked x then Some (ErrText ''blocked address'') else None | None \<Rightarrow> None))"

text \<open>
  Dialing a list of numeric addresses until one answers: the connection or the last error, and every
  address that was dialed.
\<close>

fun dial_each :: "(ip \<Rightarrow> go_err option) \<Rightarrow> go_err \<Rightarrow> ip list \<Rightarrow> (go_err + ip) \<times> ip list" where
  "dial_each peer e [] = (Inl e, [])"
| "dial_each peer e (x # xs) = (case peer x of None \<Rightarrow> (Inr x, [x]) | Some e' \<Rightarrow> (let (r, ds) = dial_each peer e' xs in (r, x # ds)))"

definition guarded_dial :: "(ip \<Rightarrow> go_err option) \<Rightarrow> resolver \<Rightarrow> (ip \<Rightarrow> bool) \<Rightarrow> go_err + string \<times> string \<Rightarrow> (go_err + ip) \<times> ip list" where
  "guarded_dial peer lookup blocked addr =
    (case addr of
       Inl e \<Rightarrow> (Inl e, [])
     | Inr (host, port) \<Rightarrow>
       (case ParseIP host of
          Some x \<Rightarrow> if blocked x then (Inl (ErrText ''blocked address''), []) else dial_each peer (ErrText []) [x]
        | None \<Rightarrow>
          (case lookup host of
             Inl e \<Rightarrow> (Inl e, [])
           | Inr ips \<Rightarrow>
               if ips = [] then (Inl (ErrText ''no addresses resolved''), [])
               else if list_ex (\<lambda>a. blocked (ia_ip a)) ips then (Inl (ErrText ''blocked address''), [])
               else dial_each peer (ErrText []) (map ia_ip ips))))"

text \<open>The resolver of the fetcher: a second one for the answers of a fake-IP proxy.\<close>

definition syntheticDNSRange :: ip_net where
  "syntheticDNSRange = \<lparr>nw_ip = [198, 18, 0, 0], nw_mask = [0xFF, 0xFE, 0, 0]\<rparr>"

definition allSyntheticDNSAnswers :: "ip_addr list \<Rightarrow> bool" where
  "allSyntheticDNSAnswers ips \<longleftrightarrow> ips \<noteq> [] \<and> list_all (\<lambda>a. ia_ip a \<noteq> [] \<and> net_contains syntheticDNSRange (ia_ip a)) ips"

definition syntheticFallbackResolver :: "resolver \<Rightarrow> resolver \<Rightarrow> resolver" where
  "syntheticFallbackResolver primary fallback host =
    (case primary host of
       Inl e \<Rightarrow> Inl e
     | Inr ips \<Rightarrow> if allSyntheticDNSAnswers ips then fallback host else Inr ips)"

fun publicDNSResolver :: "resolver list \<Rightarrow> resolver" where
  "publicDNSResolver [] host = Inl (ErrText ''public dns unavailable'')"
| "publicDNSResolver (server # servers) host =
    (case server host of
       Inr ips \<Rightarrow> if ips \<noteq> [] then Inr ips else publicDNSResolver servers host
     | Inl e \<Rightarrow> publicDNSResolver servers host)"

section \<open>Git imports\<close>

definition trustedGitHosts :: "string list" where
  "trustedGitHosts = [''github.com'', ''gitlab.com'', ''bitbucket.org'', ''codeberg.org'']"

record git_transport =
  gt_host :: string
  gt_port :: string
  gt_addresses :: "ip_addr list"
  gt_pin_dns :: bool

definition resolveGitTransport :: "resolver \<Rightarrow> parsed_url option \<Rightarrow> go_err + git_transport" where
  "resolveGitTransport lookup parsed =
    (case parsed of
       None \<Rightarrow> Inl (ErrText ''invalid git url'')
     | Some u \<Rightarrow>
       (let host = to_lower (pu_hostname u)
        in if pu_host u = [] \<or> pu_scheme u \<noteq> ''https'' then Inl (ErrText ''invalid git url'')
           else if pu_has_user u then Inl (ErrText ''invalid git url: url must not include credentials'')
           else if pu_port u \<noteq> [] \<and> pu_port u \<noteq> ''443'' then Inl (ErrText ''invalid git url: unsupported port'')
           else if host = [] \<or> host = ''localhost'' \<or> has_suffix host ''.localhost'' then Inl (ErrText ''invalid git url: blocked host'')
           else (case ParseIP host of
               Some x \<Rightarrow> if IsBlockedIP x then Inl (ErrText ''invalid git url: blocked address'')
                         else Inr \<lparr>gt_host = host, gt_port = ''443'', gt_addresses = [], gt_pin_dns = False\<rparr>
             | None \<Rightarrow>
                 if host \<in> set trustedGitHosts then Inr \<lparr>gt_host = host, gt_port = ''443'', gt_addresses = [], gt_pin_dns = False\<rparr>
                 else (case ResolvePublicHTTPURL lookup parsed of
                     Inl e \<Rightarrow> Inl (ErrWrap ''invalid git url'' e)
                   | Inr r \<Rightarrow> Inr \<lparr>gt_host = re_host r, gt_port = re_port r, gt_addresses = re_addresses r, gt_pin_dns = True\<rparr>))))"

text \<open>The environment of the Git processes; an entry is a name and what follows it.\<close>

definition upper_rune :: "nat \<Rightarrow> nat" where
  "upper_rune r = (if 97 \<le> r \<and> r \<le> 122 then r - 32 else if r = 305 then 73 else if r = 383 then 83 else r)"

definition denied_variable :: "string \<Rightarrow> bool" where
  "denied_variable name =
    (let upper = str_of_runes (map upper_rune (runes name))
     in upper \<in> set [''ALL_PROXY'', ''HTTP_PROXY'', ''HTTPS_PROXY'', ''NO_PROXY'', ''SSH_ASKPASS''] \<or> has_prefix upper ''GIT_'')"

definition entry_name :: "string \<Rightarrow> string" where
  "entry_name entry = takeWhile (\<lambda>c. c \<noteq> CHR ''='') entry"

definition git_settings :: "string list" where
  "git_settings = [''GIT_TERMINAL_PROMPT=0'', ''GIT_CONFIG_NOSYSTEM=1'', ''GIT_CONFIG_SYSTEM=/dev/null'', ''GIT_CONFIG_GLOBAL=/dev/null'']"

definition sanitizedGitEnvironment :: "string list \<Rightarrow> string list" where
  "sanitizedGitEnvironment environ = filter (\<lambda>entry. \<not> denied_variable (entry_name entry)) environ @ git_settings"


section \<open>Blocked addresses as ranges\<close>

text \<open>The number an address is, and the ranges of numbers that are blocked.\<close>

definition ip_value :: "ip \<Rightarrow> nat" where
  "ip_value x = foldl (\<lambda>n b. n * 256 + unat b) 0 x"

definition in_range :: "nat \<Rightarrow> nat \<times> nat \<Rightarrow> bool" where
  "in_range v r \<longleftrightarrow> fst r \<le> v \<and> v \<le> snd r"

definition blocked_v4 :: "(nat \<times> nat) list" where
  "blocked_v4 = [(0, 0), (0x0A000000, 0x0AFFFFFF), (0x64400000, 0x647FFFFF), (0x7F000000, 0x7FFFFFFF), (0xA9FE0000, 0xA9FEFFFF),
     (0xAC100000, 0xAC1FFFFF), (0xC0A80000, 0xC0A8FFFF), (0xC6120000, 0xC613FFFF), (0xE0000000, 0xEFFFFFFF)]"

definition blocked_v6 :: "(nat \<times> nat) list" where
  "blocked_v6 = [(0, 1), (0xFC * 2 ^ 120, 0xFE * 2 ^ 120 - 1), (0xFE80 * 2 ^ 112, 0xFEC0 * 2 ^ 112 - 1), (0xFF * 2 ^ 120, 2 ^ 128 - 1)]"

lemma byte_high: "8 \<le> n \<Longrightarrow> \<not> bit (a :: 8 word) n"
  using bit_imp_le_length[of a n] by auto
lemma byte_bits: "(a :: 8 word) = b \<longleftrightarrow> (\<forall>i \<in> {0, 1, 2, 3, 4, 5, 6, 7}. bit a i = bit b i)"
proof
  assume eq: "\<forall>i \<in> {0, 1, 2, 3, 4, 5, 6, 7}. bit a i = bit b i"
  show "a = b"
  proof (rule bit_word_eqI)
    fix n assume "n < LENGTH(8)"
    then have "n \<in> {0, 1, 2, 3, 4, 5, 6, 7}" by auto
    with eq show "bit a n = bit b n" by blast
  qed
qed simp
lemma byte_div: "unat (drop_bit k (a :: 8 word)) = unat a div 2 ^ k"
  by (rule trans[OF unat_drop_bit_eq drop_bit_eq_div])
lemma byte_eq: "(a :: 8 word) = b \<longleftrightarrow> unat a = unat b"
  by (simp add: word_unat_eq_iff)
lemma byte_drops:
  fixes a :: "8 word"
  shows "a AND 0xF0 = 16 \<longleftrightarrow> drop_bit 4 a = 1" "a AND 0xF0 = 0xE0 \<longleftrightarrow> drop_bit 4 a = 14" "a AND 0xFE = 0xFC \<longleftrightarrow> drop_bit 1 a = 126"
    "a AND 0xC0 = 0x80 \<longleftrightarrow> drop_bit 6 a = 2" "a AND 0xC0 = 0x40 \<longleftrightarrow> drop_bit 6 a = 1" "a AND 0xFE = 18 \<longleftrightarrow> drop_bit 1 a = 9"
  by (simp_all add: byte_bits bit_and_iff bit_drop_bit_eq bit_numeral_rec bit_1_iff byte_high flip: numeral_2_eq_2 numeral_3_eq_3)
lemma byte_masks:
  fixes a :: "8 word"
  shows "a AND 0xF0 = 16 \<longleftrightarrow> unat a div 16 = 1" "a AND 0xF0 = 0xE0 \<longleftrightarrow> unat a div 16 = 14" "a AND 0xFE = 0xFC \<longleftrightarrow> unat a div 2 = 126"
    "a AND 0xC0 = 0x80 \<longleftrightarrow> unat a div 64 = 2" "a AND 0xC0 = 0x40 \<longleftrightarrow> unat a div 64 = 1" "a AND 0xFE = 18 \<longleftrightarrow> unat a div 2 = 9"
proof -
  have e: "unat (drop_bit 4 a) = unat a div 16" "unat (drop_bit 1 a) = unat a div 2" "unat (drop_bit 6 a) = unat a div 64"
    by (simp_all only: byte_div) simp_all
  show "a AND 0xF0 = 16 \<longleftrightarrow> unat a div 16 = 1" "a AND 0xF0 = 0xE0 \<longleftrightarrow> unat a div 16 = 14" "a AND 0xFE = 0xFC \<longleftrightarrow> unat a div 2 = 126"
    "a AND 0xC0 = 0x80 \<longleftrightarrow> unat a div 64 = 2" "a AND 0xC0 = 0x40 \<longleftrightarrow> unat a div 64 = 1" "a AND 0xFE = 18 \<longleftrightarrow> unat a div 2 = 9"
    unfolding byte_drops e[symmetric] by (simp_all add: byte_eq)
qed
lemma byte_mask_all: "(a :: 8 word) AND 255 = a"
proof -
  have "(255 :: 8 word) = - 1" by simp
  then show ?thesis by (metis bit.conj_one_right)
qed

lemma byte_less: "unat (a :: 8 word) < 256"
  using unsigned_less[of a, where 'a = nat] by simp

lemma ip_value_append: "ip_value (x @ y) = ip_value x * 256 ^ length y + ip_value y"
proof (induction y rule: rev_induct)
  case Nil
  then show ?case by (simp add: ip_value_def)
next
  case (snoc b y)
  then show ?case by (simp add: ip_value_def algebra_simps flip: append_assoc)
qed

lemma ip_value_less: "ip_value x < 256 ^ length x"
proof (induction x rule: rev_induct)
  case Nil
  then show ?case by (simp add: ip_value_def)
next
  case (snoc b x)
  have "ip_value (x @ [b]) = ip_value x * 256 + unat b" by (simp add: ip_value_def)
  then show ?case using snoc byte_less[of b] by simp
qed

lemma byte_step: "a * 256 + u = b * 256 + v \<Longrightarrow> u < 256 \<Longrightarrow> v < 256 \<Longrightarrow> a = b \<and> u = (v :: nat)"
proof -
  assume a: "a * 256 + u = b * 256 + v" "u < 256" "v < 256"
  have "(a * 256 + u) div 256 = a" "(b * 256 + v) div 256 = b" using a(2,3) by simp_all
  then have "a = b" using a(1) by simp
  with a(1) show ?thesis by simp
qed

lemma ip_value_constants: "ip_value (replicate 16 0) = 0" "ip_value IPv6loopback = 1"
  by code_simp+

lemma not_mapped_constants: "replicate 12 0 \<noteq> v4_in_v6" "take 12 IPv6loopback \<noteq> v4_in_v6"
  by code_simp+

lemma ip_value_inj: "length x = length y \<Longrightarrow> ip_value x = ip_value y \<Longrightarrow> x = y"
proof (induction x arbitrary: y rule: rev_induct)
  case (snoc b x)
  obtain y' c where y: "y = y' @ [c]" using snoc.prems(1) by (cases y rule: rev_cases) auto
  have "ip_value x * 256 + unat b = ip_value y' * 256 + unat c" using snoc.prems(2) y by (simp add: ip_value_def)
  from byte_step[OF this byte_less byte_less] have "ip_value x = ip_value y'" "unat b = unat c" by blast+
  then show ?case using snoc.IH[of y'] snoc.prems(1) y by (simp add: byte_eq)
qed simp

lemma range_div: 
  fixes a b h w M :: nat
  assumes "w < M"
  shows "a * M \<le> h * M + w \<and> h * M + w \<le> b * M + (M - 1) \<longleftrightarrow> a \<le> h \<and> h \<le> b"
proof -
  have d: "(h * M + w) div M = h" using assms by simp
  have "a * M \<le> h * M + w \<longleftrightarrow> a \<le> (h * M + w) div M" using assms by (subst less_eq_div_iff_mult_less_eq) auto
  moreover have "h * M + w \<le> b * M + (M - 1) \<longleftrightarrow> (h * M + w) div M < Suc b" using assms by (subst div_less_iff_less_mult) auto
  ultimately show ?thesis unfolding d by auto
qed
lemma two_bytes:
  fixes p q P Q1 Q2 :: nat
  assumes "q < 256" "Q2 < 256"
  shows "p = P \<and> Q1 \<le> q \<and> q \<le> Q2 \<longleftrightarrow> P * 256 + Q1 \<le> p * 256 + q \<and> p * 256 + q \<le> P * 256 + Q2"
proof
  assume "P * 256 + Q1 \<le> p * 256 + q \<and> p * 256 + q \<le> P * 256 + Q2"
  moreover from this have "p = P" using assms by linarith
  ultimately show "p = P \<and> Q1 \<le> q \<and> q \<le> Q2" by simp
qed simp
lemma byte_divs: "(q :: nat) div 64 = 1 \<longleftrightarrow> 64 \<le> q \<and> q \<le> 127" "q div 64 = 2 \<longleftrightarrow> 128 \<le> q \<and> q \<le> 191" "q div 16 = 1 \<longleftrightarrow> 16 \<le> q \<and> q \<le> 31"
  "q div 16 = 14 \<longleftrightarrow> 224 \<le> q \<and> q \<le> 239" "q div 2 = 9 \<longleftrightarrow> 18 \<le> q \<and> q \<le> 19" "q div 2 = 126 \<longleftrightarrow> 252 \<le> q \<and> q \<le> 253"
  by linarith+
lemma byte_range: 
  fixes p q P1 P2 :: nat
  assumes "q < 256"
  shows "P1 \<le> p \<and> p \<le> P2 \<longleftrightarrow> P1 * 256 \<le> p * 256 + q \<and> p * 256 + q \<le> P2 * 256 + 255"
  using range_div[of q 256 P1 p P2] assms by simp
lemma length_four: "length x = 4 \<Longrightarrow> \<exists>a b c d. x = [a, b, c, d]"
  by (auto simp: eval_nat_numeral length_Suc_conv)

lemma blocked_four:
  assumes "length x = 4"
  shows "IsBlockedIP x \<longleftrightarrow> list_ex (in_range (ip_value x)) blocked_v4"
proof -
  obtain a b c d where x: "x = [a, b, c, d]" using length_four[OF assms] by blast
  define p q r s where n: "p = unat a" "q = unat b" "r = unat c" "s = unat d"
  have less: "p < 256" "q < 256" "r < 256" "s < 256" by (simp_all add: n byte_less)
  have v: "ip_value x = p * 16777216 + q * 65536 + r * 256 + s" by (simp add: ip_value_def x n algebra_simps)
  have "IsBlockedIP x \<longleftrightarrow> p = 127 \<or> p = 10 \<or> p = 172 \<and> q div 16 = 1 \<or> p = 192 \<and> q = 168 \<or> p = 169 \<and> q = 254 \<or> p div 16 = 14 \<or>
      p = 0 \<and> q = 0 \<and> r = 0 \<and> s = 0 \<or> p = 100 \<and> q div 64 = 1 \<or> p = 198 \<and> q div 2 = 9"
  proof -
    have t: "To4 [a, b, c, d] = Some [a, b, c, d]" by (simp add: To4_def)
    have "IsLoopback x \<longleftrightarrow> p = 127" by (simp add: IsLoopback_def t x n byte_eq)
    moreover have "IsPrivate x \<longleftrightarrow> p = 10 \<or> p = 172 \<and> q div 16 = 1 \<or> p = 192 \<and> q = 168"
      unfolding IsPrivate_def x t option.simps by (simp add: n byte_masks) (simp add: byte_eq)
    moreover have "IsLinkLocalUnicast x \<longleftrightarrow> p = 169 \<and> q = 254" by (simp add: IsLinkLocalUnicast_def t x n byte_eq)
    moreover have "IsMulticast x \<longleftrightarrow> p div 16 = 14" by (simp add: IsMulticast_def t x n byte_masks)
    moreover have "IsLinkLocalMulticast x \<longrightarrow> p div 16 = 14" by (simp add: IsLinkLocalMulticast_def t x n byte_eq)
    moreover have "IsUnspecified x \<longleftrightarrow> p = 0 \<and> q = 0 \<and> r = 0 \<and> s = 0"
      using not_mapped_constants(1) by (simp add: IsUnspecified_def ip_equal_def x n) (simp add: v4_in_v6_def byte_eq)
    moreover have "\<not> ip_equal x [0xFD, 0, 0x0E, 0xC2, 0, 0, 0, 0, 0, 0, 0, 0, 0, 0, 0x02, 0x54]"
      by (simp add: ip_equal_def v4_in_v6_def x)
    moreover have "list_ex (\<lambda>n. net_contains n x) blockedIPRanges \<longleftrightarrow> p = 100 \<and> q div 64 = 1 \<or> p = 198 \<and> q div 2 = 9"
    proof -
      have "list_ex (\<lambda>n. net_contains n x) blockedIPRanges \<longleftrightarrow> a = 100 \<and> b AND 0xC0 = 0x40 \<or> a = 198 \<and> b AND 0xFE = 18"
        by (auto simp: blockedIPRanges_def net_contains_def t x byte_mask_all)
      then show ?thesis by (simp only: byte_masks n) (simp add: byte_eq)
    qed
    ultimately show ?thesis unfolding IsBlockedIP_def using x by simp blast
  qed
  also have "\<dots> \<longleftrightarrow> list_ex (in_range (ip_value x)) blocked_v4"
  proof -
    define h where "h = p * 256 + q"
    have w: "ip_value x = h * 65536 + (r * 256 + s)" "r * 256 + s < 65536" using less by (simp_all add: v h_def)
    have R: "A * 65536 \<le> ip_value x \<and> ip_value x \<le> B * 65536 + 65535 \<longleftrightarrow> A \<le> h \<and> h \<le> B" for A B
      using range_div[OF w(2), of A h B] by (simp add: w(1))
    have "p = 0 \<and> q = 0 \<and> r = 0 \<and> s = 0 \<longleftrightarrow> 0 \<le> ip_value x \<and> ip_value x \<le> 0" by (simp add: v)
    moreover have "p = 10 \<longleftrightarrow> 0x0A000000 \<le> ip_value x \<and> ip_value x \<le> 0x0AFFFFFF"
      using R[of 2560 2815] two_bytes[of q 255 p 10 0] less by (auto simp: byte_divs h_def)
    moreover have "p = 100 \<and> q div 64 = 1 \<longleftrightarrow> 0x64400000 \<le> ip_value x \<and> ip_value x \<le> 0x647FFFFF"
      using R[of 25664 25727] two_bytes[of q 127 p 100 64] less by (auto simp: byte_divs h_def)
    moreover have "p = 127 \<longleftrightarrow> 0x7F000000 \<le> ip_value x \<and> ip_value x \<le> 0x7FFFFFFF"
      using R[of 32512 32767] two_bytes[of q 255 p 127 0] less by (auto simp: byte_divs h_def)
    moreover have "p = 169 \<and> q = 254 \<longleftrightarrow> 0xA9FE0000 \<le> ip_value x \<and> ip_value x \<le> 0xA9FEFFFF"
      using R[of 43518 43518] two_bytes[of q 254 p 169 254] less by (auto simp: byte_divs h_def)
    moreover have "p = 172 \<and> q div 16 = 1 \<longleftrightarrow> 0xAC100000 \<le> ip_value x \<and> ip_value x \<le> 0xAC1FFFFF"
      using R[of 44048 44063] two_bytes[of q 31 p 172 16] less by (auto simp: byte_divs h_def)
    moreover have "p = 192 \<and> q = 168 \<longleftrightarrow> 0xC0A80000 \<le> ip_value x \<and> ip_value x \<le> 0xC0A8FFFF"
      using R[of 49320 49320] two_bytes[of q 168 p 192 168] less by (auto simp: byte_divs h_def)
    moreover have "p = 198 \<and> q div 2 = 9 \<longleftrightarrow> 0xC6120000 \<le> ip_value x \<and> ip_value x \<le> 0xC613FFFF"
      using R[of 50706 50707] two_bytes[of q 19 p 198 18] less by (auto simp: byte_divs h_def)
    moreover have "p div 16 = 14 \<longleftrightarrow> 0xE0000000 \<le> ip_value x \<and> ip_value x \<le> 0xEFFFFFFF"
      using R[of 57344 61439] byte_range[of q 224 p 239] less by (auto simp: byte_divs h_def)
    ultimately show ?thesis
      by (simp only: blocked_v4_def list_ex_iff list.set bex_simps in_range_def fst_conv snd_conv) blast
  qed
  finally show ?thesis .
qed

lemma mapped_same:
  assumes "To4 x = Some v"
  shows "IsBlockedIP x = IsBlockedIP v" "length v = 4"
proof -
  show l: "length v = 4" using assms by (auto simp: To4_def split: if_splits)
  have v: "To4 v = Some v" using l by (simp add: To4_def)
  have x: "x = v \<or> x = v4_in_v6 @ v" using assms by (auto simp: To4_def split: if_splits) (metis append_take_drop_id)
  have lx: "length (v4_in_v6 @ v) = 16" "take 12 (v4_in_v6 @ v) = v4_in_v6" "drop 12 (v4_in_v6 @ v) = v" using l by (simp_all add: v4_in_v6_def)
  have e: "ip_equal (v4_in_v6 @ v) w = ip_equal v w" if "length w = 16" for w
    using that l lx by (auto simp: ip_equal_def) (metis append_take_drop_id)
  have u: "IsUnspecified (v4_in_v6 @ v) = IsUnspecified v"
  proof -
    have "length (v4_in_v6 @ [0, 0, 0, 0]) = 16" by (simp add: v4_in_v6_def)
    then show ?thesis unfolding IsUnspecified_def by (simp only: e length_replicate)
  qed
  show "IsBlockedIP x = IsBlockedIP v"
    using x
  proof
    assume "x = v4_in_v6 @ v"
    then have t: "To4 (v4_in_v6 @ v) = Some v" "x = v4_in_v6 @ v" using assms by simp_all
    have "x \<noteq> []" "v \<noteq> []" using l t(2) by (auto simp: v4_in_v6_def)
    then show ?thesis
      unfolding IsBlockedIP_def t(2) IsLoopback_def IsPrivate_def IsLinkLocalUnicast_def IsLinkLocalMulticast_def IsMulticast_def net_contains_def t(1) v u
      by (simp add: e)
  qed simp
qed

lemma blocked_sixteen:
  assumes "length x = 16" "To4 x = None"
  shows "IsBlockedIP x \<longleftrightarrow> list_ex (in_range (ip_value x)) blocked_v6"
proof -
  obtain a b r where x: "x = a # b # r" "length r = 14" using assms(1) by (cases x; cases "tl x") auto
  define p q w where n: "p = unat a" "q = unat b" "w = ip_value r"
  have less: "p < 256" "q < 256" "w < 2 ^ 112" using ip_value_less[of r] by (simp_all add: n byte_less x(2))
  have v: "ip_value x = p * 2 ^ 120 + q * 2 ^ 112 + w"
    using ip_value_append[of "[a, b]" r] by (simp add: x n) (simp add: ip_value_def)
  have m: "take 12 x \<noteq> v4_in_v6" using assms by (simp add: To4_def split: if_splits)
  have zero: "x = replicate 16 0 \<longleftrightarrow> ip_value x = 0"
    using ip_value_inj[of x "replicate 16 0"] assms(1) ip_value_constants(1) by auto
  have one: "x = IPv6loopback \<longleftrightarrow> ip_value x = 1"
    using ip_value_inj[of x IPv6loopback] assms(1) ip_value_constants(2) by (auto simp: IPv6loopback_def)
  have "IsLoopback x \<longleftrightarrow> ip_value x = 1"
    using one assms by (simp add: IsLoopback_def ip_equal_def) (simp add: IPv6loopback_def)
  moreover have "IsPrivate x \<longleftrightarrow> p div 2 = 126" using assms by (simp add: IsPrivate_def) (simp add: x n byte_masks)
  moreover have "IsLinkLocalUnicast x \<longleftrightarrow> p = 254 \<and> q div 64 = 2"
    using assms by (simp add: IsLinkLocalUnicast_def) (simp add: x n byte_masks, simp add: byte_eq)
  moreover have "IsMulticast x \<longleftrightarrow> p = 255" using assms by (simp add: IsMulticast_def) (simp add: x n byte_eq)
  moreover have "IsLinkLocalMulticast x \<longrightarrow> p = 255" using assms by (simp add: IsLinkLocalMulticast_def) (simp add: x n byte_eq)
  moreover have "IsUnspecified x \<longleftrightarrow> ip_value x = 0"
  proof -
    have "x \<noteq> v4_in_v6 @ [0, 0, 0, 0]" using m by (auto simp: v4_in_v6_def)
    then show ?thesis using zero assms(1) by (simp add: IsUnspecified_def ip_equal_def v4_in_v6_def)
  qed
  moreover have "ip_equal x [0xFD, 0, 0x0E, 0xC2, 0, 0, 0, 0, 0, 0, 0, 0, 0, 0, 0x02, 0x54] \<longrightarrow> p div 2 = 126"
    by (simp add: ip_equal_def assms(1) x n)
  moreover have "\<not> list_ex (\<lambda>n. net_contains n x) blockedIPRanges"
    using assms by (simp add: blockedIPRanges_def net_contains_def)
  ultimately have "IsBlockedIP x \<longleftrightarrow> ip_value x = 0 \<or> ip_value x = 1 \<or> p div 2 = 126 \<or> p = 254 \<and> q div 64 = 2 \<or> p = 255"
    unfolding IsBlockedIP_def using x(1) by auto
  also have "\<dots> \<longleftrightarrow> list_ex (in_range (ip_value x)) blocked_v6"
  proof -
    define h where "h = p * 256 + q"
    have w: "ip_value x = h * 2 ^ 112 + w" by (simp add: v h_def)
    have R: "A * 2 ^ 112 \<le> ip_value x \<and> ip_value x \<le> B * 2 ^ 112 + (2 ^ 112 - 1) \<longleftrightarrow> A \<le> h \<and> h \<le> B" for A B
      using range_div[OF less(3), of A h B] by (simp only: w)
    have "p div 2 = 126 \<longleftrightarrow> 0xFC * 2 ^ 120 \<le> ip_value x \<and> ip_value x \<le> 0xFE * 2 ^ 120 - 1"
      using R[of 64512 65023] byte_range[of q 252 p 253] less by (auto simp: byte_divs h_def)
    moreover have "p = 254 \<and> q div 64 = 2 \<longleftrightarrow> 0xFE80 * 2 ^ 112 \<le> ip_value x \<and> ip_value x \<le> 0xFEC0 * 2 ^ 112 - 1"
      using R[of 65152 65215] two_bytes[of q 191 p 254 128] less by (auto simp: byte_divs h_def)
    moreover have "p = 255 \<longleftrightarrow> 0xFF * 2 ^ 120 \<le> ip_value x \<and> ip_value x \<le> 2 ^ 128 - 1"
      using R[of 65280 65535] two_bytes[of q 255 p 255 0] less by (auto simp: byte_divs h_def)
    moreover have "ip_value x = 0 \<or> ip_value x = 1 \<longleftrightarrow> 0 \<le> ip_value x \<and> ip_value x \<le> 1" by auto
    ultimately show ?thesis
      by (simp only: blocked_v6_def list_ex_iff list.set bex_simps in_range_def fst_conv snd_conv) blast
  qed
  finally show ?thesis .
qed


text \<open>
  C36.
  An address is refused exactly when its number lies in one of the listed ranges: for IPv4 the unspecified,
  private, shared, loopback, link-local, benchmark and multicast ranges, for IPv6 the unspecified, loopback,
  unique-local, link-local and multicast ranges; an IPv4 address written as IPv6 is judged as IPv4.
\<close>

theorem blocked_addresses:
  assumes "length x = 4 \<or> length x = 16"
  shows "IsBlockedIP x \<longleftrightarrow>
    (case To4 x of Some v \<Rightarrow> list_ex (in_range (ip_value v)) blocked_v4 | None \<Rightarrow> list_ex (in_range (ip_value x)) blocked_v6)"
proof (cases "To4 x")
  case None
  then have "length x = 16" using assms by (auto simp: To4_def)
  with None show ?thesis using blocked_sixteen by simp
next
  case (Some v)
  with mapped_same[OF Some] show ?thesis using blocked_four by simp
qed

section \<open>Only addresses that are not blocked are dialed\<close>

lemma dial_each_dialed:
  "dial_each peer e xs = (r, ds) \<Longrightarrow> set ds \<subseteq> set xs \<and> (\<forall>x. r = Inr x \<longrightarrow> ds \<noteq> [] \<and> x = last ds \<and> peer x = None)"
proof (induction xs arbitrary: e r ds)
  case (Cons y ys)
  show ?case
  proof (cases "peer y")
    case None
    then show ?thesis using Cons.prems by auto
  next
    case (Some e')
    obtain r' ds' where d: "dial_each peer e' ys = (r', ds')" by fastforce
    then have "r = r'" "ds = y # ds'" using Cons.prems Some by auto
    then show ?thesis using Cons.IH[OF d] by auto
  qed
qed auto

lemma checked_lookup_Inr:
  "checked_lookup blocked lookup host = Inr ips \<Longrightarrow> lookup host = Inr ips \<and> ips \<noteq> [] \<and> (\<forall>a \<in> set ips. \<not> blocked (ia_ip a))"
  by (auto simp: checked_lookup_def list_ex_iff split: sum.splits if_splits)

text \<open>
  C37.
  The page fetcher connects only to addresses the policy accepts, whatever the resolver answers at the
  moment of the connection: every address it dials is accepted, is the literal of the URL or of the answer
  just given, and an answer with one refused address is refused as a whole.
\<close>

theorem guarded_dial_public:
  assumes "guarded_dial peer lookup blocked addr = (r, dialed)"
  shows "(\<forall>x \<in> set dialed. \<not> blocked x) \<and> (\<forall>x. r = Inr x \<longrightarrow> dialed \<noteq> [] \<and> x = last dialed \<and> peer x = None) \<and>
    (dialed \<noteq> [] \<longrightarrow> (\<exists>host port. addr = Inr (host, port) \<and>
      (ParseIP host = Some (hd dialed) \<and> dialed = [hd dialed] \<or>
       ParseIP host = None \<and> (\<exists>ips. lookup host = Inr ips \<and> (\<forall>a \<in> set ips. \<not> blocked (ia_ip a)) \<and> set dialed \<subseteq> ia_ip ` set ips))))"
proof (cases addr)
  case (Inl e)
  then show ?thesis using assms by (auto simp: guarded_dial_def)
next
  case (Inr hp)
  obtain host port where a: "addr = Inr (host, port)" using Inr by (cases hp) auto
  show ?thesis
  proof (cases "ParseIP host")
    case (Some x)
    then show ?thesis using assms a by (auto simp: guarded_dial_def split: if_splits option.splits)
  next
    case None
    show ?thesis
    proof (cases "lookup host")
      case (Inl e)
      then show ?thesis using assms a None by (auto simp: guarded_dial_def)
    next
      case (Inr ips)
      show ?thesis
      proof (cases "ips = [] \<or> list_ex (\<lambda>a. blocked (ia_ip a)) ips")
        case True
        then show ?thesis using assms a None Inr by (auto simp: guarded_dial_def split: if_splits)
      next
        case False
        then have "dial_each peer (ErrText []) (map ia_ip ips) = (r, dialed)" using assms a None Inr by (simp add: guarded_dial_def)
        from dial_each_dialed[OF this] show ?thesis using False a None Inr by (auto simp: list_ex_iff)
      qed
    qed
  qed
qed

lemma ResolvePublicHTTPURL_Inr:
  assumes "ResolvePublicHTTPURL lookup parsed = Inr r"
  obtains u where "parsed = Some u" "re_addresses r \<noteq> []" "\<forall>a \<in> set (re_addresses r). \<not> IsBlockedIP (ia_ip a)"
    "re_scheme r = pu_scheme u" "pu_scheme u \<in> {''http'', ''https''}" "\<not> pu_has_user u" "\<not> local_name (pu_hostname u)"
    "re_host r = to_lower (pu_hostname u)" "re_port r = (if pu_port u = [] then (if pu_scheme u = ''https'' then ''443'' else ''80'') else pu_port u)"
  using assms by (auto simp: ResolvePublicHTTPURL_def Let_def dest!: checked_lookup_Inr split: option.splits if_splits sum.splits)

text \<open>
  C38.
  A Git import goes over HTTPS to port 443 without credentials, and either to a literal address the policy
  accepts, or to one of the fixed forges, or with its host pinned to the addresses just resolved, of which
  there is at least one and none is refused.
\<close>

theorem git_transport_pinned:
  assumes "resolveGitTransport lookup (Some u) = Inr t"
  shows "gt_port t = ''443'' \<and> gt_host t = to_lower (pu_hostname u) \<and> pu_scheme u = ''https'' \<and> \<not> pu_has_user u \<and> gt_host t \<noteq> ''localhost'' \<and>
    (if gt_pin_dns t then gt_addresses t \<noteq> [] \<and> (\<forall>a \<in> set (gt_addresses t). \<not> IsBlockedIP (ia_ip a))
     else (\<exists>x. ParseIP (gt_host t) = Some x \<and> \<not> IsBlockedIP x) \<or> gt_host t \<in> set trustedGitHosts)"
proof -
  have c: "pu_scheme u = ''https''" "\<not> pu_has_user u" "pu_port u = [] \<or> pu_port u = ''443''" "to_lower (pu_hostname u) \<noteq> ''localhost''"
    using assms by (auto simp: resolveGitTransport_def Let_def split: if_splits)
  consider (literal) x where "ParseIP (to_lower (pu_hostname u)) = Some x" "\<not> IsBlockedIP x"
      "t = \<lparr>gt_host = to_lower (pu_hostname u), gt_port = ''443'', gt_addresses = [], gt_pin_dns = False\<rparr>"
    | (forge) "to_lower (pu_hostname u) \<in> set trustedGitHosts"
      "t = \<lparr>gt_host = to_lower (pu_hostname u), gt_port = ''443'', gt_addresses = [], gt_pin_dns = False\<rparr>"
    | (pinned) r where "ResolvePublicHTTPURL lookup (Some u) = Inr r"
      "t = \<lparr>gt_host = re_host r, gt_port = re_port r, gt_addresses = re_addresses r, gt_pin_dns = True\<rparr>"
    using assms by (auto simp: resolveGitTransport_def Let_def split: if_splits option.splits sum.splits)
  then show ?thesis
  proof cases
    case pinned
    then show ?thesis using c by (auto elim!: ResolvePublicHTTPURL_Inr)
  qed (use c in simp_all)
qed

section \<open>The fake-IP resolver and the environment of Git\<close>

text \<open>The second resolver is asked only when every answer of the first is synthetic, and only then does its answer count.\<close>

lemma fallback_only_for_synthetic:
  "syntheticFallbackResolver primary fallback host \<noteq> primary host \<Longrightarrow>
    \<exists>ips. primary host = Inr ips \<and> (\<forall>a \<in> set ips. net_contains syntheticDNSRange (ia_ip a)) \<and> syntheticFallbackResolver primary fallback host = fallback host"
  by (auto simp: syntheticFallbackResolver_def allSyntheticDNSAnswers_def list_all_iff split: sum.splits if_splits)

lemma synthetic_is_blocked:
  assumes "net_contains syntheticDNSRange x" "x \<noteq> []"
  shows "IsBlockedIP x"
  using assms by (simp add: IsBlockedIP_def blockedIPRanges_def syntheticDNSRange_def)

lemma git_environment_clean:
  "entry \<in> set (sanitizedGitEnvironment environ) \<Longrightarrow> entry \<in> set git_settings \<or> entry \<in> set environ \<and> \<not> denied_variable (entry_name entry)"
  by (auto simp: sanitizedGitEnvironment_def)

section \<open>Examples\<close>

lemma blocked_addresses_witness:
  "IsBlockedIP [172, 31, 1, 1] \<and> \<not> IsBlockedIP [172, 32, 0, 1] \<and> IsBlockedIP (v4_in_v6 @ [172, 31, 1, 1])"
proof -
  have t: "To4 [a, b, c, d] = Some [a, b, c, d]" for a b c d by (simp add: To4_def)
  have m: "To4 (v4_in_v6 @ [172, 31, 1, 1]) = Some [172, 31, 1, 1]" by (simp add: To4_def v4_in_v6_def)
  have l: "length v4_in_v6 = 12" by (simp add: v4_in_v6_def)
  have v: "ip_value [172, 31, 1, 1] = 2887713025" "ip_value [172, 32, 0, 1] = 2887778305" by (simp_all add: ip_value_def)
  show ?thesis
    using blocked_addresses[of "[172, 31, 1, 1]"] blocked_addresses[of "[172, 32, 0, 1]"] blocked_addresses[of "v4_in_v6 @ [172, 31, 1, 1]"]
    by (simp add: t m l v) (simp add: blocked_v4_def in_range_def)
qed

text \<open>A host that is rebound to the cloud metadata address, and the same host answered with a public one.\<close>

definition rebind_host :: string where "rebind_host = ''r.t''"

definition answers :: "ip \<Rightarrow> resolver" where
  "answers x host = Inr [\<lparr>ia_ip = x, ia_zone = []\<rparr>]"

lemma rebind_name: "ParseIP rebind_host = None"
  by (simp add: ParseIP_def rebind_host_def parse_v4_def decimal_field_def char_nat_def Let_def)

lemma guarded_dial_public_witness:
  "list_all (\<lambda>x. \<not> IsBlockedIP x) (snd (guarded_dial (\<lambda>_. None) (answers [169, 254, 169, 254]) IsBlockedIP (Inr (rebind_host, ''80'')))) \<and>
   guarded_dial (\<lambda>_. None) (answers [8, 8, 8, 8]) IsBlockedIP (Inr (rebind_host, ''80'')) = (Inr [8, 8, 8, 8], [[8, 8, 8, 8]])"
proof -
  obtain r dialed where d: "guarded_dial (\<lambda>_. None) (answers [169, 254, 169, 254]) IsBlockedIP (Inr (rebind_host, ''80'')) = (r, dialed)" by force
  have p: "\<not> IsBlockedIP [8, 8, 8, 8]"
    using blocked_four[of "[8, 8, 8, 8]"] by (simp add: ip_value_def blocked_v4_def in_range_def)
  show ?thesis
    using guarded_dial_public[OF d] d p by (simp add: guarded_dial_def rebind_name answers_def list_all_iff)
qed

lemma git_transport_pinned_witness:
  "\<exists>t. resolveGitTransport (answers [8, 8, 8, 8]) (Some \<lparr>pu_scheme = ''https'', pu_host = rebind_host, pu_has_user = False,
     pu_hostname = rebind_host, pu_port = []\<rparr>) = Inr t \<and> gt_port t = ''443'' \<and> gt_pin_dns t \<and> list_all (\<lambda>a. \<not> IsBlockedIP (ia_ip a)) (gt_addresses t)"
proof -
  let ?u = "\<lparr>pu_scheme = ''https'', pu_host = rebind_host, pu_has_user = False, pu_hostname = rebind_host, pu_port = []\<rparr>"
  have p: "\<not> IsBlockedIP [8, 8, 8, 8]"
    using blocked_four[of "[8, 8, 8, 8]"] by (simp add: ip_value_def blocked_v4_def in_range_def)
  have b: "rebind_host \<noteq> []" "rebind_host \<noteq> ''localhost''" "\<not> has_suffix rebind_host ''.localhost''" "rebind_host \<notin> set trustedGitHosts"
    by (simp_all add: rebind_host_def has_suffix_def trustedGitHosts_def)
  have l: "to_lower rebind_host = rebind_host"
    by (simp add: rebind_host_def to_lower_def runes_def dec_more_def str_of_runes_def enc_rune_def valid_rune_def lower_rune_def char_of_def bit_iff_odd)
  obtain t where t: "resolveGitTransport (answers [8, 8, 8, 8]) (Some ?u) = Inr t" "gt_pin_dns t"
    by (simp add: resolveGitTransport_def ResolvePublicHTTPURL_def checked_lookup_def local_name_def l b rebind_name answers_def p Let_def)
  then show ?thesis using git_transport_pinned[OF t(1)] t by (auto simp: list_all_iff)
qed

end
