(* ===== verification/PathPolicy.thy ===== *)
theory PathPolicy
  imports Errors
begin

text \<open>
  Containment of the managed storage (\<^verbatim>\<open>internal/filepolicy/managed_path.go\<close>).  An absolute clean path
  is the list of its names.  The file system is a map from such paths to nodes; \<open>walk\<close> is the walk of
  \<^verbatim>\<open>filepath.EvalSymlinks\<close>, with at most 255 links, and of the kernel, with at most 40; \<open>cwd\<close> is
  the working directory.  Modes, owners and concurrent changes of the tree are not modelled.
\<close>

section \<open>Paths\<close>

type_synonym path = "string list"

text \<open>\<^verbatim>\<open>filepath.Clean\<close> of a rooted path.\<close>

definition clean_step :: "path \<Rightarrow> string \<Rightarrow> path" where
  "clean_step p c = (if c = [] \<or> c = ''.'' then p else if c = ''..'' then butlast p else p @ [c])"

definition Clean :: "string \<Rightarrow> path" where
  "Clean s = foldl clean_step [] (split_char CHR ''/'' s)"

definition IsAbs :: "string \<Rightarrow> bool" where
  "IsAbs s \<longleftrightarrow> has_prefix s ''/''"

definition Abs :: "path \<Rightarrow> string \<Rightarrow> path" where
  "Abs cwd s = foldl clean_step (if IsAbs s then [] else cwd) (split_char CHR ''/'' s)"

text \<open>\<^verbatim>\<open>filepath.Rel\<close> of two absolute paths; the empty list is the dot.\<close>

fun Rel :: "path \<Rightarrow> path \<Rightarrow> path" where
  "Rel (b # bs) (t # ts) = (if b = t then Rel bs ts else replicate (Suc (length bs)) ''..'' @ t # ts)"
| "Rel [] ts = ts"
| "Rel bs [] = replicate (length bs) ''..''"

definition isWithin :: "path \<Rightarrow> path \<Rightarrow> bool \<Rightarrow> bool" where
  "isWithin root target allowRoot =
    (let rel = Rel root target
     in if rel \<noteq> [] \<and> hd rel = ''..'' then False else allowRoot \<or> rel \<noteq> [])"

definition StorageRoot :: string where
  "StorageRoot = ''./storage''"

section \<open>The file system\<close>

datatype node = Dir | File string | Link string

type_synonym file_system = "path \<Rightarrow> node option"

definition outside_error :: go_err where "outside_error = ErrText ''path is outside managed storage''"
definition ErrNotExist :: go_err where "ErrNotExist = ErrText ''file does not exist''"
definition ENOTDIR :: go_err where "ENOTDIR = ErrText ''not a directory''"

fun walk :: "file_system \<Rightarrow> nat \<Rightarrow> path \<Rightarrow> string list \<Rightarrow> go_err + path" where
  "walk fs n cur [] = Inr cur"
| "walk fs n cur (c # cs) =
    (if c = [] \<or> c = ''.'' then walk fs n cur cs
     else if c = ''..'' then walk fs n (butlast cur) cs
     else (case fs (cur @ [c]) of
         None \<Rightarrow> Inl ErrNotExist
       | Some Dir \<Rightarrow> walk fs n (cur @ [c]) cs
       | Some (File s) \<Rightarrow> if cs = [] then Inr (cur @ [c]) else Inl ENOTDIR
       | Some (Link t) \<Rightarrow>
           (case n of
              0 \<Rightarrow> Inl (ErrText ''too many links'')
            | Suc m \<Rightarrow> walk fs m (if IsAbs t then [] else cur) (split_char CHR ''/'' t @ cs))))"

definition EvalSymlinks :: "file_system \<Rightarrow> path \<Rightarrow> go_err + path" where
  "EvalSymlinks fs p = walk fs 255 [] p"

definition kernel_walk :: "file_system \<Rightarrow> path \<Rightarrow> go_err + path" where
  "kernel_walk fs p = walk fs 40 [] p"

definition node_at :: "file_system \<Rightarrow> path \<Rightarrow> node option" where
  "node_at fs p = (if p = [] then Some Dir else fs p)"

definition Stat :: "file_system \<Rightarrow> path \<Rightarrow> go_err + node" where
  "Stat fs p = (case kernel_walk fs p of Inl e \<Rightarrow> Inl e | Inr q \<Rightarrow> (case node_at fs q of None \<Rightarrow> Inl ErrNotExist | Some x \<Rightarrow> Inr x))"

text \<open>The place a path names without following a link at its end.\<close>

definition place :: "file_system \<Rightarrow> path \<Rightarrow> go_err + path" where
  "place fs p =
    (if p = [] then Inr []
     else (case kernel_walk fs (butlast p) of
         Inl e \<Rightarrow> Inl e
       | Inr d \<Rightarrow> if node_at fs d = Some Dir then Inr (d @ [last p]) else Inl ENOTDIR))"

definition Lstat :: "file_system \<Rightarrow> path \<Rightarrow> go_err + node" where
  "Lstat fs p = (case place fs p of Inl e \<Rightarrow> Inl e | Inr q \<Rightarrow> (case node_at fs q of None \<Rightarrow> Inl ErrNotExist | Some x \<Rightarrow> Inr x))"

definition Mkdir :: "file_system \<Rightarrow> path \<Rightarrow> go_err option \<times> file_system" where
  "Mkdir fs p =
    (case place fs p of
       Inl e \<Rightarrow> (Some e, fs)
     | Inr q \<Rightarrow> if node_at fs q \<noteq> None then (Some (ErrText ''file exists''), fs) else (None, fs(q \<mapsto> Dir)))"

text \<open>\<^verbatim>\<open>os.MkdirAll\<close>, on the reversed path.\<close>

fun mkdir_all_rev :: "file_system \<Rightarrow> path \<Rightarrow> go_err option \<times> file_system" where
  "mkdir_all_rev fs [] = (None, fs)"
| "mkdir_all_rev fs (c # ps) =
    (case Stat fs (rev (c # ps)) of
       Inr Dir \<Rightarrow> (None, fs)
     | Inr _ \<Rightarrow> (Some ENOTDIR, fs)
     | Inl _ \<Rightarrow>
       (case mkdir_all_rev fs ps of
          (Some e, fs') \<Rightarrow> (Some e, fs')
        | (None, fs') \<Rightarrow>
          (case Mkdir fs' (rev (c # ps)) of
             (None, fs'') \<Rightarrow> (None, fs'')
           | (Some e, fs'') \<Rightarrow> if Lstat fs'' (rev (c # ps)) = Inr Dir then (None, fs'') else (Some e, fs''))))"

definition MkdirAll :: "file_system \<Rightarrow> path \<Rightarrow> go_err option \<times> file_system" where
  "MkdirAll fs p = mkdir_all_rev fs (rev p)"

text \<open>\<^verbatim>\<open>os.WriteFile\<close> follows a link at the end; a dangling one creates its target.\<close>

fun write_place :: "file_system \<Rightarrow> nat \<Rightarrow> path \<Rightarrow> go_err + path" where
  "write_place fs n p =
    (case place fs p of
       Inl e \<Rightarrow> Inl e
     | Inr q \<Rightarrow>
       (case node_at fs q of
          Some Dir \<Rightarrow> Inl (ErrText ''is a directory'')
        | Some (Link t) \<Rightarrow>
            (case n of
               0 \<Rightarrow> Inl (ErrText ''too many links'')
             | Suc m \<Rightarrow> write_place fs m (foldl clean_step (if IsAbs t then [] else butlast q) (split_char CHR ''/'' t)))
        | _ \<Rightarrow> Inr q))"

definition os_WriteFile :: "file_system \<Rightarrow> path \<Rightarrow> string \<Rightarrow> go_err option \<times> file_system" where
  "os_WriteFile fs p content = (case write_place fs 40 p of Inl e \<Rightarrow> (Some e, fs) | Inr q \<Rightarrow> (None, fs(q \<mapsto> File content)))"

text \<open>\<^verbatim>\<open>os.Remove\<close> takes away a link, a file or an empty directory.\<close>

definition has_entries :: "file_system \<Rightarrow> path \<Rightarrow> bool" where
  "has_entries fs q \<longleftrightarrow> (\<exists>c. fs (q @ [c]) \<noteq> None)"

definition os_Remove :: "file_system \<Rightarrow> path \<Rightarrow> go_err option \<times> file_system" where
  "os_Remove fs p =
    (case place fs p of
       Inl e \<Rightarrow> (Some e, fs)
     | Inr q \<Rightarrow>
       (case node_at fs q of
          None \<Rightarrow> (Some ErrNotExist, fs)
        | Some Dir \<Rightarrow> if has_entries fs q then (Some (ErrText ''directory not empty''), fs) else (None, fs(q := None))
        | Some _ \<Rightarrow> (None, fs(q := None))))"

section \<open>Managed paths\<close>

definition managedPathUnder :: "path \<Rightarrow> string \<Rightarrow> string \<Rightarrow> bool \<Rightarrow> go_err + path" where
  "managedPathUnder cwd rootPath p allowRoot =
    (let root = Abs cwd rootPath; target = Abs cwd p in if isWithin root target allowRoot then Inr target else Inl outside_error)"

definition ManagedPath :: "path \<Rightarrow> string \<Rightarrow> go_err + path" where
  "ManagedPath cwd p = managedPathUnder cwd StorageRoot p False"

definition existing_under :: "path \<Rightarrow> file_system \<Rightarrow> string \<Rightarrow> go_err + path \<Rightarrow> bool \<Rightarrow> go_err + path" where
  "existing_under cwd fs rootPath managed allowRoot =
    (case managed of
       Inl e \<Rightarrow> Inl e
     | Inr clean \<Rightarrow>
       (case EvalSymlinks fs clean of
          Inl e \<Rightarrow> Inl e
        | Inr resolved \<Rightarrow>
          (case EvalSymlinks fs (Abs cwd rootPath) of
             Inl e \<Rightarrow> Inl e
           | Inr resolvedRoot \<Rightarrow> if isWithin resolvedRoot resolved allowRoot then Inr resolved else Inl outside_error)))"

definition existingPathUnder :: "path \<Rightarrow> file_system \<Rightarrow> string \<Rightarrow> string \<Rightarrow> bool \<Rightarrow> go_err + path" where
  "existingPathUnder cwd fs rootPath p allowRoot = existing_under cwd fs rootPath (managedPathUnder cwd rootPath p allowRoot) allowRoot"

definition ExistingPath :: "path \<Rightarrow> file_system \<Rightarrow> string \<Rightarrow> go_err + path" where
  "ExistingPath cwd fs p = existingPathUnder cwd fs StorageRoot p False"

text \<open>The same for the directory of an absolute path, which is clean already.\<close>

definition existing_parent :: "path \<Rightarrow> file_system \<Rightarrow> string \<Rightarrow> path \<Rightarrow> go_err + path" where
  "existing_parent cwd fs rootPath clean =
    (let dir = butlast clean
     in existing_under cwd fs rootPath (if isWithin (Abs cwd rootPath) dir True then Inr dir else Inl outside_error) True)"

definition writeFileUnder :: "path \<Rightarrow> string \<Rightarrow> string \<Rightarrow> string \<Rightarrow> file_system \<Rightarrow> go_err option \<times> file_system" where
  "writeFileUnder cwd rootPath p content fs =
    (case managedPathUnder cwd rootPath p False of
       Inl e \<Rightarrow> (Some e, fs)
     | Inr clean \<Rightarrow>
       (case MkdirAll fs (butlast clean) of
          (Some e, fs1) \<Rightarrow> (Some e, fs1)
        | (None, fs1) \<Rightarrow>
          (case existing_parent cwd fs1 rootPath clean of
             Inl e \<Rightarrow> (Some e, fs1)
           | Inr parent \<Rightarrow>
               if \<not> isWithin parent clean False then (Some outside_error, fs1)
               else (case Lstat fs1 clean of
                   Inr (Link t) \<Rightarrow> (Some (ErrText ''refuse to write through symlink''), fs1)
                 | Inr _ \<Rightarrow> os_WriteFile fs1 clean content
                 | Inl e \<Rightarrow> if e \<noteq> ErrNotExist then (Some e, fs1) else os_WriteFile fs1 clean content))))"

definition policy_WriteFile :: "path \<Rightarrow> string \<Rightarrow> string \<Rightarrow> file_system \<Rightarrow> go_err option \<times> file_system" where
  "policy_WriteFile cwd p content fs = writeFileUnder cwd StorageRoot p content fs"

definition policy_Remove :: "path \<Rightarrow> string \<Rightarrow> file_system \<Rightarrow> go_err option \<times> file_system" where
  "policy_Remove cwd p fs =
    (case ManagedPath cwd p of
       Inl e \<Rightarrow> (Some e, fs)
     | Inr clean \<Rightarrow>
       (case Lstat fs clean of
          Inl e \<Rightarrow> (Some e, fs)
        | Inr _ \<Rightarrow>
          (case existing_parent cwd fs StorageRoot clean of
             Inl e \<Rightarrow> (Some e, fs)
           | Inr parent \<Rightarrow> if \<not> isWithin parent clean False then (Some outside_error, fs) else os_Remove fs clean)))"

section \<open>What lies within\<close>

lemma Rel_prefix: "Rel root (root @ rest) = rest"
  by (induction root) auto

lemma Rel_dots: "\<not> (\<exists>rest. target = root @ rest) \<Longrightarrow> Rel root target \<noteq> [] \<and> hd (Rel root target) = ''..''"
  by (induction root target rule: Rel.induct) auto

text \<open>
  A clean path lies within a root exactly when it is the root followed by names (at least one, unless the
  root itself is allowed), whatever the names are.
\<close>

theorem isWithin_iff:
  assumes "list_all (\<lambda>c. c \<noteq> ''..'') target"
  shows "isWithin root target allowRoot \<longleftrightarrow> (\<exists>rest. target = root @ rest \<and> (allowRoot \<or> rest \<noteq> []))"
proof (cases "\<exists>rest. target = root @ rest")
  case True
  then obtain rest where "target = root @ rest" by blast
  moreover from this have "rest = [] \<or> hd rest \<noteq> ''..''" using assms by (cases rest) auto
  ultimately show ?thesis by (auto simp: isWithin_def Rel_prefix Let_def)
next
  case False
  then show ?thesis using Rel_dots[of target root] by (auto simp: isWithin_def Let_def)
qed


lemma isWithin_prefix: "isWithin root target allowRoot \<Longrightarrow> \<exists>rest. target = root @ rest \<and> (allowRoot \<or> rest \<noteq> [])"
proof -
  assume w: "isWithin root target allowRoot"
  then have "\<exists>rest. target = root @ rest" using Rel_dots[of target root] by (auto simp: isWithin_def Let_def split: if_splits)
  then show ?thesis using w Rel_prefix[of root "[]"] by (auto simp: isWithin_def Rel_prefix Let_def)
qed

lemma existing_under_Inr:
  assumes "existing_under cwd fs rootPath managed allowRoot = Inr q"
  obtains clean root rest where "managed = Inr clean" "EvalSymlinks fs clean = Inr q" "EvalSymlinks fs (Abs cwd rootPath) = Inr root"
    "q = root @ rest" "allowRoot \<or> rest \<noteq> []"
proof -
  obtain clean root where c: "managed = Inr clean" "EvalSymlinks fs clean = Inr q" "EvalSymlinks fs (Abs cwd rootPath) = Inr root"
      "isWithin root q allowRoot"
    using assms by (auto simp: existing_under_def split: sum.splits if_splits)
  from isWithin_prefix[OF c(4)] show thesis using that c by blast
qed

lemma existing_parent_Inr:
  assumes "existing_parent cwd fs rootPath clean = Inr parent"
  obtains root rest where "EvalSymlinks fs (butlast clean) = Inr parent" "EvalSymlinks fs (Abs cwd rootPath) = Inr root" "parent = root @ rest"
proof -
  define m where "m = (if isWithin (Abs cwd rootPath) (butlast clean) True then Inr (butlast clean) else Inl outside_error)"
  have "existing_under cwd fs rootPath m True = Inr parent" using assms by (simp add: existing_parent_def m_def Let_def)
  then show thesis
  proof (rule existing_under_Inr)
    fix c root rest
    assume a: "m = Inr c" "EvalSymlinks fs c = Inr parent" "EvalSymlinks fs (Abs cwd rootPath) = Inr root" "parent = root @ rest"
    then have "c = butlast clean" by (auto simp: m_def split: if_splits)
    with a show thesis using that by blast
  qed
qed

section \<open>What the operations may change\<close>

text \<open>Between two file systems nothing changed but that directories are new.\<close>

definition only_new_dirs :: "file_system \<Rightarrow> file_system \<Rightarrow> bool" where
  "only_new_dirs fs fs' \<longleftrightarrow> (\<forall>q. fs' q \<noteq> fs q \<longrightarrow> fs q = None \<and> fs' q = Some Dir)"

lemma only_new_dirs_refl [simp]: "only_new_dirs fs fs"
  by (simp add: only_new_dirs_def)

lemma only_new_dirs_trans: "only_new_dirs a b \<Longrightarrow> only_new_dirs b c \<Longrightarrow> only_new_dirs a c"
  unfolding only_new_dirs_def by metis

lemma Mkdir_new: "Mkdir fs p = (r, fs') \<Longrightarrow> only_new_dirs fs fs'"
  by (auto simp: Mkdir_def only_new_dirs_def node_at_def split: sum.splits if_splits)

lemma mkdir_all_rev_new: "mkdir_all_rev fs ps = (r, fs') \<Longrightarrow> only_new_dirs fs fs'"
proof (induction ps arbitrary: r fs')
  case (Cons c ps)
  show ?case
  proof (cases "Stat fs (rev (c # ps))")
    case (Inr x)
    then show ?thesis using Cons.prems by (cases x) auto
  next
    case (Inl e)
    obtain r1 fs1 where m: "mkdir_all_rev fs ps = (r1, fs1)" by fastforce
    obtain r2 fs2 where d: "Mkdir fs1 (rev (c # ps)) = (r2, fs2)" by fastforce
    have "fs' = fs1 \<or> fs' = fs2" using Cons.prems Inl m d by (auto split: option.splits if_splits)
    then show ?thesis using Cons.IH[OF m] Mkdir_new[OF d] only_new_dirs_trans by blast
  qed
qed simp

lemma MkdirAll_new: "MkdirAll fs p = (r, fs') \<Longrightarrow> only_new_dirs fs fs'"
  unfolding MkdirAll_def by (rule mkdir_all_rev_new)

lemma walk_more: "walk fs n cur cs = Inr q \<Longrightarrow> n \<le> m \<Longrightarrow> walk fs m cur cs = Inr q"
proof (induction fs n cur cs arbitrary: m rule: walk.induct)
  case (2 fs n cur c cs)
  show ?case
  proof (cases "c = [] \<or> c = ''.'' \<or> c = ''..''")
    case True
    then show ?thesis using 2(1,2)[of m] 2(5,6) by auto
  next
    case False
    then obtain x where x: "fs (cur @ [c]) = Some x" using 2(5) by (cases "fs (cur @ [c])") simp_all
    show ?thesis
    proof (cases x)
      case Dir
      then show ?thesis using False x 2(3)[of x m] 2(5,6) by simp
    next
      case (File t)
      then show ?thesis using False x 2(5) by (simp split: if_splits)
    next
      case (Link t)
      then obtain k j where "n = Suc k" "m = Suc j" "k \<le> j"
        using False x 2(5,6) by (cases n; cases m) simp_all
      then show ?thesis using False x Link 2(4)[of x t k j] 2(5,6) by simp
    qed
  qed
qed simp

lemma kernel_walk_eval: "kernel_walk fs p = Inr q \<Longrightarrow> EvalSymlinks fs p = Inr q"
  by (auto simp: kernel_walk_def EvalSymlinks_def intro: walk_more)

lemma place_parent:
  assumes "EvalSymlinks fs (butlast clean) = Inr parent" "clean \<noteq> []" "place fs clean = Inr q"
  shows "q = parent @ [last clean]"
  using assms by (auto simp: place_def split: if_splits sum.splits dest: kernel_walk_eval)

lemma write_place_no_link:
  "write_place fs n p = Inr q \<Longrightarrow> \<forall>t. Lstat fs p \<noteq> Inr (Link t) \<Longrightarrow> place fs p = Inr q"
  by (cases n) (auto simp: Lstat_def split: sum.splits option.splits node.splits)

lemma isWithin_not_Nil: "isWithin root target False \<Longrightarrow> target \<noteq> []"
  using isWithin_prefix[of root target False] by auto

lemma write_checked:
  assumes "writeFileUnder cwd rootPath p content fs = (r, fs')" "managedPathUnder cwd rootPath p False = Inr clean"
    "MkdirAll fs (butlast clean) = (None, fs1)"
  shows "(\<exists>parent q. existing_parent cwd fs1 rootPath clean = Inr parent \<and> isWithin parent clean False \<and> (\<forall>t. Lstat fs1 clean \<noteq> Inr (Link t)) \<and>
      write_place fs1 40 clean = Inr q \<and> r = None \<and> fs' = fs1(q \<mapsto> File content)) \<or> fs' = fs1 \<and> r \<noteq> None"
proof -
  have w: "(case existing_parent cwd fs1 rootPath clean of
        Inl e \<Rightarrow> (Some e, fs1)
      | Inr parent \<Rightarrow>
          if \<not> isWithin parent clean False then (Some outside_error, fs1)
          else (case Lstat fs1 clean of
              Inr (Link t) \<Rightarrow> (Some (ErrText ''refuse to write through symlink''), fs1)
            | Inr _ \<Rightarrow> os_WriteFile fs1 clean content
            | Inl e \<Rightarrow> if e \<noteq> ErrNotExist then (Some e, fs1) else os_WriteFile fs1 clean content)) = (r, fs')"
    using assms by (simp add: writeFileUnder_def)
  show ?thesis
  proof (cases "existing_parent cwd fs1 rootPath clean")
    case (Inl e)
    then show ?thesis using w by auto
  next
    case (Inr parent)
    show ?thesis
    proof (cases "isWithin parent clean False \<and> (\<forall>t. Lstat fs1 clean \<noteq> Inr (Link t)) \<and> os_WriteFile fs1 clean content = (r, fs')")
      case True
      show ?thesis
      proof (cases "write_place fs1 40 clean")
        case (Inl e)
        then show ?thesis using True by (auto simp: os_WriteFile_def)
      next
        case (Inr q)
        then have "r = None \<and> fs' = fs1(q \<mapsto> File content)" using True by (auto simp: os_WriteFile_def)
        then show ?thesis using True Inr \<open>existing_parent cwd fs1 rootPath clean = Inr parent\<close> by blast
      qed
    next
      case False
      then show ?thesis using w Inr by (cases "Lstat fs1 clean") (auto split: if_splits node.splits)
    qed
  qed
qed

text \<open>
  C39.
  Writing a managed file changes at most one thing beside new directories: a file at a place below the
  root of the storage, links resolved, which was not a link itself; it then holds the content.
\<close>

theorem managed_write_contained:
  assumes "writeFileUnder cwd rootPath p content fs = (r, fs')"
  shows "\<exists>fs1. only_new_dirs fs fs1 \<and>
    (if r = None
     then \<exists>root rest. EvalSymlinks fs1 (Abs cwd rootPath) = Inr root \<and> rest \<noteq> [] \<and> (\<forall>t. fs1 (root @ rest) \<noteq> Some (Link t)) \<and>
       fs' = fs1(root @ rest \<mapsto> File content)
     else fs' = fs1)"
proof (cases "managedPathUnder cwd rootPath p False")
  case (Inl e)
  then have "r = Some e" "fs' = fs" using assms by (auto simp: writeFileUnder_def)
  then show ?thesis using only_new_dirs_refl[of fs] by auto
next
  case (Inr clean)
  obtain r1 fs1 where m: "MkdirAll fs (butlast clean) = (r1, fs1)" by fastforce
  note new = MkdirAll_new[OF m]
  show ?thesis
  proof (cases r1)
    case (Some e)
    then have "r = Some e" "fs' = fs1" using assms by (simp_all add: writeFileUnder_def Inr m)
    then show ?thesis using new by auto
  next
    case None
    from write_checked[OF assms Inr m[unfolded None]] show ?thesis
    proof (elim disjE exE conjE)
      fix parent q
      assume pa: "existing_parent cwd fs1 rootPath clean = Inr parent" "isWithin parent clean False" "\<forall>t. Lstat fs1 clean \<noteq> Inr (Link t)"
        and q: "write_place fs1 40 clean = Inr q" "r = None" "fs' = fs1(q \<mapsto> File content)"
      obtain root rest where pr: "EvalSymlinks fs1 (butlast clean) = Inr parent" "EvalSymlinks fs1 (Abs cwd rootPath) = Inr root" "parent = root @ rest"
        using existing_parent_Inr[OF pa(1)] by blast
      have pl: "place fs1 clean = Inr q" by (rule write_place_no_link[OF q(1) pa(3)])
      have qe: "q = root @ rest @ [last clean]" using place_parent[OF pr(1) isWithin_not_Nil[OF pa(2)] pl] pr(3) by simp
      moreover have "fs1 q \<noteq> Some (Link t)" for t
        using pa(3) pl qe by (auto simp: Lstat_def node_at_def split: option.splits)
      ultimately have "EvalSymlinks fs1 (Abs cwd rootPath) = Inr root \<and> rest @ [last clean] \<noteq> [] \<and>
          (\<forall>t. fs1 (root @ rest @ [last clean]) \<noteq> Some (Link t)) \<and> fs' = fs1(root @ rest @ [last clean] \<mapsto> File content)"
        using pr(2) q(3) by simp
      with new q(2) show ?thesis by (simp only: if_True simp_thms) blast
    next
      assume "fs' = fs1" "r \<noteq> None"
      then show ?thesis using new by auto
    qed
  qed
qed

text \<open>
  C40.
  Removing a managed file takes away at most one node, below the root of the storage with links resolved,
  and a file that is opened for reading lies there too.
\<close>

theorem managed_remove_contained:
  "(policy_Remove cwd p fs = (r, fs') \<longrightarrow> fs' = fs \<or>
     (\<exists>root rest. EvalSymlinks fs (Abs cwd StorageRoot) = Inr root \<and> rest \<noteq> [] \<and> fs' = fs(root @ rest := None))) \<and>
   (ExistingPath cwd fs p = Inr q \<longrightarrow>
     (\<exists>root rest. EvalSymlinks fs (Abs cwd StorageRoot) = Inr root \<and> q = root @ rest \<and> rest \<noteq> [] \<and> EvalSymlinks fs (Abs cwd p) = Inr q))"
proof (intro conjI impI)
  assume a: "policy_Remove cwd p fs = (r, fs')"
  show "fs' = fs \<or> (\<exists>root rest. EvalSymlinks fs (Abs cwd StorageRoot) = Inr root \<and> rest \<noteq> [] \<and> fs' = fs(root @ rest := None))"
  proof (cases "fs' = fs")
    case False
    obtain clean parent where c: "existing_parent cwd fs StorageRoot clean = Inr parent" "isWithin parent clean False" "os_Remove fs clean = (r, fs')"
      using a False by (auto simp: policy_Remove_def split: sum.splits if_splits)
    obtain root rest where pr: "EvalSymlinks fs (butlast clean) = Inr parent" "EvalSymlinks fs (Abs cwd StorageRoot) = Inr root" "parent = root @ rest"
      using existing_parent_Inr[OF c(1)] by blast
    obtain q where q: "place fs clean = Inr q" "fs' = fs(q := None)"
      using c(3) False by (auto simp: os_Remove_def split: sum.splits option.splits node.splits if_splits)
    have "q = root @ rest @ [last clean]" using place_parent[OF pr(1) isWithin_not_Nil[OF c(2)] q(1)] pr(3) by simp
    then show ?thesis using pr(2) q(2) by blast
  qed simp
next
  assume "ExistingPath cwd fs p = Inr q"
  then have "existing_under cwd fs StorageRoot (managedPathUnder cwd StorageRoot p False) False = Inr q"
    by (simp add: ExistingPath_def existingPathUnder_def)
  then show "\<exists>root rest. EvalSymlinks fs (Abs cwd StorageRoot) = Inr root \<and> q = root @ rest \<and> rest \<noteq> [] \<and> EvalSymlinks fs (Abs cwd p) = Inr q"
  proof (rule existing_under_Inr)
    fix clean root rest
    assume "managedPathUnder cwd StorageRoot p False = Inr clean" "EvalSymlinks fs clean = Inr q" "EvalSymlinks fs (Abs cwd StorageRoot) = Inr root"
      "q = root @ rest" "False \<or> rest \<noteq> []"
    then show ?thesis by (auto simp: managedPathUnder_def Let_def split: if_splits)
  qed
qed

section \<open>Examples\<close>

text \<open>A storage with a link that leads out of it.\<close>

definition linked_storage :: file_system where
  "linked_storage = [[''app''] \<mapsto> Dir, [''app'', ''storage''] \<mapsto> Dir, [''app'', ''storage'', ''link''] \<mapsto> Link ''/out'', [''out''] \<mapsto> Dir]"

lemmas path_eval = Abs_def IsAbs_def clean_step_def StorageRoot_def isWithin_def EvalSymlinks_def kernel_walk_def place_def node_at_def Lstat_def Stat_def

lemma managed_write_contained_witness:
  "\<exists>fs'. writeFileUnder [''app''] ''./storage'' ''storage/a/f'' ''x'' linked_storage = (None, fs') \<and>
    fs' [''app'', ''storage'', ''a'', ''f''] = Some (File ''x'') \<and> (\<exists>fs1. only_new_dirs linked_storage fs1)"
proof -
  obtain fs' where w: "writeFileUnder [''app''] ''./storage'' ''storage/a/f'' ''x'' linked_storage = (None, fs')"
      "fs' [''app'', ''storage'', ''a'', ''f''] = Some (File ''x'')"
    by (simp add: writeFileUnder_def managedPathUnder_def existing_parent_def existing_under_def MkdirAll_def Mkdir_def os_WriteFile_def linked_storage_def
        path_eval numeral_eq_Suc)
  then show ?thesis using managed_write_contained[OF w(1)] by auto
qed

lemma managed_remove_contained_witness:
  "\<exists>fs'. policy_Remove [''app''] ''storage/link'' linked_storage = (None, fs') \<and> fs' [''app'', ''storage'', ''link''] = None \<and> fs' [''out''] = Some Dir"
proof -
  obtain fs' where w: "policy_Remove [''app''] ''storage/link'' linked_storage = (None, fs')" "fs' [''app'', ''storage'', ''link''] = None"
    by (simp add: policy_Remove_def ManagedPath_def managedPathUnder_def existing_parent_def existing_under_def os_Remove_def linked_storage_def
        path_eval numeral_eq_Suc)
  have "EvalSymlinks linked_storage (Abs [''app''] StorageRoot) = Inr [''app'', ''storage'']"
    by (simp add: path_eval linked_storage_def numeral_eq_Suc)
  then obtain rest where "fs' = linked_storage \<or> fs' = linked_storage([''app'', ''storage''] @ rest := None)"
    using managed_remove_contained[of "[''app'']" "''storage/link''" linked_storage None fs'] w(1) by auto
  then have "fs' [''out''] = Some Dir" by (auto simp: linked_storage_def)
  with w show ?thesis by blast
qed

text \<open>
  The directories above a file are made before the path is checked: a refused write has made a directory
  behind the link, outside the storage.
\<close>

lemma refused_write_makes_directory:
  "\<exists>fs'. writeFileUnder [''app''] ''./storage'' ''storage/link/new/f'' ''x'' linked_storage = (Some outside_error, fs') \<and>
    linked_storage [''out'', ''new''] = None \<and> fs' [''out'', ''new''] = Some Dir"
  by (simp add: writeFileUnder_def managedPathUnder_def existing_parent_def existing_under_def MkdirAll_def Mkdir_def linked_storage_def
      path_eval numeral_eq_Suc)

text \<open>Where the storage itself is a link, files are read through it but none is written.\<close>

definition storage_is_link :: file_system where
  "storage_is_link = [[''app''] \<mapsto> Dir, [''app'', ''storage''] \<mapsto> Link ''/data'', [''data''] \<mapsto> Dir, [''data'', ''g''] \<mapsto> File ''y'']"

lemma linked_root_reads_but_never_writes:
  "ExistingPath [''app''] storage_is_link ''storage/g'' = Inr [''data'', ''g'']"
  "writeFileUnder [''app''] ''./storage'' ''storage/f'' ''x'' storage_is_link = (Some outside_error, storage_is_link)"
  "policy_Remove [''app''] ''storage/g'' storage_is_link = (Some outside_error, storage_is_link)"
  by (simp_all add: ExistingPath_def existingPathUnder_def writeFileUnder_def policy_Remove_def ManagedPath_def managedPathUnder_def existing_parent_def
      existing_under_def MkdirAll_def storage_is_link_def path_eval numeral_eq_Suc)

end
