(* ===== verification/Spec2Isabelle.thy ===== *)
theory Spec2Isabelle
  imports ThinkSplit RateLimiter RunPersist ToolLedger FileLifecycle AgentContext MemoryTool NetPolicy PathPolicy
begin

text \<open>
  Verification library of the EffChat backend (\<^verbatim>\<open>src/backend/internal\<close>).

  \<^bold>\<open>The program.\<close>  EffChat is a chat server.  A client posts a message; the server
  reserves a run against the quota of its user and stores the message, the run and an answer attempt in
  one transaction (\<^verbatim>\<open>repository/chat_run_admission_repository.go\<close>); a worker
  streams the answer of a model, splits the thinking from it, executes tool calls under a token budget
  and records events in an in-memory hub (\<^verbatim>\<open>service/run_hub.go\<close>) that any number
  of clients follow and replay; at the end the terminal of the run is frozen, stored in the database
  with its messages, and published (\<^verbatim>\<open>service/run_terminal.go\<close>).  A user may
  cancel, retry or edit, choose between answers, compact a long history into a summary and undo that,
  and attach files, which go through OCR and are cleaned up later.

  \<^bold>\<open>Shared ground.\<close>
    \<^item> \<open>GoBase\<close> is the prelude: byte strings, the package \<^verbatim>\<open>strings\<close>,
      Unicode white space, list and map lemmas, the collections of hints.
    \<^item> \<open>Errors\<close>: error values as a datatype with \<^verbatim>\<open>errors.Is\<close> as \<open>err_is\<close>.
    \<^item> \<open>GoJson\<close>, \<open>JsonDecode\<close>: documents, the validity test of
      \<^verbatim>\<open>encoding/json\<close> with fuel (the length of the input is enough), decoding into the
      fields the program reads.
    \<^item> \<open>MessageData\<close>: rows of \<^verbatim>\<open>messages\<close> with the generated columns
      of \<^verbatim>\<open>migrations/init.sql\<close> and the \<^verbatim>\<open>jsonb\<close> operators behind them.

  \<^bold>\<open>Components.\<close>  Every theory follows the order of its source.
    \<^item> \<open>ThinkSplit\<close> (\<^verbatim>\<open>agent/think_split.go\<close>): the splitter of inline
      thinking, on chunks and on whole texts.  The splitter is shown equal to the whole-text function
      for every chunking; the loop terminates on the length of its buffer.
    \<^item> \<open>Modelstream\<close> (\<^verbatim>\<open>modelstream\<close>): gates of the first output,
      their chains of contexts, and the loop that collects a stream.  No gate both fires and observes.
    \<^item> \<open>RateLimiter\<close> (\<^verbatim>\<open>handler/auth_rate_limiter.go\<close>): failures
      per key, the lock-out and the bound on the tracked keys.
    \<^item> \<open>RunEvents\<close> (\<^verbatim>\<open>service/run_hub.go\<close>): what one event does to the
      cached output of a run, and the event log with its byte limit.  The replay after a cursor is
      complete, the cached texts are honest about what was trimmed.
    \<^item> \<open>RunHub\<close>, \<open>RunTerminal\<close>, \<open>RunProtocol\<close>: the hub as a
      record, the operations of \<^verbatim>\<open>run_hub.go\<close> and \<^verbatim>\<open>run_terminal.go\<close>
      as functions, each the work done under one hold of the lock, and \<open>cfg_step\<close>, the relation in
      which any number of workers, cancellations, restores and clean-ups interleave.  The calls an
      operation makes on contexts after it released the lock are due in the state and made by steps of
      their own.  The invariants hold in every reachable configuration.
    \<^item> \<open>RunStore\<close> (\<^verbatim>\<open>repository/chat_run_repository.go\<close> and the
      reservation of \<^verbatim>\<open>chat_run_admission_repository.go\<close>): the tables as lists of rows,
      a transaction as a function with a \<open>db_fault\<close> (none, before the commit, or a commit whose
      reply is lost).
    \<^item> \<open>RunPersist\<close>: the loop that stores a terminal, over the locale of a store, which is
      interpreted on \<open>RunStore\<close>; its fuel is the bound on the attempts, which the source has no
      other limit for than its context.
    \<^item> \<open>AnswerAttempts\<close> (\<^verbatim>\<open>repository/answer_attempt_repository.go\<close>):
      the answers of a user message and the one that is selected.
    \<^item> \<open>ToolBudget\<close>, \<open>ToolLedger\<close> (\<^verbatim>\<open>agent/tool_budget.go\<close>):
      grants of context to tool calls; \<open>ledger_step\<close> interleaves parallel calls.  The token
      estimate is a parameter, of which the binary search assumes monotonicity.
    \<^item> \<open>FileStore\<close>, \<open>FileLifecycle\<close> (\<^verbatim>\<open>repository/file_repository.go\<close>):
      attachments and the leases of OCR workers.  The steps of \<open>FileLifecycle\<close> include the
      reservation of an OCR submission, which \<open>Quota\<close> makes under the generation of the lease.
    \<^item> \<open>Quota\<close> (\<^verbatim>\<open>repository/quota_repository.go\<close>,
      \<^verbatim>\<open>service/quota_service.go\<close>): what a user may still do today.
    \<^item> \<open>MessageStore\<close>, \<open>MessageHistory\<close>, \<open>Checkpoints\<close>
      (\<^verbatim>\<open>repository/message_repository.go\<close>): writing, reading and compacting the
      conversation.
    \<^item> \<open>Admission\<close> (\<^verbatim>\<open>repository/chat_run_admission_repository.go\<close>):
      the transactions that start a run.
    \<^item> \<open>UserMessage\<close>, \<open>AgentContext\<close> (\<^verbatim>\<open>service/message_service.go\<close>):
      the messages the service writes, and the conversation it gives to the agent, to the memory
      maintenance and to the browser.  The service and the repository are shown to agree on
      attachments and edited messages.
    \<^item> \<open>GoRegexp\<close>: the package \<^verbatim>\<open>regexp\<close> as a matcher with leftmost-first
      priority over a datatype of expressions, with the lemmas that show where no match can be.
    \<^item> \<open>MemoryDocument\<close> (\<^verbatim>\<open>memory/document.go\<close>): the memory card of a session, its
      text, its limits and the credentials it must not hold.  A card of clean items is read back as written.
    \<^item> \<open>SessionMemory\<close> (\<^verbatim>\<open>repository/session_memory_repository.go\<close>,
      \<^verbatim>\<open>memory_maintenance_run_repository.go\<close>, \<^verbatim>\<open>model_task_run_repository.go\<close>):
      the stored card with its history, undo, the task runs, and the commit that ends a maintenance run.
    \<^item> \<open>MemoryMaintenance\<close> (\<^verbatim>\<open>agent/memory_maintenance.go\<close>) and
      \<open>MemoryTool\<close> (\<^verbatim>\<open>tool/memory.go\<close>): the two writers of the card, a model that
      rewrites it and a tool that edits it.  Both only write over the card they have seen; the save
      writes the card once more before it stores it.
    \<^item> \<open>NetPolicy\<close> (\<^verbatim>\<open>netpolicy/public_http.go\<close>, \<^verbatim>\<open>tool/ssrf_guard.go\<close>,
      \<^verbatim>\<open>tool/basic_dns.go\<close>, \<^verbatim>\<open>service/skill_git_transport.go\<close>): the addresses
      the server may connect to; the byte tests are shown to be ranges of numbers.
    \<^item> \<open>PathPolicy\<close> (\<^verbatim>\<open>filepolicy/managed_path.go\<close>): the paths the server may
      write, over a file system with symbolic links.

  \<^bold>\<open>Reading the model.\<close>  A table is a list of records in the order of insertion, a
  query is a filter (and a sort where the statement orders), an update maps over the rows, and a row
  lock is the atomicity of a transaction, which the model has as one function.  Time is an argument;
  times and ids are \<open>int\<close>.  A string is the list of its bytes.  Integers of the program
  that only count or compare are \<open>int\<close>: the quantities are bounded far below 64 bits.

  \<^bold>\<open>Not modelled.\<close>  The HTTP handlers and the stream to the browser, the agent framework
  and the model providers, searching and extracting the web, skills with their git transport, usage reports, administration of
  users, groups and channels, the front end and the extractor in Python.  They are input and output
  over packages whose code is not in the repository.  Logging is left out everywhere.
\<close>

end
